(* ===== verification/Prelude.thy ===== *)
theory Prelude
  imports Main "HOL-Library.Word"
begin

text \<open>
  Shared vocabulary of the development: the fixed-width integer types of the C sources,
  splitting a 16-bit value into its two bytes, single-bit flags of a byte, sequential
  search and update of arrays, and the fact collections the component theories fill.
\<close>

unbundle bit_operations_syntax

section \<open>Integer types\<close>

text \<open>
  \<open>uint8\<close>, \<open>uint16\<close> and \<open>uint32\<close> are the unsigned integer types of the sources; arithmetic
  on them wraps around, as assignment back to the C type does.
\<close>

type_synonym uint8 = "8 word"
type_synonym uint16 = "16 word"
type_synonym uint32 = "32 word"

section \<open>Fact collections\<close>

named_theorems cpu_defs \<open>definitions of the processor's helper routines\<close>
named_theorems flag_bits \<open>bits of the status register after an update\<close>
named_theorems bus_defs \<open>definitions of the memory bus and its devices\<close>
named_theorems kernel_defs \<open>definitions of the kernel's small helpers\<close>

section \<open>Bytes of a 16-bit value\<close>

text \<open>
  \<open>lo_byte\<close>, \<open>hi_byte\<close> and \<open>mk_word\<close> are the C idioms \<^verbatim>\<open>w & 0xFF\<close>, \<^verbatim>\<open>(w >> 8) & 0xFF\<close> and
  \<^verbatim>\<open>(hi << 8) | lo\<close>.
\<close>

definition lo_byte :: "uint16 \<Rightarrow> uint8" where
  "lo_byte w = ucast (w AND 0xFF)"

definition hi_byte :: "uint16 \<Rightarrow> uint8" where
  "hi_byte w = ucast (drop_bit 8 w AND 0xFF)"

definition mk_word :: "uint8 \<Rightarrow> uint8 \<Rightarrow> uint16" where
  "mk_word hi lo = push_bit 8 (ucast hi) OR ucast lo"

lemma mask8: "(0xFF :: 'a::len word) = mask 8"
  by (simp add: mask_eq_exp_minus_1)

lemma lo_byte_ucast: "lo_byte w = ucast w"
  unfolding lo_byte_def by (rule bit_word_eqI) (simp add: bit_simps mask8)

lemma hi_byte_ucast: "hi_byte w = ucast (drop_bit 8 w)"
  unfolding hi_byte_def by (rule bit_word_eqI) (simp add: bit_simps mask8)

lemma bit_mk_word:
  "bit (mk_word hi lo) n \<longleftrightarrow> (if n < 8 then bit lo n else n < 16 \<and> bit hi (n - 8))"
  by (auto simp: mk_word_def bit_simps dest: bit_imp_le_length)

lemma mk_word_bytes [simp]: "mk_word (hi_byte w) (lo_byte w) = w"
  by (rule bit_word_eqI) (auto simp: bit_mk_word lo_byte_ucast hi_byte_ucast bit_simps)

lemma lo_byte_mk_word [simp]: "lo_byte (mk_word hi lo) = lo"
  by (rule bit_word_eqI) (simp add: lo_byte_ucast bit_mk_word bit_simps)

lemma hi_byte_mk_word [simp]: "hi_byte (mk_word hi lo) = hi"
  by (rule bit_word_eqI) (simp add: hi_byte_ucast bit_mk_word bit_simps)

lemma unat_byte: "unat (w :: uint8) < 256"
  using unsigned_less [of w, where ?'a = nat] by simp

lemma unat_mk_word: "unat (mk_word hi lo) = 256 * unat hi + unat lo"
proof -
  have "push_bit 8 (ucast hi :: uint16) AND ucast lo = 0"
    by (rule bit_word_eqI) (auto simp: bit_simps dest: bit_imp_le_length)
  then have "mk_word hi lo = push_bit 8 (ucast hi) + ucast lo"
    by (simp add: mk_word_def disjunctive_add_eq_or)
  also have "\<dots> = of_nat (256 * unat hi + unat lo)"
    by (simp add: push_bit_eq_mult)
  finally have "unat (mk_word hi lo) = (256 * unat hi + unat lo) mod 2 ^ 16"
    by (simp only: unsigned_of_nat take_bit_eq_mod) simp
  then show ?thesis
    using unat_byte [of hi] unat_byte [of lo] by simp
qed

section \<open>Single bits of a byte\<close>

lemma and_flag_eq_0:
  "(w :: uint8) AND 0x80 = 0 \<longleftrightarrow> \<not> bit w 7"
  "w AND 0x40 = 0 \<longleftrightarrow> \<not> bit w 6"
  "w AND 0x10 = 0 \<longleftrightarrow> \<not> bit w 4"
  "w AND 0x08 = 0 \<longleftrightarrow> \<not> bit w 3"
  "w AND 0x04 = 0 \<longleftrightarrow> \<not> bit w 2"
  "w AND 0x02 = 0 \<longleftrightarrow> \<not> bit w 1"
  "w AND 0x01 = 0 \<longleftrightarrow> \<not> bit w 0"
  using and_exp_eq_0_iff_not_bit [of w 7] and_exp_eq_0_iff_not_bit [of w 6]
    and_exp_eq_0_iff_not_bit [of w 4] and_exp_eq_0_iff_not_bit [of w 3]
    and_exp_eq_0_iff_not_bit [of w 2] and_exp_eq_0_iff_not_bit [of w 1]
    and_exp_eq_0_iff_not_bit [of w 0]
  by simp_all

text \<open>
  The simplifier reads the bits of a numeral byte off the integer numeral; so do these rules.
\<close>

lemma bit_flag_int:
  "bit (0x80 :: int) n \<longleftrightarrow> n = 7"
  "bit (0x40 :: int) n \<longleftrightarrow> n = 6"
  "bit (0x20 :: int) n \<longleftrightarrow> n = 5"
  "bit (0x10 :: int) n \<longleftrightarrow> n = 4"
  "bit (0x08 :: int) n \<longleftrightarrow> n = 3"
  "bit (0x04 :: int) n \<longleftrightarrow> n = 2"
  "bit (0x02 :: int) n \<longleftrightarrow> n = 1"
  "bit (0x30 :: int) n \<longleftrightarrow> n = 4 \<or> n = 5"
  subgoal using bit_exp_iff [of 7 n, where 'a = int] by auto
  subgoal using bit_exp_iff [of 6 n, where 'a = int] by auto
  subgoal using bit_exp_iff [of 5 n, where 'a = int] by auto
  subgoal using bit_exp_iff [of 4 n, where 'a = int] by auto
  subgoal using bit_exp_iff [of 3 n, where 'a = int] by auto
  subgoal using bit_exp_iff [of 2 n, where 'a = int] by auto
  subgoal using bit_exp_iff [of 1 n, where 'a = int] by auto
  subgoal
  proof -
    have "bit (2 ^ 4 OR 2 ^ 5 :: int) n \<longleftrightarrow> n = 4 \<or> n = 5"
      by (simp only: bit_or_iff bit_exp_iff) auto
    then show ?thesis by simp
  qed
  done

lemma bit_flag:
  "bit (0x80 :: uint8) n \<longleftrightarrow> n = 7"
  "bit (0x40 :: uint8) n \<longleftrightarrow> n = 6"
  "bit (0x20 :: uint8) n \<longleftrightarrow> n = 5"
  "bit (0x10 :: uint8) n \<longleftrightarrow> n = 4"
  "bit (0x08 :: uint8) n \<longleftrightarrow> n = 3"
  "bit (0x04 :: uint8) n \<longleftrightarrow> n = 2"
  "bit (0x02 :: uint8) n \<longleftrightarrow> n = 1"
  by (auto simp: bit_flag_int)

lemmas byte_bits = and_flag_eq_0 bit_flag_int

lemma msb_sint_neg: "bit (w :: uint8) 7 \<longleftrightarrow> sint w < 0"
  by (simp add: bit_last_iff [symmetric])

lemma all_word8: "(\<forall>w :: uint8. P w) \<longleftrightarrow> (\<forall>n < 256. P (of_nat n))"
proof
  assume r: "\<forall>n < 256. P (of_nat n)"
  show "\<forall>w. P w"
  proof
    fix w :: uint8
    from r unat_byte [of w] have "P (of_nat (unat w))" by blast
    then show "P w" by simp
  qed
qed simp

section \<open>Sequential search\<close>

lemma find_SomeD: "find P xs = Some x \<Longrightarrow> x \<in> set xs \<and> P x"
  by (auto simp: find_Some_iff)

section \<open>Decision chains\<close>

text \<open>What holds of every leaf of a chain of conditionals holds of the chain.\<close>

lemma if_both: "P x \<Longrightarrow> P y \<Longrightarrow> P (if b then x else y)"
  by simp

section \<open>Numbers within range\<close>

lemma unat_of_nat_range [simp]:
  "n < 256 \<Longrightarrow> unat (of_nat n :: uint8) = n"
  "n < 65536 \<Longrightarrow> unat (of_nat n :: uint16) = n"
  "n < 4294967296 \<Longrightarrow> unat (of_nat n :: uint32) = n"
  by (simp_all add: unsigned_of_nat take_bit_nat_eq_self)

lemma unat_drop_bit: "unat (drop_bit n (w :: 'a::len word)) = unat w div 2 ^ n"
proof -
  have "unat (drop_bit n w) = drop_bit n (take_bit LENGTH('a) (unat w))"
    by (rule unsigned_drop_bit_eq)
  also have "take_bit LENGTH('a) (unat w) = unat w"
    by (rule take_bit_nat_eq_self) (rule unsigned_less)
  also have "drop_bit n (unat w) = unat w div 2 ^ n"
    by (rule drop_bit_eq_div)
  finally show ?thesis .
qed

text \<open>The signed value of a word in the lower and in the upper half of its range.\<close>

lemma sint_low:
  fixes w :: "'a::len word"
  assumes "uint w < 2 ^ (LENGTH('a) - 1)"
  shows "sint w = uint w"
proof -
  have "- (2 ^ (LENGTH('a) - 1)) \<le> uint w" by (rule order_trans [OF _ uint_ge_0]) simp
  then show ?thesis using assms by (simp add: sint_uint signed_take_bit_int_eq_self)
qed

end
