(* ===== verification/MCS6502_Core.thy ===== *)
theory MCS6502_Core
  imports Prelude
begin

text \<open>
  The data model of the MCS6502 processor emulator (\<^verbatim>\<open>src/machine/MCS6502.h\<close> and the first and
  last parts of \<^verbatim>\<open>src/machine/MCS6502.c\<close>): the execution context, the instruction table, the
  status flag helpers, the data bus, the stack, the addressing modes and the operand
  access. The memory behind the bus is a value of a type parameter, the C pointer
  \<^verbatim>\<open>readWriteContext\<close>; reading may change it, as memory-mapped devices do.
\<close>

section \<open>Execution context\<close>

text \<open>
  One field per member of the C structure. The registers carry the prefix \<open>reg_\<close> (the C
  members are \<^verbatim>\<open>a\<close>, \<^verbatim>\<open>x\<close>, \<^verbatim>\<open>y\<close>, \<^verbatim>\<open>sp\<close>, \<^verbatim>\<open>pc\<close>, \<^verbatim>\<open>p\<close>); \<open>unsigned int\<close> is 32 bits wide on the host.
\<close>

record 'm MCS6502ExecutionContext =
  reg_a :: uint8
  reg_x :: uint8
  reg_y :: uint8
  reg_sp :: uint8
  reg_pc :: uint16
  reg_p :: uint8
  pendingTiming :: uint32
  timingForLastOperation :: uint32
  irqPending :: bool
  nmiPending :: bool
  readByte :: "uint16 \<Rightarrow> 'm \<Rightarrow> uint8 \<times> 'm"
  writeByte :: "uint16 \<Rightarrow> uint8 \<Rightarrow> 'm \<Rightarrow> 'm"
  readWriteContext :: 'm

type_synonym 'm ctx = "'m MCS6502ExecutionContext"

abbreviation MCS6502_STATUS_N :: uint8 where "MCS6502_STATUS_N \<equiv> 0x80"
abbreviation MCS6502_STATUS_V :: uint8 where "MCS6502_STATUS_V \<equiv> 0x40"
abbreviation MCS6502_STATUS_B :: uint8 where "MCS6502_STATUS_B \<equiv> 0x10"
abbreviation MCS6502_STATUS_D :: uint8 where "MCS6502_STATUS_D \<equiv> 0x08"
abbreviation MCS6502_STATUS_I :: uint8 where "MCS6502_STATUS_I \<equiv> 0x04"
abbreviation MCS6502_STATUS_Z :: uint8 where "MCS6502_STATUS_Z \<equiv> 0x02"
abbreviation MCS6502_STATUS_C :: uint8 where "MCS6502_STATUS_C \<equiv> 0x01"

abbreviation MCS6502_NMI_vector :: uint16 where "MCS6502_NMI_vector \<equiv> 0xFFFA"
abbreviation MCS6502_RESET_vector :: uint16 where "MCS6502_RESET_vector \<equiv> 0xFFFC"
abbreviation MCS6502_IRQ_BRK_vector :: uint16 where "MCS6502_IRQ_BRK_vector \<equiv> 0xFFFE"

datatype MCS6502ExecResult =
  MCS6502ExecResultRunning
| MCS6502ExecResultHalting
| MCS6502ExecResultInvalidOperation

section \<open>Instruction set\<close>

datatype MCS6502AddressingMode =
  AddressingImplied
| AddressingAccumulator
| AddressingImmediate
| AddressingZeroPage
| AddressingZeroPageX
| AddressingZeroPageY
| AddressingAbsolute
| AddressingAbsoluteX
| AddressingAbsoluteY
| AddressingIndirect
| AddressingXIndirect
| AddressingIndirectY
| AddressingRelative

record MCS6502Instruction =
  opcode :: uint8
  mnemonic :: string
  mode :: MCS6502AddressingMode
  timing :: uint32
  timingAddOne :: bool

definition mk_instr ::
  "uint8 \<Rightarrow> string \<Rightarrow> MCS6502AddressingMode \<Rightarrow> uint32 \<Rightarrow> bool \<Rightarrow> MCS6502Instruction" where
  "mk_instr op mn md t b =
     \<lparr>opcode = op, mnemonic = mn, mode = md, timing = t, timingAddOne = b\<rparr>"

lemma mk_instr_sel [simp]:
  "opcode (mk_instr op mn md t b) = op"
  "mnemonic (mk_instr op mn md t b) = mn"
  "mode (mk_instr op mn md t b) = md"
  "timing (mk_instr op mn md t b) = t"
  "timingAddOne (mk_instr op mn md t b) = b"
  by (simp_all add: mk_instr_def)

definition MCS6502Instructions :: "MCS6502Instruction list" where
  "MCS6502Instructions =
    [
     mk_instr 0x69 ''ADC'' AddressingImmediate 2 False,
     mk_instr 0x65 ''ADC'' AddressingZeroPage 3 False,
     mk_instr 0x75 ''ADC'' AddressingZeroPageX 4 False,
     mk_instr 0x6D ''ADC'' AddressingAbsolute 4 False,
     mk_instr 0x7D ''ADC'' AddressingAbsoluteX 4 True,
     mk_instr 0x79 ''ADC'' AddressingAbsoluteY 4 True,
     mk_instr 0x61 ''ADC'' AddressingXIndirect 6 False,
     mk_instr 0x71 ''ADC'' AddressingIndirectY 5 True,
     mk_instr 0x29 ''AND'' AddressingImmediate 2 False,
     mk_instr 0x25 ''AND'' AddressingZeroPage 3 False,
     mk_instr 0x35 ''AND'' AddressingZeroPageX 4 False,
     mk_instr 0x2D ''AND'' AddressingAbsolute 4 False,
     mk_instr 0x3D ''AND'' AddressingAbsoluteX 4 True,
     mk_instr 0x39 ''AND'' AddressingAbsoluteY 4 True,
     mk_instr 0x21 ''AND'' AddressingXIndirect 6 False,
     mk_instr 0x31 ''AND'' AddressingIndirectY 5 True,
     mk_instr 0x0A ''ASL'' AddressingAccumulator 2 False,
     mk_instr 0x06 ''ASL'' AddressingZeroPage 5 False,
     mk_instr 0x16 ''ASL'' AddressingZeroPageX 6 False,
     mk_instr 0x0E ''ASL'' AddressingAbsolute 6 False,
     mk_instr 0x1E ''ASL'' AddressingAbsoluteX 7 False,
     mk_instr 0x90 ''BCC'' AddressingRelative 0 True,
     mk_instr 0xB0 ''BCS'' AddressingRelative 0 True,
     mk_instr 0xF0 ''BEQ'' AddressingRelative 0 True,
     mk_instr 0x24 ''BIT'' AddressingZeroPage 3 False,
     mk_instr 0x2C ''BIT'' AddressingAbsolute 4 False,
     mk_instr 0x30 ''BMI'' AddressingRelative 0 True,
     mk_instr 0xD0 ''BNE'' AddressingRelative 0 True,
     mk_instr 0x10 ''BPL'' AddressingRelative 0 True,
     mk_instr 0x00 ''BRK'' AddressingImplied 7 False,
     mk_instr 0x50 ''BVC'' AddressingRelative 0 True,
     mk_instr 0x70 ''BVS'' AddressingRelative 0 True,
     mk_instr 0x18 ''CLC'' AddressingImplied 2 False,
     mk_instr 0xD8 ''CLD'' AddressingImplied 2 False,
     mk_instr 0x58 ''CLI'' AddressingImplied 2 False,
     mk_instr 0xB8 ''CLV'' AddressingImplied 2 False,
     mk_instr 0xC9 ''CMP'' AddressingImmediate 2 False,
     mk_instr 0xC5 ''CMP'' AddressingZeroPage 3 False,
     mk_instr 0xD5 ''CMP'' AddressingZeroPageX 4 False,
     mk_instr 0xCD ''CMP'' AddressingAbsolute 4 False,
     mk_instr 0xDD ''CMP'' AddressingAbsoluteX 4 True,
     mk_instr 0xD9 ''CMP'' AddressingAbsoluteY 4 True,
     mk_instr 0xC1 ''CMP'' AddressingXIndirect 6 False,
     mk_instr 0xD1 ''CMP'' AddressingIndirectY 5 True,
     mk_instr 0xE0 ''CPX'' AddressingImmediate 2 False,
     mk_instr 0xE4 ''CPX'' AddressingZeroPage 3 False,
     mk_instr 0xEC ''CPX'' AddressingAbsolute 4 False,
     mk_instr 0xC0 ''CPY'' AddressingImmediate 3 False,
     mk_instr 0xC4 ''CPY'' AddressingZeroPage 3 False,
     mk_instr 0xCC ''CPY'' AddressingAbsolute 4 False,
     mk_instr 0xC6 ''DEC'' AddressingZeroPage 5 False,
     mk_instr 0xD6 ''DEC'' AddressingZeroPageX 6 False,
     mk_instr 0xCE ''DEC'' AddressingAbsolute 6 False,
     mk_instr 0xDE ''DEC'' AddressingAbsoluteX 7 False,
     mk_instr 0xCA ''DEX'' AddressingImplied 2 False,
     mk_instr 0x88 ''DEY'' AddressingImplied 2 False,
     mk_instr 0x49 ''EOR'' AddressingImmediate 2 False,
     mk_instr 0x45 ''EOR'' AddressingZeroPage 3 False,
     mk_instr 0x55 ''EOR'' AddressingZeroPageX 4 False,
     mk_instr 0x4D ''EOR'' AddressingAbsolute 4 False,
     mk_instr 0x5D ''EOR'' AddressingAbsoluteX 4 True,
     mk_instr 0x59 ''EOR'' AddressingAbsoluteY 4 True,
     mk_instr 0x41 ''EOR'' AddressingXIndirect 6 False,
     mk_instr 0x51 ''EOR'' AddressingIndirectY 5 True,
     mk_instr 0xE6 ''INC'' AddressingZeroPage 5 False,
     mk_instr 0xF6 ''INC'' AddressingZeroPageX 6 False,
     mk_instr 0xEE ''INC'' AddressingAbsolute 6 False,
     mk_instr 0xFE ''INC'' AddressingAbsoluteX 7 False,
     mk_instr 0xE8 ''INX'' AddressingImplied 2 False,
     mk_instr 0xC8 ''INY'' AddressingImplied 2 False,
     mk_instr 0x4C ''JMP'' AddressingAbsolute 3 False,
     mk_instr 0x6C ''JMP'' AddressingIndirect 5 False,
     mk_instr 0x20 ''JSR'' AddressingAbsolute 6 False,
     mk_instr 0xA9 ''LDA'' AddressingImmediate 2 False,
     mk_instr 0xA5 ''LDA'' AddressingZeroPage 3 False,
     mk_instr 0xB5 ''LDA'' AddressingZeroPageX 4 False,
     mk_instr 0xAD ''LDA'' AddressingAbsolute 4 False,
     mk_instr 0xBD ''LDA'' AddressingAbsoluteX 4 True,
     mk_instr 0xB9 ''LDA'' AddressingAbsoluteY 4 True,
     mk_instr 0xA1 ''LDA'' AddressingXIndirect 6 False,
     mk_instr 0xB1 ''LDA'' AddressingIndirectY 5 True,
     mk_instr 0xA2 ''LDX'' AddressingImmediate 2 False,
     mk_instr 0xA6 ''LDX'' AddressingZeroPage 3 False,
     mk_instr 0xB6 ''LDX'' AddressingZeroPageY 4 False,
     mk_instr 0xAE ''LDX'' AddressingAbsolute 4 False,
     mk_instr 0xBE ''LDX'' AddressingAbsoluteY 4 True,
     mk_instr 0xA0 ''LDY'' AddressingImmediate 2 False,
     mk_instr 0xA4 ''LDY'' AddressingZeroPage 3 False,
     mk_instr 0xB4 ''LDY'' AddressingZeroPageX 4 False,
     mk_instr 0xAC ''LDY'' AddressingAbsolute 4 False,
     mk_instr 0xBC ''LDY'' AddressingAbsoluteX 4 True,
     mk_instr 0x4A ''LSR'' AddressingAccumulator 2 False,
     mk_instr 0x46 ''LSR'' AddressingZeroPage 5 False,
     mk_instr 0x56 ''LSR'' AddressingZeroPageX 6 False,
     mk_instr 0x4E ''LSR'' AddressingAbsolute 6 False,
     mk_instr 0x5E ''LSR'' AddressingAbsoluteX 7 False,
     mk_instr 0xEA ''NOP'' AddressingImplied 2 False,
     mk_instr 0x09 ''ORA'' AddressingImmediate 2 False,
     mk_instr 0x05 ''ORA'' AddressingZeroPage 3 False,
     mk_instr 0x15 ''ORA'' AddressingZeroPageX 4 False,
     mk_instr 0x0D ''ORA'' AddressingAbsolute 4 False,
     mk_instr 0x1D ''ORA'' AddressingAbsoluteX 4 True,
     mk_instr 0x19 ''ORA'' AddressingAbsoluteY 4 True,
     mk_instr 0x01 ''ORA'' AddressingXIndirect 6 False,
     mk_instr 0x11 ''ORA'' AddressingIndirectY 5 True,
     mk_instr 0x48 ''PHA'' AddressingImplied 3 False,
     mk_instr 0x08 ''PHP'' AddressingImplied 3 False,
     mk_instr 0x68 ''PLA'' AddressingImplied 4 False,
     mk_instr 0x28 ''PLP'' AddressingImplied 4 False,
     mk_instr 0x2A ''ROL'' AddressingAccumulator 2 False,
     mk_instr 0x26 ''ROL'' AddressingZeroPage 5 False,
     mk_instr 0x36 ''ROL'' AddressingZeroPageX 6 False,
     mk_instr 0x2E ''ROL'' AddressingAbsolute 6 False,
     mk_instr 0x3E ''ROL'' AddressingAbsoluteX 7 False,
     mk_instr 0x6A ''ROR'' AddressingAccumulator 2 False,
     mk_instr 0x66 ''ROR'' AddressingZeroPage 5 False,
     mk_instr 0x76 ''ROR'' AddressingZeroPageX 6 False,
     mk_instr 0x6E ''ROR'' AddressingAbsolute 6 False,
     mk_instr 0x7E ''ROR'' AddressingAbsoluteX 7 False,
     mk_instr 0x40 ''RTI'' AddressingImplied 6 False,
     mk_instr 0x60 ''RTS'' AddressingImplied 6 False,
     mk_instr 0xE9 ''SBC'' AddressingImmediate 2 False,
     mk_instr 0xE5 ''SBC'' AddressingZeroPage 3 False,
     mk_instr 0xF5 ''SBC'' AddressingZeroPageX 4 False,
     mk_instr 0xED ''SBC'' AddressingAbsolute 4 False,
     mk_instr 0xFD ''SBC'' AddressingAbsoluteX 4 True,
     mk_instr 0xF9 ''SBC'' AddressingAbsoluteY 4 True,
     mk_instr 0xE1 ''SBC'' AddressingXIndirect 6 False,
     mk_instr 0xF1 ''SBC'' AddressingIndirectY 5 True,
     mk_instr 0x38 ''SEC'' AddressingImplied 2 False,
     mk_instr 0xF8 ''SED'' AddressingImplied 2 False,
     mk_instr 0x78 ''SEI'' AddressingImplied 2 False,
     mk_instr 0x85 ''STA'' AddressingZeroPage 3 False,
     mk_instr 0x95 ''STA'' AddressingZeroPageX 4 False,
     mk_instr 0x8D ''STA'' AddressingAbsolute 4 False,
     mk_instr 0x9D ''STA'' AddressingAbsoluteX 5 False,
     mk_instr 0x99 ''STA'' AddressingAbsoluteY 5 False,
     mk_instr 0x81 ''STA'' AddressingXIndirect 6 False,
     mk_instr 0x91 ''STA'' AddressingIndirectY 6 False,
     mk_instr 0x86 ''STX'' AddressingZeroPage 3 False,
     mk_instr 0x96 ''STX'' AddressingZeroPageY 4 False,
     mk_instr 0x8E ''STX'' AddressingAbsolute 4 False,
     mk_instr 0x84 ''STY'' AddressingZeroPage 3 False,
     mk_instr 0x94 ''STY'' AddressingZeroPageX 4 False,
     mk_instr 0x8C ''STY'' AddressingAbsolute 4 False,
     mk_instr 0xAA ''TAX'' AddressingImplied 2 False,
     mk_instr 0xA8 ''TAY'' AddressingImplied 2 False,
     mk_instr 0xBA ''TSX'' AddressingImplied 2 False,
     mk_instr 0x8A ''TXA'' AddressingImplied 2 False,
     mk_instr 0x9A ''TXS'' AddressingImplied 2 False,
     mk_instr 0x98 ''TYA'' AddressingImplied 2 False
    ]"

text \<open>
  The jump table: \<^verbatim>\<open>MCS6502Init\<close> clears the 256 slots and then stores each instruction at
  its opcode, in order; a slot no instruction claims stays \<open>NULL\<close>.
\<close>

definition MCS6502OpcodeTable :: "uint8 \<rightharpoonup> MCS6502Instruction" where
  "MCS6502OpcodeTable =
     fold (\<lambda>instruction table. table(opcode instruction \<mapsto> instruction))
       MCS6502Instructions Map.empty"

section \<open>Status flag helpers\<close>

definition SetCarry :: "'m ctx \<Rightarrow> 'm ctx" where
  [cpu_defs]: "SetCarry context = context\<lparr>reg_p := reg_p context OR MCS6502_STATUS_C\<rparr>"

definition ClearCarry :: "'m ctx \<Rightarrow> 'm ctx" where
  [cpu_defs]: "ClearCarry context = context\<lparr>reg_p := reg_p context AND NOT MCS6502_STATUS_C\<rparr>"

definition IsCarrySet :: "'m ctx \<Rightarrow> bool" where
  [cpu_defs]: "IsCarrySet context \<longleftrightarrow> reg_p context AND MCS6502_STATUS_C \<noteq> 0"

definition SetZero :: "'m ctx \<Rightarrow> 'm ctx" where
  [cpu_defs]: "SetZero context = context\<lparr>reg_p := reg_p context OR MCS6502_STATUS_Z\<rparr>"

definition ClearZero :: "'m ctx \<Rightarrow> 'm ctx" where
  [cpu_defs]: "ClearZero context = context\<lparr>reg_p := reg_p context AND NOT MCS6502_STATUS_Z\<rparr>"

definition IsZeroSet :: "'m ctx \<Rightarrow> bool" where
  [cpu_defs]: "IsZeroSet context \<longleftrightarrow> reg_p context AND MCS6502_STATUS_Z \<noteq> 0"

definition SetInterruptDisable :: "'m ctx \<Rightarrow> 'm ctx" where
  [cpu_defs]: "SetInterruptDisable context = context\<lparr>reg_p := reg_p context OR MCS6502_STATUS_I\<rparr>"

definition ClearInterruptDisable :: "'m ctx \<Rightarrow> 'm ctx" where
  [cpu_defs]: "ClearInterruptDisable context = context\<lparr>reg_p := reg_p context AND NOT MCS6502_STATUS_I\<rparr>"

definition IsInterruptDisableSet :: "'m ctx \<Rightarrow> bool" where
  [cpu_defs]: "IsInterruptDisableSet context \<longleftrightarrow> reg_p context AND MCS6502_STATUS_I \<noteq> 0"

definition SetDecimal :: "'m ctx \<Rightarrow> 'm ctx" where
  [cpu_defs]: "SetDecimal context = context\<lparr>reg_p := reg_p context OR MCS6502_STATUS_D\<rparr>"

definition ClearDecimal :: "'m ctx \<Rightarrow> 'm ctx" where
  [cpu_defs]: "ClearDecimal context = context\<lparr>reg_p := reg_p context AND NOT MCS6502_STATUS_D\<rparr>"

definition IsDecimalSet :: "'m ctx \<Rightarrow> bool" where
  [cpu_defs]: "IsDecimalSet context \<longleftrightarrow> reg_p context AND MCS6502_STATUS_D \<noteq> 0"

definition SetNegative :: "'m ctx \<Rightarrow> 'm ctx" where
  [cpu_defs]: "SetNegative context = context\<lparr>reg_p := reg_p context OR MCS6502_STATUS_N\<rparr>"

definition ClearNegative :: "'m ctx \<Rightarrow> 'm ctx" where
  [cpu_defs]: "ClearNegative context = context\<lparr>reg_p := reg_p context AND NOT MCS6502_STATUS_N\<rparr>"

definition IsNegativeSet :: "'m ctx \<Rightarrow> bool" where
  [cpu_defs]: "IsNegativeSet context \<longleftrightarrow> reg_p context AND MCS6502_STATUS_N \<noteq> 0"

definition SetOverflow :: "'m ctx \<Rightarrow> 'm ctx" where
  [cpu_defs]: "SetOverflow context = context\<lparr>reg_p := reg_p context OR MCS6502_STATUS_V\<rparr>"

definition ClearOverflow :: "'m ctx \<Rightarrow> 'm ctx" where
  [cpu_defs]: "ClearOverflow context = context\<lparr>reg_p := reg_p context AND NOT MCS6502_STATUS_V\<rparr>"

definition IsOverflowSet :: "'m ctx \<Rightarrow> bool" where
  [cpu_defs]: "IsOverflowSet context \<longleftrightarrow> reg_p context AND MCS6502_STATUS_V \<noteq> 0"

definition SetOrClearCarry :: "bool \<Rightarrow> 'm ctx \<Rightarrow> 'm ctx" where
  [cpu_defs]: "SetOrClearCarry c context = (if c then SetCarry context else ClearCarry context)"

definition SetOrClearOverflow :: "bool \<Rightarrow> 'm ctx \<Rightarrow> 'm ctx" where
  [cpu_defs]: "SetOrClearOverflow v context =
     (if v then SetOverflow context else ClearOverflow context)"

definition UpdateZero :: "uint8 \<Rightarrow> 'm ctx \<Rightarrow> 'm ctx" where
  [cpu_defs]: "UpdateZero val context = (if val = 0 then SetZero context else ClearZero context)"

definition UpdateNegative :: "uint8 \<Rightarrow> 'm ctx \<Rightarrow> 'm ctx" where
  [cpu_defs]: "UpdateNegative val context =
     (if val AND 0x80 \<noteq> 0 then SetNegative context else ClearNegative context)"

definition UpdateZeroNegative :: "uint8 \<Rightarrow> 'm ctx \<Rightarrow> 'm ctx" where
  [cpu_defs]: "UpdateZeroNegative val context = UpdateNegative val (UpdateZero val context)"

section \<open>Data bus, stack and vectors\<close>

definition MCS6502ReadByte :: "uint16 \<Rightarrow> 'm ctx \<Rightarrow> uint8 \<times> 'm ctx" where
  "MCS6502ReadByte addr context =
     (let (v, m) = readByte context addr (readWriteContext context)
      in (v, context\<lparr>readWriteContext := m\<rparr>))"

definition MCS6502WriteByte :: "uint16 \<Rightarrow> uint8 \<Rightarrow> 'm ctx \<Rightarrow> 'm ctx" where
  "MCS6502WriteByte addr byte context =
     context\<lparr>readWriteContext := writeByte context addr byte (readWriteContext context)\<rparr>"

definition PushByte :: "uint8 \<Rightarrow> 'm ctx \<Rightarrow> 'm ctx" where
  "PushByte byte context =
     (let esp = 0x0100 + ucast (reg_sp context);
          context1 = MCS6502WriteByte esp byte context
      in context1\<lparr>reg_sp := reg_sp context1 - 1\<rparr>)"

definition PushFlags :: "bool \<Rightarrow> 'm ctx \<Rightarrow> 'm ctx" where
  "PushFlags b context =
     (let p = reg_p context OR 0x20;
          p' = (if b then p OR MCS6502_STATUS_B else p AND NOT MCS6502_STATUS_B)
      in PushByte p' context)"

definition PullByte :: "'m ctx \<Rightarrow> uint8 \<times> 'm ctx" where
  "PullByte context =
     (let context1 = context\<lparr>reg_sp := reg_sp context + 1\<rparr>;
          esp = 0x0100 + ucast (reg_sp context1)
      in MCS6502ReadByte esp context1)"

definition ReadWordAtAddress :: "uint16 \<Rightarrow> 'm ctx \<Rightarrow> uint16 \<times> 'm ctx" where
  "ReadWordAtAddress addr context =
     (let (veclo, context1) = MCS6502ReadByte addr context;
          (vechi, context2) = MCS6502ReadByte (addr + 1) context1
      in (mk_word vechi veclo, context2))"

section \<open>Binary coded decimal\<close>

definition BCDFromInteger :: "int \<Rightarrow> uint8" where
  "BCDFromInteger integer =
     (if 0 \<le> integer \<and> integer < 100 then
        (let tens = integer div 10; units = integer mod 10
         in push_bit 4 (word_of_int tens) OR word_of_int units)
      else 0)"

definition IntegerFromBCD :: "uint8 \<Rightarrow> int" where
  "IntegerFromBCD bcd = uint (drop_bit 4 (bcd AND 0xF0)) * 10 + uint (bcd AND 0x0F)"

section \<open>Interrupt sequences\<close>

definition HandleIRQ :: "'m ctx \<Rightarrow> 'm ctx" where
  "HandleIRQ context =
     (let context1 = context\<lparr>irqPending := False\<rparr>;
          returnPC = reg_pc context1;
          context2 = PushByte (hi_byte returnPC) context1;
          context3 = PushByte (lo_byte returnPC) context2;
          context4 = PushFlags False context3;
          context5 = SetInterruptDisable context4;
          (target, context6) = ReadWordAtAddress MCS6502_IRQ_BRK_vector context5
      in context6\<lparr>reg_pc := target, timingForLastOperation := 7\<rparr>)"

definition HandleNMI :: "'m ctx \<Rightarrow> 'm ctx" where
  "HandleNMI context =
     (let context1 = context\<lparr>nmiPending := False\<rparr>;
          returnPC = reg_pc context1;
          context2 = PushByte (hi_byte returnPC) context1;
          context3 = PushByte (lo_byte returnPC) context2;
          context4 = PushFlags False context3;
          context5 = SetInterruptDisable context4;
          (target, context6) = ReadWordAtAddress MCS6502_NMI_vector context5
      in context6\<lparr>reg_pc := target, timingForLastOperation := 7\<rparr>)"

section \<open>Addressing modes and operands\<close>

definition ADDRESSES_ON_DIFFERENT_PAGES :: "uint16 \<Rightarrow> uint16 \<Rightarrow> bool" where
  "ADDRESSES_ON_DIFFERENT_PAGES addr1 addr2 \<longleftrightarrow> addr1 AND 0xFF00 \<noteq> addr2 AND 0xFF00"

text \<open>
  The result is the effective address, the value left in \<^verbatim>\<open>*crossesPageBoundary\<close> (which the
  callers that look at it initialise with \<open>false\<close>), and the context after the bus reads.
\<close>

definition EffectiveOperandAddressForInstruction ::
  "MCS6502Instruction \<Rightarrow> 'm ctx \<Rightarrow> uint16 \<times> bool \<times> 'm ctx" where
  "EffectiveOperandAddressForInstruction instruction context =
    (case mode instruction of
       AddressingZeroPage \<Rightarrow>
         (let (v, context1) = MCS6502ReadByte (reg_pc context + 1) context
          in (ucast v, False, context1))
     | AddressingZeroPageX \<Rightarrow>
         (let (v, context1) = MCS6502ReadByte (reg_pc context + 1) context
          in (ucast (v + reg_x context1), False, context1))
     | AddressingZeroPageY \<Rightarrow>
         (let (v, context1) = MCS6502ReadByte (reg_pc context + 1) context
          in (ucast (v + reg_y context1), False, context1))
     | AddressingAbsolute \<Rightarrow>
         (let (addr, context1) = ReadWordAtAddress (reg_pc context + 1) context
          in (addr, False, context1))
     | AddressingAbsoluteX \<Rightarrow>
         (let (baseAddr, context1) = ReadWordAtAddress (reg_pc context + 1) context;
              finalAddr = baseAddr + ucast (reg_x context1)
          in (finalAddr, ADDRESSES_ON_DIFFERENT_PAGES baseAddr finalAddr, context1))
     | AddressingAbsoluteY \<Rightarrow>
         (let (baseAddr, context1) = ReadWordAtAddress (reg_pc context + 1) context;
              finalAddr = baseAddr + ucast (reg_y context1)
          in (finalAddr, ADDRESSES_ON_DIFFERENT_PAGES baseAddr finalAddr, context1))
     | AddressingIndirect \<Rightarrow>
         (let (loIndirect, context1) = MCS6502ReadByte (reg_pc context + 1) context;
              (hiIndirect, context2) = MCS6502ReadByte (reg_pc context1 + 2) context1;
              indirect = mk_word hiIndirect loIndirect;
              (lo, context3) = MCS6502ReadByte indirect context2;
              (hi, context4) =
                (if loIndirect = 0xFF then MCS6502ReadByte (push_bit 8 (ucast hiIndirect)) context3
                 else MCS6502ReadByte (indirect + 1) context3)
          in (mk_word hi lo, False, context4))
     | AddressingXIndirect \<Rightarrow>
         (let (v, context1) = MCS6502ReadByte (reg_pc context + 1) context;
              addr = reg_x context1 + v;
              (target, context2) = ReadWordAtAddress (ucast addr) context1
          in (target, False, context2))
     | AddressingIndirectY \<Rightarrow>
         (let (baseAddr, context1) = MCS6502ReadByte (reg_pc context + 1) context;
              (target, context2) = ReadWordAtAddress (ucast baseAddr) context1;
              finalAddr = target + ucast (reg_y context2)
          in (finalAddr, ADDRESSES_ON_DIFFERENT_PAGES (ucast baseAddr) finalAddr, context2))
     | AddressingRelative \<Rightarrow>
         (let (offset, context1) = MCS6502ReadByte (reg_pc context + 1) context;
              addr = reg_pc context1 + 2 + scast offset
          in (addr, ADDRESSES_ON_DIFFERENT_PAGES addr (reg_pc context1), context1))
     | _ \<Rightarrow> (0, False, context))"

definition ReadOperandValueForCurrentInstruction ::
  "MCS6502Instruction \<Rightarrow> 'm ctx \<Rightarrow> uint8 \<times> 'm ctx" where
  "ReadOperandValueForCurrentInstruction instruction context =
    (if mode instruction = AddressingImmediate then
       MCS6502ReadByte (reg_pc context + 1) context
     else if mode instruction = AddressingAccumulator then
       (reg_a context, context)
     else
       (let (addr, crossesPageBoundary, context1) =
              EffectiveOperandAddressForInstruction instruction context;
            context2 =
              (if crossesPageBoundary \<and> timingAddOne instruction
               then context1\<lparr>timingForLastOperation := timingForLastOperation context1 + 1\<rparr>
               else context1)
        in MCS6502ReadByte addr context2))"

definition WriteResultForCurrentInstruction ::
  "uint8 \<Rightarrow> MCS6502Instruction \<Rightarrow> 'm ctx \<Rightarrow> 'm ctx" where
  "WriteResultForCurrentInstruction result instruction context =
    (if mode instruction = AddressingAccumulator then context\<lparr>reg_a := result\<rparr>
     else
       (let (addr, _, context1) = EffectiveOperandAddressForInstruction instruction context
        in MCS6502WriteByte addr result context1))"

definition LengthForInstruction :: "MCS6502Instruction \<Rightarrow> uint16" where
  "LengthForInstruction instruction =
    (case mode instruction of
       AddressingImplied \<Rightarrow> 1
     | AddressingAccumulator \<Rightarrow> 1
     | AddressingImmediate \<Rightarrow> 2
     | AddressingZeroPage \<Rightarrow> 2
     | AddressingZeroPageX \<Rightarrow> 2
     | AddressingZeroPageY \<Rightarrow> 2
     | AddressingXIndirect \<Rightarrow> 2
     | AddressingIndirectY \<Rightarrow> 2
     | AddressingRelative \<Rightarrow> 2
     | AddressingAbsolute \<Rightarrow> 3
     | AddressingAbsoluteX \<Rightarrow> 3
     | AddressingAbsoluteY \<Rightarrow> 3
     | AddressingIndirect \<Rightarrow> 3)"

definition ExecuteConditionalBranch ::
  "bool \<Rightarrow> MCS6502Instruction \<Rightarrow> 'm ctx \<Rightarrow> 'm ctx" where
  "ExecuteConditionalBranch condition instruction context =
    (if condition then
       (let (addr, crossesPageBoundary, context1) =
              EffectiveOperandAddressForInstruction instruction context;
            context2 = context1\<lparr>reg_pc := addr,
              timingForLastOperation := timingForLastOperation context1 + 3\<rparr>
        in if timingAddOne instruction \<and> crossesPageBoundary
           then context2\<lparr>timingForLastOperation := timingForLastOperation context2 + 1\<rparr>
           else context2)
     else
       context\<lparr>reg_pc := reg_pc context + LengthForInstruction instruction,
         timingForLastOperation := timingForLastOperation context + 2\<rparr>)"

end
