(* ===== verification/MCS6502_Exec.thy ===== *)
theory MCS6502_Exec
  imports MCS6502_Core
begin

text \<open>
  The execution engine of \<^verbatim>\<open>src/machine/MCS6502.c\<close>: one definition per case of the \<^verbatim>\<open>switch\<close> in
  \<^verbatim>\<open>MCS6502ExecNext\<close>, the \<^verbatim>\<open>switch\<close> itself over the opcode byte, fetch and dispatch, and the
  public entry points (initialisation, reset, the two interrupt triggers, the tick).
\<close>

section \<open>The instructions\<close>

definition exec_ADC :: "MCS6502Instruction \<Rightarrow> 'm ctx \<Rightarrow> 'm ctx" where
  "exec_ADC instruction context =
     (let (operand, context1) = ReadOperandValueForCurrentInstruction instruction context
      in if \<not> IsDecimalSet context1 then
           (let carry = IsCarrySet context1;
                sum = ucast (reg_a context1) + ucast operand + (if carry then 1 else 0) :: uint32;
                vres = sint (reg_a context1) + sint operand + (if carry then 1 else 0);
                context2 = context1\<lparr>reg_a := ucast (sum AND 0xFF)\<rparr>;
                context3 = SetOrClearCarry (sum > 0xFF) context2;
                context4 = UpdateZeroNegative (reg_a context3) context3
            in SetOrClearOverflow (vres > 127 \<or> vres < -128) context4)
         else
           (let operandInteger = IntegerFromBCD operand;
                accInteger = IntegerFromBCD (reg_a context1);
                sum = operandInteger + accInteger + (if IsCarrySet context1 then 1 else 0);
                (sum', context2) =
                  (if sum > 99 then (sum - 100, SetCarry context1) else (sum, ClearCarry context1));
                context3 = context2\<lparr>reg_a := BCDFromInteger sum'\<rparr>
            in UpdateZeroNegative (reg_a context3) context3))"

definition exec_AND :: "MCS6502Instruction \<Rightarrow> 'm ctx \<Rightarrow> 'm ctx" where
  "exec_AND instruction context =
     (let (operand, context1) = ReadOperandValueForCurrentInstruction instruction context;
          context2 = context1\<lparr>reg_a := reg_a context1 AND operand\<rparr>
      in UpdateZeroNegative (reg_a context2) context2)"

definition exec_ASL :: "MCS6502Instruction \<Rightarrow> 'm ctx \<Rightarrow> 'm ctx" where
  "exec_ASL instruction context =
     (let (val, context1) = ReadOperandValueForCurrentInstruction instruction context;
          context2 = SetOrClearCarry (val AND 0x80 \<noteq> 0) context1;
          val' = push_bit 1 val;
          context3 = UpdateZeroNegative val' context2
      in WriteResultForCurrentInstruction val' instruction context3)"

definition exec_BCC :: "MCS6502Instruction \<Rightarrow> 'm ctx \<Rightarrow> 'm ctx" where
  "exec_BCC instruction context =
     ExecuteConditionalBranch (\<not> IsCarrySet context) instruction context"

definition exec_BCS :: "MCS6502Instruction \<Rightarrow> 'm ctx \<Rightarrow> 'm ctx" where
  "exec_BCS instruction context =
     ExecuteConditionalBranch (IsCarrySet context) instruction context"

definition exec_BEQ :: "MCS6502Instruction \<Rightarrow> 'm ctx \<Rightarrow> 'm ctx" where
  "exec_BEQ instruction context =
     ExecuteConditionalBranch (IsZeroSet context) instruction context"

definition exec_BIT :: "MCS6502Instruction \<Rightarrow> 'm ctx \<Rightarrow> 'm ctx" where
  "exec_BIT instruction context =
     (let (operand, context1) = ReadOperandValueForCurrentInstruction instruction context;
          anded = reg_a context1 AND operand;
          context2 = UpdateNegative operand context1;
          context3 = UpdateZero anded context2
      in SetOrClearOverflow (operand AND 0x40 > 0) context3)"

definition exec_BMI :: "MCS6502Instruction \<Rightarrow> 'm ctx \<Rightarrow> 'm ctx" where
  "exec_BMI instruction context =
     ExecuteConditionalBranch (IsNegativeSet context) instruction context"

definition exec_BNE :: "MCS6502Instruction \<Rightarrow> 'm ctx \<Rightarrow> 'm ctx" where
  "exec_BNE instruction context =
     ExecuteConditionalBranch (\<not> IsZeroSet context) instruction context"

definition exec_BPL :: "MCS6502Instruction \<Rightarrow> 'm ctx \<Rightarrow> 'm ctx" where
  "exec_BPL instruction context =
     ExecuteConditionalBranch (\<not> IsNegativeSet context) instruction context"

definition exec_BRK :: "MCS6502Instruction \<Rightarrow> 'm ctx \<Rightarrow> 'm ctx" where
  "exec_BRK instruction context =
     (let nextPC = reg_pc context + 2;
          context1 = PushByte (hi_byte nextPC) context;
          context2 = PushByte (lo_byte nextPC) context1;
          context3 = PushFlags True context2;
          context4 = SetInterruptDisable context3;
          (target, context5) = ReadWordAtAddress MCS6502_IRQ_BRK_vector context4
      in context5\<lparr>reg_pc := target\<rparr>)"

definition exec_BVC :: "MCS6502Instruction \<Rightarrow> 'm ctx \<Rightarrow> 'm ctx" where
  "exec_BVC instruction context =
     ExecuteConditionalBranch (\<not> IsOverflowSet context) instruction context"

definition exec_BVS :: "MCS6502Instruction \<Rightarrow> 'm ctx \<Rightarrow> 'm ctx" where
  "exec_BVS instruction context =
     ExecuteConditionalBranch (IsOverflowSet context) instruction context"

definition exec_CLC :: "MCS6502Instruction \<Rightarrow> 'm ctx \<Rightarrow> 'm ctx" where
  "exec_CLC instruction context =
     ClearCarry context"

definition exec_CLD :: "MCS6502Instruction \<Rightarrow> 'm ctx \<Rightarrow> 'm ctx" where
  "exec_CLD instruction context =
     ClearDecimal context"

definition exec_CLI :: "MCS6502Instruction \<Rightarrow> 'm ctx \<Rightarrow> 'm ctx" where
  "exec_CLI instruction context =
     ClearInterruptDisable context"

definition exec_CLV :: "MCS6502Instruction \<Rightarrow> 'm ctx \<Rightarrow> 'm ctx" where
  "exec_CLV instruction context =
     ClearOverflow context"

definition exec_CMP :: "MCS6502Instruction \<Rightarrow> 'm ctx \<Rightarrow> 'm ctx" where
  "exec_CMP instruction context =
     (let (operand, context1) = ReadOperandValueForCurrentInstruction instruction context;
          context2 = SetOrClearCarry (reg_a context1 \<ge> operand) context1;
          context3 = UpdateZero (reg_a context2 - operand) context2
      in UpdateNegative (reg_a context3 - operand) context3)"

definition exec_CPX :: "MCS6502Instruction \<Rightarrow> 'm ctx \<Rightarrow> 'm ctx" where
  "exec_CPX instruction context =
     (let (operand, context1) = ReadOperandValueForCurrentInstruction instruction context;
          context2 = SetOrClearCarry (reg_x context1 \<ge> operand) context1;
          context3 = UpdateZero (reg_x context2 - operand) context2
      in UpdateNegative (reg_x context3 - operand) context3)"

definition exec_CPY :: "MCS6502Instruction \<Rightarrow> 'm ctx \<Rightarrow> 'm ctx" where
  "exec_CPY instruction context =
     (let (operand, context1) = ReadOperandValueForCurrentInstruction instruction context;
          context2 = SetOrClearCarry (reg_y context1 \<ge> operand) context1;
          context3 = UpdateZero (reg_y context2 - operand) context2
      in UpdateNegative (reg_y context3 - operand) context3)"

definition exec_DEC :: "MCS6502Instruction \<Rightarrow> 'm ctx \<Rightarrow> 'm ctx" where
  "exec_DEC instruction context =
     (let (val, context1) = ReadOperandValueForCurrentInstruction instruction context;
          val' = val - 1;
          context2 = WriteResultForCurrentInstruction val' instruction context1
      in UpdateZeroNegative val' context2)"

definition exec_DEX :: "MCS6502Instruction \<Rightarrow> 'm ctx \<Rightarrow> 'm ctx" where
  "exec_DEX instruction context =
     (let context1 = context\<lparr>reg_x := reg_x context - 1\<rparr>
      in UpdateZeroNegative (reg_x context1) context1)"

definition exec_DEY :: "MCS6502Instruction \<Rightarrow> 'm ctx \<Rightarrow> 'm ctx" where
  "exec_DEY instruction context =
     (let context1 = context\<lparr>reg_y := reg_y context - 1\<rparr>
      in UpdateZeroNegative (reg_y context1) context1)"

definition exec_EOR :: "MCS6502Instruction \<Rightarrow> 'm ctx \<Rightarrow> 'm ctx" where
  "exec_EOR instruction context =
     (let (operand, context1) = ReadOperandValueForCurrentInstruction instruction context;
          context2 = context1\<lparr>reg_a := reg_a context1 XOR operand\<rparr>
      in UpdateZeroNegative (reg_a context2) context2)"

definition exec_INC :: "MCS6502Instruction \<Rightarrow> 'm ctx \<Rightarrow> 'm ctx" where
  "exec_INC instruction context =
     (let (val, context1) = ReadOperandValueForCurrentInstruction instruction context;
          val' = val + 1;
          context2 = WriteResultForCurrentInstruction val' instruction context1
      in UpdateZeroNegative val' context2)"

definition exec_INX :: "MCS6502Instruction \<Rightarrow> 'm ctx \<Rightarrow> 'm ctx" where
  "exec_INX instruction context =
     (let context1 = context\<lparr>reg_x := reg_x context + 1\<rparr>
      in UpdateZeroNegative (reg_x context1) context1)"

definition exec_INY :: "MCS6502Instruction \<Rightarrow> 'm ctx \<Rightarrow> 'm ctx" where
  "exec_INY instruction context =
     (let context1 = context\<lparr>reg_y := reg_y context + 1\<rparr>
      in UpdateZeroNegative (reg_y context1) context1)"

definition exec_JMP :: "MCS6502Instruction \<Rightarrow> 'm ctx \<Rightarrow> 'm ctx" where
  "exec_JMP instruction context =
     (let (addr, _, context1) = EffectiveOperandAddressForInstruction instruction context
      in context1\<lparr>reg_pc := addr\<rparr>)"

definition exec_JSR :: "MCS6502Instruction \<Rightarrow> 'm ctx \<Rightarrow> 'm ctx" where
  "exec_JSR instruction context =
     (let (destAddr, _, context1) = EffectiveOperandAddressForInstruction instruction context;
          returnAddr = reg_pc context1 + 2;
          context2 = PushByte (hi_byte returnAddr) context1;
          context3 = PushByte (lo_byte returnAddr) context2
      in context3\<lparr>reg_pc := destAddr\<rparr>)"

definition exec_LDA :: "MCS6502Instruction \<Rightarrow> 'm ctx \<Rightarrow> 'm ctx" where
  "exec_LDA instruction context =
     (let (operand, context1) = ReadOperandValueForCurrentInstruction instruction context;
          context2 = context1\<lparr>reg_a := operand\<rparr>
      in UpdateZeroNegative operand context2)"

definition exec_LDX :: "MCS6502Instruction \<Rightarrow> 'm ctx \<Rightarrow> 'm ctx" where
  "exec_LDX instruction context =
     (let (operand, context1) = ReadOperandValueForCurrentInstruction instruction context;
          context2 = context1\<lparr>reg_x := operand\<rparr>
      in UpdateZeroNegative (reg_x context2) context2)"

definition exec_LDY :: "MCS6502Instruction \<Rightarrow> 'm ctx \<Rightarrow> 'm ctx" where
  "exec_LDY instruction context =
     (let (operand, context1) = ReadOperandValueForCurrentInstruction instruction context;
          context2 = context1\<lparr>reg_y := operand\<rparr>
      in UpdateZeroNegative (reg_y context2) context2)"

definition exec_LSR :: "MCS6502Instruction \<Rightarrow> 'm ctx \<Rightarrow> 'm ctx" where
  "exec_LSR instruction context =
     (let (val, context1) = ReadOperandValueForCurrentInstruction instruction context;
          context2 = SetOrClearCarry (val AND 0x01 \<noteq> 0) context1;
          val' = drop_bit 1 val AND 0x7F;
          context3 = UpdateZero val' context2;
          context4 = ClearNegative context3
      in WriteResultForCurrentInstruction val' instruction context4)"

definition exec_NOP :: "MCS6502Instruction \<Rightarrow> 'm ctx \<Rightarrow> 'm ctx" where
  "exec_NOP instruction context =
     context"

definition exec_ORA :: "MCS6502Instruction \<Rightarrow> 'm ctx \<Rightarrow> 'm ctx" where
  "exec_ORA instruction context =
     (let (operand, context1) = ReadOperandValueForCurrentInstruction instruction context;
          context2 = context1\<lparr>reg_a := reg_a context1 OR operand\<rparr>
      in UpdateZeroNegative (reg_a context2) context2)"

definition exec_PHA :: "MCS6502Instruction \<Rightarrow> 'm ctx \<Rightarrow> 'm ctx" where
  "exec_PHA instruction context =
     PushByte (reg_a context) context"

definition exec_PHP :: "MCS6502Instruction \<Rightarrow> 'm ctx \<Rightarrow> 'm ctx" where
  "exec_PHP instruction context =
     PushFlags True context"

definition exec_PLA :: "MCS6502Instruction \<Rightarrow> 'm ctx \<Rightarrow> 'm ctx" where
  "exec_PLA instruction context =
     (let (v, context1) = PullByte context;
          context2 = context1\<lparr>reg_a := v\<rparr>
      in UpdateZeroNegative (reg_a context2) context2)"

definition exec_PLP :: "MCS6502Instruction \<Rightarrow> 'm ctx \<Rightarrow> 'm ctx" where
  "exec_PLP instruction context =
     (let (p, context1) = PullByte context
      in context1\<lparr>reg_p := p AND NOT (0x20 OR MCS6502_STATUS_B)\<rparr>)"

definition exec_ROL :: "MCS6502Instruction \<Rightarrow> 'm ctx \<Rightarrow> 'm ctx" where
  "exec_ROL instruction context =
     (let (val, context1) = ReadOperandValueForCurrentInstruction instruction context;
          initialCarry = IsCarrySet context1;
          context2 = SetOrClearCarry (val AND 0x80 > 0) context1;
          val' = (push_bit 1 val AND 0xFE) OR (if initialCarry then 0x1 else 0x0);
          context3 = WriteResultForCurrentInstruction val' instruction context2
      in UpdateZeroNegative val' context3)"

definition exec_ROR :: "MCS6502Instruction \<Rightarrow> 'm ctx \<Rightarrow> 'm ctx" where
  "exec_ROR instruction context =
     (let (val, context1) = ReadOperandValueForCurrentInstruction instruction context;
          initialCarry = IsCarrySet context1;
          context2 = SetOrClearCarry (val AND 0x01 > 0) context1;
          val' = (drop_bit 1 val AND 0x7F) OR (if initialCarry then 0x80 else 0);
          context3 = WriteResultForCurrentInstruction val' instruction context2
      in UpdateZeroNegative val' context3)"

definition exec_RTI :: "MCS6502Instruction \<Rightarrow> 'm ctx \<Rightarrow> 'm ctx" where
  "exec_RTI instruction context =
     (let (p, context1) = PullByte context;
          context2 = context1\<lparr>reg_p := p AND NOT (0x20 OR MCS6502_STATUS_B)\<rparr>;
          (lo, context3) = PullByte context2;
          (hi, context4) = PullByte context3
      in context4\<lparr>reg_pc := mk_word hi lo\<rparr>)"

definition exec_RTS :: "MCS6502Instruction \<Rightarrow> 'm ctx \<Rightarrow> 'm ctx" where
  "exec_RTS instruction context =
     (let (lo, context1) = PullByte context;
          (hi, context2) = PullByte context1
      in context2\<lparr>reg_pc := mk_word hi lo + 1\<rparr>)"

definition exec_SBC :: "MCS6502Instruction \<Rightarrow> 'm ctx \<Rightarrow> 'm ctx" where
  "exec_SBC instruction context =
     (let (operand, context1) = ReadOperandValueForCurrentInstruction instruction context
      in if \<not> IsDecimalSet context1 then
           (let operand' = NOT operand;
                carry = IsCarrySet context1;
                sum = ucast (reg_a context1) + ucast operand' + (if carry then 1 else 0) :: uint32;
                vres = sint (reg_a context1) + sint operand' + (if carry then 1 else 0);
                context2 = context1\<lparr>reg_a := ucast (sum AND 0xFF)\<rparr>;
                context3 = SetOrClearCarry (sum > 0xFF) context2;
                context4 = UpdateZeroNegative (reg_a context3) context3
            in SetOrClearOverflow (vres > 127 \<or> vres < -128) context4)
         else
           (let operandInteger = IntegerFromBCD operand;
                accInteger = IntegerFromBCD (reg_a context1);
                difference = accInteger - operandInteger - (if IsCarrySet context1 then 0 else 1);
                (difference', context2) =
                  (if difference < 0 then (difference + 100, ClearCarry context1)
                   else (difference, SetCarry context1));
                context3 = context2\<lparr>reg_a := BCDFromInteger difference'\<rparr>
            in UpdateZeroNegative (reg_a context3) context3))"

definition exec_SEC :: "MCS6502Instruction \<Rightarrow> 'm ctx \<Rightarrow> 'm ctx" where
  "exec_SEC instruction context =
     SetCarry context"

definition exec_SED :: "MCS6502Instruction \<Rightarrow> 'm ctx \<Rightarrow> 'm ctx" where
  "exec_SED instruction context =
     SetDecimal context"

definition exec_SEI :: "MCS6502Instruction \<Rightarrow> 'm ctx \<Rightarrow> 'm ctx" where
  "exec_SEI instruction context =
     SetInterruptDisable context"

definition exec_STA :: "MCS6502Instruction \<Rightarrow> 'm ctx \<Rightarrow> 'm ctx" where
  "exec_STA instruction context =
     (let (addr, _, context1) = EffectiveOperandAddressForInstruction instruction context
      in MCS6502WriteByte addr (reg_a context1) context1)"

definition exec_STX :: "MCS6502Instruction \<Rightarrow> 'm ctx \<Rightarrow> 'm ctx" where
  "exec_STX instruction context =
     (let (addr, _, context1) = EffectiveOperandAddressForInstruction instruction context
      in MCS6502WriteByte addr (reg_x context1) context1)"

definition exec_STY :: "MCS6502Instruction \<Rightarrow> 'm ctx \<Rightarrow> 'm ctx" where
  "exec_STY instruction context =
     (let (addr, _, context1) = EffectiveOperandAddressForInstruction instruction context
      in MCS6502WriteByte addr (reg_y context1) context1)"

definition exec_TAX :: "MCS6502Instruction \<Rightarrow> 'm ctx \<Rightarrow> 'm ctx" where
  "exec_TAX instruction context =
     (let context1 = context\<lparr>reg_x := reg_a context\<rparr>
      in UpdateZeroNegative (reg_x context1) context1)"

definition exec_TAY :: "MCS6502Instruction \<Rightarrow> 'm ctx \<Rightarrow> 'm ctx" where
  "exec_TAY instruction context =
     (let context1 = context\<lparr>reg_y := reg_a context\<rparr>
      in UpdateZeroNegative (reg_y context1) context1)"

definition exec_TSX :: "MCS6502Instruction \<Rightarrow> 'm ctx \<Rightarrow> 'm ctx" where
  "exec_TSX instruction context =
     (let context1 = context\<lparr>reg_x := reg_sp context\<rparr>
      in UpdateZeroNegative (reg_x context1) context1)"

definition exec_TXA :: "MCS6502Instruction \<Rightarrow> 'm ctx \<Rightarrow> 'm ctx" where
  "exec_TXA instruction context =
     (let context1 = context\<lparr>reg_a := reg_x context\<rparr>
      in UpdateZeroNegative (reg_a context1) context1)"

definition exec_TXS :: "MCS6502Instruction \<Rightarrow> 'm ctx \<Rightarrow> 'm ctx" where
  "exec_TXS instruction context =
     context\<lparr>reg_sp := reg_x context\<rparr>"

definition exec_TYA :: "MCS6502Instruction \<Rightarrow> 'm ctx \<Rightarrow> 'm ctx" where
  "exec_TYA instruction context =
     (let context1 = context\<lparr>reg_a := reg_y context\<rparr>
      in UpdateZeroNegative (reg_a context1) context1)"

section \<open>Decode and dispatch\<close>

text \<open>
  The \<^verbatim>\<open>switch (opcode)\<close> of \<^verbatim>\<open>MCS6502ExecNext\<close>: one entry per case with the source's labels, in
  source order; the boolean is the value the case gives \<^verbatim>\<open>doNotUpdatePC\<close>. An opcode
  without a label falls through with nothing done.
\<close>

definition switch_cases ::
  "(uint8 list \<times> bool \<times> (MCS6502Instruction \<Rightarrow> 'm ctx \<Rightarrow> 'm ctx)) list" where
  "switch_cases =
    [
     ([0x69, 0x65, 0x75, 0x6D, 0x7D, 0x79, 0x61, 0x71], False, exec_ADC),
     ([0x29, 0x25, 0x35, 0x2D, 0x3D, 0x39, 0x21, 0x31], False, exec_AND),
     ([0x0A, 0x06, 0x16, 0x0E, 0x1E], False, exec_ASL),
     ([0x90], True, exec_BCC),
     ([0xB0], True, exec_BCS),
     ([0xF0], True, exec_BEQ),
     ([0x24, 0x2C], False, exec_BIT),
     ([0x30], True, exec_BMI),
     ([0xD0], True, exec_BNE),
     ([0x10], True, exec_BPL),
     ([0x00], True, exec_BRK),
     ([0x50], True, exec_BVC),
     ([0x70], True, exec_BVS),
     ([0x18], False, exec_CLC),
     ([0xD8], False, exec_CLD),
     ([0x58], False, exec_CLI),
     ([0xB8], False, exec_CLV),
     ([0xC9, 0xC5, 0xD5, 0xCD, 0xDD, 0xD9, 0xC1, 0xD1], False, exec_CMP),
     ([0xE0, 0xE4, 0xEC], False, exec_CPX),
     ([0xC0, 0xC4, 0xCC], False, exec_CPY),
     ([0xC6, 0xD6, 0xCE, 0xDE], False, exec_DEC),
     ([0xCA], False, exec_DEX),
     ([0x88], False, exec_DEY),
     ([0x49, 0x45, 0x55, 0x4D, 0x5D, 0x59, 0x41, 0x51], False, exec_EOR),
     ([0xE6, 0xF6, 0xEE, 0xFE], False, exec_INC),
     ([0xE8], False, exec_INX),
     ([0xC8], False, exec_INY),
     ([0x4C, 0x6C], True, exec_JMP),
     ([0x20], True, exec_JSR),
     ([0xA9, 0xA5, 0xB5, 0xAD, 0xBD, 0xB9, 0xA1, 0xB1], False, exec_LDA),
     ([0xA2, 0xA6, 0xB6, 0xAE, 0xBE], False, exec_LDX),
     ([0xA0, 0xA4, 0xB4, 0xAC, 0xBC], False, exec_LDY),
     ([0x4A, 0x46, 0x56, 0x4E, 0x5E], False, exec_LSR),
     ([0xEA], False, exec_NOP),
     ([0x09, 0x05, 0x15, 0x0D, 0x1D, 0x19, 0x01, 0x11], False, exec_ORA),
     ([0x48], False, exec_PHA),
     ([0x08], False, exec_PHP),
     ([0x68], False, exec_PLA),
     ([0x28], False, exec_PLP),
     ([0x2A, 0x26, 0x36, 0x2E, 0x3E], False, exec_ROL),
     ([0x6A, 0x66, 0x76, 0x6E, 0x7E], False, exec_ROR),
     ([0x40], True, exec_RTI),
     ([0x60], True, exec_RTS),
     ([0xE9, 0xE5, 0xF5, 0xED, 0xFD, 0xF9, 0xE1, 0xF1], False, exec_SBC),
     ([0x38], False, exec_SEC),
     ([0xF8], False, exec_SED),
     ([0x78], False, exec_SEI),
     ([0x85, 0x95, 0x8D, 0x9D, 0x99, 0x81, 0x91], False, exec_STA),
     ([0x86, 0x96, 0x8E], False, exec_STX),
     ([0x84, 0x94, 0x8C], False, exec_STY),
     ([0xAA], False, exec_TAX),
     ([0xA8], False, exec_TAY),
     ([0xBA], False, exec_TSX),
     ([0x8A], False, exec_TXA),
     ([0x9A], False, exec_TXS),
     ([0x98], False, exec_TYA)
    ]"

definition exec_switch ::
  "uint8 \<Rightarrow> MCS6502Instruction \<Rightarrow> 'm ctx \<Rightarrow> bool \<times> 'm ctx" where
  "exec_switch opc instruction context =
    (case find (\<lambda>(labels, _). opc \<in> set labels) switch_cases of
       Some (_, doNotUpdatePC, body) \<Rightarrow> (doNotUpdatePC, body instruction context)
     | None \<Rightarrow> (False, context))"

definition MCS6502ExecNext :: "'m ctx \<Rightarrow> MCS6502ExecResult \<times> 'm ctx" where
  "MCS6502ExecNext context0 =
    (let context = context0\<lparr>pendingTiming := 0, timingForLastOperation := 0\<rparr>
     in if nmiPending context then (MCS6502ExecResultRunning, HandleNMI context)
        else if irqPending context then (MCS6502ExecResultRunning, HandleIRQ context)
        else
          (let (opc, context1) = MCS6502ReadByte (reg_pc context) context
           in case MCS6502OpcodeTable opc of
                None \<Rightarrow> (MCS6502ExecResultInvalidOperation, context1)
              | Some instruction \<Rightarrow>
                  (let originalPC = reg_pc context1;
                       (doNotUpdatePC, context2) = exec_switch opc instruction context1;
                       context3 =
                         (if \<not> doNotUpdatePC
                          then context2\<lparr>reg_pc := reg_pc context2 + LengthForInstruction instruction\<rparr>
                          else context2);
                       context4 = context3\<lparr>timingForLastOperation :=
                         timingForLastOperation context3 + timing instruction\<rparr>
                   in if originalPC = reg_pc context4
                      then (MCS6502ExecResultHalting, context4)
                      else (MCS6502ExecResultRunning, context4))))"

section \<open>Public entry points\<close>

text \<open>
  \<open>MCS6502Init\<close> blanks the context and installs the bus; the opcode table it fills is the
  constant \<open>MCS6502OpcodeTable\<close>.
\<close>

definition MCS6502Init ::
  "(uint16 \<Rightarrow> 'm \<Rightarrow> uint8 \<times> 'm) \<Rightarrow> (uint16 \<Rightarrow> uint8 \<Rightarrow> 'm \<Rightarrow> 'm) \<Rightarrow> 'm \<Rightarrow> 'm ctx" where
  "MCS6502Init readByteFn writeByteFn m =
     \<lparr>reg_a = 0, reg_x = 0, reg_y = 0, reg_sp = 0, reg_pc = 0, reg_p = 0,
      pendingTiming = 0, timingForLastOperation = 0, irqPending = False, nmiPending = False,
      readByte = readByteFn, writeByte = writeByteFn, readWriteContext = m\<rparr>"

definition MCS6502Reset :: "'m ctx \<Rightarrow> 'm ctx" where
  "MCS6502Reset context =
     (let context1 = context\<lparr>reg_a := 0, reg_x := 0, reg_y := 0, reg_p := MCS6502_STATUS_I,
            reg_sp := 0xFD\<rparr>;
          (target, context2) = ReadWordAtAddress MCS6502_RESET_vector context1
      in context2\<lparr>reg_pc := target\<rparr>)"

definition MCS6502IRQ :: "'m ctx \<Rightarrow> 'm ctx" where
  "MCS6502IRQ context =
     (if IsInterruptDisableSet context then context
      else if pendingTiming context > 0 then context\<lparr>irqPending := True\<rparr>
      else
        (let context1 = HandleIRQ context
         in context1\<lparr>pendingTiming := timingForLastOperation context1\<rparr>))"

definition MCS6502NMI :: "'m ctx \<Rightarrow> 'm ctx" where
  "MCS6502NMI context =
     (if pendingTiming context > 0 then context\<lparr>nmiPending := True\<rparr>
      else
        (let context1 = HandleNMI context
         in context1\<lparr>pendingTiming := timingForLastOperation context1\<rparr>))"

definition MCS6502Tick :: "'m ctx \<Rightarrow> MCS6502ExecResult \<times> 'm ctx" where
  "MCS6502Tick context =
     (if pendingTiming context > 0
      then (MCS6502ExecResultRunning, context\<lparr>pendingTiming := pendingTiming context - 1\<rparr>)
      else
        (let (result, context1) = MCS6502ExecNext context;
             context2 = context1\<lparr>pendingTiming := timingForLastOperation context1\<rparr>
         in (result, context2\<lparr>pendingTiming := pendingTiming context2 - 1\<rparr>)))"

end
