(* ===== verification/MCS6502_Laws.thy ===== *)
theory MCS6502_Laws
  imports MCS6502_Exec
begin

text \<open>
  What the processor's routines leave alone and what they promise: frame lemmas for the
  helper routines, the bits of the status register after a flag update, two interfaces to
  the memory behind the bus (\<open>bus_invariant\<close>: a property of the memory that reads and writes
  keep; \<open>stack_bus\<close>: a stack page that behaves as memory), and the lemmas about single
  instructions and whole steps that follow from them for every memory.
\<close>

section \<open>Frame lemmas\<close>

text \<open>A flag update changes the status register only.\<close>

lemma SetOrClearCarry_frame [simp]:
  "reg_a (SetOrClearCarry b context) = reg_a context"
  "reg_x (SetOrClearCarry b context) = reg_x context"
  "reg_y (SetOrClearCarry b context) = reg_y context"
  "reg_sp (SetOrClearCarry b context) = reg_sp context"
  "reg_pc (SetOrClearCarry b context) = reg_pc context"
  "pendingTiming (SetOrClearCarry b context) = pendingTiming context"
  "timingForLastOperation (SetOrClearCarry b context) = timingForLastOperation context"
  "irqPending (SetOrClearCarry b context) = irqPending context"
  "nmiPending (SetOrClearCarry b context) = nmiPending context"
  "readByte (SetOrClearCarry b context) = readByte context"
  "writeByte (SetOrClearCarry b context) = writeByte context"
  "readWriteContext (SetOrClearCarry b context) = readWriteContext context"
  by (simp_all add: cpu_defs)

lemma SetOrClearOverflow_frame [simp]:
  "reg_a (SetOrClearOverflow b context) = reg_a context"
  "reg_x (SetOrClearOverflow b context) = reg_x context"
  "reg_y (SetOrClearOverflow b context) = reg_y context"
  "reg_sp (SetOrClearOverflow b context) = reg_sp context"
  "reg_pc (SetOrClearOverflow b context) = reg_pc context"
  "pendingTiming (SetOrClearOverflow b context) = pendingTiming context"
  "timingForLastOperation (SetOrClearOverflow b context) = timingForLastOperation context"
  "irqPending (SetOrClearOverflow b context) = irqPending context"
  "nmiPending (SetOrClearOverflow b context) = nmiPending context"
  "readByte (SetOrClearOverflow b context) = readByte context"
  "writeByte (SetOrClearOverflow b context) = writeByte context"
  "readWriteContext (SetOrClearOverflow b context) = readWriteContext context"
  by (simp_all add: cpu_defs)

lemma UpdateZero_frame [simp]:
  "reg_a (UpdateZero v context) = reg_a context"
  "reg_x (UpdateZero v context) = reg_x context"
  "reg_y (UpdateZero v context) = reg_y context"
  "reg_sp (UpdateZero v context) = reg_sp context"
  "reg_pc (UpdateZero v context) = reg_pc context"
  "pendingTiming (UpdateZero v context) = pendingTiming context"
  "timingForLastOperation (UpdateZero v context) = timingForLastOperation context"
  "irqPending (UpdateZero v context) = irqPending context"
  "nmiPending (UpdateZero v context) = nmiPending context"
  "readByte (UpdateZero v context) = readByte context"
  "writeByte (UpdateZero v context) = writeByte context"
  "readWriteContext (UpdateZero v context) = readWriteContext context"
  by (simp_all add: cpu_defs)

lemma UpdateNegative_frame [simp]:
  "reg_a (UpdateNegative v context) = reg_a context"
  "reg_x (UpdateNegative v context) = reg_x context"
  "reg_y (UpdateNegative v context) = reg_y context"
  "reg_sp (UpdateNegative v context) = reg_sp context"
  "reg_pc (UpdateNegative v context) = reg_pc context"
  "pendingTiming (UpdateNegative v context) = pendingTiming context"
  "timingForLastOperation (UpdateNegative v context) = timingForLastOperation context"
  "irqPending (UpdateNegative v context) = irqPending context"
  "nmiPending (UpdateNegative v context) = nmiPending context"
  "readByte (UpdateNegative v context) = readByte context"
  "writeByte (UpdateNegative v context) = writeByte context"
  "readWriteContext (UpdateNegative v context) = readWriteContext context"
  by (simp_all add: cpu_defs)

lemma UpdateZeroNegative_frame [simp]:
  "reg_a (UpdateZeroNegative v context) = reg_a context"
  "reg_x (UpdateZeroNegative v context) = reg_x context"
  "reg_y (UpdateZeroNegative v context) = reg_y context"
  "reg_sp (UpdateZeroNegative v context) = reg_sp context"
  "reg_pc (UpdateZeroNegative v context) = reg_pc context"
  "pendingTiming (UpdateZeroNegative v context) = pendingTiming context"
  "timingForLastOperation (UpdateZeroNegative v context) = timingForLastOperation context"
  "irqPending (UpdateZeroNegative v context) = irqPending context"
  "nmiPending (UpdateZeroNegative v context) = nmiPending context"
  "readByte (UpdateZeroNegative v context) = readByte context"
  "writeByte (UpdateZeroNegative v context) = writeByte context"
  "readWriteContext (UpdateZeroNegative v context) = readWriteContext context"
  by (simp_all add: cpu_defs)

lemma SetInterruptDisable_frame [simp]:
  "reg_a (SetInterruptDisable context) = reg_a context"
  "reg_x (SetInterruptDisable context) = reg_x context"
  "reg_y (SetInterruptDisable context) = reg_y context"
  "reg_sp (SetInterruptDisable context) = reg_sp context"
  "reg_pc (SetInterruptDisable context) = reg_pc context"
  "pendingTiming (SetInterruptDisable context) = pendingTiming context"
  "timingForLastOperation (SetInterruptDisable context) = timingForLastOperation context"
  "irqPending (SetInterruptDisable context) = irqPending context"
  "nmiPending (SetInterruptDisable context) = nmiPending context"
  "readByte (SetInterruptDisable context) = readByte context"
  "writeByte (SetInterruptDisable context) = writeByte context"
  "readWriteContext (SetInterruptDisable context) = readWriteContext context"
  by (simp_all add: cpu_defs)

lemma ReadByte_frame [simp]:
  "reg_a (snd (MCS6502ReadByte addr context)) = reg_a context"
  "reg_x (snd (MCS6502ReadByte addr context)) = reg_x context"
  "reg_y (snd (MCS6502ReadByte addr context)) = reg_y context"
  "reg_sp (snd (MCS6502ReadByte addr context)) = reg_sp context"
  "reg_pc (snd (MCS6502ReadByte addr context)) = reg_pc context"
  "reg_p (snd (MCS6502ReadByte addr context)) = reg_p context"
  "pendingTiming (snd (MCS6502ReadByte addr context)) = pendingTiming context"
  "timingForLastOperation (snd (MCS6502ReadByte addr context)) = timingForLastOperation context"
  "irqPending (snd (MCS6502ReadByte addr context)) = irqPending context"
  "nmiPending (snd (MCS6502ReadByte addr context)) = nmiPending context"
  "readByte (snd (MCS6502ReadByte addr context)) = readByte context"
  "writeByte (snd (MCS6502ReadByte addr context)) = writeByte context"
  by (simp_all add: MCS6502ReadByte_def split_beta)

lemma WriteByte_frame [simp]:
  "reg_a (MCS6502WriteByte addr v context) = reg_a context"
  "reg_x (MCS6502WriteByte addr v context) = reg_x context"
  "reg_y (MCS6502WriteByte addr v context) = reg_y context"
  "reg_sp (MCS6502WriteByte addr v context) = reg_sp context"
  "reg_pc (MCS6502WriteByte addr v context) = reg_pc context"
  "reg_p (MCS6502WriteByte addr v context) = reg_p context"
  "pendingTiming (MCS6502WriteByte addr v context) = pendingTiming context"
  "timingForLastOperation (MCS6502WriteByte addr v context) = timingForLastOperation context"
  "irqPending (MCS6502WriteByte addr v context) = irqPending context"
  "nmiPending (MCS6502WriteByte addr v context) = nmiPending context"
  "readByte (MCS6502WriteByte addr v context) = readByte context"
  "writeByte (MCS6502WriteByte addr v context) = writeByte context"
  by (simp_all add: MCS6502WriteByte_def)

lemma PushByte_frame [simp]:
  "reg_a (PushByte v context) = reg_a context"
  "reg_x (PushByte v context) = reg_x context"
  "reg_y (PushByte v context) = reg_y context"
  "reg_pc (PushByte v context) = reg_pc context"
  "reg_p (PushByte v context) = reg_p context"
  "pendingTiming (PushByte v context) = pendingTiming context"
  "timingForLastOperation (PushByte v context) = timingForLastOperation context"
  "irqPending (PushByte v context) = irqPending context"
  "nmiPending (PushByte v context) = nmiPending context"
  "readByte (PushByte v context) = readByte context"
  "writeByte (PushByte v context) = writeByte context"
  by (simp_all add: PushByte_def Let_def)

lemma PushFlags_frame [simp]:
  "reg_a (PushFlags b context) = reg_a context"
  "reg_x (PushFlags b context) = reg_x context"
  "reg_y (PushFlags b context) = reg_y context"
  "reg_pc (PushFlags b context) = reg_pc context"
  "reg_p (PushFlags b context) = reg_p context"
  "pendingTiming (PushFlags b context) = pendingTiming context"
  "timingForLastOperation (PushFlags b context) = timingForLastOperation context"
  "irqPending (PushFlags b context) = irqPending context"
  "nmiPending (PushFlags b context) = nmiPending context"
  "readByte (PushFlags b context) = readByte context"
  "writeByte (PushFlags b context) = writeByte context"
  by (simp_all add: PushFlags_def Let_def)

lemma PullByte_frame [simp]:
  "reg_a (snd (PullByte context)) = reg_a context"
  "reg_x (snd (PullByte context)) = reg_x context"
  "reg_y (snd (PullByte context)) = reg_y context"
  "reg_pc (snd (PullByte context)) = reg_pc context"
  "reg_p (snd (PullByte context)) = reg_p context"
  "pendingTiming (snd (PullByte context)) = pendingTiming context"
  "timingForLastOperation (snd (PullByte context)) = timingForLastOperation context"
  "irqPending (snd (PullByte context)) = irqPending context"
  "nmiPending (snd (PullByte context)) = nmiPending context"
  "readByte (snd (PullByte context)) = readByte context"
  "writeByte (snd (PullByte context)) = writeByte context"
  by (simp_all add: PullByte_def Let_def)

lemma stack_sp [simp]:
  "reg_sp (PushByte v context) = reg_sp context - 1"
  "reg_sp (PushFlags b context) = reg_sp context - 1"
  "reg_sp (snd (PullByte context)) = reg_sp context + 1"
  by (simp_all add: PushByte_def PushFlags_def PullByte_def Let_def)

lemma ReadWord_frame [simp]:
  "reg_a (snd (ReadWordAtAddress addr context)) = reg_a context"
  "reg_x (snd (ReadWordAtAddress addr context)) = reg_x context"
  "reg_y (snd (ReadWordAtAddress addr context)) = reg_y context"
  "reg_sp (snd (ReadWordAtAddress addr context)) = reg_sp context"
  "reg_pc (snd (ReadWordAtAddress addr context)) = reg_pc context"
  "reg_p (snd (ReadWordAtAddress addr context)) = reg_p context"
  "pendingTiming (snd (ReadWordAtAddress addr context)) = pendingTiming context"
  "timingForLastOperation (snd (ReadWordAtAddress addr context)) = timingForLastOperation context"
  "irqPending (snd (ReadWordAtAddress addr context)) = irqPending context"
  "nmiPending (snd (ReadWordAtAddress addr context)) = nmiPending context"
  "readByte (snd (ReadWordAtAddress addr context)) = readByte context"
  "writeByte (snd (ReadWordAtAddress addr context)) = writeByte context"
  by (simp_all add: ReadWordAtAddress_def split_beta Let_def)

lemma EffectiveAddress_frame [simp]:
  "reg_a (snd (snd (EffectiveOperandAddressForInstruction instruction context))) = reg_a context"
  "reg_x (snd (snd (EffectiveOperandAddressForInstruction instruction context))) = reg_x context"
  "reg_y (snd (snd (EffectiveOperandAddressForInstruction instruction context))) = reg_y context"
  "reg_sp (snd (snd (EffectiveOperandAddressForInstruction instruction context))) = reg_sp context"
  "reg_pc (snd (snd (EffectiveOperandAddressForInstruction instruction context))) = reg_pc context"
  "reg_p (snd (snd (EffectiveOperandAddressForInstruction instruction context))) = reg_p context"
  "pendingTiming (snd (snd (EffectiveOperandAddressForInstruction instruction context))) = pendingTiming context"
  "timingForLastOperation (snd (snd (EffectiveOperandAddressForInstruction instruction context))) = timingForLastOperation context"
  "irqPending (snd (snd (EffectiveOperandAddressForInstruction instruction context))) = irqPending context"
  "nmiPending (snd (snd (EffectiveOperandAddressForInstruction instruction context))) = nmiPending context"
  "readByte (snd (snd (EffectiveOperandAddressForInstruction instruction context))) = readByte context"
  "writeByte (snd (snd (EffectiveOperandAddressForInstruction instruction context))) = writeByte context"
  by (simp_all add: EffectiveOperandAddressForInstruction_def split_beta Let_def
      split: MCS6502AddressingMode.split)

lemma ReadOperand_frame [simp]:
  "reg_a (snd (ReadOperandValueForCurrentInstruction instruction context)) = reg_a context"
  "reg_x (snd (ReadOperandValueForCurrentInstruction instruction context)) = reg_x context"
  "reg_y (snd (ReadOperandValueForCurrentInstruction instruction context)) = reg_y context"
  "reg_sp (snd (ReadOperandValueForCurrentInstruction instruction context)) = reg_sp context"
  "reg_pc (snd (ReadOperandValueForCurrentInstruction instruction context)) = reg_pc context"
  "reg_p (snd (ReadOperandValueForCurrentInstruction instruction context)) = reg_p context"
  "pendingTiming (snd (ReadOperandValueForCurrentInstruction instruction context)) = pendingTiming context"
  "irqPending (snd (ReadOperandValueForCurrentInstruction instruction context)) = irqPending context"
  "nmiPending (snd (ReadOperandValueForCurrentInstruction instruction context)) = nmiPending context"
  "readByte (snd (ReadOperandValueForCurrentInstruction instruction context)) = readByte context"
  "writeByte (snd (ReadOperandValueForCurrentInstruction instruction context)) = writeByte context"
  by (simp_all add: ReadOperandValueForCurrentInstruction_def split_beta Let_def)

lemma ReadOperand_timing:
  "timingForLastOperation (snd (ReadOperandValueForCurrentInstruction instruction context))
     = timingForLastOperation context \<or>
   timingAddOne instruction \<and>
   timingForLastOperation (snd (ReadOperandValueForCurrentInstruction instruction context))
     = timingForLastOperation context + 1"
  by (simp add: ReadOperandValueForCurrentInstruction_def split_beta Let_def)

lemma WriteResult_frame [simp]:
  "reg_x (WriteResultForCurrentInstruction v instruction context) = reg_x context"
  "reg_y (WriteResultForCurrentInstruction v instruction context) = reg_y context"
  "reg_sp (WriteResultForCurrentInstruction v instruction context) = reg_sp context"
  "reg_pc (WriteResultForCurrentInstruction v instruction context) = reg_pc context"
  "reg_p (WriteResultForCurrentInstruction v instruction context) = reg_p context"
  "pendingTiming (WriteResultForCurrentInstruction v instruction context) = pendingTiming context"
  "timingForLastOperation (WriteResultForCurrentInstruction v instruction context) = timingForLastOperation context"
  "irqPending (WriteResultForCurrentInstruction v instruction context) = irqPending context"
  "nmiPending (WriteResultForCurrentInstruction v instruction context) = nmiPending context"
  "readByte (WriteResultForCurrentInstruction v instruction context) = readByte context"
  "writeByte (WriteResultForCurrentInstruction v instruction context) = writeByte context"
  by (simp_all add: WriteResultForCurrentInstruction_def split_beta Let_def)

lemmas single_flag_defs =
  SetCarry_def ClearCarry_def SetDecimal_def ClearDecimal_def ClearOverflow_def
  ClearNegative_def ClearInterruptDisable_def

lemmas exec_defs =
  exec_ADC_def exec_AND_def exec_ASL_def exec_BCC_def exec_BCS_def exec_BEQ_def exec_BIT_def
  exec_BMI_def exec_BNE_def exec_BPL_def exec_BRK_def exec_BVC_def exec_BVS_def exec_CLC_def
  exec_CLD_def exec_CLI_def exec_CLV_def exec_CMP_def exec_CPX_def exec_CPY_def exec_DEC_def
  exec_DEX_def exec_DEY_def exec_EOR_def exec_INC_def exec_INX_def exec_INY_def exec_JMP_def
  exec_JSR_def exec_LDA_def exec_LDX_def exec_LDY_def exec_LSR_def exec_NOP_def exec_ORA_def
  exec_PHA_def exec_PHP_def exec_PLA_def exec_PLP_def exec_ROL_def exec_ROR_def exec_RTI_def
  exec_RTS_def exec_SBC_def exec_SEC_def exec_SED_def exec_SEI_def exec_STA_def exec_STX_def
  exec_STY_def exec_TAX_def exec_TAY_def exec_TSX_def exec_TXA_def exec_TXS_def exec_TYA_def

lemmas branch_defs =
  exec_BCC_def exec_BCS_def exec_BEQ_def exec_BMI_def exec_BNE_def exec_BPL_def exec_BVC_def
  exec_BVS_def
  ExecuteConditionalBranch_def

section \<open>Bits of the status register\<close>

lemma flag_tests:
  "IsCarrySet context \<longleftrightarrow> bit (reg_p context) 0"
  "IsZeroSet context \<longleftrightarrow> bit (reg_p context) 1"
  "IsInterruptDisableSet context \<longleftrightarrow> bit (reg_p context) 2"
  "IsDecimalSet context \<longleftrightarrow> bit (reg_p context) 3"
  "IsOverflowSet context \<longleftrightarrow> bit (reg_p context) 6"
  "IsNegativeSet context \<longleftrightarrow> bit (reg_p context) 7"
  by (simp_all add: cpu_defs byte_bits)

lemma bit_p_update [flag_bits]:
  "bit (reg_p (SetOrClearCarry b context)) n = (if n = 0 then b else bit (reg_p context) n)"
  "bit (reg_p (SetOrClearOverflow b context)) n = (if n = 6 then b else bit (reg_p context) n)"
  "bit (reg_p (UpdateZero v context)) n = (if n = 1 then v = 0 else bit (reg_p context) n)"
  "bit (reg_p (UpdateNegative v context)) n = (if n = 7 then bit v 7 else bit (reg_p context) n)"
  "bit (reg_p (UpdateZeroNegative v context)) n =
     (if n = 1 then v = 0 else if n = 7 then bit v 7 else bit (reg_p context) n)"
  "bit (reg_p (SetInterruptDisable context)) n = (n = 2 \<or> bit (reg_p context) n)"
  "bit (reg_p (ClearInterruptDisable context)) n = (n \<noteq> 2 \<and> bit (reg_p context) n)"
  "bit (reg_p (SetCarry context)) n = (n = 0 \<or> bit (reg_p context) n)"
  "bit (reg_p (ClearCarry context)) n = (n \<noteq> 0 \<and> bit (reg_p context) n)"
  "bit (reg_p (SetDecimal context)) n = (n = 3 \<or> bit (reg_p context) n)"
  "bit (reg_p (ClearDecimal context)) n = (n \<noteq> 3 \<and> bit (reg_p context) n)"
  "bit (reg_p (ClearOverflow context)) n = (n \<noteq> 6 \<and> bit (reg_p context) n)"
  "bit (reg_p (ClearNegative context)) n = (n \<noteq> 7 \<and> bit (reg_p context) n)"
  by (auto simp: cpu_defs byte_bits bit_simps dest: bit_imp_le_length)

lemma pulled_p_bit [flag_bits]:
  "bit ((p :: uint8) AND NOT (0x20 OR MCS6502_STATUS_B)) n \<longleftrightarrow> bit p n \<and> n \<noteq> 4 \<and> n \<noteq> 5"
  by (auto simp: bit_simps byte_bits dest: bit_imp_le_length)

section \<open>Reasoning over all cases of the switch\<close>

text \<open>
  What every case of the switch keeps, the switch keeps: an opcode without a label leaves
  the context as it is.
\<close>

lemma switch_rule:
  assumes "list_all (\<lambda>(_, _, body). \<forall>i c. P c \<longrightarrow> P (body i c)) switch_cases" and "P c"
  shows "P (snd (exec_switch opc i c))"
  using assms
  by (auto simp: exec_switch_def list_all_iff split: option.split dest!: find_SomeD)

section \<open>A property of the memory that bus accesses keep\<close>

text \<open>
  \<open>on_bus rd wr I context\<close>: the context talks to the memory through \<open>rd\<close> and \<open>wr\<close>, and the
  memory satisfies \<open>I\<close>. The interface \<open>bus_invariant\<close> promises that single bus accesses keep
  \<open>I\<close>; every routine of the processor then keeps \<open>on_bus\<close>.
\<close>

definition on_bus ::
  "(uint16 \<Rightarrow> 'm \<Rightarrow> uint8 \<times> 'm) \<Rightarrow> (uint16 \<Rightarrow> uint8 \<Rightarrow> 'm \<Rightarrow> 'm) \<Rightarrow> ('m \<Rightarrow> bool) \<Rightarrow> 'm ctx \<Rightarrow> bool"
where
  "on_bus rd wr I context \<longleftrightarrow>
     readByte context = rd \<and> writeByte context = wr \<and> I (readWriteContext context)"

lemma on_bus_regs [simp]:
  "on_bus rd wr I (context\<lparr>reg_a := v0\<rparr>) = on_bus rd wr I context"
  "on_bus rd wr I (context\<lparr>reg_x := v1\<rparr>) = on_bus rd wr I context"
  "on_bus rd wr I (context\<lparr>reg_y := v2\<rparr>) = on_bus rd wr I context"
  "on_bus rd wr I (context\<lparr>reg_sp := v3\<rparr>) = on_bus rd wr I context"
  "on_bus rd wr I (context\<lparr>reg_pc := v4\<rparr>) = on_bus rd wr I context"
  "on_bus rd wr I (context\<lparr>reg_p := v5\<rparr>) = on_bus rd wr I context"
  "on_bus rd wr I (context\<lparr>pendingTiming := v6\<rparr>) = on_bus rd wr I context"
  "on_bus rd wr I (context\<lparr>timingForLastOperation := v7\<rparr>) = on_bus rd wr I context"
  "on_bus rd wr I (context\<lparr>irqPending := v8\<rparr>) = on_bus rd wr I context"
  "on_bus rd wr I (context\<lparr>nmiPending := v9\<rparr>) = on_bus rd wr I context"
  by (simp_all add: on_bus_def)

lemma on_bus_flags [simp]:
  "on_bus rd wr I (SetOrClearCarry b context) = on_bus rd wr I context"
  "on_bus rd wr I (SetOrClearOverflow b context) = on_bus rd wr I context"
  "on_bus rd wr I (UpdateZero u context) = on_bus rd wr I context"
  "on_bus rd wr I (UpdateNegative u context) = on_bus rd wr I context"
  "on_bus rd wr I (UpdateZeroNegative u context) = on_bus rd wr I context"
  "on_bus rd wr I (SetInterruptDisable context) = on_bus rd wr I context"
  "on_bus rd wr I (ClearInterruptDisable context) = on_bus rd wr I context"
  "on_bus rd wr I (SetCarry context) = on_bus rd wr I context"
  "on_bus rd wr I (ClearCarry context) = on_bus rd wr I context"
  "on_bus rd wr I (SetDecimal context) = on_bus rd wr I context"
  "on_bus rd wr I (ClearDecimal context) = on_bus rd wr I context"
  "on_bus rd wr I (ClearOverflow context) = on_bus rd wr I context"
  "on_bus rd wr I (ClearNegative context) = on_bus rd wr I context"
  by (simp_all add: cpu_defs)

locale bus_invariant =
  fixes rd :: "uint16 \<Rightarrow> 'm \<Rightarrow> uint8 \<times> 'm"
    and wr :: "uint16 \<Rightarrow> uint8 \<Rightarrow> 'm \<Rightarrow> 'm"
    and I :: "'m \<Rightarrow> bool"
  assumes rd_keeps: "I m \<Longrightarrow> I (snd (rd a m))"
    and wr_keeps: "I m \<Longrightarrow> I (wr a v m)"
begin

lemma ReadByte_on_bus [simp]:
  "on_bus rd wr I c \<Longrightarrow> on_bus rd wr I (snd (MCS6502ReadByte a c))"
  by (simp add: on_bus_def MCS6502ReadByte_def split_beta rd_keeps)

lemma WriteByte_on_bus [simp]:
  "on_bus rd wr I c \<Longrightarrow> on_bus rd wr I (MCS6502WriteByte a v c)"
  by (simp add: on_bus_def MCS6502WriteByte_def wr_keeps)

lemma stack_on_bus [simp]:
  "on_bus rd wr I c \<Longrightarrow> on_bus rd wr I (PushByte v c)"
  "on_bus rd wr I c \<Longrightarrow> on_bus rd wr I (PushFlags b c)"
  "on_bus rd wr I c \<Longrightarrow> on_bus rd wr I (snd (PullByte c))"
  "on_bus rd wr I c \<Longrightarrow> on_bus rd wr I (snd (ReadWordAtAddress a c))"
  by (simp_all add: PushByte_def PushFlags_def PullByte_def ReadWordAtAddress_def Let_def split_beta)

lemma operand_on_bus [simp]:
  "on_bus rd wr I c \<Longrightarrow> on_bus rd wr I (snd (snd (EffectiveOperandAddressForInstruction i c)))"
  "on_bus rd wr I c \<Longrightarrow> on_bus rd wr I (snd (ReadOperandValueForCurrentInstruction i c))"
  "on_bus rd wr I c \<Longrightarrow> on_bus rd wr I (WriteResultForCurrentInstruction v i c)"
  "on_bus rd wr I c \<Longrightarrow> on_bus rd wr I (ExecuteConditionalBranch b i c)"
  by (simp_all add: EffectiveOperandAddressForInstruction_def ReadOperandValueForCurrentInstruction_def
      WriteResultForCurrentInstruction_def ExecuteConditionalBranch_def Let_def split_beta
      split: MCS6502AddressingMode.split)

lemma interrupt_on_bus [simp]:
  "on_bus rd wr I c \<Longrightarrow> on_bus rd wr I (HandleIRQ c)"
  "on_bus rd wr I c \<Longrightarrow> on_bus rd wr I (HandleNMI c)"
  by (simp_all add: HandleIRQ_def HandleNMI_def Let_def split_beta)

lemma cases_on_bus:
  "list_all (\<lambda>(_, _, body). \<forall>i c. on_bus rd wr I c \<longrightarrow> on_bus rd wr I (body i c)) switch_cases"
  by (simp add: switch_cases_def exec_defs Let_def split_beta)

lemma switch_on_bus [simp]:
  "on_bus rd wr I c \<Longrightarrow> on_bus rd wr I (snd (exec_switch opc i c))"
  by (rule switch_rule [where P = "on_bus rd wr I"]) (use cases_on_bus in auto)

lemma ExecNext_on_bus:
  "on_bus rd wr I c \<Longrightarrow> on_bus rd wr I (snd (MCS6502ExecNext c))"
  by (simp add: MCS6502ExecNext_def Let_def split_beta split: option.split)

lemma entry_on_bus:
  "on_bus rd wr I c \<Longrightarrow> on_bus rd wr I (MCS6502IRQ c)"
  "on_bus rd wr I c \<Longrightarrow> on_bus rd wr I (MCS6502NMI c)"
  "on_bus rd wr I c \<Longrightarrow> on_bus rd wr I (MCS6502Reset c)"
  "on_bus rd wr I c \<Longrightarrow> on_bus rd wr I (snd (MCS6502Tick c))"
  using ExecNext_on_bus [of c]
  by (simp_all add: MCS6502IRQ_def MCS6502NMI_def MCS6502Reset_def MCS6502Tick_def Let_def split_beta)

end

section \<open>A stack page that behaves as memory\<close>

text \<open>
  The interface \<open>stack_bus\<close>: while \<open>ok\<close> holds of the memory, the bytes of page 1 are ordinary
  storage (\<open>peek m s\<close> is the byte at stack position \<open>s\<close>), and no read changes them.
\<close>

lemma stacked_p:
  fixes p :: uint8
  assumes "\<not> bit p 4" and "\<not> bit p 5"
  shows "((p OR 0x20) AND - 17) AND - 49 = p" and "((p OR 0x20) OR 0x10) AND - 49 = p"
  subgoal by (rule bit_word_eqI) (use assms in \<open>auto simp: bit_simps byte_bits\<close>)
  subgoal by (rule bit_word_eqI) (use assms in \<open>auto simp: bit_simps byte_bits\<close>)
  done

lemma word8_offsets:
  fixes s :: uint8
  shows "s - 3 + 1 = s - 2" "s - 3 + 2 = s - 1" "s - 3 + 3 = s" "s - 2 + 1 = s - 1" "s - 2 + 2 = s"
    "s - 1 \<noteq> s" "s - 2 \<noteq> s" "s - 2 \<noteq> s - 1" "s \<noteq> s - 1" "s \<noteq> s - 2" "s - 1 \<noteq> s - 2"
  by (simp_all add: algebra_simps)

locale stack_bus =
  fixes rd :: "uint16 \<Rightarrow> 'm \<Rightarrow> uint8 \<times> 'm"
    and wr :: "uint16 \<Rightarrow> uint8 \<Rightarrow> 'm \<Rightarrow> 'm"
    and ok :: "'m \<Rightarrow> bool"
    and peek :: "'m \<Rightarrow> uint8 \<Rightarrow> uint8"
  assumes rd_stack: "ok m \<Longrightarrow> rd (0x0100 + ucast s) m = (peek m s, m)"
    and wr_stack_ok: "ok m \<Longrightarrow> ok (wr (0x0100 + ucast s) v m)"
    and wr_stack: "ok m \<Longrightarrow> peek (wr (0x0100 + ucast s) v m) = (peek m)(s := v)"
    and rd_ok: "ok m \<Longrightarrow> ok (snd (rd a m))"
    and rd_peek: "ok m \<Longrightarrow> peek (snd (rd a m)) = peek m"
begin

lemma read_keeps_stack [simp]:
  assumes "on_bus rd wr ok c"
  shows "on_bus rd wr ok (snd (MCS6502ReadByte a c))"
    and "peek (readWriteContext (snd (MCS6502ReadByte a c))) = peek (readWriteContext c)"
  using assms by (simp_all add: on_bus_def MCS6502ReadByte_def split_beta rd_ok rd_peek)

lemma read_word_keeps_stack [simp]:
  assumes "on_bus rd wr ok c"
  shows "on_bus rd wr ok (snd (ReadWordAtAddress a c))"
    and "peek (readWriteContext (snd (ReadWordAtAddress a c))) = peek (readWriteContext c)"
  using assms by (simp_all add: ReadWordAtAddress_def Let_def split_beta)

lemma operand_keeps_stack [simp]:
  assumes "on_bus rd wr ok c"
  shows "on_bus rd wr ok (snd (snd (EffectiveOperandAddressForInstruction i c)))"
    and "peek (readWriteContext (snd (snd (EffectiveOperandAddressForInstruction i c)))) =
           peek (readWriteContext c)"
  using assms
  by (simp_all add: EffectiveOperandAddressForInstruction_def Let_def split_beta
      split: MCS6502AddressingMode.split)

lemma push_on_stack [simp]:
  assumes "on_bus rd wr ok c"
  shows "on_bus rd wr ok (PushByte v c)"
    and "peek (readWriteContext (PushByte v c)) = (peek (readWriteContext c))(reg_sp c := v)"
  using assms
  by (simp_all add: on_bus_def PushByte_def MCS6502WriteByte_def Let_def wr_stack wr_stack_ok)

lemma pull_from_stack:
  assumes "on_bus rd wr ok c"
  shows "PullByte c =
    (peek (readWriteContext c) (reg_sp c + 1), c\<lparr>reg_sp := reg_sp c + 1\<rparr>)"
  using assms by (simp add: on_bus_def PullByte_def MCS6502ReadByte_def Let_def rd_stack)

text \<open>The byte pushed last is the byte pulled next, at any stack position.\<close>

lemma push_pull:
  assumes "on_bus rd wr ok c"
  shows "PullByte (PushByte v c) = (v, (PushByte v c)\<lparr>reg_sp := reg_sp c\<rparr>)"
  using assms by (simp add: pull_from_stack)

text \<open>
  An interrupt sequence followed, after any handler that leaves the three stacked bytes and
  the stack pointer as it found them, by a return from interrupt.
\<close>

lemma flags_pushed:
  "on_bus rd wr ok c \<Longrightarrow> peek (readWriteContext (PushFlags b c)) =
     (peek (readWriteContext c))
       (reg_sp c := (if b then (reg_p c OR 0x20) OR MCS6502_STATUS_B
                     else (reg_p c OR 0x20) AND NOT MCS6502_STATUS_B))"
  "on_bus rd wr ok c \<Longrightarrow> on_bus rd wr ok (PushFlags b c)"
  by (simp_all add: PushFlags_def Let_def)

lemma rti_pulls:
  assumes "on_bus rd wr ok h"
  shows "reg_pc (exec_RTI i h) =
           mk_word (peek (readWriteContext h) (reg_sp h + 3)) (peek (readWriteContext h) (reg_sp h + 2))"
    and "reg_p (exec_RTI i h) =
           peek (readWriteContext h) (reg_sp h + 1) AND NOT (0x20 OR MCS6502_STATUS_B)"
    and "reg_sp (exec_RTI i h) = reg_sp h + 3"
  using assms by (simp_all add: exec_RTI_def pull_from_stack Let_def split_beta add.commute)

lemma irq_stack:
  assumes "on_bus rd wr ok c"
  shows "reg_sp (HandleIRQ c) = reg_sp c - 3"
    and "peek (readWriteContext (HandleIRQ c)) = (peek (readWriteContext c))
      (reg_sp c := hi_byte (reg_pc c), reg_sp c - 1 := lo_byte (reg_pc c),
       reg_sp c - 2 := (reg_p c OR 0x20) AND NOT MCS6502_STATUS_B)"
    and "reg_sp (HandleNMI c) = reg_sp c - 3"
    and "peek (readWriteContext (HandleNMI c)) = (peek (readWriteContext c))
      (reg_sp c := hi_byte (reg_pc c), reg_sp c - 1 := lo_byte (reg_pc c),
       reg_sp c - 2 := (reg_p c OR 0x20) AND NOT MCS6502_STATUS_B)"
  using assms by (simp_all add: HandleIRQ_def HandleNMI_def Let_def split_beta flags_pushed)

lemma interrupt_return:
  assumes "on_bus rd wr ok c" and "on_bus rd wr ok h"
    and p: "\<not> bit (reg_p c) 4" "\<not> bit (reg_p c) 5"
    and sp: "reg_sp h = reg_sp c - 3"
    and stacked: "\<forall>s \<in> {reg_sp c, reg_sp c - 1, reg_sp c - 2}.
      peek (readWriteContext h) s = peek (readWriteContext (HandleIRQ c)) s"
  shows "reg_pc (exec_RTI i h) = reg_pc c" and "reg_p (exec_RTI i h) = reg_p c"
    and "reg_sp (exec_RTI i h) = reg_sp c"
  using stacked sp p
  by (simp_all add: rti_pulls [OF assms(2)] irq_stack [OF assms(1)] stacked_p word8_offsets)

lemma nmi_return:
  assumes "on_bus rd wr ok c" and "on_bus rd wr ok h"
    and p: "\<not> bit (reg_p c) 4" "\<not> bit (reg_p c) 5"
    and sp: "reg_sp h = reg_sp c - 3"
    and stacked: "\<forall>s \<in> {reg_sp c, reg_sp c - 1, reg_sp c - 2}.
      peek (readWriteContext h) s = peek (readWriteContext (HandleNMI c)) s"
  shows "reg_pc (exec_RTI i h) = reg_pc c" and "reg_p (exec_RTI i h) = reg_p c"
    and "reg_sp (exec_RTI i h) = reg_sp c"
  using stacked sp p
  by (simp_all add: rti_pulls [OF assms(2)] irq_stack [OF assms(1)] stacked_p word8_offsets)

text \<open>Subroutine linkage: a return after a call comes back behind the three-byte call.\<close>

lemma jsr_stack:
  assumes "on_bus rd wr ok c"
  shows "reg_sp (exec_JSR i c) = reg_sp c - 2"
    and "peek (readWriteContext (exec_JSR i c)) = (peek (readWriteContext c))
      (reg_sp c := hi_byte (reg_pc c + 2), reg_sp c - 1 := lo_byte (reg_pc c + 2))"
  using assms by (simp_all add: exec_JSR_def Let_def split_beta)

lemma call_return:
  assumes "on_bus rd wr ok c" and "on_bus rd wr ok h"
    and sp: "reg_sp h = reg_sp c - 2"
    and stacked: "\<forall>s \<in> {reg_sp c, reg_sp c - 1}.
      peek (readWriteContext h) s = peek (readWriteContext (exec_JSR i c)) s"
  shows "reg_pc (exec_RTS j h) = reg_pc c + 3" and "reg_sp (exec_RTS j h) = reg_sp c"
proof -
  have "reg_pc (exec_RTS j h) = mk_word (peek (readWriteContext h) (reg_sp h + 2))
          (peek (readWriteContext h) (reg_sp h + 1)) + 1"
    and "reg_sp (exec_RTS j h) = reg_sp h + 2"
    using assms(2) by (simp_all add: exec_RTS_def pull_from_stack Let_def split_beta add.commute)
  with sp stacked show "reg_pc (exec_RTS j h) = reg_pc c + 3" and "reg_sp (exec_RTS j h) = reg_sp c"
    by (simp_all add: jsr_stack [OF assms(1)] word8_offsets)
qed

end

end
