(* ===== verification/MCS6502_Dispatch.thy ===== *)
theory MCS6502_Dispatch
  imports MCS6502_Exec
begin

text \<open>
  The instruction table of the emulator and its \<^verbatim>\<open>switch\<close> agree: every table entry is found
  at its own opcode, and the case its opcode selects is the one its mnemonic names.
\<close>

section \<open>The opcode table and the switch\<close>

lemma fold_table_map_of:
  "distinct (map f xs) \<Longrightarrow>
   fold (\<lambda>i t. t(f i \<mapsto> i)) xs m = m ++ map_of (map (\<lambda>i. (f i, i)) xs)"
proof (induction xs arbitrary: m)
  case Nil
  then show ?case by simp
next
  case (Cons i xs)
  then have "f i \<notin> dom (map_of (map (\<lambda>i. (f i, i)) xs))"
    by (auto simp: dom_map_of_conv_image_fst image_image)
  with Cons show ?case
    by (auto simp: map_add_def fun_eq_iff dom_def split: option.splits)
qed

lemma distinct_opcodes: "distinct (map opcode MCS6502Instructions)"
  by (simp add: MCS6502Instructions_def)

lemma opcode_table_map_of:
  "MCS6502OpcodeTable = map_of (map (\<lambda>i. (opcode i, i)) MCS6502Instructions)"
  by (simp add: MCS6502OpcodeTable_def fold_table_map_of [OF distinct_opcodes])

lemma opcode_table_SomeD:
  "MCS6502OpcodeTable opc = Some i \<Longrightarrow> i \<in> set MCS6502Instructions \<and> opcode i = opc"
  by (auto simp: opcode_table_map_of dest!: map_of_SomeD)

lemma opcode_table_opcode:
  "i \<in> set MCS6502Instructions \<Longrightarrow> MCS6502OpcodeTable (opcode i) = Some i"
  using distinct_opcodes
  by (simp add: opcode_table_map_of map_of_eq_Some_iff comp_def image_iff)

text \<open>
  A reference dispatcher: the instruction a table entry \<^emph>\<open>names\<close>, with the mnemonics that set
  the program counter themselves marked.
\<close>

definition mnemonic_semantics ::
  "(string \<times> bool \<times> (MCS6502Instruction \<Rightarrow> 'm ctx \<Rightarrow> 'm ctx)) list" where
  "mnemonic_semantics =
    [(''ADC'', False, exec_ADC), (''AND'', False, exec_AND),
     (''ASL'', False, exec_ASL), (''BCC'', True, exec_BCC),
     (''BCS'', True, exec_BCS), (''BEQ'', True, exec_BEQ),
     (''BIT'', False, exec_BIT), (''BMI'', True, exec_BMI),
     (''BNE'', True, exec_BNE), (''BPL'', True, exec_BPL),
     (''BRK'', True, exec_BRK), (''BVC'', True, exec_BVC),
     (''BVS'', True, exec_BVS), (''CLC'', False, exec_CLC),
     (''CLD'', False, exec_CLD), (''CLI'', False, exec_CLI),
     (''CLV'', False, exec_CLV), (''CMP'', False, exec_CMP),
     (''CPX'', False, exec_CPX), (''CPY'', False, exec_CPY),
     (''DEC'', False, exec_DEC), (''DEX'', False, exec_DEX),
     (''DEY'', False, exec_DEY), (''EOR'', False, exec_EOR),
     (''INC'', False, exec_INC), (''INX'', False, exec_INX),
     (''INY'', False, exec_INY), (''JMP'', True, exec_JMP),
     (''JSR'', True, exec_JSR), (''LDA'', False, exec_LDA),
     (''LDX'', False, exec_LDX), (''LDY'', False, exec_LDY),
     (''LSR'', False, exec_LSR), (''NOP'', False, exec_NOP),
     (''ORA'', False, exec_ORA), (''PHA'', False, exec_PHA),
     (''PHP'', False, exec_PHP), (''PLA'', False, exec_PLA),
     (''PLP'', False, exec_PLP), (''ROL'', False, exec_ROL),
     (''ROR'', False, exec_ROR), (''RTI'', True, exec_RTI),
     (''RTS'', True, exec_RTS), (''SBC'', False, exec_SBC),
     (''SEC'', False, exec_SEC), (''SED'', False, exec_SED),
     (''SEI'', False, exec_SEI), (''STA'', False, exec_STA),
     (''STX'', False, exec_STX), (''STY'', False, exec_STY),
     (''TAX'', False, exec_TAX), (''TAY'', False, exec_TAY),
     (''TSX'', False, exec_TSX), (''TXA'', False, exec_TXA),
     (''TXS'', False, exec_TXS), (''TYA'', False, exec_TYA)]"

lemma find_label:
  assumes "distinct (concat (map fst cs))" and "(labels, e) \<in> set cs" and "opc \<in> set labels"
  shows "find (\<lambda>(labels, _). opc \<in> set labels) cs = Some (labels, e)"
  using assms
proof (induction cs)
  case Nil
  then show ?case by simp
next
  case (Cons c cs)
  show ?case
  proof (cases "c = (labels, e)")
    case True
    with Cons.prems show ?thesis by simp
  next
    case False
    with Cons.prems have "(labels, e) \<in> set cs" by auto
    then have "opc \<in> set (concat (map fst cs))" using Cons.prems(3) by force
    with Cons.prems(1) have "opc \<notin> set (fst c)" by auto
    with Cons False show ?thesis by (auto simp: split_beta)
  qed
qed

text \<open>
  The table and the switch list the instruction set in the same order: pairing each case
  label with the mnemonic of its case gives back the opcodes and mnemonics of the table.
\<close>

lemma switch_bodies:
  "map snd switch_cases = map snd mnemonic_semantics"
  by (simp add: switch_cases_def mnemonic_semantics_def)

lemma switch_labels:
  "concat (map2 (\<lambda>labels mn. map (\<lambda>l. (l, mn)) labels)
     (map fst switch_cases) (map fst mnemonic_semantics)) =
   map (\<lambda>i. (opcode i, mnemonic i)) MCS6502Instructions"
  by (simp add: switch_cases_def mnemonic_semantics_def MCS6502Instructions_def)

lemma case_count: "length switch_cases = 56" "length mnemonic_semantics = 56"
  by (simp_all add: switch_cases_def mnemonic_semantics_def)

lemma distinct_mnemonics: "distinct (map fst mnemonic_semantics)"
  by (simp add: mnemonic_semantics_def)

lemma distinct_labels:
  "distinct (concat (map fst
     (switch_cases :: (uint8 list \<times> bool \<times> (MCS6502Instruction \<Rightarrow> 'm ctx \<Rightarrow> 'm ctx)) list)))"
  (is "distinct (concat (map fst ?cs))")
proof -
  have "map fst (concat (map2 (\<lambda>ls mn. map (\<lambda>l. (l, mn)) ls) lss mns)) = concat lss"
    if "length lss = length mns" for lss :: "uint8 list list" and mns :: "string list"
    using that by (induction lss mns rule: list_induct2) (simp_all add: comp_def)
  from this [of "map fst ?cs" "map fst mnemonic_semantics"]
  have "concat (map fst ?cs) = map opcode MCS6502Instructions"
    unfolding switch_labels by (simp add: case_count comp_def)
  then show ?thesis by (simp add: distinct_opcodes)
qed

lemma table_entry_case:
  assumes "i \<in> set MCS6502Instructions"
  obtains labels d and f :: "MCS6502Instruction \<Rightarrow> 'm ctx \<Rightarrow> 'm ctx"
  where "(labels, d, f) \<in> set switch_cases" and "opcode i \<in> set labels"
    and "(mnemonic i, d, f) \<in> set mnemonic_semantics"
proof -
  let ?cs = "switch_cases :: (uint8 list \<times> bool \<times> (MCS6502Instruction \<Rightarrow> 'm ctx \<Rightarrow> 'm ctx)) list"
  let ?ms = "mnemonic_semantics :: (string \<times> bool \<times> (MCS6502Instruction \<Rightarrow> 'm ctx \<Rightarrow> 'm ctx)) list"
  from assms have "(opcode i, mnemonic i) \<in> set (map (\<lambda>i. (opcode i, mnemonic i)) MCS6502Instructions)"
    by auto
  then obtain labels where z: "(labels, mnemonic i) \<in> set (zip (map fst ?cs) (map fst ?ms))"
    and l: "opcode i \<in> set labels"
    unfolding switch_labels [where ?'a = 'm and ?'b = 'm, symmetric] by auto
  from z obtain n where n: "n < length ?cs" "n < length ?ms"
    and eq: "labels = fst (?cs ! n)" "mnemonic i = fst (?ms ! n)"
    by (auto simp: set_zip)
  have "snd (?cs ! n) = snd (?ms ! n)"
    using n arg_cong [OF switch_bodies [where ?'a = 'm], of "\<lambda>xs. xs ! n"] by simp
  then show thesis
    using that [of labels "fst (snd (?cs ! n))" "snd (snd (?cs ! n))"]
      nth_mem [OF n(1)] nth_mem [OF n(2)] l eq by (metis prod.collapse)
qed

lemma switch_by_mnemonic:
  assumes "i \<in> set MCS6502Instructions"
  obtains d and f :: "MCS6502Instruction \<Rightarrow> 'm ctx \<Rightarrow> 'm ctx"
  where "map_of mnemonic_semantics (mnemonic i) = Some (d, f)"
    and "\<forall>context. exec_switch (opcode i) i context = (d, f i context)"
proof -
  from assms obtain labels d and f :: "MCS6502Instruction \<Rightarrow> 'm ctx \<Rightarrow> 'm ctx"
    where "(labels, d, f) \<in> set switch_cases" and "opcode i \<in> set labels" and "(mnemonic i, d, f) \<in> set mnemonic_semantics"
    by (rule table_entry_case)
  then show thesis
    using find_label [OF distinct_labels, of labels "(d, f)" "opcode i"]
      map_of_is_SomeI [OF distinct_mnemonics]
    by (intro that [of d f]) (auto simp: exec_switch_def)
qed


end
