(* ===== verification/MCS6502_Step.thy ===== *)
theory MCS6502_Step
  imports MCS6502_Laws MCS6502_Dispatch
begin

text \<open>
  Whole steps of the processor: what \<open>MCS6502ExecNext\<close> and \<open>MCS6502Tick\<close> do to the status
  register, the program counter and the cycle count, for every memory behind the bus.
\<close>

section \<open>The four outcomes of a step\<close>

definition fetch_context :: "'m ctx \<Rightarrow> 'm ctx" where
  "fetch_context c = c\<lparr>pendingTiming := 0, timingForLastOperation := 0\<rparr>"

lemma fetch_context_frame [simp]:
  "reg_a (fetch_context c) = reg_a c" "reg_x (fetch_context c) = reg_x c"
  "reg_y (fetch_context c) = reg_y c" "reg_sp (fetch_context c) = reg_sp c"
  "reg_pc (fetch_context c) = reg_pc c" "reg_p (fetch_context c) = reg_p c"
  "nmiPending (fetch_context c) = nmiPending c" "irqPending (fetch_context c) = irqPending c"
  "timingForLastOperation (fetch_context c) = 0"
  "readByte (fetch_context c) = readByte c" "writeByte (fetch_context c) = writeByte c"
  "readWriteContext (fetch_context c) = readWriteContext c"
  by (simp_all add: fetch_context_def)

lemma fetch_context_pending: "pendingTiming (fetch_context c) = 0"
  by (simp add: fetch_context_def)

lemma ExecNext_cases:
  obtains (nmi) "nmiPending c"
      "MCS6502ExecNext c = (MCS6502ExecResultRunning, HandleNMI (fetch_context c))"
    | (irq) "\<not> nmiPending c" "irqPending c"
      "MCS6502ExecNext c = (MCS6502ExecResultRunning, HandleIRQ (fetch_context c))"
    | (invalid) opc c1 where "\<not> nmiPending c" "\<not> irqPending c"
      "MCS6502ReadByte (reg_pc c) (fetch_context c) = (opc, c1)"
      "MCS6502OpcodeTable opc = None"
      "MCS6502ExecNext c = (MCS6502ExecResultInvalidOperation, c1)"
    | (instruction) opc c1 i d c2 where "\<not> nmiPending c" "\<not> irqPending c"
      "MCS6502ReadByte (reg_pc c) (fetch_context c) = (opc, c1)"
      "MCS6502OpcodeTable opc = Some i"
      "exec_switch opc i c1 = (d, c2)"
      "snd (MCS6502ExecNext c) =
         c2\<lparr>reg_pc := (if d then reg_pc c2 else reg_pc c2 + LengthForInstruction i),
            timingForLastOperation := timingForLastOperation c2 + timing i\<rparr>"
      "fst (MCS6502ExecNext c) =
         (if reg_pc (snd (MCS6502ExecNext c)) = reg_pc c then MCS6502ExecResultHalting
          else MCS6502ExecResultRunning)"
proof -
  obtain opc c1 where r: "MCS6502ReadByte (reg_pc c) (fetch_context c) = (opc, c1)"
    by fastforce
  then have pc1: "reg_pc c1 = reg_pc c"
    by (metis ReadByte_frame(5) fetch_context_frame(5) snd_conv)
  consider "nmiPending c" | "\<not> nmiPending c" "irqPending c"
    | "\<not> nmiPending c" "\<not> irqPending c" "MCS6502OpcodeTable opc = None"
    | i where "\<not> nmiPending c" "\<not> irqPending c" "MCS6502OpcodeTable opc = Some i"
    by blast
  then show thesis
  proof cases
    case (4 i)
    obtain d c2 where "exec_switch opc i c1 = (d, c2)" by fastforce
    with 4 r pc1 show thesis
      by (intro instruction) (auto simp: MCS6502ExecNext_def fetch_context_def [symmetric] Let_def)
  qed (use r nmi irq invalid in
      \<open>auto simp: MCS6502ExecNext_def fetch_context_def [symmetric] Let_def\<close>)
qed

section \<open>Bits 4 and 5 of the status register\<close>

text \<open>
  The break flag and the unused bit exist in pushed copies of the status only; in the
  register itself they stay clear.
\<close>

definition status_ok :: "'m ctx \<Rightarrow> bool" where
  "status_ok context \<longleftrightarrow> \<not> bit (reg_p context) 4 \<and> \<not> bit (reg_p context) 5"

lemma status_ok_flags [simp]:
  "status_ok (SetOrClearCarry b c) = status_ok c"
  "status_ok (SetOrClearOverflow b c) = status_ok c"
  "status_ok (UpdateZero u c) = status_ok c"
  "status_ok (UpdateNegative u c) = status_ok c"
  "status_ok (UpdateZeroNegative u c) = status_ok c"
  "status_ok (SetInterruptDisable c) = status_ok c"
  "status_ok (ClearInterruptDisable c) = status_ok c"
  "status_ok (SetCarry c) = status_ok c"
  "status_ok (ClearCarry c) = status_ok c"
  "status_ok (SetDecimal c) = status_ok c"
  "status_ok (ClearDecimal c) = status_ok c"
  "status_ok (ClearOverflow c) = status_ok c"
  "status_ok (ClearNegative c) = status_ok c"
  by (simp_all add: status_ok_def flag_bits)

lemma status_ok_frame [simp]:
  "status_ok (c\<lparr>reg_a := v\<rparr>) = status_ok c"
  "status_ok (c\<lparr>reg_x := v\<rparr>) = status_ok c"
  "status_ok (c\<lparr>reg_y := v\<rparr>) = status_ok c"
  "status_ok (c\<lparr>reg_sp := v\<rparr>) = status_ok c"
  "status_ok (c\<lparr>reg_pc := w\<rparr>) = status_ok c"
  "status_ok (c\<lparr>timingForLastOperation := t\<rparr>) = status_ok c"
  "status_ok (c\<lparr>pendingTiming := t\<rparr>) = status_ok c"
  "status_ok (c\<lparr>irqPending := b\<rparr>) = status_ok c"
  "status_ok (c\<lparr>nmiPending := b\<rparr>) = status_ok c"
  "status_ok (PushByte v c) = status_ok c"
  "status_ok (PushFlags b c) = status_ok c"
  "status_ok (snd (PullByte c)) = status_ok c"
  "status_ok (MCS6502WriteByte a v c) = status_ok c"
  "status_ok (snd (MCS6502ReadByte a c)) = status_ok c"
  "status_ok (snd (ReadWordAtAddress a c)) = status_ok c"
  "status_ok (snd (snd (EffectiveOperandAddressForInstruction i c))) = status_ok c"
  "status_ok (snd (ReadOperandValueForCurrentInstruction i c)) = status_ok c"
  "status_ok (WriteResultForCurrentInstruction v i c) = status_ok c"
  by (simp_all add: status_ok_def)

lemma status_ok_pulled [simp]:
  "status_ok (c\<lparr>reg_p := p AND NOT (0x20 OR MCS6502_STATUS_B)\<rparr>)"
  "status_ok (c\<lparr>reg_p := p AND - 49\<rparr>)"
  by (auto simp: status_ok_def bit_simps byte_bits)

lemma fetch_context_status_ok:
  "status_ok (fetch_context c) = status_ok c"
  "status_ok c \<Longrightarrow> status_ok (snd (MCS6502ReadByte a (fetch_context c)))"
  by (simp_all add: status_ok_def)

lemma cases_status_ok:
  "list_all (\<lambda>(_, _, body). \<forall>i c. status_ok c \<longrightarrow> status_ok (body i c)) switch_cases"
  by (simp add: switch_cases_def exec_defs ExecuteConditionalBranch_def Let_def split_beta)

lemma interrupts_status_ok [simp]:
  "status_ok c \<Longrightarrow> status_ok (HandleIRQ c)" "status_ok c \<Longrightarrow> status_ok (HandleNMI c)"
  by (simp_all add: HandleIRQ_def HandleNMI_def Let_def split_beta)

lemma switch_status_ok: "status_ok c \<Longrightarrow> status_ok (snd (exec_switch opc i c))"
  by (rule switch_rule [OF cases_status_ok])

lemma ExecNext_status_ok: "status_ok c \<Longrightarrow> status_ok (snd (MCS6502ExecNext c))"
proof (cases c rule: ExecNext_cases)
  case (instruction opc c1 i d c2)
  assume "status_ok c"
  with instruction(3) have "status_ok c1"
    by (metis fetch_context_status_ok snd_conv)
  with instruction(5) have "status_ok c2" by (metis switch_status_ok snd_conv)
  with instruction(6) show ?thesis by simp
qed (metis interrupts_status_ok fetch_context_status_ok snd_conv)+

section \<open>Program counter\<close>

lemma cases_pc:
  "list_all (\<lambda>(_, doNotUpdatePC, body). \<not> doNotUpdatePC \<longrightarrow>
     (\<forall>i c. reg_pc (body i c) = reg_pc c)) switch_cases"
  by (simp add: switch_cases_def exec_defs cpu_defs Let_def split_beta)

lemma switch_pc:
  "\<not> fst (exec_switch opc i c) \<Longrightarrow> reg_pc (snd (exec_switch opc i c)) = reg_pc c"
  using cases_pc
  by (auto simp: exec_switch_def list_all_iff split: option.splits dest!: find_SomeD)

section \<open>Cycle counts\<close>

definition branch_mnemonics :: "string list" where
  "branch_mnemonics =
     [''BCC'', ''BCS'', ''BEQ'', ''BMI'', ''BNE'', ''BPL'', ''BVC'', ''BVS'']"

definition extra_cycles :: "bool \<Rightarrow> MCS6502Instruction \<Rightarrow> 'm ctx \<Rightarrow> 'm ctx \<Rightarrow> bool" where
  "extra_cycles branch i c c' \<longleftrightarrow>
     timingForLastOperation c' \<in>
       (if branch then (\<lambda>k. timingForLastOperation c + k) ` {2, 3, 4}
        else if timingAddOne i then {timingForLastOperation c, timingForLastOperation c + 1}
        else {timingForLastOperation c})"

text \<open>
  Only the operand read and a branch touch the count while the instruction executes.
\<close>

lemma operand_extra:
  "timingForLastOperation c' =
     timingForLastOperation (snd (ReadOperandValueForCurrentInstruction i c)) \<Longrightarrow>
   extra_cycles False i c c'"
  "timingForLastOperation c' = timingForLastOperation c \<Longrightarrow> extra_cycles False i c c'"
  using ReadOperand_timing [of i c] by (auto simp: extra_cycles_def)

lemma branch_extra: "extra_cycles True i c (ExecuteConditionalBranch b i c)"
  by (simp add: extra_cycles_def ExecuteConditionalBranch_def Let_def split_beta)


lemma semantics_extra:
  "list_all (\<lambda>(mn, _, body).
     \<forall>i c. extra_cycles (mn \<in> set branch_mnemonics) i c (body i c)) mnemonic_semantics"
  by (simp add: mnemonic_semantics_def branch_mnemonics_def exec_defs single_flag_defs Let_def
      split_beta branch_extra operand_extra)

lemma table_timing:
  "list_all (\<lambda>i. if mnemonic i \<in> set branch_mnemonics then timing i = 0
     else 2 \<le> unat (timing i) \<and> unat (timing i) \<le> (if timingAddOne i then 5 else 7))
     MCS6502Instructions"
  by (simp add: MCS6502Instructions_def branch_mnemonics_def)

lemma count_bounds:
  assumes "extra_cycles b i c c'" and "timingForLastOperation c = 0"
    and "if b then timing i = 0
      else 2 \<le> unat (timing i) \<and> unat (timing i) \<le> (if timingAddOne i then 5 else 7)"
  shows "2 \<le> unat (timingForLastOperation c' + timing i) \<and>
    unat (timingForLastOperation c' + timing i) \<le> 7"
  using assms
  by (auto simp: extra_cycles_def unat_word_ariths split: if_splits)

lemma table_extra:
  fixes c :: "'m ctx"
  assumes "MCS6502OpcodeTable opc = Some i" and "exec_switch opc i c = (d, c')"
    and "timingForLastOperation c = 0"
  shows "2 \<le> unat (timingForLastOperation c' + timing i) \<and>
    unat (timingForLastOperation c' + timing i) \<le> 7"
proof -
  from assms(1) have i: "i \<in> set MCS6502Instructions" "opcode i = opc"
    by (simp_all add: opcode_table_SomeD)
  from i(1) obtain e and f :: "MCS6502Instruction \<Rightarrow> 'm ctx \<Rightarrow> 'm ctx"
    where sem: "map_of mnemonic_semantics (mnemonic i) = Some (e, f)"
    and sw: "\<forall>c. exec_switch (opcode i) i c = (e, f i c)"
    by (rule switch_by_mnemonic [where ?'m = 'm])
  have "extra_cycles (mnemonic i \<in> set branch_mnemonics) i c (f i c)"
    using semantics_extra map_of_SomeD [OF sem] by (fastforce simp: list_all_iff)
  with sw assms(2) i(2)
  have "extra_cycles (mnemonic i \<in> set branch_mnemonics) i c c'" by simp
  then show ?thesis
    by (rule count_bounds) (use assms(3) table_timing i(1) in \<open>simp_all add: list_all_iff\<close>)
qed

lemma ExecNext_timing:
  assumes "fst (MCS6502ExecNext c) \<noteq> MCS6502ExecResultInvalidOperation"
  shows "2 \<le> unat (timingForLastOperation (snd (MCS6502ExecNext c)))"
    and "unat (timingForLastOperation (snd (MCS6502ExecNext c))) \<le> 7"
proof -
  have "2 \<le> unat (timingForLastOperation (snd (MCS6502ExecNext c))) \<and>
    unat (timingForLastOperation (snd (MCS6502ExecNext c))) \<le> 7"
  proof (cases c rule: ExecNext_cases)
    case (instruction opc c1 i d c2)
    from instruction(3) have "timingForLastOperation c1 = 0"
      by (metis ReadByte_frame(8) fetch_context_frame(9) snd_conv)
    from table_extra [OF instruction(4,5) this] show ?thesis
      by (simp add: instruction(6))
  qed (use assms in \<open>auto simp: HandleNMI_def HandleIRQ_def Let_def split_beta\<close>)
  then show "2 \<le> unat (timingForLastOperation (snd (MCS6502ExecNext c)))"
    and "unat (timingForLastOperation (snd (MCS6502ExecNext c))) \<le> 7"
    by auto
qed

text \<open>Outside the tick interface nothing is pending: an executed step leaves no cycles to wait for.\<close>

lemma cases_pendingTiming:
  "list_all (\<lambda>(_, _, body). \<forall>i c. pendingTiming c = 0 \<longrightarrow> pendingTiming (body i c) = 0) switch_cases"
  by (simp add: switch_cases_def exec_defs single_flag_defs ExecuteConditionalBranch_def Let_def
      split_beta)

lemma ExecNext_pendingTiming [simp]: "pendingTiming (snd (MCS6502ExecNext c)) = 0"
proof (cases c rule: ExecNext_cases)
  case (instruction opc c1 i d c2)
  from instruction(3) have "pendingTiming c1 = 0"
    by (metis ReadByte_frame(7) fetch_context_pending snd_conv)
  with instruction(5) have "pendingTiming c2 = 0"
    using switch_rule [where P = "\<lambda>c. pendingTiming c = 0", OF cases_pendingTiming]
    by (metis snd_conv)
  with instruction(6) show ?thesis by simp
next
  case (invalid opc c1)
  then show ?thesis by (metis ReadByte_frame(7) fetch_context_pending snd_conv)
qed (simp_all add: HandleNMI_def HandleIRQ_def Let_def split_beta fetch_context_def)

section \<open>Clock ticks\<close>

definition tick_step :: "'m ctx \<Rightarrow> 'm ctx" where
  "tick_step c = snd (MCS6502Tick c)"

lemma of_nat_word32_neq_0: "0 < n \<Longrightarrow> n < 2 ^ 32 \<Longrightarrow> (of_nat n :: uint32) \<noteq> 0"
  using unat_of_nat_range(3) [of n] by force

lemma pending_ticks:
  "pendingTiming c = of_nat n \<Longrightarrow> n < 2 ^ 32 \<Longrightarrow> (tick_step ^^ n) c = c\<lparr>pendingTiming := 0\<rparr>"
proof (induction n arbitrary: c)
  case 0
  then show ?case by simp
next
  case (Suc n)
  then have "pendingTiming c > 0"
    by (simp add: word_gt_0 of_nat_word32_neq_0 del: of_nat_Suc)
  with Suc.prems have "tick_step c = c\<lparr>pendingTiming := of_nat n\<rparr>"
    by (simp add: tick_step_def MCS6502Tick_def)
  moreover have "(tick_step ^^ n) (c\<lparr>pendingTiming := of_nat n\<rparr>) = c\<lparr>pendingTiming := 0\<rparr>"
    using Suc.IH [of "c\<lparr>pendingTiming := of_nat n\<rparr>"] Suc.prems by simp
  ultimately show ?case by (simp add: funpow_Suc_right del: funpow.simps)
qed

lemma instruction_ticks:
  assumes "pendingTiming c = 0" and "MCS6502ExecNext c = (r, c')"
    and "timingForLastOperation c' \<noteq> 0"
  shows "(tick_step ^^ unat (timingForLastOperation c')) c = c'\<lparr>pendingTiming := 0\<rparr>"
proof -
  let ?t = "unat (timingForLastOperation c')"
  obtain n where n: "?t = Suc n" using assms(3) by (metis not0_implies_Suc unat_eq_zero)
  have "of_nat ?t = timingForLastOperation c'" by simp
  then have "timingForLastOperation c' - 1 = of_nat n"
    unfolding n by (metis add_diff_cancel_left' of_nat_Suc)
  then have "tick_step c = c'\<lparr>pendingTiming := of_nat n\<rparr>"
    using assms by (simp add: tick_step_def MCS6502Tick_def Let_def)
  moreover have "n < 2 ^ 32" using n unsigned_less [of "timingForLastOperation c'", where ?'a = nat]
    by simp
  ultimately show ?thesis
    using pending_ticks [of "c'\<lparr>pendingTiming := of_nat n\<rparr>" n] n
    by (simp add: funpow_Suc_right del: funpow.simps)
qed

end
