(* ===== verification/MCS6502_Arith.thy ===== *)
theory MCS6502_Arith
  imports MCS6502_Laws
begin

text \<open>
  The arithmetic instructions against their meaning on numbers: binary and decimal addition
  and subtraction with carry and overflow, comparison, shifts and rotations. Every lemma
  holds for every memory behind the bus; \<open>operand i context\<close> is the byte the instruction
  reads.
\<close>

abbreviation operand :: "MCS6502Instruction \<Rightarrow> 'm ctx \<Rightarrow> uint8" where
  "operand i context \<equiv> fst (ReadOperandValueForCurrentInstruction i context)"

abbreviation carry_in :: "'m ctx \<Rightarrow> nat" where
  "carry_in context \<equiv> (if IsCarrySet context then 1 else 0)"

section \<open>Binary addition and subtraction\<close>

lemma sum_of_bytes:
  "unat (ucast (a :: uint8) + ucast (b :: uint8) + (if k then 1 else 0) :: uint32) =
     unat a + unat b + (if k then 1 else 0)"
proof -
  have "(ucast a + ucast b + (if k then 1 else 0) :: uint32) =
      of_nat (unat a + unat b + (if k then 1 else 0))"
    by simp
  then have "unat (ucast a + ucast b + (if k then 1 else 0) :: uint32) =
      (unat a + unat b + (if k then 1 else 0)) mod 2 ^ 32"
    by (simp only: unsigned_of_nat take_bit_eq_mod) simp
  then show ?thesis
    using unat_byte [of a] unat_byte [of b] by simp
qed

lemma low_byte_of_sum:
  "unat (ucast (s AND 0xFF :: uint32) :: uint8) = unat s mod 256"
proof -
  have "(ucast (s AND 0xFF :: uint32) :: uint8) = ucast s"
    by (rule bit_word_eqI) (simp add: bit_simps mask8)
  then show ?thesis
    by (simp add: unsigned_ucast_eq take_bit_eq_mod)
qed

lemma sum_carry: "(s :: uint32) > 0xFF \<longleftrightarrow> unat s \<ge> 256"
  by (auto simp: word_less_nat_alt)

lemma ReadOperand_flags [simp]:
  "IsCarrySet (snd (ReadOperandValueForCurrentInstruction i c)) = IsCarrySet c"
  "IsDecimalSet (snd (ReadOperandValueForCurrentInstruction i c)) = IsDecimalSet c"
  by (simp_all add: IsCarrySet_def IsDecimalSet_def)

lemma adc_binary:
  assumes "\<not> IsDecimalSet c" and r_def: "r = exec_ADC i c"
  shows "unat (reg_a r) = (unat (reg_a c) + unat (operand i c) + carry_in c) mod 256"
    and "IsCarrySet r \<longleftrightarrow> unat (reg_a c) + unat (operand i c) + carry_in c \<ge> 256"
    and "IsOverflowSet r \<longleftrightarrow>
      sint (reg_a c) + sint (operand i c) + int (carry_in c) \<notin> {-128..127}"
    and "IsZeroSet r \<longleftrightarrow> reg_a r = 0" and "IsNegativeSet r \<longleftrightarrow> sint (reg_a r) < 0"
    and "IsDecimalSet r = IsDecimalSet c" and "IsInterruptDisableSet r = IsInterruptDisableSet c"
  unfolding r_def using assms(1)
  by (simp_all add: exec_ADC_def Let_def split_beta flag_bits flag_tests low_byte_of_sum
      sum_of_bytes sum_carry msb_sint_neg [symmetric])
     (auto simp: sum_of_bytes)

lemma unat_NOT: "unat (NOT v :: uint8) = 255 - unat v"
proof -
  have "NOT v = 255 - v" by (simp add: not_eq_complement)
  then show ?thesis by (simp add: unat_sub word_le_nat_alt unat_byte less_Suc_eq_le [symmetric])
qed

lemma sint_byte: "- 128 \<le> sint (v :: uint8) \<and> sint v \<le> 127"
  using sint_greater_eq [of v] sint_less [of v] by simp

lemma sint_NOT: "sint (NOT v :: uint8) = - sint v - 1"
  using sint_byte [of v]
  by (simp add: signed_not_eq not_int_def signed_take_bit_int_eq_self)

lemma complement_sum:
  fixes a v k :: nat
  assumes "v \<le> 255"
  shows "int ((a + (255 - v) + k) mod 256) = (int a - int v - (1 - int k)) mod 256"
proof -
  have "int (a + (255 - v) + k) = (int a - int v - (1 - int k)) + 256"
    using assms by (simp add: of_nat_diff)
  then show ?thesis
    by (simp only: zmod_int of_nat_numeral mod_add_self2)
qed

lemma sbc_binary:
  assumes "\<not> IsDecimalSet c" and r_def: "r = exec_SBC i c"
  shows "int (unat (reg_a r)) =
      (int (unat (reg_a c)) - int (unat (operand i c)) - (1 - int (carry_in c))) mod 256"
    and "IsCarrySet r \<longleftrightarrow> unat (reg_a c) + carry_in c \<ge> unat (operand i c) + 1"
    and "IsOverflowSet r \<longleftrightarrow>
      sint (reg_a c) - sint (operand i c) - (1 - int (carry_in c)) \<notin> {-128..127}"
    and "IsZeroSet r \<longleftrightarrow> reg_a r = 0" and "IsNegativeSet r \<longleftrightarrow> sint (reg_a r) < 0"
    and "IsDecimalSet r = IsDecimalSet c" and "IsInterruptDisableSet r = IsInterruptDisableSet c"
proof -
  let ?s = "ucast (reg_a c) + ucast (NOT (operand i c)) + (if IsCarrySet c then 1 else 0) :: uint32"
  have s: "unat ?s = unat (reg_a c) + (255 - unat (operand i c)) + carry_in c"
    by (simp only: sum_of_bytes unat_NOT)
  have a: "reg_a r = ucast (?s AND 0xFF)"
    using assms by (simp add: exec_SBC_def Let_def split_beta)
  have "unat (operand i c) \<le> 255"
    using unat_byte [of "operand i c"] by simp
  then show "int (unat (reg_a r)) =
      (int (unat (reg_a c)) - int (unat (operand i c)) - (1 - int (carry_in c))) mod 256"
    unfolding a low_byte_of_sum s by (rule complement_sum)
  show "IsCarrySet r \<longleftrightarrow> unat (reg_a c) + carry_in c \<ge> unat (operand i c) + 1"
    using assms s unat_byte [of "operand i c"]
    by (simp add: exec_SBC_def Let_def split_beta flag_bits flag_tests sum_carry) arith
  show "IsOverflowSet r \<longleftrightarrow>
      sint (reg_a c) - sint (operand i c) - (1 - int (carry_in c)) \<notin> {-128..127}"
    using assms by (simp add: exec_SBC_def Let_def split_beta flag_bits flag_tests sint_NOT) arith
  show "IsZeroSet r \<longleftrightarrow> reg_a r = 0" and "IsNegativeSet r \<longleftrightarrow> sint (reg_a r) < 0"
    and "IsDecimalSet r = IsDecimalSet c" and "IsInterruptDisableSet r = IsInterruptDisableSet c"
    using assms by (simp_all add: exec_SBC_def Let_def split_beta flag_bits flag_tests
        msb_sint_neg [symmetric])
qed

section \<open>Decimal mode\<close>

definition valid_bcd :: "uint8 \<Rightarrow> bool" where
  "valid_bcd w \<longleftrightarrow> uint (drop_bit 4 w) \<le> 9 \<and> uint (w AND 0x0F) \<le> 9"

lemma bcd_roundtrip_upto:
  "list_all (\<lambda>n. IntegerFromBCD (BCDFromInteger (int n)) = int n \<and>
     valid_bcd (BCDFromInteger (int n))) [0..<100]"
  by code_simp

lemma IntegerFromBCD_BCDFromInteger:
  assumes "0 \<le> n" and "n < 100"
  shows "IntegerFromBCD (BCDFromInteger n) = n" and "valid_bcd (BCDFromInteger n)"
  using bcd_roundtrip_upto assms by (auto simp: list_all_iff dest!: bspec [of _ _ "nat n"])

lemma valid_bcd_bound_upto:
  "list_all (\<lambda>n. valid_bcd (of_nat n) \<longrightarrow>
     IntegerFromBCD (of_nat n) < 100 \<and> BCDFromInteger (IntegerFromBCD (of_nat n)) = of_nat n) [0..<256]"
  by code_simp

lemma BCDFromInteger_IntegerFromBCD:
  assumes "valid_bcd w"
  shows "IntegerFromBCD w < 100" and "BCDFromInteger (IntegerFromBCD w) = w"
  using valid_bcd_bound_upto assms unat_byte [of w]
  by (auto simp: list_all_iff dest!: bspec [of _ _ "unat w"])

lemma IntegerFromBCD_nonneg: "0 \<le> IntegerFromBCD w"
  by (simp add: IntegerFromBCD_def)

lemma adc_decimal:
  assumes "IsDecimalSet c" and a: "valid_bcd (reg_a c)" and v: "valid_bcd (operand i c)"
    and r_def: "r = exec_ADC i c"
  shows "valid_bcd (reg_a r)"
    and "IntegerFromBCD (reg_a r) =
      (IntegerFromBCD (reg_a c) + IntegerFromBCD (operand i c) + int (carry_in c)) mod 100"
    and "IsCarrySet r \<longleftrightarrow>
      IntegerFromBCD (reg_a c) + IntegerFromBCD (operand i c) + int (carry_in c) \<ge> 100"
proof -
  define t where
    "t = IntegerFromBCD (operand i c) + IntegerFromBCD (reg_a c) + int (carry_in c)"
  have t: "0 \<le> t" "t < 200"
    using BCDFromInteger_IntegerFromBCD(1) [OF a] BCDFromInteger_IntegerFromBCD(1) [OF v]
      IntegerFromBCD_nonneg [of "reg_a c"] IntegerFromBCD_nonneg [of "operand i c"]
    by (auto simp: t_def)
  then have tm: "t mod 100 = (if t > 99 then t - 100 else t)"
    using mod_pos_pos_trivial [of "t - 100" 100] by (auto simp: mod_pos_pos_trivial)
  have ra: "reg_a r = BCDFromInteger (if t > 99 then t - 100 else t)"
    using assms(1) by (auto simp: r_def exec_ADC_def Let_def split_beta t_def)
  from t show "valid_bcd (reg_a r)" unfolding ra
    by (auto intro: IntegerFromBCD_BCDFromInteger)
  from t show "IntegerFromBCD (reg_a r) =
      (IntegerFromBCD (reg_a c) + IntegerFromBCD (operand i c) + int (carry_in c)) mod 100"
    unfolding ra using tm IntegerFromBCD_BCDFromInteger(1) [of "t mod 100"]
    by (simp add: t_def algebra_simps)
  show "IsCarrySet r \<longleftrightarrow>
      IntegerFromBCD (reg_a c) + IntegerFromBCD (operand i c) + int (carry_in c) \<ge> 100"
    using assms(1) by (auto simp: r_def exec_ADC_def Let_def split_beta flag_bits flag_tests)
qed

lemma sbc_decimal:
  assumes "IsDecimalSet c" and a: "valid_bcd (reg_a c)" and v: "valid_bcd (operand i c)"
    and r_def: "r = exec_SBC i c"
  shows "valid_bcd (reg_a r)"
    and "IntegerFromBCD (reg_a r) =
      (IntegerFromBCD (reg_a c) - IntegerFromBCD (operand i c) - (1 - int (carry_in c))) mod 100"
    and "IsCarrySet r \<longleftrightarrow>
      IntegerFromBCD (reg_a c) - IntegerFromBCD (operand i c) - (1 - int (carry_in c)) \<ge> 0"
proof -
  define t where
    "t = IntegerFromBCD (reg_a c) - IntegerFromBCD (operand i c) - (1 - int (carry_in c))"
  have t: "- 100 \<le> t" "t < 100"
    using BCDFromInteger_IntegerFromBCD(1) [OF a] BCDFromInteger_IntegerFromBCD(1) [OF v]
      IntegerFromBCD_nonneg [of "reg_a c"] IntegerFromBCD_nonneg [of "operand i c"]
    by (auto simp: t_def)
  then have tm: "t mod 100 = (if t < 0 then t + 100 else t)"
    using mod_pos_pos_trivial [of "t + 100" 100] by (auto simp: mod_pos_pos_trivial)
  have ra: "reg_a r = BCDFromInteger (if t < 0 then t + 100 else t)"
    using assms(1) by (auto simp: r_def exec_SBC_def Let_def split_beta t_def algebra_simps)
  from t show "valid_bcd (reg_a r)" unfolding ra
    by (auto intro: IntegerFromBCD_BCDFromInteger)
  from t show "IntegerFromBCD (reg_a r) =
      (IntegerFromBCD (reg_a c) - IntegerFromBCD (operand i c) - (1 - int (carry_in c))) mod 100"
    unfolding ra using tm IntegerFromBCD_BCDFromInteger(1) [of "t mod 100"]
    by (simp add: t_def)
  show "IsCarrySet r \<longleftrightarrow>
      IntegerFromBCD (reg_a c) - IntegerFromBCD (operand i c) - (1 - int (carry_in c)) \<ge> 0"
    using assms(1) by (auto simp: r_def exec_SBC_def Let_def split_beta flag_bits flag_tests)
qed

section \<open>Comparison\<close>

lemma compare_flags:
  "IsCarrySet (exec_CMP i c) \<longleftrightarrow> operand i c \<le> reg_a c"
  "IsZeroSet (exec_CMP i c) \<longleftrightarrow> operand i c = reg_a c"
  "IsNegativeSet (exec_CMP i c) \<longleftrightarrow> bit (reg_a c - operand i c) 7"
  "IsCarrySet (exec_CPX i c) \<longleftrightarrow> operand i c \<le> reg_x c"
  "IsZeroSet (exec_CPX i c) \<longleftrightarrow> operand i c = reg_x c"
  "IsNegativeSet (exec_CPX i c) \<longleftrightarrow> bit (reg_x c - operand i c) 7"
  "IsCarrySet (exec_CPY i c) \<longleftrightarrow> operand i c \<le> reg_y c"
  "IsZeroSet (exec_CPY i c) \<longleftrightarrow> operand i c = reg_y c"
  "IsNegativeSet (exec_CPY i c) \<longleftrightarrow> bit (reg_y c - operand i c) 7"
  by (auto simp: exec_CMP_def exec_CPX_def exec_CPY_def Let_def split_beta flag_bits flag_tests)

section \<open>Shifts and rotations of the accumulator\<close>

lemma accumulator_operand [simp]:
  "mode i = AddressingAccumulator \<Longrightarrow> ReadOperandValueForCurrentInstruction i c = (reg_a c, c)"
  "mode i = AddressingAccumulator \<Longrightarrow> WriteResultForCurrentInstruction v i c = c\<lparr>reg_a := v\<rparr>"
  by (simp_all add: ReadOperandValueForCurrentInstruction_def WriteResultForCurrentInstruction_def)

lemma positive_word: "(w :: uint8) > 0 \<longleftrightarrow> w \<noteq> 0"
  by (simp add: word_neq_0_conv)

lemma bit_FE: "bit (0xFE :: uint8) n \<longleftrightarrow> 1 \<le> n \<and> n < 8"
  and bit_7F: "bit (0x7F :: uint8) n \<longleftrightarrow> n < 7"
proof -
  have fe: "(0xFE :: uint8) = push_bit 1 (mask 7)" and f7: "(0x7F :: uint8) = mask 7"
    by (simp_all add: mask_eq_exp_minus_1 push_bit_eq_mult)
  show "bit (0xFE :: uint8) n \<longleftrightarrow> 1 \<le> n \<and> n < 8" and "bit (0x7F :: uint8) n \<longleftrightarrow> n < 7"
    unfolding fe f7 by (simp_all only: bit_push_bit_iff bit_mask_iff possible_bit_word) auto
qed

lemma bit_shl1: "bit (w * 2 :: uint8) n \<longleftrightarrow> 1 \<le> n \<and> n < 8 \<and> bit w (n - 1)"
proof -
  have "w * 2 = push_bit 1 w" by (simp add: push_bit_eq_mult)
  then show ?thesis by (simp only: bit_push_bit_iff possible_bit_word) auto
qed

lemma rol_acc:
  assumes "mode i = AddressingAccumulator"
  shows "bit (reg_a (exec_ROL i c)) n \<longleftrightarrow>
      (if n = 0 then IsCarrySet c else n < 8 \<and> bit (reg_a c) (n - 1))"
    and "IsCarrySet (exec_ROL i c) \<longleftrightarrow> bit (reg_a c) 7"
  using assms
  by (auto simp: exec_ROL_def Let_def flag_bits flag_tests positive_word and_flag_eq_0
      bit_simps bit_FE bit_shl1 simp del: bit_numeral_word_iff)

lemma ror_acc:
  assumes "mode i = AddressingAccumulator"
  shows "bit (reg_a (exec_ROR i c)) n \<longleftrightarrow>
      (if n = 7 then IsCarrySet c else n < 7 \<and> bit (reg_a c) (n + 1))"
    and "IsCarrySet (exec_ROR i c) \<longleftrightarrow> bit (reg_a c) 0"
  using assms
  by (auto simp: exec_ROR_def Let_def flag_bits flag_tests positive_word and_flag_eq_0
      bit_simps bit_7F bit_flag simp del: bit_numeral_word_iff)

end
