(* ===== verification/MCS6502_Disasm.thy ===== *)
theory MCS6502_Disasm
  imports MCS6502_Laws
begin

text \<open>
  The disassembler of \<^verbatim>\<open>src/machine/MCS6502.c\<close>: the text of the instruction at the program counter, with the
  conversions of \<^verbatim>\<open>sprintf\<close> it uses, and that the text determines the instruction and its operand bytes.
\<close>

section \<open>Formatted numbers\<close>

text \<open>\<open>format_X w n\<close> is what the conversion \<^verbatim>\<open>%0wX\<close> prints for \<open>n\<close>.\<close>

definition hex_digit :: "nat \<Rightarrow> char" where
  "hex_digit d = ''0123456789ABCDEF'' ! d"

fun hex_digits :: "nat \<Rightarrow> string" where
  "hex_digits n = (if n < 16 then [hex_digit n] else hex_digits (n div 16) @ [hex_digit (n mod 16)])"

declare hex_digits.simps [simp del]

definition format_X :: "nat \<Rightarrow> nat \<Rightarrow> string" where
  "format_X w n = replicate (w - length (hex_digits n)) CHR ''0'' @ hex_digits n"

abbreviation X2 :: "uint8 \<Rightarrow> string" where "X2 b \<equiv> format_X 2 (unat b)"
abbreviation X4 :: "uint16 \<Rightarrow> string" where "X4 w \<equiv> format_X 4 (unat w)"

section \<open>The disassembler\<close>

text \<open>
  The contents of the buffer \<^verbatim>\<open>line\<close>, up to the terminating zero, and the context after the reads from
  the bus. \<open>disassemble_operand\<close> is the \<^verbatim>\<open>switch\<close> that fills \<^verbatim>\<open>scratch\<close>.
\<close>

definition disassemble_operand :: "MCS6502Instruction \<Rightarrow> 'm ctx \<Rightarrow> string \<times> 'm ctx" where
  "disassemble_operand instruction context =
    (case mode instruction of
       AddressingImmediate \<Rightarrow>
         (let (val, context1) = MCS6502ReadByte (reg_pc context + 1) context
          in (''#$'' @ X2 val, context1))
     | AddressingAccumulator \<Rightarrow> (''A'', context)
     | AddressingIndirect \<Rightarrow>
         (let (lo, context1) = MCS6502ReadByte (reg_pc context + 1) context;
              (hi, context2) = MCS6502ReadByte (reg_pc context1 + 2) context1
          in (''($'' @ X2 hi @ X2 lo @ '')'', context2))
     | AddressingAbsolute \<Rightarrow>
         (let (lo, context1) = MCS6502ReadByte (reg_pc context + 1) context;
              (hi, context2) = MCS6502ReadByte (reg_pc context1 + 2) context1
          in (''$'' @ X2 hi @ X2 lo, context2))
     | AddressingZeroPage \<Rightarrow>
         (let (addr, context1) = MCS6502ReadByte (reg_pc context + 1) context
          in (''$'' @ X2 addr, context1))
     | AddressingAbsoluteX \<Rightarrow>
         (let (lo, context1) = MCS6502ReadByte (reg_pc context + 1) context;
              (hi, context2) = MCS6502ReadByte (reg_pc context1 + 2) context1
          in (''$'' @ X2 hi @ X2 lo @ '', X'', context2))
     | AddressingAbsoluteY \<Rightarrow>
         (let (lo, context1) = MCS6502ReadByte (reg_pc context + 1) context;
              (hi, context2) = MCS6502ReadByte (reg_pc context1 + 2) context1
          in (''$'' @ X2 hi @ X2 lo @ '', Y'', context2))
     | AddressingZeroPageX \<Rightarrow>
         (let (addr, context1) = MCS6502ReadByte (reg_pc context + 1) context
          in (''$'' @ X2 addr @ '', X'', context1))
     | AddressingZeroPageY \<Rightarrow>
         (let (addr, context1) = MCS6502ReadByte (reg_pc context + 1) context
          in (''$'' @ X2 addr @ '', Y'', context1))
     | AddressingXIndirect \<Rightarrow>
         (let (addr, context1) = MCS6502ReadByte (reg_pc context + 1) context
          in (''($'' @ X2 addr @ '', X)'', context1))
     | AddressingIndirectY \<Rightarrow>
         (let (addr, context1) = MCS6502ReadByte (reg_pc context + 1) context
          in (''($'' @ X2 addr @ ''), Y'', context1))
     | AddressingRelative \<Rightarrow>
         (let (offset, context1) = MCS6502ReadByte (reg_pc context + 1) context;
              addr = reg_pc context1 + 2 + scast offset
          in (''$'' @ X4 addr, context1))
     | AddressingImplied \<Rightarrow> ('''', context))"

definition DisassembleCurrentInstruction :: "MCS6502Instruction \<Rightarrow> 'm ctx \<Rightarrow> string \<times> 'm ctx" where
  "DisassembleCurrentInstruction instruction context =
     (let (scratch, context1) = disassemble_operand instruction context
      in (mnemonic instruction @ '' '' @ scratch, context1))"

section \<open>Numbers as hexadecimal digits\<close>

text \<open>The last \<open>w\<close> hexadecimal digits of a number.\<close>

fun low_digits :: "nat \<Rightarrow> nat \<Rightarrow> string" where
  "low_digits 0 n = []"
| "low_digits (Suc w) n = low_digits w (n div 16) @ [hex_digit (n mod 16)]"

lemma length_low_digits [simp]: "length (low_digits w n) = w"
  by (induction w n rule: low_digits.induct) simp_all

lemma low_digits_0: "low_digits w 0 = replicate w CHR ''0''"
  by (induction w) (simp_all add: hex_digit_def replicate_append_same)

lemma format_X_low_digits: "n < 16 ^ w \<Longrightarrow> 0 < w \<Longrightarrow> format_X w n = low_digits w n"
proof (induction w arbitrary: n)
  case (Suc w)
  show ?case
  proof (cases "n < 16")
    case True
    then show ?thesis by (simp add: format_X_def hex_digits.simps [of n] low_digits_0)
  next
    case False
    then have w: "0 < w" using Suc.prems(1) by (cases w) simp_all
    have "n div 16 < 16 ^ w" using Suc.prems(1) by (simp add: less_mult_imp_div_less mult.commute)
    then have "format_X w (n div 16) = low_digits w (n div 16)" using Suc.IH w by blast
    then show ?thesis using False by (simp add: format_X_def hex_digits.simps [of n])
  qed
qed simp

lemma hex_digit_inj: "a < 16 \<Longrightarrow> b < 16 \<Longrightarrow> hex_digit a = hex_digit b \<longleftrightarrow> a = b"
proof -
  have "distinct ''0123456789ABCDEF''" "length ''0123456789ABCDEF'' = 16" by simp_all
  then show "a < 16 \<Longrightarrow> b < 16 \<Longrightarrow> hex_digit a = hex_digit b \<longleftrightarrow> a = b"
    unfolding hex_digit_def by (metis nth_eq_iff_index_eq)
qed

lemma low_digits_inj: "a < 16 ^ w \<Longrightarrow> b < 16 ^ w \<Longrightarrow> low_digits w a = low_digits w b \<longleftrightarrow> a = b"
proof (induction w arbitrary: a b)
  case (Suc w)
  have "a div 16 < 16 ^ w" "b div 16 < 16 ^ w"
    using Suc.prems by (simp_all add: less_mult_imp_div_less mult.commute)
  then have "low_digits (Suc w) a = low_digits (Suc w) b \<longleftrightarrow> a div 16 = b div 16 \<and> a mod 16 = b mod 16"
    using Suc.IH [of "a div 16" "b div 16"] by (simp add: hex_digit_inj)
  also have "\<dots> \<longleftrightarrow> a = b" by (metis div_mult_mod_eq)
  finally show ?case .
qed simp

lemma unat_X: "unat (b :: uint8) < 16 ^ 2" "unat (w :: uint16) < 16 ^ 4"
  using unat_byte [of b] unsigned_less [of w, where ?'a = nat] by simp_all

lemma X2_inj [simp]: "X2 a = X2 b \<longleftrightarrow> a = b"
  by (simp add: format_X_low_digits [OF unat_X(1)] low_digits_inj [OF unat_X(1) unat_X(1)] word_unat_eq_iff)

lemma X4_inj [simp]: "X4 a = X4 b \<longleftrightarrow> a = b"
  by (simp add: format_X_low_digits [OF unat_X(2)] low_digits_inj [OF unat_X(2) unat_X(2)] word_unat_eq_iff)

lemma length_X [simp]: "length (X2 b) = 2" "length (X4 w) = 4"
  by (simp_all add: format_X_low_digits [OF unat_X(1)] format_X_low_digits [OF unat_X(2)])

section \<open>What the text says\<close>

text \<open>The operand bytes of an instruction, read from the bus one after the other.\<close>

fun read_bytes :: "uint16 \<Rightarrow> nat \<Rightarrow> 'm ctx \<Rightarrow> uint8 list \<times> 'm ctx" where
  "read_bytes a 0 c = ([], c)"
| "read_bytes a (Suc n) c =
     (let (b, c1) = MCS6502ReadByte a c; (bs, c2) = read_bytes (a + 1) n c1 in (b # bs, c2))"

definition operand_bytes :: "MCS6502Instruction \<Rightarrow> 'm ctx \<Rightarrow> uint8 list \<times> 'm ctx" where
  "operand_bytes i c = read_bytes (reg_pc c + 1) (unat (LengthForInstruction i) - 1) c"

text \<open>The text of an operand, from the addressing mode, the program counter and the operand bytes.\<close>

definition operand_text :: "MCS6502AddressingMode \<Rightarrow> uint16 \<Rightarrow> uint8 list \<Rightarrow> string" where
  "operand_text md pc bs =
    (case md of
       AddressingImplied \<Rightarrow> ''''
     | AddressingAccumulator \<Rightarrow> ''A''
     | AddressingImmediate \<Rightarrow> ''#$'' @ X2 (bs ! 0)
     | AddressingZeroPage \<Rightarrow> ''$'' @ X2 (bs ! 0)
     | AddressingZeroPageX \<Rightarrow> ''$'' @ X2 (bs ! 0) @ '', X''
     | AddressingZeroPageY \<Rightarrow> ''$'' @ X2 (bs ! 0) @ '', Y''
     | AddressingAbsolute \<Rightarrow> ''$'' @ X2 (bs ! 1) @ X2 (bs ! 0)
     | AddressingAbsoluteX \<Rightarrow> ''$'' @ X2 (bs ! 1) @ X2 (bs ! 0) @ '', X''
     | AddressingAbsoluteY \<Rightarrow> ''$'' @ X2 (bs ! 1) @ X2 (bs ! 0) @ '', Y''
     | AddressingIndirect \<Rightarrow> ''($'' @ X2 (bs ! 1) @ X2 (bs ! 0) @ '')''
     | AddressingXIndirect \<Rightarrow> ''($'' @ X2 (bs ! 0) @ '', X)''
     | AddressingIndirectY \<Rightarrow> ''($'' @ X2 (bs ! 0) @ ''), Y''
     | AddressingRelative \<Rightarrow> ''$'' @ X4 (pc + 2 + scast (bs ! 0)))"

lemma read_operand:
  "read_bytes a (Suc 0) c = (let (b, c1) = MCS6502ReadByte a c in ([b], c1))"
  "read_bytes a 2 c =
     (let (b, c1) = MCS6502ReadByte a c; (b', c2) = MCS6502ReadByte (a + 1) c1 in ([b, b'], c2))"
  by (simp_all add: numeral_2_eq_2 Let_def split_beta)

lemma disassembly:
  "DisassembleCurrentInstruction i c =
     (mnemonic i @ '' '' @ operand_text (mode i) (reg_pc c) (fst (operand_bytes i c)), snd (operand_bytes i c))"
  by (cases "mode i")
     (simp_all add: DisassembleCurrentInstruction_def disassemble_operand_def operand_text_def operand_bytes_def
        LengthForInstruction_def read_operand Let_def split_beta add.assoc)

lemma length_read_bytes [simp]: "length (fst (read_bytes a n c)) = n"
  by (induction n arbitrary: a c) (simp_all add: Let_def split_beta)

lemma length_operand_bytes: "length (fst (operand_bytes i c)) = unat (LengthForInstruction i) - 1"
  by (simp add: operand_bytes_def)

lemma append_X2 [simp]: "X2 a @ xs = X2 b @ ys \<longleftrightarrow> a = b \<and> xs = ys"
  by (subst append_eq_append_conv) simp_all

lemma scast_inj: "(scast (a :: uint8) :: uint16) = scast b \<longleftrightarrow> a = b"
proof
  assume "(scast a :: uint16) = scast b"
  then have "(ucast (scast a :: uint16) :: uint8) = ucast (scast b :: uint16)" by simp
  moreover have "(ucast (scast w :: uint16) :: uint8) = w" for w :: uint8
    by (rule bit_word_eqI) (simp add: bit_simps)
  ultimately show "a = b" by simp
qed simp

text \<open>
  Two operand texts at the same address are equal only for equal modes and bytes; only a branch target looks
  like an absolute address.
\<close>

lemma operand_text_modes:
  assumes "operand_text md pc bs = operand_text md' pc bs'"
  shows "md = md' \<or> {md, md'} = {AddressingAbsolute, AddressingRelative}"
proof -
  define sig where "sig t = (length t, take 1 t, drop 4 (take 5 t), drop (length t - 1) t)" for t :: string
  have "sig (operand_text md pc bs) = sig (operand_text md' pc bs')" using assms by simp
  then show ?thesis
    by (cases md; cases md') (simp_all add: operand_text_def sig_def insert_commute)
qed

lemma operand_text_inj:
  assumes "operand_text (mode i) pc bs = operand_text (mode i) pc bs'"
    and "length bs = unat (LengthForInstruction i) - 1" and "length bs' = unat (LengthForInstruction i) - 1"
  shows "bs = bs'"
proof (rule nth_equalityI)
  fix n assume "n < length bs"
  then show "bs ! n = bs' ! n"
    using assms by (cases "mode i") (auto simp: LengthForInstruction_def operand_text_def scast_inj less_2_cases_iff less_Suc_eq)
qed (use assms in simp)

lemma table_modes:
  "distinct (map (\<lambda>i. (mnemonic i, mode i)) MCS6502Instructions)"
  "\<forall>i \<in> set MCS6502Instructions. length (mnemonic i) = 3 \<and> 
     (mode i = AddressingRelative \<longrightarrow> hd (mnemonic i) = CHR ''B'' \<and> mnemonic i \<noteq> ''BIT'') \<and>
     (mode i = AddressingAbsolute \<longrightarrow> mnemonic i = ''BIT'' \<or> hd (mnemonic i) \<noteq> CHR ''B'')"
  by code_simp+

lemma disassembly_inj:
  fixes c :: "'m ctx" and d :: "'n ctx"
  assumes t: "i \<in> set MCS6502Instructions" "j \<in> set MCS6502Instructions" and "reg_pc c = reg_pc d"
    and "fst (DisassembleCurrentInstruction i c) = fst (DisassembleCurrentInstruction j d)"
  shows "i = j" and "fst (operand_bytes i c) = fst (operand_bytes j d)"
proof -
  let ?t = "\<lambda>md bs. operand_text md (reg_pc d) bs"
  have "mnemonic i @ '' '' @ ?t (mode i) (fst (operand_bytes i c)) = mnemonic j @ '' '' @ ?t (mode j) (fst (operand_bytes j d))"
    using assms(3,4) by (simp add: disassembly)
  then have m: "mnemonic i = mnemonic j" and o: "?t (mode i) (fst (operand_bytes i c)) = ?t (mode j) (fst (operand_bytes j d))"
    using t table_modes(2) by (auto simp: append_eq_append_conv)
  have "{mode i, mode j} \<noteq> {AddressingAbsolute, AddressingRelative}"
    using bspec [OF table_modes(2) t(1)] bspec [OF table_modes(2) t(2)] m by (auto simp: doubleton_eq_iff)
  then have "mode i = mode j" using operand_text_modes [OF o] by blast
  then show e: "i = j"
    using t m table_modes(1) by (auto simp: distinct_map inj_on_def)
  show "fst (operand_bytes i c) = fst (operand_bytes j d)"
    by (rule operand_text_inj [where i = j and pc = "reg_pc d"]) (use o e length_operand_bytes [of j] in simp_all)
qed

lemma disassembly_length:
  assumes "i \<in> set MCS6502Instructions"
  shows "length (fst (DisassembleCurrentInstruction i c)) \<le> 12"
  using table_modes(2) assms by (cases "mode i") (auto simp: disassembly operand_text_def)

end
