(* ===== verification/CPU_Properties.thy ===== *)
theory CPU_Properties
  imports MCS6502_Step MCS6502_Arith MCS6502_Disasm
begin

text \<open>
  The processor's properties: decoding, arithmetic, the status register, program counter and
  cycle counts. They hold for every memory behind the bus; the witnesses run them on an
  example processor with 64 KiB of plain memory.
\<close>

section \<open>An example processor\<close>

definition example_cpu :: "uint8 \<Rightarrow> uint8 \<Rightarrow> uint8 list \<Rightarrow> (uint16 \<Rightarrow> uint8) ctx" where
  "example_cpu a p program =
     (MCS6502Init (\<lambda>addr m. (m addr, m)) (\<lambda>addr v m. m(addr := v))
        (\<lambda>addr. if unat addr < length program then program ! unat addr else 0))
     \<lparr>reg_a := a, reg_p := p\<rparr>"

abbreviation ADC_imm :: MCS6502Instruction where
  "ADC_imm \<equiv> mk_instr 0x69 ''ADC'' AddressingImmediate 2 False"
abbreviation SBC_imm :: MCS6502Instruction where
  "SBC_imm \<equiv> mk_instr 0xE9 ''SBC'' AddressingImmediate 2 False"
abbreviation ROL_acc :: MCS6502Instruction where
  "ROL_acc \<equiv> mk_instr 0x2A ''ROL'' AddressingAccumulator 2 False"

lemma example_operand:
  "operand ADC_imm (example_cpu a p [o1, v]) = v" "operand SBC_imm (example_cpu a p [o1, v]) = v"
  by (simp_all add: example_cpu_def MCS6502Init_def mk_instr_def
      ReadOperandValueForCurrentInstruction_def MCS6502ReadByte_def)

lemma example_flags:
  "IsDecimalSet (example_cpu a p program) \<longleftrightarrow> bit p 3"
  "IsCarrySet (example_cpu a p program) \<longleftrightarrow> bit p 0"
  "reg_a (example_cpu a p program) = a"
  "pendingTiming (example_cpu a p program) = 0"
  "status_ok (example_cpu a p program) \<longleftrightarrow> \<not> bit p 4 \<and> \<not> bit p 5"
  by (simp_all add: example_cpu_def MCS6502Init_def flag_tests status_ok_def)

section \<open>Decoding\<close>

text \<open>
  C15: the opcode table and the \<^verbatim>\<open>switch\<close> of \<^verbatim>\<open>MCS6502ExecNext\<close> agree. For every opcode the table
  knows, the table entry carries that opcode, and the case the opcode selects executes the
  instruction the entry's mnemonic names (and skips the program counter update exactly for the
  mnemonics that set it themselves).
\<close>

theorem decode_by_mnemonic:
  fixes c :: "'m ctx"
  assumes "MCS6502OpcodeTable opc = Some i"
  shows "opcode i = opc \<and>
    (\<exists>d f. map_of mnemonic_semantics (mnemonic i) = Some (d, f) \<and> exec_switch opc i c = (d, f i c))"
proof -
  from assms have i: "i \<in> set MCS6502Instructions" "opcode i = opc"
    by (simp_all add: opcode_table_SomeD)
  from i(1) obtain d and f :: "MCS6502Instruction \<Rightarrow> 'm ctx \<Rightarrow> 'm ctx"
    where "map_of mnemonic_semantics (mnemonic i) = Some (d, f)"
    and "\<forall>c. exec_switch (opcode i) i c = (d, f i c)"
    by (rule switch_by_mnemonic [where ?'m = 'm])
  with i(2) show ?thesis by auto
qed

lemma ADC_imm_in_table: "MCS6502OpcodeTable 0x69 = Some ADC_imm"
  using opcode_table_opcode [of ADC_imm] by (simp add: MCS6502Instructions_def mk_instr_def)

theorem decode_by_mnemonic_witness:
  "opcode ADC_imm = 0x69 \<and> (\<exists>d f. map_of mnemonic_semantics (mnemonic ADC_imm) = Some (d, f) \<and>
     exec_switch 0x69 ADC_imm (example_cpu 1 0 [0x69, 2]) = (d, f ADC_imm (example_cpu 1 0 [0x69, 2])))"
  by (rule decode_by_mnemonic [OF ADC_imm_in_table])

section \<open>Arithmetic\<close>

text \<open>
  C14: binary \<open>ADC\<close> adds the operand and the carry to the accumulator modulo 256, sets the carry
  on unsigned overflow, the overflow flag exactly on signed overflow, and zero and negative
  after the result.
\<close>

theorem ADC_binary:
  assumes "\<not> IsDecimalSet c"
  shows "unat (reg_a (exec_ADC i c)) = (unat (reg_a c) + unat (operand i c) + carry_in c) mod 256 \<and>
    (IsCarrySet (exec_ADC i c) \<longleftrightarrow> unat (reg_a c) + unat (operand i c) + carry_in c \<ge> 256) \<and>
    (IsOverflowSet (exec_ADC i c) \<longleftrightarrow>
      sint (reg_a c) + sint (operand i c) + int (carry_in c) \<notin> {-128..127}) \<and>
    (IsZeroSet (exec_ADC i c) \<longleftrightarrow> reg_a (exec_ADC i c) = 0) \<and>
    (IsNegativeSet (exec_ADC i c) \<longleftrightarrow> sint (reg_a (exec_ADC i c)) < 0)"
  using adc_binary [OF assms refl] by blast

theorem ADC_binary_witness:
  "unat (reg_a (exec_ADC ADC_imm (example_cpu 0x7F 1 [0x69, 0x01]))) = 0x81 \<and>
   IsOverflowSet (exec_ADC ADC_imm (example_cpu 0x7F 1 [0x69, 0x01]))"
  using ADC_binary [of "example_cpu 0x7F 1 [0x69, 0x01]" ADC_imm]
  by (simp add: example_flags example_operand bit_1_iff)

text \<open>
  C39: binary \<open>SBC\<close> subtracts the operand and the borrow (the complement of the carry) modulo 256,
  sets the carry exactly when no borrow is left, and the overflow flag exactly when the signed
  difference does not fit a byte.
\<close>

theorem SBC_binary:
  assumes "\<not> IsDecimalSet c"
  shows "int (unat (reg_a (exec_SBC i c))) =
      (int (unat (reg_a c)) - int (unat (operand i c)) - (1 - int (carry_in c))) mod 256 \<and>
    (IsCarrySet (exec_SBC i c) \<longleftrightarrow> unat (reg_a c) + carry_in c \<ge> unat (operand i c) + 1) \<and>
    (IsOverflowSet (exec_SBC i c) \<longleftrightarrow>
      sint (reg_a c) - sint (operand i c) - (1 - int (carry_in c)) \<notin> {-128..127}) \<and>
    (IsZeroSet (exec_SBC i c) \<longleftrightarrow> reg_a (exec_SBC i c) = 0) \<and>
    (IsNegativeSet (exec_SBC i c) \<longleftrightarrow> sint (reg_a (exec_SBC i c)) < 0)"
  using sbc_binary [OF assms refl] by blast

theorem SBC_binary_witness:
  "int (unat (reg_a (exec_SBC SBC_imm (example_cpu 0x10 1 [0xE9, 0x20])))) = 0xF0 \<and>
   \<not> IsCarrySet (exec_SBC SBC_imm (example_cpu 0x10 1 [0xE9, 0x20]))"
  using SBC_binary [of "example_cpu 0x10 1 [0xE9, 0x20]" SBC_imm]
  by (simp add: example_flags example_operand bit_1_iff)

text \<open>
  C40: in decimal mode, on two-digit operands, \<open>ADC\<close> and \<open>SBC\<close> add and subtract modulo 100, the
  result is a two-digit number again, and the carry is the decimal carry (for \<open>SBC\<close>: no borrow).
\<close>

theorem decimal_arithmetic:
  assumes "IsDecimalSet c" and "valid_bcd (reg_a c)" and "valid_bcd (operand i c)"
  shows "valid_bcd (reg_a (exec_ADC i c)) \<and>
    IntegerFromBCD (reg_a (exec_ADC i c)) =
      (IntegerFromBCD (reg_a c) + IntegerFromBCD (operand i c) + int (carry_in c)) mod 100 \<and>
    (IsCarrySet (exec_ADC i c) \<longleftrightarrow>
      IntegerFromBCD (reg_a c) + IntegerFromBCD (operand i c) + int (carry_in c) \<ge> 100) \<and>
    valid_bcd (reg_a (exec_SBC i c)) \<and>
    IntegerFromBCD (reg_a (exec_SBC i c)) =
      (IntegerFromBCD (reg_a c) - IntegerFromBCD (operand i c) - (1 - int (carry_in c))) mod 100 \<and>
    (IsCarrySet (exec_SBC i c) \<longleftrightarrow>
      IntegerFromBCD (reg_a c) - IntegerFromBCD (operand i c) - (1 - int (carry_in c)) \<ge> 0)"
  using adc_decimal [OF assms refl] sbc_decimal [OF assms refl] by blast

theorem decimal_arithmetic_witness:
  "IntegerFromBCD (reg_a (exec_ADC ADC_imm (example_cpu 0x58 0x09 [0x69, 0x46]))) = 5 \<and>
   IntegerFromBCD (reg_a (exec_SBC ADC_imm (example_cpu 0x58 0x09 [0x69, 0x46]))) = 12"
  using decimal_arithmetic [of "example_cpu 0x58 0x09 [0x69, 0x46]" ADC_imm]
  by (simp add: example_flags example_operand valid_bcd_def IntegerFromBCD_def)

text \<open>
  The decimal conversion helpers are inverse to each other on the numbers below 100 and on
  the bytes with two decimal digits.
\<close>

theorem BCD_roundtrip:
  "(0 \<le> n \<and> n < 100 \<longrightarrow> valid_bcd (BCDFromInteger n) \<and> IntegerFromBCD (BCDFromInteger n) = n) \<and>
   (valid_bcd w \<longrightarrow> IntegerFromBCD w < 100 \<and> BCDFromInteger (IntegerFromBCD w) = w)"
  using IntegerFromBCD_BCDFromInteger [of n] BCDFromInteger_IntegerFromBCD [of w] by blast

theorem BCD_roundtrip_witness:
  "IntegerFromBCD (BCDFromInteger 42) = 42 \<and> BCDFromInteger (IntegerFromBCD 0x99) = 0x99"
  using BCD_roundtrip [of 42 "0x99"] by (simp add: valid_bcd_def)

text \<open>
  The comparisons \<open>CMP\<close>, \<open>CPX\<close>, \<open>CPY\<close> set the carry exactly when the register is at least the
  operand, zero exactly when they are equal, negative to the sign of the difference, and leave
  the registers alone.
\<close>

theorem comparisons:
  "(IsCarrySet (exec_CMP i c) \<longleftrightarrow> operand i c \<le> reg_a c) \<and>
   (IsZeroSet (exec_CMP i c) \<longleftrightarrow> operand i c = reg_a c) \<and>
   (IsNegativeSet (exec_CMP i c) \<longleftrightarrow> bit (reg_a c - operand i c) 7) \<and>
   (IsCarrySet (exec_CPX i c) \<longleftrightarrow> operand i c \<le> reg_x c) \<and>
   (IsZeroSet (exec_CPX i c) \<longleftrightarrow> operand i c = reg_x c) \<and>
   (IsNegativeSet (exec_CPX i c) \<longleftrightarrow> bit (reg_x c - operand i c) 7) \<and>
   (IsCarrySet (exec_CPY i c) \<longleftrightarrow> operand i c \<le> reg_y c) \<and>
   (IsZeroSet (exec_CPY i c) \<longleftrightarrow> operand i c = reg_y c) \<and>
   (IsNegativeSet (exec_CPY i c) \<longleftrightarrow> bit (reg_y c - operand i c) 7) \<and>
   reg_a (exec_CMP i c) = reg_a c \<and> reg_x (exec_CPX i c) = reg_x c \<and> reg_y (exec_CPY i c) = reg_y c"
  by (simp add: compare_flags) (simp add: exec_CMP_def exec_CPX_def exec_CPY_def Let_def split_beta)

text \<open>
  Rotating the accumulator left and then right restores accumulator and carry: the two
  rotations go through the carry, nine bits around.
\<close>

theorem rotate_roundtrip:
  assumes "mode i = AddressingAccumulator" and "mode j = AddressingAccumulator"
  shows "reg_a (exec_ROR j (exec_ROL i c)) = reg_a c \<and>
    IsCarrySet (exec_ROR j (exec_ROL i c)) = IsCarrySet c"
proof
  show "reg_a (exec_ROR j (exec_ROL i c)) = reg_a c"
    by (rule bit_word_eqI) (auto simp: rol_acc [OF assms(1)] ror_acc [OF assms(2)])
  show "IsCarrySet (exec_ROR j (exec_ROL i c)) = IsCarrySet c"
    by (simp add: rol_acc [OF assms(1)] ror_acc [OF assms(2)])
qed

theorem rotate_roundtrip_witness:
  "reg_a (exec_ROR ROL_acc (exec_ROL ROL_acc (example_cpu 0x81 0 []))) = 0x81"
  using rotate_roundtrip [of ROL_acc ROL_acc "example_cpu 0x81 0 []"]
  by (simp add: mk_instr_def example_flags)

section \<open>Steps\<close>

text \<open>
  An instruction that is not a branch, jump, call, return or \<open>BRK\<close> advances the program counter
  by its length, and the step reports neither a halt loop nor an invalid operation.
\<close>

theorem PC_advances:
  assumes "\<not> nmiPending c" and "\<not> irqPending c"
    and "MCS6502OpcodeTable (fst (MCS6502ReadByte (reg_pc c) (fetch_context c))) = Some i"
    and "\<not> fst (exec_switch (opcode i) i (snd (MCS6502ReadByte (reg_pc c) (fetch_context c))))"
  shows "reg_pc (snd (MCS6502ExecNext c)) = reg_pc c + LengthForInstruction i \<and>
    fst (MCS6502ExecNext c) = MCS6502ExecResultRunning"
proof (cases c rule: ExecNext_cases)
  case (instruction opc c1 j d c2)
  have j: "j = i" using assms(3) instruction(3,4) by simp
  moreover have "opcode i = opc" using opcode_table_SomeD instruction(4) j by blast
  ultimately have "\<not> d" "reg_pc c2 = reg_pc c1"
    using assms(4) instruction(3,5) switch_pc [of opc i c1] by simp_all
  moreover have "reg_pc c1 = reg_pc c"
    using instruction(3) by (metis ReadByte_frame(5) fetch_context_frame(5) snd_conv)
  moreover have "LengthForInstruction i \<noteq> 0"
    by (simp add: LengthForInstruction_def split: MCS6502AddressingMode.split)
  ultimately show ?thesis using instruction(6,7) j by simp
qed (use assms in simp_all)

theorem PC_advances_witness:
  "reg_pc (snd (MCS6502ExecNext (example_cpu 1 0 [0x69, 2]))) = 2"
proof -
  let ?c = "example_cpu 1 0 [0x69, 2]"
  have "\<not> nmiPending ?c" "\<not> irqPending ?c" "reg_pc ?c = 0"
    by (simp_all add: example_cpu_def MCS6502Init_def)
  moreover have "fst (MCS6502ReadByte (reg_pc ?c) (fetch_context ?c)) = 0x69"
    by (simp add: example_cpu_def MCS6502Init_def MCS6502ReadByte_def fetch_context_def)
  moreover have "fst (exec_switch 0x69 ADC_imm x) = False" for x :: "(uint16 \<Rightarrow> uint8) ctx"
    by (simp add: exec_switch_def switch_cases_def)
  moreover have "LengthForInstruction ADC_imm = 2" "opcode ADC_imm = 0x69"
    by (simp_all add: LengthForInstruction_def mk_instr_def)
  ultimately show ?thesis
    using PC_advances [of ?c ADC_imm] ADC_imm_in_table by simp
qed

text \<open>
  a step that executes a known instruction or takes an interrupt accounts for 2 to 7 clock
  cycles.
\<close>

theorem step_cycles:
  assumes "fst (MCS6502ExecNext c) \<noteq> MCS6502ExecResultInvalidOperation"
  shows "2 \<le> unat (timingForLastOperation (snd (MCS6502ExecNext c))) \<and>
    unat (timingForLastOperation (snd (MCS6502ExecNext c))) \<le> 7"
  using ExecNext_timing [OF assms] by blast

theorem step_cycles_witness:
  "2 \<le> unat (timingForLastOperation (snd (MCS6502ExecNext ((example_cpu 1 0 [])\<lparr>nmiPending := True\<rparr>))))"
  using step_cycles [of "(example_cpu 1 0 [])\<lparr>nmiPending := True\<rparr>"]
  by (simp add: MCS6502ExecNext_def)

text \<open>
  The tick interface is the step interface on a clock. From an idle processor, the first
  tick executes the instruction and exactly as many ticks as it takes cycles bring the processor
  to the state after the instruction, idle again.
\<close>

theorem ticks_per_step:
  fixes c :: "'m ctx"
  assumes "pendingTiming c = 0" and "fst (MCS6502ExecNext c) \<noteq> MCS6502ExecResultInvalidOperation"
  shows "((\<lambda>c. snd (MCS6502Tick c)) ^^ unat (timingForLastOperation (snd (MCS6502ExecNext c)))) c =
    snd (MCS6502ExecNext c)"
proof -
  have "timingForLastOperation (snd (MCS6502ExecNext c)) \<noteq> 0"
    using ExecNext_timing(1) [OF assms(2)] by auto
  then have "(tick_step ^^ unat (timingForLastOperation (snd (MCS6502ExecNext c)))) c =
      (snd (MCS6502ExecNext c))\<lparr>pendingTiming := 0\<rparr>"
    using instruction_ticks [OF assms(1)] by (metis prod.collapse)
  moreover have "(snd (MCS6502ExecNext c))\<lparr>pendingTiming := 0\<rparr> = snd (MCS6502ExecNext c)"
    using ExecNext_pendingTiming [of c] by (cases "snd (MCS6502ExecNext c)") simp
  moreover have "(tick_step :: 'm ctx \<Rightarrow> 'm ctx) = (\<lambda>c. snd (MCS6502Tick c))" by (simp add: tick_step_def fun_eq_iff)
  ultimately show ?thesis by simp
qed

theorem ticks_per_step_witness:
  "((\<lambda>c. snd (MCS6502Tick c)) ^^ 7) ((example_cpu 1 0 [])\<lparr>nmiPending := True\<rparr>) =
   snd (MCS6502ExecNext ((example_cpu 1 0 [])\<lparr>nmiPending := True\<rparr>))"
proof -
  let ?c = "(example_cpu 1 0 [])\<lparr>nmiPending := True\<rparr>"
  have "unat (timingForLastOperation (snd (MCS6502ExecNext ?c))) = 7"
    "fst (MCS6502ExecNext ?c) = MCS6502ExecResultRunning"
    by (simp_all add: MCS6502ExecNext_def HandleNMI_def Let_def split_beta)
  then show ?thesis using ticks_per_step [of ?c] by (simp only: example_flags) (simp add: example_flags)
qed

section \<open>Disassembly\<close>

text \<open>
  C31: the disassembler's text fits its buffers and determines the instruction. The line is at most 12 characters long (the
  buffers hold 256 and 260), and if two instructions of the table at the same address have the same text, they are the same
  instruction with the same operand bytes. The operand bytes are read from the bus in order, each once.
\<close>

theorem disassembly_unambiguous:
  fixes c :: "'m ctx" and d :: "'n ctx"
  assumes "i \<in> set MCS6502Instructions" and "j \<in> set MCS6502Instructions" and "reg_pc c = reg_pc d"
    and "fst (DisassembleCurrentInstruction i c) = fst (DisassembleCurrentInstruction j d)"
  shows "length (fst (DisassembleCurrentInstruction i c)) \<le> 12 \<and> snd (DisassembleCurrentInstruction i c) = snd (operand_bytes i c) \<and>
    i = j \<and> fst (operand_bytes i c) = fst (operand_bytes j d)"
  using disassembly_inj [OF assms] disassembly_length [OF assms(1), of c] by (simp add: disassembly)

theorem disassembly_unambiguous_witness:
  "length (fst (DisassembleCurrentInstruction ADC_imm (example_cpu 1 0 [0x69, 0x2A]))) \<le> 12 \<and>
   fst (operand_bytes ADC_imm (example_cpu 1 0 [0x69, 0x2A])) = fst (operand_bytes ADC_imm (example_cpu 7 0 [0x69, 0x2A]))"
proof -
  have t: "ADC_imm \<in> set MCS6502Instructions" by (simp add: MCS6502Instructions_def)
  have "fst (DisassembleCurrentInstruction ADC_imm (example_cpu a 0 [0x69, 0x2A])) = ''ADC #$2A''" for a
    by (simp add: DisassembleCurrentInstruction_def disassemble_operand_def example_cpu_def MCS6502Init_def MCS6502ReadByte_def
        format_X_def hex_digits.simps hex_digit_def)
  then show ?thesis
    using disassembly_unambiguous [OF t t, of "example_cpu 1 0 [0x69, 0x2A]" "example_cpu 7 0 [0x69, 0x2A]"]
    by (simp add: example_cpu_def)
qed

end
