(* ===== verification/Machine_State.thy ===== *)
theory Machine_State
  imports MCS6502_Exec
begin

text \<open>
  The custom computer of \<^verbatim>\<open>src/machine/machine.c\<close> and \<^verbatim>\<open>machine.h\<close>: the devices as records, the
  memory management unit, the interrupt controller, and the memory-mapped bus that decodes a
  physical address to a device register, a buffer, the ROM or RAM. The back pointers \<^verbatim>\<open>m\<close> of
  the C structures are left out: every routine here takes and returns the machine itself.
\<close>

section \<open>Memory map and constants\<close>

abbreviation RAM_SIZE :: uint32 where "RAM_SIZE \<equiv> 0x00100000"

abbreviation DISK_BUF :: uint32 where "DISK_BUF \<equiv> 0x0000fc00"
abbreviation DISK_STAT :: uint32 where "DISK_STAT \<equiv> 0x0000fe00"
abbreviation DISK_CMD :: uint32 where "DISK_CMD \<equiv> 0x0000fe01"
abbreviation DISK_LBA :: uint32 where "DISK_LBA \<equiv> 0x0000fe02"

abbreviation UART_TX :: uint32 where "UART_TX \<equiv> 0x0000fe10"
abbreviation UART_RX :: uint32 where "UART_RX \<equiv> 0x0000fe11"
abbreviation UART_STAT :: uint32 where "UART_STAT \<equiv> 0x0000fe12"

abbreviation MMU_PAGE_TABLE :: uint32 where "MMU_PAGE_TABLE \<equiv> 0x0000fe20"
abbreviation MMU_PREV_REGISTER :: uint32 where "MMU_PREV_REGISTER \<equiv> 0x0000fe40"
abbreviation MMU_WATCHDOG_REGISTER :: uint32 where "MMU_WATCHDOG_REGISTER \<equiv> 0x0000fe41"
abbreviation MMU_CAUSE_REGISTER :: uint32 where "MMU_CAUSE_REGISTER \<equiv> 0x0000fe42"
abbreviation MMU_VA_REGISTER_LOW :: uint32 where "MMU_VA_REGISTER_LOW \<equiv> 0x0000fe43"
abbreviation MMU_VA_REGISTER_HIGH :: uint32 where "MMU_VA_REGISTER_HIGH \<equiv> 0x0000fe44"

abbreviation TIMER_LATCH_LOW :: uint32 where "TIMER_LATCH_LOW \<equiv> 0x0000fe52"
abbreviation TIMER_LATCH_HIGH :: uint32 where "TIMER_LATCH_HIGH \<equiv> 0x0000fe53"
abbreviation TIMER_COUNTER_LOW :: uint32 where "TIMER_COUNTER_LOW \<equiv> 0x0000fe54"
abbreviation TIMER_COUNTER_HIGH :: uint32 where "TIMER_COUNTER_HIGH \<equiv> 0x0000fe55"
abbreviation TIMER_CTRL :: uint32 where "TIMER_CTRL \<equiv> 0x0000fe56"

abbreviation PLIC_INTERRUPT_LINES :: uint32 where "PLIC_INTERRUPT_LINES \<equiv> 0x0000fe60"

abbreviation ROM_ENABLE :: uint32 where "ROM_ENABLE \<equiv> 0x0000fef0"
abbreviation ROM_BASE :: uint32 where "ROM_BASE \<equiv> 0x0000ff00"
abbreviation ROM_SIZE :: uint32 where "ROM_SIZE \<equiv> 0x00000100"

abbreviation DISK_SECTOR_SIZE :: nat where "DISK_SECTOR_SIZE \<equiv> 512"
abbreviation DISK_LATENCY :: int where "DISK_LATENCY \<equiv> 200"
abbreviation CPU_PER_STEP :: nat where "CPU_PER_STEP \<equiv> 100"

abbreviation MMU_PAGE_TABLE_SIZE :: nat where "MMU_PAGE_TABLE_SIZE \<equiv> 16"
abbreviation MMU_LAST_SEGMENT :: nat where "MMU_LAST_SEGMENT \<equiv> 15"
abbreviation MMU_LAST_FRAME :: uint8 where "MMU_LAST_FRAME \<equiv> 15"
abbreviation MMU_FRAME_INVALID :: uint8 where "MMU_FRAME_INVALID \<equiv> 0xff"

abbreviation UART_STATUS_RX_READY :: uint8 where "UART_STATUS_RX_READY \<equiv> 0x01"
abbreviation UART_STATUS_TX_READY :: uint8 where "UART_STATUS_TX_READY \<equiv> 0x02"
abbreviation DISK_CMD_READ :: uint8 where "DISK_CMD_READ \<equiv> 1"
abbreviation DISK_CMD_WRITE :: uint8 where "DISK_CMD_WRITE \<equiv> 2"
abbreviation TIMER_ENABLE_FALSE :: uint8 where "TIMER_ENABLE_FALSE \<equiv> 0"
abbreviation TIMER_ENABLE_TRUE :: uint8 where "TIMER_ENABLE_TRUE \<equiv> 1"
abbreviation DISK_STATUS_BUSY :: uint8 where "DISK_STATUS_BUSY \<equiv> 1"
abbreviation DISK_STATUS_READY :: uint8 where "DISK_STATUS_READY \<equiv> 2"
abbreviation DISK_STATUS_ERROR :: uint8 where "DISK_STATUS_ERROR \<equiv> 3"
abbreviation PLIC_PIN_TIMER :: uint8 where "PLIC_PIN_TIMER \<equiv> 0x01"
abbreviation PLIC_PIN_UART_RX :: uint8 where "PLIC_PIN_UART_RX \<equiv> 0x02"
abbreviation PLIC_PIN_DISK :: uint8 where "PLIC_PIN_DISK \<equiv> 0x08"
abbreviation MMU_CAUSE_V :: uint8 where "MMU_CAUSE_V \<equiv> 0x01"
abbreviation MMU_CAUSE_INVALID_OPCODE :: uint8 where "MMU_CAUSE_INVALID_OPCODE \<equiv> 0x10"
abbreviation MMU_CAUSE_PRIVILEGE :: uint8 where "MMU_CAUSE_PRIVILEGE \<equiv> 0x20"

section \<open>Devices\<close>

text \<open>
  Arrays of fixed size are lists (\<open>rom_data\<close> 256 bytes, \<open>buffer\<close> 512 bytes, \<open>page_table\<close> 16
  entries; \<open>machine_wf\<close> states the lengths), the megabyte of RAM is a function of the
  physical address. The disk image is the content of the host file; the terminal is what is
  still to be read from standard input and what has been written to standard output.
\<close>

record ROM =
  rom_enable :: uint8
  rom_data :: "uint8 list"

record Uart =
  uart_tx :: uint8
  uart_rx :: uint8
  uart_status :: uint8

record Disk =
  disk_file :: "uint8 list"
  disk_buffer :: "uint8 list"
  disk_cmd :: uint8
  disk_status :: uint8
  disk_lba_low :: uint8
  disk_lba_high :: uint8
  disk_delay :: int

record MMU =
  page_table :: "uint8 list"
  mmu_prev :: uint8
  mmu_watchdog :: uint8
  mmu_cause :: uint8
  mmu_va :: uint16
  mmu_opcode :: uint8
  in_user :: bool
  pending_nmi :: bool

record Timer =
  timer_ctrl :: uint8
  timer_latch_low :: uint8
  timer_latch_high :: uint8
  timer_counter_low :: uint8
  timer_counter_high :: uint8

record PLIC =
  interrupts_lines :: uint8
  pending_irq :: bool

record Machine =
  ram :: "uint32 \<Rightarrow> uint8"
  rom :: ROM
  uart :: Uart
  disk :: Disk
  mmu :: MMU
  timer :: Timer
  plic :: PLIC

section \<open>Interrupt controller and address translation\<close>

definition PLIC_raise :: "uint8 \<Rightarrow> Machine \<Rightarrow> Machine" where
  [bus_defs]: "PLIC_raise pin_to_raise m =
     m\<lparr>plic := (plic m)\<lparr>pending_irq := True,
        interrupts_lines := interrupts_lines (plic m) OR pin_to_raise\<rparr>\<rparr>"

definition PLIC_lower :: "Machine \<Rightarrow> Machine" where
  [bus_defs]: "PLIC_lower m = m\<lparr>plic := (plic m)\<lparr>pending_irq := False\<rparr>\<rparr>"

text \<open>The C result \<open>-1\<close> is the largest \<open>uint32\<close>, an address no device and no RAM answers.\<close>

definition MMU_translate :: "uint16 \<Rightarrow> MMU \<Rightarrow> uint32 \<times> MMU" where
  "MMU_translate va mm =
     (let segment = unat (drop_bit 12 va);
          offset = va AND 0x0FFF;
          frame = page_table mm ! segment
      in if frame = MMU_FRAME_INVALID then (- 1, mm\<lparr>mmu_va := va, pending_nmi := True\<rparr>)
         else (push_bit 12 (ucast frame) OR ucast offset, mm))"

definition valid_opcode_table :: "bool list" where
  "valid_opcode_table =
    [True, True, False, False, False, True, True, False, True, True, True, False, False, True, True, False,
     True, True, False, False, False, True, True, False, True, True, False, False, False, True, True, False,
     True, True, False, False, True, True, True, False, True, True, True, False, True, True, True, False,
     True, True, False, False, False, True, True, False, True, True, False, False, False, True, True, False,
     True, True, False, False, False, True, True, False, True, True, True, False, True, True, True, False,
     True, True, False, False, False, True, True, False, True, True, False, False, False, True, True, False,
     True, True, False, False, False, True, True, False, True, True, True, False, True, True, True, False,
     True, True, False, False, False, True, True, False, True, True, False, False, False, True, True, False,
     False, True, False, False, True, True, True, False, True, False, True, False, True, True, True, False,
     True, True, False, False, True, True, True, False, True, True, True, False, False, True, False, False,
     True, True, True, False, True, True, True, False, True, True, True, False, True, True, True, False,
     True, True, False, False, True, True, True, False, True, True, True, False, True, True, True, False,
     True, True, False, False, True, True, True, False, True, True, True, False, True, True, True, False,
     True, True, False, False, False, True, True, False, True, True, False, False, False, True, True, False,
     True, True, False, False, True, True, True, False, True, True, True, False, True, True, True, False,
     True, True, False, False, False, True, True, False, True, True, False, False, False, True, True, False]"

section \<open>The bus\<close>

text \<open>
  \<open>Machine_read\<close> and \<open>Machine_write\<close> test the ranges and registers in the order of the source; the
  index of an array access is the physical address less the base of its range.
\<close>

definition Machine_read :: "uint16 \<Rightarrow> Machine \<Rightarrow> uint8 \<times> Machine" where
  "Machine_read addr m0 =
    (let (pa, mm) = MMU_translate addr (mmu m0);
         m = m0\<lparr>mmu := mm\<rparr>
     in if pa = PLIC_INTERRUPT_LINES then (interrupts_lines (plic m), m)
        else if pa = TIMER_CTRL then (timer_ctrl (timer m), m)
        else if pa = TIMER_LATCH_HIGH then (timer_latch_high (timer m), m)
        else if pa = TIMER_LATCH_LOW then (timer_latch_low (timer m), m)
        else if pa = TIMER_COUNTER_HIGH then (timer_counter_high (timer m), m)
        else if pa = TIMER_COUNTER_LOW then (timer_counter_low (timer m), m)
        else if pa \<ge> MMU_PAGE_TABLE \<and> pa < MMU_PAGE_TABLE + 16
          then (page_table (mmu m) ! unat (pa - MMU_PAGE_TABLE), m)
        else if pa = MMU_PREV_REGISTER then (mmu_prev (mmu m), m)
        else if pa = MMU_WATCHDOG_REGISTER then (mmu_watchdog (mmu m), m)
        else if pa = MMU_CAUSE_REGISTER then (mmu_cause (mmu m), m)
        else if pa = MMU_VA_REGISTER_LOW then (ucast (mmu_va (mmu m) AND 0x00ff), m)
        else if pa = MMU_VA_REGISTER_HIGH then (ucast (drop_bit 8 (mmu_va (mmu m))), m)
        else if pa = ROM_ENABLE then (rom_enable (rom m), m)
        else if pa \<ge> ROM_BASE \<and> pa < ROM_BASE + ROM_SIZE \<and> rom_enable (rom m) \<noteq> 0
          then (rom_data (rom m) ! unat (pa - ROM_BASE), m)
        else if pa \<ge> DISK_BUF \<and> pa < DISK_BUF + 512
          then (disk_buffer (disk m) ! unat (pa - DISK_BUF), m)
        else if pa = DISK_CMD then (disk_cmd (disk m), m)
        else if pa = DISK_STAT then (disk_status (disk m), m)
        else if pa = DISK_LBA + 0 then (disk_lba_low (disk m), m)
        else if pa = DISK_LBA + 1 then (disk_lba_high (disk m), m)
        else if pa = UART_RX
          then (uart_rx (uart m),
                m\<lparr>uart := (uart m)\<lparr>uart_status :=
                  uart_status (uart m) AND NOT UART_STATUS_RX_READY\<rparr>\<rparr>)
        else if pa = UART_TX then (uart_tx (uart m), m)
        else if pa = UART_STAT then (uart_status (uart m), m)
        else if pa < RAM_SIZE then (ram m pa, m)
        else (0xFF, m))"

definition Machine_write :: "uint16 \<Rightarrow> uint8 \<Rightarrow> Machine \<Rightarrow> Machine" where
  "Machine_write addr byte m0 =
    (let (pa, mm) = MMU_translate addr (mmu m0);
         m = m0\<lparr>mmu := mm\<rparr>
     in if pa = PLIC_INTERRUPT_LINES then m\<lparr>plic := (plic m)\<lparr>interrupts_lines := byte\<rparr>\<rparr>
        else if pa = TIMER_CTRL then
          (let m1 = m\<lparr>timer := (timer m)\<lparr>timer_ctrl := byte\<rparr>\<rparr>
           in if byte = TIMER_ENABLE_TRUE
              then m1\<lparr>timer := (timer m1)\<lparr>timer_counter_high := timer_latch_high (timer m1),
                     timer_counter_low := timer_latch_low (timer m1)\<rparr>\<rparr>
              else m1)
        else if pa = TIMER_LATCH_HIGH then m\<lparr>timer := (timer m)\<lparr>timer_latch_high := byte\<rparr>\<rparr>
        else if pa = TIMER_LATCH_LOW then m\<lparr>timer := (timer m)\<lparr>timer_latch_low := byte\<rparr>\<rparr>
        else if pa = TIMER_COUNTER_HIGH then m\<lparr>timer := (timer m)\<lparr>timer_counter_high := byte\<rparr>\<rparr>
        else if pa = TIMER_COUNTER_LOW then m\<lparr>timer := (timer m)\<lparr>timer_counter_low := byte\<rparr>\<rparr>
        else if pa \<ge> MMU_PAGE_TABLE \<and> pa < MMU_PAGE_TABLE + 16
          then m\<lparr>mmu := (mmu m)\<lparr>page_table := (page_table (mmu m))[unat (pa - MMU_PAGE_TABLE) := byte]\<rparr>\<rparr>
        else if pa = MMU_PREV_REGISTER then m\<lparr>mmu := (mmu m)\<lparr>mmu_prev := byte\<rparr>\<rparr>
        else if pa = MMU_CAUSE_REGISTER then m\<lparr>mmu := (mmu m)\<lparr>mmu_cause := byte\<rparr>\<rparr>
        else if pa = ROM_ENABLE then m\<lparr>rom := (rom m)\<lparr>rom_enable := byte\<rparr>\<rparr>
        else if pa \<ge> DISK_BUF \<and> pa < DISK_BUF + 512
          then m\<lparr>disk := (disk m)\<lparr>disk_buffer := (disk_buffer (disk m))[unat (pa - DISK_BUF) := byte]\<rparr>\<rparr>
        else if pa = DISK_CMD then
          (let m1 = m\<lparr>disk := (disk m)\<lparr>disk_cmd := byte\<rparr>\<rparr>
           in if byte = DISK_CMD_READ
              then m1\<lparr>disk := (disk m1)\<lparr>disk_status := DISK_STATUS_BUSY, disk_delay := DISK_LATENCY\<rparr>\<rparr>
              else if byte = DISK_CMD_WRITE
              then m1\<lparr>disk := (disk m1)\<lparr>disk_status := DISK_STATUS_BUSY, disk_delay := DISK_LATENCY\<rparr>\<rparr>
              else m1)
        else if pa = DISK_LBA + 0 then m\<lparr>disk := (disk m)\<lparr>disk_lba_low := byte\<rparr>\<rparr>
        else if pa = DISK_LBA + 1 then m\<lparr>disk := (disk m)\<lparr>disk_lba_high := byte\<rparr>\<rparr>
        else if pa = UART_TX
          then m\<lparr>uart := (uart m)\<lparr>uart_tx := byte,
                 uart_status := uart_status (uart m) AND NOT UART_STATUS_TX_READY\<rparr>\<rparr>
        else if pa < RAM_SIZE then m\<lparr>ram := (ram m)(pa := byte)\<rparr>
        else m)"

end
