(* ===== verification/Machine_Step.thy ===== *)
theory Machine_Step
  imports Machine_State
begin

text \<open>
  The running machine of \<^verbatim>\<open>src/machine/machine.c\<close>: the MMU watching the instruction stream
  before and after each instruction, one time step of each device, of the processor and of
  the whole machine, power-on, and the main loop. The host appears as explicit input and
  output: the key read from the terminal (if any), the number of bytes the host file accepts
  from a write, and the bytes written to the terminal.
\<close>

type_synonym system = "Machine ctx"

abbreviation on_machine :: "(Machine \<Rightarrow> Machine) \<Rightarrow> system \<Rightarrow> system" where
  "on_machine f cpu \<equiv> cpu\<lparr>readWriteContext := f (readWriteContext cpu)\<rparr>"

section \<open>The MMU around an instruction\<close>

text \<open>
  The two assignments that every trap makes: remember the last segment's frame in \<^verbatim>\<open>prev\<close>, then
  map the kernel's last segment.
\<close>

definition enter_kernel_segment :: "Machine \<Rightarrow> Machine" where
  "enter_kernel_segment m =
     m\<lparr>mmu := (mmu m)\<lparr>mmu_prev := page_table (mmu m) ! MMU_LAST_SEGMENT,
        page_table := (page_table (mmu m))[MMU_LAST_SEGMENT := MMU_LAST_FRAME]\<rparr>\<rparr>"

definition MMU_fetch :: "system \<Rightarrow> system" where
  "MMU_fetch cpu =
     (let (opc, m1) = Machine_read (reg_pc cpu) (readWriteContext cpu)
      in cpu\<lparr>readWriteContext := m1\<lparr>mmu := (mmu m1)\<lparr>mmu_opcode := opc,
           in_user := page_table (mmu m1) ! MMU_LAST_SEGMENT \<noteq> MMU_LAST_FRAME\<rparr>\<rparr>\<rparr>)"

definition MMU_intercept :: "system \<Rightarrow> system" where
  "MMU_intercept cpu =
     (let m = readWriteContext cpu
      in if pending_irq (plic m) \<and> \<not> (reg_p cpu AND MCS6502_STATUS_I \<noteq> 0)
         then MCS6502IRQ (on_machine (\<lambda>m. PLIC_lower (enter_kernel_segment m)) cpu)
         else if mmu_opcode (mmu m) = 0x00 then on_machine enter_kernel_segment cpu
         else cpu)"

definition MMU_privilege_watchdog :: "system \<Rightarrow> system" where
  "MMU_privilege_watchdog cpu =
     (let m = readWriteContext cpu;
          opc = mmu_opcode (mmu m);
          valid = valid_opcode_table ! unat opc
      in if in_user (mmu m) \<and> (opc = 0x78 \<or> opc = 0x28 \<or> opc = 0x40 \<or> \<not> valid)
         then MCS6502NMI (on_machine (\<lambda>m. enter_kernel_segment
                (m\<lparr>mmu := (mmu m)\<lparr>mmu_watchdog := opc,
                   mmu_cause := (if \<not> valid then MMU_CAUSE_INVALID_OPCODE
                                 else MMU_CAUSE_PRIVILEGE)\<rparr>\<rparr>)) cpu)
         else cpu)"

definition MMU_violation_watchdog :: "system \<Rightarrow> system" where
  "MMU_violation_watchdog cpu =
     (if pending_nmi (mmu (readWriteContext cpu))
      then MCS6502NMI (on_machine (\<lambda>m.
             (let m1 = enter_kernel_segment (m\<lparr>mmu := (mmu m)\<lparr>mmu_cause := MMU_CAUSE_V\<rparr>\<rparr>)
              in m1\<lparr>mmu := (mmu m1)\<lparr>pending_nmi := False\<rparr>\<rparr>)) cpu)
      else cpu)"

definition MMU_pre_exec :: "system \<Rightarrow> system" where
  "MMU_pre_exec cpu =
     MMU_violation_watchdog (MMU_privilege_watchdog (MMU_intercept (MMU_fetch cpu)))"

definition MMU_post_exec :: "Machine \<Rightarrow> Machine" where
  "MMU_post_exec m =
     (if mmu_opcode (mmu m) = 0x40 \<and> \<not> in_user (mmu m)
      then m\<lparr>mmu := (mmu m)\<lparr>page_table :=
             (page_table (mmu m))[MMU_LAST_SEGMENT := mmu_prev (mmu m)]\<rparr>\<rparr>
      else m)"

section \<open>Devices in time\<close>

text \<open>
  \<open>fread\<close> and \<open>fwrite\<close> after an \<open>fseek\<close>: a read returns what the file holds at the offset, at most
  \<open>n\<close> bytes; a write replaces or extends the file, filling a gap before the offset with zero
  bytes.
\<close>

definition file_read :: "nat \<Rightarrow> nat \<Rightarrow> uint8 list \<Rightarrow> uint8 list" where
  "file_read off n file = take n (drop off file)"

definition file_write :: "nat \<Rightarrow> uint8 list \<Rightarrow> uint8 list \<Rightarrow> uint8 list" where
  "file_write off bytes file =
     take off file @ replicate (off - length file) 0 @ bytes @ drop (off + length bytes) file"

definition Disk_step :: "nat \<Rightarrow> Machine \<Rightarrow> bool \<times> Machine" where
  "Disk_step accepted m =
    (let d = disk m
     in if disk_status d = DISK_STATUS_BUSY then
          (let d1 = d\<lparr>disk_delay := disk_delay d - 1\<rparr>
           in if disk_delay d1 = 0 then
                (let off = unat (mk_word (disk_lba_high d1) (disk_lba_low d1)) * DISK_SECTOR_SIZE
                 in if disk_cmd d1 = DISK_CMD_READ then
                      (let bytes = file_read off DISK_SECTOR_SIZE (disk_file d1);
                           d2 = d1\<lparr>disk_buffer := bytes @ drop (length bytes) (disk_buffer d1)\<rparr>
                       in if length bytes \<noteq> DISK_SECTOR_SIZE
                          then (False, m\<lparr>disk := d2\<lparr>disk_status := DISK_STATUS_ERROR\<rparr>\<rparr>)
                          else (True, PLIC_raise PLIC_PIN_DISK
                                  (m\<lparr>disk := d2\<lparr>disk_status := DISK_STATUS_READY\<rparr>\<rparr>)))
                    else if disk_cmd d1 = DISK_CMD_WRITE then
                      (let bytes = take accepted (take DISK_SECTOR_SIZE (disk_buffer d1));
                           d2 = d1\<lparr>disk_file := file_write off bytes (disk_file d1)\<rparr>
                       in if length bytes \<noteq> DISK_SECTOR_SIZE
                          then (False, m\<lparr>disk := d2\<lparr>disk_status := DISK_STATUS_ERROR\<rparr>\<rparr>)
                          else (True, PLIC_raise PLIC_PIN_DISK
                                  (m\<lparr>disk := d2\<lparr>disk_status := DISK_STATUS_READY\<rparr>\<rparr>)))
                    else
                      (True, PLIC_raise PLIC_PIN_DISK
                         (m\<lparr>disk := d1\<lparr>disk_status := DISK_STATUS_ERROR\<rparr>\<rparr>)))
              else (True, m\<lparr>disk := d1\<rparr>))
        else (True, m))"

definition Uart_step :: "uint8 option \<Rightarrow> Machine \<Rightarrow> bool \<times> uint8 list \<times> Machine" where
  "Uart_step key m =
    (if key = Some 0x1B then (False, [], m)
     else
       (let m1 = (case key of
                    None \<Rightarrow> m
                  | Some c \<Rightarrow> PLIC_raise PLIC_PIN_UART_RX
                      (m\<lparr>uart := (uart m)\<lparr>uart_rx := c,
                         uart_status := uart_status (uart m) OR UART_STATUS_RX_READY\<rparr>\<rparr>))
        in if uart_status (uart m1) AND UART_STATUS_TX_READY = 0
           then (True, [uart_tx (uart m1)],
                 m1\<lparr>uart := (uart m1)\<lparr>uart_status :=
                   uart_status (uart m1) OR UART_STATUS_TX_READY\<rparr>\<rparr>)
           else (True, [], m1)))"

definition Timer_step :: "Machine \<Rightarrow> bool \<times> Machine" where
  "Timer_step m =
    (let t = timer m
     in if timer_ctrl t = TIMER_ENABLE_FALSE then (True, m)
        else
          (let counter = mk_word (timer_counter_high t) (timer_counter_low t) - 1
           in if counter = 0
              then (True, PLIC_raise PLIC_PIN_TIMER
                      (m\<lparr>timer := t\<lparr>timer_counter_high := timer_latch_high t,
                         timer_counter_low := timer_latch_low t\<rparr>\<rparr>))
              else (True, m\<lparr>timer := t\<lparr>timer_counter_high := hi_byte counter,
                      timer_counter_low := lo_byte counter\<rparr>\<rparr>)))"

section \<open>Processor and machine steps\<close>

definition CPU_cycle :: "system \<Rightarrow> MCS6502ExecResult \<times> system" where
  "CPU_cycle cpu =
     (let (result, cpu1) = MCS6502ExecNext (MMU_pre_exec cpu)
      in (result, on_machine MMU_post_exec cpu1))"

fun CPU_loop :: "nat \<Rightarrow> system \<Rightarrow> bool \<times> system" where
  "CPU_loop 0 cpu = (True, cpu)"
| "CPU_loop (Suc n) cpu =
     (let (result, cpu1) = CPU_cycle cpu
      in if result = MCS6502ExecResultInvalidOperation then (False, cpu1) else CPU_loop n cpu1)"

definition CPU_step :: "system \<Rightarrow> bool \<times> system" where
  "CPU_step cpu = CPU_loop CPU_PER_STEP cpu"

definition Machine_step :: "uint8 option \<Rightarrow> nat \<Rightarrow> system \<Rightarrow> bool \<times> uint8 list \<times> system" where
  "Machine_step key accepted cpu =
     (let (on, out, m1) = Uart_step key (readWriteContext cpu)
      in if \<not> on then (False, out, cpu\<lparr>readWriteContext := m1\<rparr>)
         else
           (let (_, m2) = Disk_step accepted m1;
                (_, m3) = Timer_step m2;
                (ok, cpu1) = CPU_step (cpu\<lparr>readWriteContext := m3\<rparr>)
            in (ok, out, cpu1)))"

text \<open>The main loop, over the host's answers step by step; it stops when a step returns false.\<close>

fun Machine_run :: "(uint8 option \<times> nat) list \<Rightarrow> system \<Rightarrow> uint8 list \<times> system" where
  "Machine_run [] cpu = ([], cpu)"
| "Machine_run ((key, accepted) # host) cpu =
     (let (ok, out, cpu1) = Machine_step key accepted cpu
      in if ok then (let (out', cpu2) = Machine_run host cpu1 in (out @ out', cpu2))
         else (out, cpu1))"

section \<open>Power-on\<close>

text \<open>
  The devices as their constructors leave them, from the content of the image files; memory allocations succeed. How
  the constructors reach the files and how the machine is put together is in \<open>Machine_Create\<close>.
\<close>

definition RAM_create :: "uint32 \<Rightarrow> uint8" where
  "RAM_create = (\<lambda>_. 0)"

definition ROM_create :: "uint8 list \<Rightarrow> ROM" where
  "ROM_create img =
     \<lparr>rom_enable = 1, rom_data = take 256 img @ replicate (256 - length img) 0\<rparr>"

definition Uart_create :: Uart where
  "Uart_create = \<lparr>uart_tx = 0, uart_rx = 0, uart_status = 0\<rparr>"

definition Disk_create :: "uint8 list \<Rightarrow> Disk" where
  "Disk_create img =
     \<lparr>disk_file = img, disk_buffer = replicate DISK_SECTOR_SIZE 0, disk_cmd = 0,
      disk_status = NOT 0, disk_lba_low = 0, disk_lba_high = 0, disk_delay = 0\<rparr>"

definition MMU_create :: MMU where
  "MMU_create =
     \<lparr>page_table = map of_nat [0..<MMU_PAGE_TABLE_SIZE], mmu_prev = 0, mmu_watchdog = 0,
      mmu_cause = 0, mmu_va = 0, mmu_opcode = 0, in_user = False, pending_nmi = False\<rparr>"

definition Timer_create :: Timer where
  "Timer_create =
     \<lparr>timer_ctrl = TIMER_ENABLE_FALSE, timer_latch_low = 0, timer_latch_high = 0,
      timer_counter_low = 0, timer_counter_high = 0\<rparr>"

definition PLIC_create :: PLIC where
  "PLIC_create = \<lparr>interrupts_lines = 0, pending_irq = False\<rparr>"

definition CPU_create :: "Machine \<Rightarrow> system" where
  "CPU_create m = MCS6502Reset (MCS6502Init Machine_read Machine_write m)"

end
