(* ===== verification/Machine_Laws.thy ===== *)
theory Machine_Laws
  imports Machine_Step MCS6502_Laws
begin

text \<open>
  The bus of the machine: translated addresses, plain memory against device registers, the
  well-formedness of the machine's arrays, the instances of the processor's bus interfaces
  (\<open>stack_bus\<close>, \<open>bus_invariant\<close>), and the isolation of everything a page table does not map.
\<close>

section \<open>Translated addresses\<close>

definition phys :: "uint8 \<Rightarrow> uint16 \<Rightarrow> uint32" where
  "phys frame va = push_bit 12 (ucast frame) OR ucast (va AND 0x0FFF)"

definition frame_of :: "uint32 \<Rightarrow> uint32" where
  "frame_of pa = drop_bit 12 pa"

definition segment_of :: "uint16 \<Rightarrow> nat" where
  "segment_of va = unat (drop_bit 12 va)"

lemma bit_phys:
  "bit (phys frame va) n \<longleftrightarrow> (if n < 12 then bit va n else n < 20 \<and> bit frame (n - 12))"
proof -
  have m: "(0x0FFF :: uint16) = mask 12" by (simp add: mask_eq_exp_minus_1)
  show ?thesis unfolding phys_def m
    by (auto simp: bit_simps dest: bit_imp_le_length)
qed

lemma phys_frame [simp]: "frame_of (phys frame va) = ucast frame"
  unfolding frame_of_def by (rule bit_word_eqI) (auto simp: bit_drop_bit_eq bit_phys bit_simps dest: bit_imp_le_length)

lemma frame_15 [simp]: "(ucast (f :: uint8) :: uint32) = 15 \<longleftrightarrow> f = 15"
proof
  assume "(ucast f :: uint32) = 15"
  then have "(ucast (ucast f :: uint32) :: uint8) = ucast (15 :: uint32)" by simp
  moreover have "(ucast (ucast f :: uint32) :: uint8) = f"
    by (rule bit_word_eqI) (simp add: bit_simps)
  ultimately show "f = 15" by simp
qed simp

lemma phys_below_RAM: "phys frame va < RAM_SIZE"
proof -
  have "phys frame va = take_bit 20 (phys frame va)"
    by (rule bit_word_eqI) (auto simp: bit_take_bit_iff bit_phys)
  then have "unat (phys frame va) = take_bit 20 (unat (phys frame va))"
    by (metis unsigned_take_bit_eq)
  then have "unat (phys frame va) < 2 ^ 20"
    by (metis take_bit_nat_less_exp)
  then show ?thesis by (simp add: word_less_nat_alt)
qed

lemma phys_inject:
  assumes "phys f va = phys g wa"
  shows "f = g" and "n < 12 \<Longrightarrow> bit va n = bit wa n"
proof -
  have b: "bit (phys f va) n = bit (phys g wa) n" for n using assms by simp
  show "f = g"
    by (rule bit_word_eqI) (use b in \<open>force simp: bit_phys dest: spec [where x = "n + 12" for n]\<close>)
  show "n < 12 \<Longrightarrow> bit va n = bit wa n" using b [of n] by (simp add: bit_phys)
qed

lemma translate_cases:
  "MMU_translate va mm =
     (if page_table mm ! segment_of va = MMU_FRAME_INVALID
      then (- 1, mm\<lparr>mmu_va := va, pending_nmi := True\<rparr>)
      else (phys (page_table mm ! segment_of va) va, mm))"
  by (simp add: MMU_translate_def phys_def segment_of_def Let_def)

lemma segment_range [simp]: "segment_of va < MMU_PAGE_TABLE_SIZE"
proof -
  have "segment_of va = unat va div 2 ^ 12"
    unfolding segment_of_def by (rule unat_drop_bit)
  moreover have "unat va < 2 ^ 16" using unsigned_less [of va, where ?'a = nat] by simp
  ultimately show ?thesis by simp
qed

text \<open>The address of an unmapped segment is out of reach of RAM and devices.\<close>

lemma unmapped_address [simp]: "frame_of (- 1) \<noteq> 15" "\<not> (- 1 :: uint32) < RAM_SIZE"
  by (simp_all add: frame_of_def mask_eq_exp_minus_1)

section \<open>Plain memory\<close>

text \<open>
  Every device register and buffer lies in frame 15 (\<open>0xF000\<close> to \<open>0xFFFF\<close>); an address of another
  frame is RAM, or nothing at all.
\<close>

lemma device_range:
  assumes "frame_of pa \<noteq> 15" and that: "0xF000 \<le> l" "u \<le> 0x10000"
  shows "\<not> (l \<le> pa \<and> pa < u)"
proof
  assume "l \<le> pa \<and> pa < u"
  then have "unat (0xF000 :: uint32) \<le> unat pa" "unat pa < unat (0x10000 :: uint32)"
    using that by (simp_all add: word_le_nat_alt word_less_nat_alt)
  then have "unat pa div 2 ^ 12 = 15" by simp
  then have "unat (drop_bit 12 pa) = unat (15 :: uint32)"
    by (simp only: unat_drop_bit) simp
  then show False using assms(1) unfolding frame_of_def by (metis word_unat_eq_iff)
qed

lemma plain_not_device:
  assumes "frame_of pa \<noteq> 15"
  shows "pa \<notin> {PLIC_INTERRUPT_LINES, TIMER_CTRL, TIMER_LATCH_HIGH, TIMER_LATCH_LOW,
      TIMER_COUNTER_HIGH, TIMER_COUNTER_LOW, MMU_PREV_REGISTER, MMU_WATCHDOG_REGISTER,
      MMU_CAUSE_REGISTER, MMU_VA_REGISTER_LOW, MMU_VA_REGISTER_HIGH, ROM_ENABLE, DISK_CMD,
      DISK_STAT, DISK_LBA, DISK_LBA + 1, UART_RX, UART_TX, UART_STAT}"
    and "\<not> (MMU_PAGE_TABLE \<le> pa \<and> pa < MMU_PAGE_TABLE + 16)"
    and "\<not> (ROM_BASE \<le> pa \<and> pa < ROM_BASE + ROM_SIZE)"
    and "\<not> (DISK_BUF \<le> pa \<and> pa < DISK_BUF + 512)"
proof -
  show "pa \<notin> {PLIC_INTERRUPT_LINES, TIMER_CTRL, TIMER_LATCH_HIGH, TIMER_LATCH_LOW,
      TIMER_COUNTER_HIGH, TIMER_COUNTER_LOW, MMU_PREV_REGISTER, MMU_WATCHDOG_REGISTER,
      MMU_CAUSE_REGISTER, MMU_VA_REGISTER_LOW, MMU_VA_REGISTER_HIGH, ROM_ENABLE, DISK_CMD,
      DISK_STAT, DISK_LBA, DISK_LBA + 1, UART_RX, UART_TX, UART_STAT}"
    using assms by (auto simp: frame_of_def)
qed (rule device_range [OF assms]; simp)+

lemma Machine_read_plain:
  assumes "MMU_translate a (mmu m) = (pa, mm)" and "frame_of pa \<noteq> 15"
  shows "Machine_read a m = (if pa < RAM_SIZE then ram m pa else 0xFF, m\<lparr>mmu := mm\<rparr>)"
  using plain_not_device [OF assms(2)] by (auto simp: Machine_read_def Let_def assms(1))

lemma Machine_write_plain:
  assumes "MMU_translate a (mmu m) = (pa, mm)" and "frame_of pa \<noteq> 15"
  shows "Machine_write a v m =
    m\<lparr>mmu := mm, ram := if pa < RAM_SIZE then (ram m)(pa := v) else ram m\<rparr>"
  using plain_not_device [OF assms(2)] by (auto simp: Machine_write_def Let_def assms(1))

section \<open>What a bus access leaves alone\<close>

lemma translate_frame [simp]:
  "page_table (snd (MMU_translate a mm)) = page_table mm"
  "mmu_prev (snd (MMU_translate a mm)) = mmu_prev mm"
  "mmu_watchdog (snd (MMU_translate a mm)) = mmu_watchdog mm"
  "mmu_cause (snd (MMU_translate a mm)) = mmu_cause mm"
  "mmu_opcode (snd (MMU_translate a mm)) = mmu_opcode mm"
  "in_user (snd (MMU_translate a mm)) = in_user mm"
  by (simp_all add: translate_cases)

lemma Machine_read_effect:
  "\<exists>st. snd (Machine_read a m) =
     m\<lparr>mmu := snd (MMU_translate a (mmu m)), uart := (uart m)\<lparr>uart_status := st\<rparr>\<rparr>"
proof -
  define Q where "Q r \<longleftrightarrow> (\<exists>st. snd r =
     m\<lparr>mmu := snd (MMU_translate a (mmu m)), uart := (uart m)\<lparr>uart_status := st\<rparr>\<rparr>)"
    for r :: "uint8 \<times> Machine"
  have leaf: "Q (v, m\<lparr>mmu := snd (MMU_translate a (mmu m))\<rparr>)" for v
    unfolding Q_def by (rule exI [of _ "uart_status (uart m)"]) simp
  have "Q (Machine_read a m)"
    unfolding Machine_read_def Let_def split_beta
    by (intro if_both [where P = Q] leaf) (auto simp: Q_def)
  then show ?thesis by (simp add: Q_def)
qed

lemma Machine_read_frame [simp]:
  "page_table (mmu (snd (Machine_read a m))) = page_table (mmu m)"
  "mmu_opcode (mmu (snd (Machine_read a m))) = mmu_opcode (mmu m)"
  "in_user (mmu (snd (Machine_read a m))) = in_user (mmu m)"
  "mmu_prev (mmu (snd (Machine_read a m))) = mmu_prev (mmu m)"
  "mmu_watchdog (mmu (snd (Machine_read a m))) = mmu_watchdog (mmu m)"
  "mmu_cause (mmu (snd (Machine_read a m))) = mmu_cause (mmu m)"
  "ram (snd (Machine_read a m)) = ram m"
  "rom (snd (Machine_read a m)) = rom m"
  "disk (snd (Machine_read a m)) = disk m"
  "timer (snd (Machine_read a m)) = timer m"
  "plic (snd (Machine_read a m)) = plic m"
  using Machine_read_effect [of a m] by auto

section \<open>Well-formedness\<close>

text \<open>
  The arrays of the C structures have their declared sizes, so that every index of the bus is
  within them.
\<close>

definition machine_wf :: "Machine \<Rightarrow> bool" where
  "machine_wf m \<longleftrightarrow> length (page_table (mmu m)) = MMU_PAGE_TABLE_SIZE \<and>
     length (disk_buffer (disk m)) = DISK_SECTOR_SIZE \<and> length (rom_data (rom m)) = 256"

lemma read_wf: "machine_wf m \<Longrightarrow> machine_wf (snd (Machine_read a m))"
  by (simp add: machine_wf_def)

lemma write_wf:
  assumes "machine_wf m"
  shows "machine_wf (Machine_write a v m)"
  unfolding Machine_write_def Let_def split_beta
  by (intro if_both [where P = machine_wf]) (use assms in \<open>simp_all add: machine_wf_def\<close>)

interpretation wf: bus_invariant Machine_read Machine_write machine_wf
  by unfold_locales (simp_all add: read_wf write_wf)

section \<open>The stack page\<close>

text \<open>
  Page 1 lies in segment 0. While that segment is mapped to a frame other than the one with
  the device registers, the stack is ordinary memory.
\<close>

definition stack_mapped :: "Machine \<Rightarrow> bool" where
  "stack_mapped m \<longleftrightarrow> page_table (mmu m) ! 0 \<notin> {MMU_FRAME_INVALID, MMU_LAST_FRAME}"

definition stack_byte :: "Machine \<Rightarrow> uint8 \<Rightarrow> uint8" where
  "stack_byte m s = ram m (phys (page_table (mmu m) ! 0) (0x0100 + ucast s))"

lemma stack_address: "0x0100 + ucast (s :: uint8) = mk_word 1 s"
proof -
  have "(0x0100 + ucast s :: uint16) = of_nat (256 + unat s)" by simp
  then have "unat (0x0100 + ucast s :: uint16) = 256 + unat s"
    using unat_byte [of s] by (simp only: unat_of_nat_range)
  then show ?thesis by (simp add: word_unat_eq_iff unat_mk_word)
qed

lemma stack_segment [simp]: "segment_of (0x0100 + ucast (s :: uint8)) = 0"
  using unat_byte [of s] by (simp only: segment_of_def unat_drop_bit stack_address unat_mk_word) simp

lemma stack_address_inject [simp]:
  "phys f (0x0100 + ucast (s :: uint8)) = phys f (0x0100 + ucast (t :: uint8)) \<longleftrightarrow> s = t"
proof
  assume "phys f (0x0100 + ucast s) = phys f (0x0100 + ucast t)"
  then have eq: "phys f (mk_word 1 s) = phys f (mk_word 1 t)" by (simp only: stack_address)
  have "bit s n = bit t n" if "n < 8" for n
    using phys_inject(2) [OF eq, of n] that by (simp add: bit_mk_word)
  then show "s = t" by (intro bit_word_eqI) simp
qed simp

lemma stack_access:
  assumes "stack_mapped m"
  shows "Machine_read (0x0100 + ucast s) m = (stack_byte m s, m)"
    and "Machine_write (0x0100 + ucast s) v m =
      m\<lparr>ram := (ram m)(phys (page_table (mmu m) ! 0) (0x0100 + ucast s) := v)\<rparr>"
proof -
  let ?pa = "phys (page_table (mmu m) ! 0) (0x0100 + ucast s)"
  have t: "MMU_translate (0x0100 + ucast s) (mmu m) = (?pa, mmu m)"
    using assms by (simp add: translate_cases stack_mapped_def)
  have f: "frame_of ?pa \<noteq> 15"
    using assms by (simp add: stack_mapped_def)
  show "Machine_read (0x0100 + ucast s) m = (stack_byte m s, m)"
    using Machine_read_plain [OF t f] by (simp add: stack_byte_def phys_below_RAM)
  show "Machine_write (0x0100 + ucast s) v m =
      m\<lparr>ram := (ram m)(phys (page_table (mmu m) ! 0) (0x0100 + ucast s) := v)\<rparr>"
    using Machine_write_plain [OF t f] by (simp add: phys_below_RAM)
qed

interpretation machine_stack: stack_bus Machine_read Machine_write stack_mapped stack_byte
proof unfold_locales
  fix m s v a
  assume ok: "stack_mapped m"
  show "Machine_read (0x0100 + ucast s) m = (stack_byte m s, m)"
    using ok by (rule stack_access)
  show "stack_mapped (Machine_write (0x0100 + ucast s) v m)"
    using ok by (simp add: stack_access stack_mapped_def)
  show "stack_byte (Machine_write (0x0100 + ucast s) v m) = (stack_byte m)(s := v)"
    using ok by (auto simp: stack_access stack_byte_def fun_eq_iff)
  show "stack_mapped (snd (Machine_read a m))" "stack_byte (snd (Machine_read a m)) = stack_byte m"
    using ok by (simp_all add: stack_mapped_def stack_byte_def fun_eq_iff)
qed

section \<open>Isolation\<close>

text \<open>
  \<open>isolated m0 m\<close>: the memory \<open>m\<close> differs from \<open>m0\<close> at most in RAM frames the page table of \<open>m0\<close>
  maps, and in the MMU's record of a faulting access. While no segment maps the frame of the
  device registers, bus accesses keep it.
\<close>

definition isolated :: "Machine \<Rightarrow> Machine \<Rightarrow> bool" where
  "isolated m0 m \<longleftrightarrow>
     rom m = rom m0 \<and> uart m = uart m0 \<and> disk m = disk m0 \<and> timer m = timer m0 \<and> plic m = plic m0 \<and>
     page_table (mmu m) = page_table (mmu m0) \<and> mmu_prev (mmu m) = mmu_prev (mmu m0) \<and>
     mmu_watchdog (mmu m) = mmu_watchdog (mmu m0) \<and> mmu_cause (mmu m) = mmu_cause (mmu m0) \<and>
     mmu_opcode (mmu m) = mmu_opcode (mmu m0) \<and> in_user (mmu m) = in_user (mmu m0) \<and>
     (\<forall>pa. frame_of pa \<notin> ucast ` set (page_table (mmu m0)) \<longrightarrow> ram m pa = ram m0 pa)"

definition user_table :: "Machine \<Rightarrow> bool" where
  "user_table m \<longleftrightarrow>
     length (page_table (mmu m)) = MMU_PAGE_TABLE_SIZE \<and> MMU_LAST_FRAME \<notin> set (page_table (mmu m))"

lemma user_translate:
  assumes "user_table m"
  shows "frame_of (fst (MMU_translate a (mmu m))) \<noteq> 15"
    and "fst (MMU_translate a (mmu m)) < RAM_SIZE \<Longrightarrow>
      frame_of (fst (MMU_translate a (mmu m))) \<in> ucast ` set (page_table (mmu m))"
proof -
  have f: "page_table (mmu m) ! segment_of a \<in> set (page_table (mmu m))"
    using assms by (intro nth_mem) (simp add: user_table_def)
  then have n15: "page_table (mmu m) ! segment_of a \<noteq> 15"
    using assms by (metis user_table_def)
  show "frame_of (fst (MMU_translate a (mmu m))) \<noteq> 15"
    using n15 by (simp add: translate_cases)
  show "fst (MMU_translate a (mmu m)) < RAM_SIZE \<Longrightarrow>
      frame_of (fst (MMU_translate a (mmu m))) \<in> ucast ` set (page_table (mmu m))"
    using f by (simp add: translate_cases split: if_splits)
qed

lemma isolated_refl [simp]: "isolated m m"
  by (simp add: isolated_def)

lemma isolated_trans: "isolated m0 m \<Longrightarrow> isolated m m' \<Longrightarrow> isolated m0 m'"
  by (simp add: isolated_def)

lemma isolated_user_table: "isolated m0 m \<Longrightarrow> user_table m0 \<Longrightarrow> user_table m"
  by (simp add: isolated_def user_table_def)

lemma user_access_isolated:
  assumes "user_table m"
  shows "isolated m (snd (Machine_read a m))" and "isolated m (Machine_write a v m)"
proof -
  obtain pa mm where t: "MMU_translate a (mmu m) = (pa, mm)" by fastforce
  note u = user_translate [OF assms, of a, unfolded t fst_conv]
  have mm: "mm = snd (MMU_translate a (mmu m))" by (simp add: t)
  show "isolated m (snd (Machine_read a m))"
    by (simp add: Machine_read_plain [OF t u(1)] isolated_def mm)
  show "isolated m (Machine_write a v m)"
    using u(2) by (auto simp: Machine_write_plain [OF t u(1)] isolated_def mm)
qed

text \<open>A user-mode memory stays isolated from a given starting memory.\<close>

interpretation user_bus: bus_invariant Machine_read Machine_write
  "\<lambda>m. user_table m0 \<and> isolated m0 m" for m0
  by unfold_locales (blast intro: isolated_trans user_access_isolated isolated_user_table)+

end
