(* ===== verification/Machine_Trap.thy ===== *)
theory Machine_Trap
  imports Machine_Laws MCS6502_Step
begin

text \<open>
  User mode: what the MMU's inspection of the instruction stream lets a program do. Either
  the next instruction runs isolated from the kernel and the devices, or the machine enters
  the kernel through one of the vectors in the kernel's last frame; an opcode the processor
  does not know never stops the machine while a user page table is active.
\<close>

section \<open>The MMU's opcode table\<close>

text \<open>
  The positions the MMU's table accepts, in ascending order, are the opcodes of the
  instruction table, sorted.
\<close>

lemma valid_opcodes_sorted:
  "map fst (filter snd (zip [0..255] valid_opcode_table)) =
   sort (map (\<lambda>i. uint (opcode i)) MCS6502Instructions)"
  by code_simp

lemma valid_opcode_table_length: "length valid_opcode_table = 256"
  by (simp add: valid_opcode_table_def)

lemma accepted_positions:
  assumes "length bs = N" and "n < N"
  shows "int n \<in> set (map fst (filter snd (zip [0..int N - 1] bs))) \<longleftrightarrow> bs ! n"
proof
  assume "bs ! n"
  with assms have "zip [0..int N - 1] bs ! n = (int n, True)"
    by (simp add: nth_upto)
  then have "(int n, True) \<in> set (zip [0..int N - 1] bs)"
    using nth_mem [of n "zip [0..int N - 1] bs"] assms by simp
  then show "int n \<in> set (map fst (filter snd (zip [0..int N - 1] bs)))" by force
qed (use assms in \<open>auto simp: set_zip nth_upto\<close>)

lemma valid_opcodes:
  "n < 256 \<Longrightarrow>
   valid_opcode_table ! n \<longleftrightarrow> int n \<in> (\<lambda>i. uint (opcode i)) ` set MCS6502Instructions"
proof -
  assume n: "n < 256"
  have "int 256 - 1 = (255 :: int)" by simp
  then have "int n \<in> set (map fst (filter snd (zip [0..255] valid_opcode_table))) \<longleftrightarrow>
      valid_opcode_table ! n"
    using accepted_positions [OF valid_opcode_table_length n] by (simp only:)
  then show ?thesis by (simp add: valid_opcodes_sorted)
qed

lemma opcode_tables_agree:
  "valid_opcode_table ! unat opc \<longleftrightarrow> MCS6502OpcodeTable opc \<noteq> None"
proof -
  have "valid_opcode_table ! unat opc \<longleftrightarrow>
      uint opc \<in> (\<lambda>i. uint (opcode i)) ` set MCS6502Instructions"
    using valid_opcodes [OF unat_byte] by simp
  also have "\<dots> \<longleftrightarrow> opc \<in> opcode ` set MCS6502Instructions"
    by (auto simp: word_uint_eq_iff)
  also have "\<dots> \<longleftrightarrow> MCS6502OpcodeTable opc \<noteq> None"
    by (auto simp: opcode_table_map_of map_of_eq_None_iff image_image)
  finally show ?thesis .
qed

section \<open>Refetching a user instruction\<close>

text \<open>
  A fetch depends on the frame of its segment only: the processor's fetch sees the byte the
  MMU's did, unless the trap in between has remapped that segment.
\<close>

lemma read_value_plain:
  assumes "page_table (mmu m) ! segment_of a \<noteq> 15"
  shows "fst (Machine_read a m) =
    (if page_table (mmu m) ! segment_of a = MMU_FRAME_INVALID then 0xFF
     else ram m (phys (page_table (mmu m) ! segment_of a) a))"
proof -
  obtain pa mm where t: "MMU_translate a (mmu m) = (pa, mm)" by fastforce
  with assms have "frame_of pa \<noteq> 15" by (auto simp: translate_cases split: if_splits)
  with t show ?thesis
    by (simp add: Machine_read_plain [OF t]) (auto simp: translate_cases phys_below_RAM split: if_splits)
qed

lemma fetch_stable:
  assumes "user_table m" and "ram m' = ram m"
    and "page_table (mmu m') ! segment_of a = page_table (mmu m) ! segment_of a"
  shows "fst (Machine_read a m') = fst (Machine_read a m)"
proof -
  have "page_table (mmu m) ! segment_of a \<in> set (page_table (mmu m))"
    using assms(1) by (intro nth_mem) (simp add: user_table_def)
  then have "page_table (mmu m) ! segment_of a \<noteq> 15" using assms(1) by (metis user_table_def)
  then show ?thesis using assms by (simp add: read_value_plain)
qed

section \<open>Inspection before an instruction\<close>

definition user_mode :: "system \<Rightarrow> bool" where
  "user_mode cpu \<longleftrightarrow> on_bus Machine_read Machine_write user_table cpu"

lemma user_last_segment: "user_table m \<Longrightarrow> page_table (mmu m) ! MMU_LAST_SEGMENT \<noteq> MMU_LAST_FRAME"
proof -
  assume u: "user_table m"
  then have "page_table (mmu m) ! MMU_LAST_SEGMENT \<in> set (page_table (mmu m))"
    by (intro nth_mem) (simp add: user_table_def)
  with u show ?thesis by (metis user_table_def)
qed

definition latched :: "system \<Rightarrow> Machine" where
  "latched cpu =
     (let (opc, m1) = Machine_read (reg_pc cpu) (readWriteContext cpu)
      in m1\<lparr>mmu := (mmu m1)\<lparr>mmu_opcode := opc, in_user := True\<rparr>\<rparr>)"

lemma user_fetch:
  assumes "user_mode cpu"
  shows "MMU_fetch cpu = cpu\<lparr>readWriteContext := latched cpu\<rparr>"
  using assms user_last_segment
  by (simp add: MMU_fetch_def latched_def user_mode_def on_bus_def split_beta)

text \<open>The conditions under which the machine traps before the instruction at the program counter.\<close>

definition traps :: "system \<Rightarrow> bool" where
  "traps cpu \<longleftrightarrow>
     (let m = latched cpu; opc = mmu_opcode (mmu m)
      in (pending_irq (plic m) \<and> reg_p cpu AND MCS6502_STATUS_I = 0) \<or> opc = 0x00 \<or>
         opc \<in> {0x78, 0x28, 0x40} \<or> \<not> valid_opcode_table ! unat opc \<or> pending_nmi (mmu m))"

lemma no_trap_pre_exec:
  assumes "user_mode cpu" and "\<not> traps cpu"
  shows "MMU_pre_exec cpu = cpu\<lparr>readWriteContext := latched cpu\<rparr>"
  using assms(2)
  by (cases "pending_irq (plic (latched cpu))") (simp_all add: MMU_pre_exec_def user_fetch [OF assms(1)] MMU_intercept_def
      MMU_privilege_watchdog_def MMU_violation_watchdog_def traps_def Let_def)

lemma latched_isolated:
  assumes "user_mode cpu"
  shows "user_table (latched cpu)" and "in_user (mmu (latched cpu))"
    and "ram (latched cpu) = ram (readWriteContext cpu)"
    and "page_table (mmu (latched cpu)) = page_table (mmu (readWriteContext cpu))"
    and "mmu_opcode (mmu (latched cpu)) = fst (Machine_read (reg_pc cpu) (readWriteContext cpu))"
    and "rom (latched cpu) = rom (readWriteContext cpu)"
  using assms
  by (simp_all add: latched_def user_mode_def on_bus_def user_table_def split_beta)

section \<open>A user instruction that does not trap\<close>

lemma isolated_on_bus:
  "user_table m0 \<Longrightarrow>
   on_bus Machine_read Machine_write (\<lambda>m. user_table m0 \<and> isolated m0 m) c \<longleftrightarrow>
   on_bus Machine_read Machine_write (isolated m0) c"
  by (simp add: on_bus_def)

lemma user_cycle_isolated:
  assumes "user_mode cpu" and "\<not> traps cpu"
  shows "on_bus Machine_read Machine_write (isolated (latched cpu)) (snd (CPU_cycle cpu))"
proof -
  let ?c = "cpu\<lparr>readWriteContext := latched cpu\<rparr>"
  let ?c' = "snd (MCS6502ExecNext ?c)"
  note u = latched_isolated [OF assms(1)]
  have "on_bus Machine_read Machine_write (\<lambda>m. user_table (latched cpu) \<and> isolated (latched cpu) m) ?c"
    using assms(1) u(1) by (simp add: on_bus_def user_mode_def)
  then have "on_bus Machine_read Machine_write (isolated (latched cpu)) ?c'"
    using user_bus.ExecNext_on_bus isolated_on_bus [OF u(1)] by blast
  moreover from this have "in_user (mmu (readWriteContext ?c'))"
    using u(2) by (simp add: on_bus_def isolated_def)
  ultimately show ?thesis
    by (simp add: CPU_cycle_def no_trap_pre_exec [OF assms] split_beta MMU_post_exec_def)
qed

lemma user_cycle_valid:
  assumes "user_mode cpu" and "\<not> traps cpu"
  shows "fst (CPU_cycle cpu) \<noteq> MCS6502ExecResultInvalidOperation"
proof -
  let ?c = "cpu\<lparr>readWriteContext := latched cpu\<rparr>"
  note u = latched_isolated [OF assms(1)]
  have "readByte cpu = Machine_read" "user_table (readWriteContext cpu)"
    using assms(1) by (simp_all add: user_mode_def on_bus_def)
  with u have f: "fst (MCS6502ReadByte (reg_pc cpu) (fetch_context ?c)) = mmu_opcode (mmu (latched cpu))"
    using fetch_stable [of "readWriteContext cpu" "latched cpu" "reg_pc cpu"]
    by (simp add: MCS6502ReadByte_def split_beta)
  have valid: "MCS6502OpcodeTable (mmu_opcode (mmu (latched cpu))) \<noteq> None"
    using assms(2) unfolding opcode_tables_agree [symmetric] by (simp add: traps_def Let_def)
  have "fst (MCS6502ExecNext ?c) \<noteq> MCS6502ExecResultInvalidOperation"
  proof (cases ?c rule: ExecNext_cases)
    case (invalid opc c1)
    then show ?thesis using f valid by simp
  qed simp_all
  then show ?thesis
    by (simp add: CPU_cycle_def no_trap_pre_exec [OF assms] split_beta)
qed

section \<open>Entering the kernel\<close>

text \<open>
  The vectors as the kernel's last frame holds them: the ROM's bytes while it is enabled, the
  RAM underneath it afterwards.
\<close>

definition vector_byte :: "Machine \<Rightarrow> uint16 \<Rightarrow> uint8" where
  "vector_byte m a =
     (if rom_enable (rom m) \<noteq> 0 then rom_data (rom m) ! unat (ucast a - ROM_BASE) else ram m (ucast a))"

definition kernel_vector :: "Machine \<Rightarrow> uint16 \<Rightarrow> uint16" where
  "kernel_vector m v = mk_word (vector_byte m (v + 1)) (vector_byte m v)"

text \<open>
  \<open>kernel_view m0 m\<close>: as \<open>m0\<close>, with the kernel's last segment mapped; the frame of the kernel's
  vectors is untouched.
\<close>

definition kernel_view :: "Machine \<Rightarrow> Machine \<Rightarrow> bool" where
  "kernel_view m0 m \<longleftrightarrow>
     user_table m0 \<and> rom m = rom m0 \<and> in_user (mmu m) = in_user (mmu m0) \<and>
     mmu_opcode (mmu m) = mmu_opcode (mmu m0) \<and>
     page_table (mmu m) = (page_table (mmu m0))[MMU_LAST_SEGMENT := MMU_LAST_FRAME] \<and>
     (\<forall>pa. frame_of pa = 15 \<longrightarrow> ram m pa = ram m0 pa)"

abbreviation in_kernel :: "Machine \<Rightarrow> system \<Rightarrow> bool" where
  "in_kernel m0 c \<equiv> on_bus Machine_read Machine_write (kernel_view m0) c"

lemma enter_kernel_view:
  "user_table m \<Longrightarrow> kernel_view m (enter_kernel_segment m)"
  "kernel_view m0 m \<Longrightarrow> kernel_view m0 (enter_kernel_segment m)"
  by (simp_all add: kernel_view_def enter_kernel_segment_def)

lemma kernel_view_frames:
  assumes "kernel_view m0 m"
  shows "page_table (mmu m) ! 0 \<noteq> MMU_LAST_FRAME" and "page_table (mmu m) ! MMU_LAST_SEGMENT = MMU_LAST_FRAME"
proof -
  have l: "length (page_table (mmu m0)) = 16" using assms by (simp add: kernel_view_def user_table_def)
  then have "page_table (mmu m0) ! 0 \<in> set (page_table (mmu m0))" by (intro nth_mem) simp
  then have "page_table (mmu m0) ! 0 \<noteq> MMU_LAST_FRAME"
    using assms by (metis kernel_view_def user_table_def)
  with l assms show "page_table (mmu m) ! 0 \<noteq> MMU_LAST_FRAME"
    and "page_table (mmu m) ! MMU_LAST_SEGMENT = MMU_LAST_FRAME"
    by (simp_all add: kernel_view_def)
qed

lemma stack_write_kernel_view:
  assumes "kernel_view m0 m"
  shows "kernel_view m0 (Machine_write (0x0100 + ucast (s :: uint8)) v m)"
proof -
  obtain pa mm where t: "MMU_translate (0x0100 + ucast s) (mmu m) = (pa, mm)" by fastforce
  have f: "frame_of pa \<noteq> 15"
    using t kernel_view_frames(1) [OF assms] by (auto simp: translate_cases split: if_splits)
  have mm: "mm = snd (MMU_translate (0x0100 + ucast s) (mmu m))" by (simp add: t)
  show ?thesis
    using assms f unfolding Machine_write_plain [OF t f] kernel_view_def mm by auto
qed

lemma push_in_kernel [simp]:
  "in_kernel m0 c \<Longrightarrow> in_kernel m0 (PushByte v c)"
  "in_kernel m0 c \<Longrightarrow> in_kernel m0 (PushFlags b c)"
  by (simp_all add: on_bus_def PushFlags_def PushByte_def MCS6502WriteByte_def Let_def
      stack_write_kernel_view)

lemma vector_translate:
  "segment_of 0xFFFA = 15" "segment_of 0xFFFB = 15" "segment_of 0xFFFE = 15" "segment_of 0xFFFF = 15"
  "phys 15 0xFFFA = 0xFFFA" "phys 15 0xFFFB = 0xFFFB" "phys 15 0xFFFE = 0xFFFE" "phys 15 0xFFFF = 0xFFFF"
  "frame_of 0xFFFA = 15" "frame_of 0xFFFB = 15" "frame_of 0xFFFE = 15" "frame_of 0xFFFF = 15"
  by (simp_all add: segment_of_def phys_def frame_of_def)

lemma read_vector_byte:
  assumes "kernel_view m0 m"
  shows "Machine_read 0xFFFA m = (vector_byte m0 0xFFFA, m)"
    and "Machine_read 0xFFFB m = (vector_byte m0 0xFFFB, m)"
    and "Machine_read 0xFFFE m = (vector_byte m0 0xFFFE, m)"
    and "Machine_read 0xFFFF m = (vector_byte m0 0xFFFF, m)"
proof -
  have r: "rom m = rom m0" using assms by (simp add: kernel_view_def)
  have f: "ram m pa = ram m0 pa" if "frame_of pa = 15" for pa
    using assms that by (simp add: kernel_view_def)
  note p = kernel_view_frames(2) [OF assms]
  note d = Machine_read_def translate_cases vector_translate vector_byte_def Let_def
  show "Machine_read 0xFFFA m = (vector_byte m0 0xFFFA, m)"
    using p r f [OF vector_translate(9)] by (simp add: d)
  show "Machine_read 0xFFFB m = (vector_byte m0 0xFFFB, m)"
    using p r f [OF vector_translate(10)] by (simp add: d)
  show "Machine_read 0xFFFE m = (vector_byte m0 0xFFFE, m)"
    using p r f [OF vector_translate(11)] by (simp add: d)
  show "Machine_read 0xFFFF m = (vector_byte m0 0xFFFF, m)"
    using p r f [OF vector_translate(12)] by (simp add: d)
qed

lemma read_kernel_vector:
  assumes "in_kernel m0 c"
  shows "ReadWordAtAddress MCS6502_NMI_vector c = (kernel_vector m0 MCS6502_NMI_vector, c)"
    and "ReadWordAtAddress MCS6502_IRQ_BRK_vector c = (kernel_vector m0 MCS6502_IRQ_BRK_vector, c)"
proof -
  have k: "kernel_view m0 (readWriteContext c)" and b: "readByte c = Machine_read"
    using assms by (simp_all add: on_bus_def)
  show "ReadWordAtAddress MCS6502_NMI_vector c = (kernel_vector m0 MCS6502_NMI_vector, c)"
    and "ReadWordAtAddress MCS6502_IRQ_BRK_vector c = (kernel_vector m0 MCS6502_IRQ_BRK_vector, c)"
    by (simp_all add: b read_vector_byte [OF k] ReadWordAtAddress_def MCS6502ReadByte_def Let_def
        kernel_vector_def)
qed

text \<open>The kernel has been entered: its last segment is mapped, interrupts are disabled, and the
  program counter is at one of its vectors.\<close>

definition entered :: "Machine \<Rightarrow> system \<Rightarrow> bool" where
  "entered m0 c \<longleftrightarrow> in_kernel m0 c \<and> IsInterruptDisableSet c \<and>
     reg_pc c \<in> {kernel_vector m0 MCS6502_NMI_vector, kernel_vector m0 MCS6502_IRQ_BRK_vector}"

lemma IsInterruptDisable_Set [simp]: "IsInterruptDisableSet (SetInterruptDisable c)"
  by (simp add: cpu_defs byte_bits bit_simps)

lemma IsInterruptDisable_frame [simp]:
  "IsInterruptDisableSet (c\<lparr>reg_pc := v\<rparr>) = IsInterruptDisableSet c"
  "IsInterruptDisableSet (c\<lparr>timingForLastOperation := t\<rparr>) = IsInterruptDisableSet c"
  "IsInterruptDisableSet (c\<lparr>pendingTiming := t\<rparr>) = IsInterruptDisableSet c"
  "IsInterruptDisableSet (c\<lparr>nmiPending := b\<rparr>) = IsInterruptDisableSet c"
  by (simp_all add: IsInterruptDisableSet_def)

lemma handler_entered:
  assumes "in_kernel m0 c"
  shows "entered m0 (HandleNMI c)" and "entered m0 (HandleIRQ c)"
  using assms
  by (simp_all add: entered_def HandleNMI_def HandleIRQ_def Let_def read_kernel_vector [of m0])

lemma entry_entered:
  assumes "in_kernel m0 c"
  shows "pendingTiming c = 0 \<or> entered m0 c \<Longrightarrow> entered m0 (MCS6502NMI c)"
    and "pendingTiming c = 0 \<Longrightarrow> \<not> IsInterruptDisableSet c \<Longrightarrow> entered m0 (MCS6502IRQ c)"
  using handler_entered [OF assms] assms
  by (auto simp: MCS6502NMI_def MCS6502IRQ_def Let_def entered_def word_gt_0)

text \<open>
  Each stage of the inspection starts from the user's memory \<open>m0\<close> or from a memory an earlier
  stage has switched to the kernel's last segment; it keeps the latter, and when it fires, it
  enters the kernel.
\<close>

definition inspected :: "Machine \<Rightarrow> system \<Rightarrow> bool" where
  "inspected m0 c \<longleftrightarrow>
     on_bus Machine_read Machine_write (\<lambda>m. kernel_view m0 m \<or> m = m0 \<and> user_table m0) c \<and>
     (pendingTiming c = 0 \<or> entered m0 c)"

lemma inspected_enter:
  assumes "inspected m0 c" and "\<And>m. kernel_view m0 m \<or> m = m0 \<and> user_table m0 \<Longrightarrow> kernel_view m0 (f m)"
  shows "in_kernel m0 (on_machine f c)"
    and "pendingTiming c = 0 \<or> entered m0 (on_machine f c)"
    and "entered m0 (MCS6502NMI (on_machine f c))"
proof -
  show k: "in_kernel m0 (on_machine f c)" and e: "pendingTiming c = 0 \<or> entered m0 (on_machine f c)"
    using assms by (auto simp: inspected_def on_bus_def entered_def IsInterruptDisableSet_def)
  show "entered m0 (MCS6502NMI (on_machine f c))"
    using entry_entered(1) [OF k] e by simp
qed

lemma entered_inspected: "entered m0 c \<Longrightarrow> inspected m0 c"
  by (auto simp: entered_def inspected_def on_bus_def)

lemma fault_view:
  assumes "kernel_view m0 m \<or> m = m0 \<and> user_table m0"
  shows "kernel_view m0 (enter_kernel_segment m)"
    and "kernel_view m0 (enter_kernel_segment
      (m\<lparr>mmu := (mmu m)\<lparr>mmu_watchdog := w, mmu_cause := k\<rparr>\<rparr>))"
    and "kernel_view m0 (PLIC_lower (enter_kernel_segment m))"
    and "kernel_view m0 (let m1 = enter_kernel_segment (m\<lparr>mmu := (mmu m)\<lparr>mmu_cause := k\<rparr>\<rparr>)
      in m1\<lparr>mmu := (mmu m1)\<lparr>pending_nmi := False\<rparr>\<rparr>)"
  using assms by (auto simp: kernel_view_def enter_kernel_segment_def PLIC_lower_def)

lemma privilege_stage:
  assumes "inspected m0 c" and "in_user (mmu m0)"
  shows "inspected m0 (MMU_privilege_watchdog c)"
    and "entered m0 (MMU_privilege_watchdog c) \<or> MMU_privilege_watchdog c = c"
    and "entered m0 c \<or> mmu_opcode (mmu m0) \<in> {0x78, 0x28, 0x40} \<or>
      \<not> valid_opcode_table ! unat (mmu_opcode (mmu m0)) \<Longrightarrow> entered m0 (MMU_privilege_watchdog c)"
proof -
  have s: "in_user (mmu (readWriteContext c))"
    "mmu_opcode (mmu (readWriteContext c)) = mmu_opcode (mmu m0)"
    using assms by (auto simp: inspected_def on_bus_def kernel_view_def)
  have e: "entered m0 (MCS6502NMI (on_machine (\<lambda>m. enter_kernel_segment
      (m\<lparr>mmu := (mmu m)\<lparr>mmu_watchdog := w, mmu_cause := k\<rparr>\<rparr>)) c))" for w k
    by (rule inspected_enter(3) [OF assms(1)]) (rule fault_view)
  show "entered m0 (MMU_privilege_watchdog c) \<or> MMU_privilege_watchdog c = c"
    using e by (simp add: MMU_privilege_watchdog_def Let_def)
  show "inspected m0 (MMU_privilege_watchdog c)"
    using assms(1) entered_inspected e
    by (simp add: MMU_privilege_watchdog_def Let_def)
  show "entered m0 c \<or> mmu_opcode (mmu m0) \<in> {0x78, 0x28, 0x40} \<or>
      \<not> valid_opcode_table ! unat (mmu_opcode (mmu m0)) \<Longrightarrow> entered m0 (MMU_privilege_watchdog c)"
    using e s by (auto simp: MMU_privilege_watchdog_def Let_def)
qed

lemma violation_stage:
  assumes "inspected m0 c"
  shows "entered m0 c \<or> pending_nmi (mmu (readWriteContext c)) \<Longrightarrow>
    entered m0 (MMU_violation_watchdog c)"
proof -
  have "entered m0 (MCS6502NMI (on_machine (\<lambda>m.
      let m1 = enter_kernel_segment (m\<lparr>mmu := (mmu m)\<lparr>mmu_cause := MMU_CAUSE_V\<rparr>\<rparr>)
      in m1\<lparr>mmu := (mmu m1)\<lparr>pending_nmi := False\<rparr>\<rparr>) c))"
    by (rule inspected_enter(3) [OF assms]) (rule fault_view)
  then show "entered m0 c \<or> pending_nmi (mmu (readWriteContext c)) \<Longrightarrow>
      entered m0 (MMU_violation_watchdog c)"
    by (auto simp: MMU_violation_watchdog_def)
qed

lemma user_inspected:
  assumes "user_mode cpu" and "pendingTiming cpu = 0"
  shows "inspected (latched cpu) (cpu\<lparr>readWriteContext := latched cpu\<rparr>)"
  using assms latched_isolated(1) [OF assms(1)]
  by (simp add: inspected_def on_bus_def user_mode_def)

lemma irq_stage:
  assumes "user_mode cpu" and "pendingTiming cpu = 0"
    and "pending_irq (plic (latched cpu))" and "reg_p cpu AND MCS6502_STATUS_I = 0"
  shows "entered (latched cpu) (MMU_intercept (MMU_fetch cpu))"
proof -
  have "in_kernel (latched cpu) (on_machine (\<lambda>m. PLIC_lower (enter_kernel_segment m))
      (cpu\<lparr>readWriteContext := latched cpu\<rparr>))"
    by (rule inspected_enter(1) [OF user_inspected [OF assms(1,2)]]) (rule fault_view)
  from entry_entered(2) [OF this] show ?thesis
    using assms by (simp add: user_fetch MMU_intercept_def IsInterruptDisableSet_def)
qed

text \<open>Every trap but a plain \<open>BRK\<close> enters the kernel before the processor executes anything.\<close>

lemma trap_enters_kernel:
  assumes "user_mode cpu" and "pendingTiming cpu = 0" and "traps cpu"
    and brk: "mmu_opcode (mmu (latched cpu)) = 0 \<Longrightarrow>
      pending_irq (plic (latched cpu)) \<and> reg_p cpu AND MCS6502_STATUS_I = 0 \<or> pending_nmi (mmu (latched cpu))"
  shows "entered (latched cpu) (MMU_pre_exec cpu)"
proof (cases "pending_irq (plic (latched cpu)) \<and> reg_p cpu AND MCS6502_STATUS_I = 0")
  case True
  then have e: "entered (latched cpu) (MMU_intercept (MMU_fetch cpu))"
    using irq_stage assms by blast
  note p = privilege_stage [OF entered_inspected [OF e] latched_isolated(2) [OF assms(1)]]
  show ?thesis
    unfolding MMU_pre_exec_def using violation_stage [OF p(1)] p(3) e by blast
next
  case False
  let ?c = "MMU_intercept (MMU_fetch cpu)"
  note u = user_inspected [OF assms(1,2)]
  have k: "in_kernel (latched cpu) (on_machine enter_kernel_segment
      (cpu\<lparr>readWriteContext := latched cpu\<rparr>))"
    by (rule inspected_enter(1) [OF u]) (rule fault_view)
  have c: "?c = (if mmu_opcode (mmu (latched cpu)) = 0
      then on_machine enter_kernel_segment (cpu\<lparr>readWriteContext := latched cpu\<rparr>)
      else cpu\<lparr>readWriteContext := latched cpu\<rparr>)"
    using False by (simp add: user_fetch [OF assms(1)] MMU_intercept_def Let_def) blast
  then have i: "inspected (latched cpu) ?c"
    using u k assms(2) by (auto simp: inspected_def on_bus_def)
  have n: "pending_nmi (mmu (readWriteContext ?c)) = pending_nmi (mmu (latched cpu))"
    using c by (simp add: enter_kernel_segment_def)
  note p = privilege_stage [OF i latched_isolated(2) [OF assms(1)]]
  have "entered (latched cpu) (MMU_privilege_watchdog ?c) \<or>
      pending_nmi (mmu (readWriteContext (MMU_privilege_watchdog ?c)))"
    using assms(3) brk False p(2,3) n by (auto simp: traps_def Let_def)
  then show ?thesis
    unfolding MMU_pre_exec_def using violation_stage [OF p(1)] by blast
qed

text \<open>
  A system call: the \<open>BRK\<close> itself switches the last segment, so that the processor takes the
  kernel's vector when it executes it. The instruction must not lie in the segment that is
  switched.
\<close>

lemma exec_switch_BRK: "exec_switch 0 i c = (True, exec_BRK i c)"
  by (simp add: exec_switch_def switch_cases_def)

lemma BRK_entered: "in_kernel m0 c \<Longrightarrow> entered m0 (exec_BRK i c)"
  by (simp add: entered_def exec_BRK_def Let_def read_kernel_vector [of m0])

lemma brk_pre_exec:
  assumes "user_mode cpu" and "mmu_opcode (mmu (latched cpu)) = 0"
    and "\<not> (pending_irq (plic (latched cpu)) \<and> reg_p cpu AND MCS6502_STATUS_I = 0)"
    and "\<not> pending_nmi (mmu (latched cpu))"
  shows "MMU_pre_exec cpu = on_machine enter_kernel_segment (cpu\<lparr>readWriteContext := latched cpu\<rparr>)"
proof -
  have "valid_opcode_table ! unat (0 :: uint8)" by (simp add: valid_opcode_table_def)
  moreover have "MMU_intercept (MMU_fetch cpu) =
      on_machine enter_kernel_segment (cpu\<lparr>readWriteContext := latched cpu\<rparr>)"
    using assms(2,3) by (simp add: user_fetch [OF assms(1)] MMU_intercept_def Let_def) blast
  ultimately show ?thesis
    using assms(2,4)
    by (simp add: MMU_pre_exec_def MMU_privilege_watchdog_def MMU_violation_watchdog_def Let_def
        enter_kernel_segment_def)
qed

lemma brk_cycle:
  assumes "user_mode cpu" and "mmu_opcode (mmu (latched cpu)) = 0"
    and "\<not> (pending_irq (plic (latched cpu)) \<and> reg_p cpu AND MCS6502_STATUS_I = 0)"
    and "\<not> pending_nmi (mmu (latched cpu))"
    and "\<not> nmiPending cpu" and "\<not> irqPending cpu" and "segment_of (reg_pc cpu) \<noteq> MMU_LAST_SEGMENT"
  obtains i c1 t where "snd (CPU_cycle cpu) = (exec_BRK i c1)\<lparr>timingForLastOperation := t\<rparr>"
    and "c1 = snd (MCS6502ReadByte (reg_pc cpu)
      (fetch_context (on_machine enter_kernel_segment (cpu\<lparr>readWriteContext := latched cpu\<rparr>))))"
    and "in_kernel (latched cpu) c1"
proof -
  let ?c = "on_machine enter_kernel_segment (cpu\<lparr>readWriteContext := latched cpu\<rparr>)"
  note u = latched_isolated [OF assms(1)]
  have bus: "readByte cpu = Machine_read" "writeByte cpu = Machine_write"
    "user_table (readWriteContext cpu)"
    using assms(1) by (simp_all add: user_mode_def on_bus_def)
  obtain opc c1 where f: "MCS6502ReadByte (reg_pc ?c) (fetch_context ?c) = (opc, c1)" by fastforce
  have "opc = fst (Machine_read (reg_pc cpu) (enter_kernel_segment (latched cpu)))"
    using f bus by (auto simp: MCS6502ReadByte_def split_beta)
  also have "\<dots> = fst (Machine_read (reg_pc cpu) (readWriteContext cpu))"
    by (rule fetch_stable) (use assms(7) bus u in \<open>simp_all add: enter_kernel_segment_def\<close>)
  finally have opc: "opc = 0" using u(5) assms(2) by simp
  have k: "in_kernel (latched cpu) c1"
    using f bus enter_kernel_view(1) [OF u(1)]
    by (auto simp: MCS6502ReadByte_def split_beta on_bus_def kernel_view_def)
  obtain i where i: "MCS6502OpcodeTable 0 = Some i"
    using opcode_tables_agree [of 0] by (auto simp: valid_opcode_table_def)
  have e: "snd (MCS6502ExecNext ?c) = (exec_BRK i c1)
      \<lparr>timingForLastOperation := timingForLastOperation (exec_BRK i c1) + timing i\<rparr>"
    by (cases ?c rule: ExecNext_cases) (use assms(5,6) f opc i exec_switch_BRK [of i c1] in simp_all)
  have "in_user (mmu (readWriteContext (snd (MCS6502ExecNext ?c))))"
    unfolding e using BRK_entered [OF k, of i] u(2) by (simp add: entered_def on_bus_def kernel_view_def)
  then have "CPU_cycle cpu = MCS6502ExecNext ?c"
    by (simp add: CPU_cycle_def brk_pre_exec [OF assms(1-4)] split_beta MMU_post_exec_def prod_eq_iff)
  then have x: "snd (CPU_cycle cpu) = (exec_BRK i c1)
      \<lparr>timingForLastOperation := timingForLastOperation (exec_BRK i c1) + timing i\<rparr>" using e by simp
  show thesis by (rule that [OF x _ k]) (use f in simp)
qed

lemma brk_enters_kernel:
  assumes "user_mode cpu" and "mmu_opcode (mmu (latched cpu)) = 0"
    and "\<not> (pending_irq (plic (latched cpu)) \<and> reg_p cpu AND MCS6502_STATUS_I = 0)"
    and "\<not> pending_nmi (mmu (latched cpu))"
    and "\<not> nmiPending cpu" and "\<not> irqPending cpu" and "segment_of (reg_pc cpu) \<noteq> MMU_LAST_SEGMENT"
  shows "entered (latched cpu) (snd (CPU_cycle cpu))"
    and "reg_pc (snd (CPU_cycle cpu)) = kernel_vector (latched cpu) MCS6502_IRQ_BRK_vector"
proof -
  obtain i c1 t where e: "snd (CPU_cycle cpu) = (exec_BRK i c1)\<lparr>timingForLastOperation := t\<rparr>"
    and k: "in_kernel (latched cpu) c1"
    using brk_cycle [OF assms] by metis
  show "entered (latched cpu) (snd (CPU_cycle cpu))"
    "reg_pc (snd (CPU_cycle cpu)) = kernel_vector (latched cpu) MCS6502_IRQ_BRK_vector"
    unfolding e using BRK_entered [OF k, of i] k
    by (simp_all add: entered_def exec_BRK_def Let_def read_kernel_vector [of "latched cpu"])
qed

lemma cycle_pendingTiming [simp]: "pendingTiming (snd (CPU_cycle cpu)) = 0"
  by (simp add: CPU_cycle_def split_beta)

section \<open>Stretches of user instructions\<close>

text \<open>
  \<open>protected m0 m\<close>: everything a user program must not change is in \<open>m\<close> as it is in \<open>m0\<close> (the MMU's
  latches for the instruction on the bus and for a faulting address aside).
\<close>

definition protected :: "Machine \<Rightarrow> Machine \<Rightarrow> bool" where
  "protected m0 m \<longleftrightarrow>
     rom m = rom m0 \<and> uart m = uart m0 \<and> disk m = disk m0 \<and> timer m = timer m0 \<and> plic m = plic m0 \<and>
     page_table (mmu m) = page_table (mmu m0) \<and> mmu_prev (mmu m) = mmu_prev (mmu m0) \<and>
     mmu_watchdog (mmu m) = mmu_watchdog (mmu m0) \<and> mmu_cause (mmu m) = mmu_cause (mmu m0) \<and>
     (\<forall>pa. frame_of pa \<notin> ucast ` set (page_table (mmu m0)) \<longrightarrow> ram m pa = ram m0 pa)"

lemma protected_refl [simp]: "protected m m"
  by (simp add: protected_def)

lemma protected_trans: "protected m0 m \<Longrightarrow> protected m m' \<Longrightarrow> protected m0 m'"
  by (simp add: protected_def)

lemma isolated_protected: "isolated m0 m \<Longrightarrow> protected m0 m"
  by (simp add: isolated_def protected_def)

lemma latched_protected: "user_mode cpu \<Longrightarrow> protected (readWriteContext cpu) (latched cpu)"
  using user_access_isolated(1) [of "readWriteContext cpu" "reg_pc cpu"]
  by (auto simp: user_mode_def on_bus_def latched_def protected_def isolated_def split_beta)

lemma user_cycle:
  assumes "user_mode cpu" and "\<not> traps cpu"
  shows "user_mode (snd (CPU_cycle cpu))"
    and "protected (readWriteContext cpu) (readWriteContext (snd (CPU_cycle cpu)))"
  using user_cycle_isolated [OF assms] latched_isolated(1) [OF assms(1)] latched_protected [OF assms(1)]
  by (auto simp: on_bus_def user_mode_def dest: isolated_user_table isolated_protected
      intro: protected_trans)

abbreviation cycles :: "nat \<Rightarrow> system \<Rightarrow> system" where
  "cycles n cpu \<equiv> ((\<lambda>c. snd (CPU_cycle c)) ^^ n) cpu"

lemma user_stretch:
  "user_mode cpu \<Longrightarrow> (\<And>k. k < n \<Longrightarrow> \<not> traps (cycles k cpu)) \<Longrightarrow>
   user_mode (cycles n cpu) \<and> protected (readWriteContext cpu) (readWriteContext (cycles n cpu))"
proof (induction n)
  case 0
  then show ?case by simp
next
  case (Suc n)
  then have "user_mode (cycles n cpu)" "protected (readWriteContext cpu) (readWriteContext (cycles n cpu))"
    by simp_all
  moreover have "\<not> traps (cycles n cpu)" using Suc.prems(2) [of n] by simp
  ultimately show ?case
    using user_cycle [of "cycles n cpu"] by (auto intro: protected_trans)
qed

section \<open>The status register of the running machine\<close>

lemma entry_status_ok [simp]:
  "status_ok c \<Longrightarrow> status_ok (MCS6502IRQ c)" "status_ok c \<Longrightarrow> status_ok (MCS6502NMI c)"
  by (simp_all add: MCS6502IRQ_def MCS6502NMI_def Let_def interrupts_status_ok)

lemma status_ok_machine [simp]: "status_ok (c\<lparr>readWriteContext := m\<rparr>) = status_ok c"
  by (simp add: status_ok_def)

lemma cycle_status_ok: "status_ok c \<Longrightarrow> status_ok (snd (CPU_cycle c))"
  by (simp add: CPU_cycle_def split_beta)
     (intro ExecNext_status_ok, simp add: MMU_pre_exec_def MMU_fetch_def MMU_intercept_def
        MMU_privilege_watchdog_def MMU_violation_watchdog_def Let_def split_beta)

lemma CPU_loop_status_ok: "status_ok c \<Longrightarrow> status_ok (snd (CPU_loop n c))"
  by (induction n arbitrary: c) (auto simp: Let_def split_beta dest: cycle_status_ok)

lemma run_status_ok: "status_ok c \<Longrightarrow> status_ok (snd (Machine_run host c))"
proof (induction host c rule: Machine_run.induct)
  case (2 key accepted host c)
  obtain ok out c1 where s: "Machine_step key accepted c = (ok, out, c1)" by (metis prod_cases3)
  have "status_ok (snd (snd (Machine_step key accepted c)))"
    using 2(2) by (auto simp: Machine_step_def CPU_step_def Let_def split_beta intro!: CPU_loop_status_ok)
  with 2(1) s show ?case by (simp add: split_beta)
qed simp

end
