(* ===== verification/Machine_Devices.thy ===== *)
theory Machine_Devices
  imports Machine_Laws
begin

text \<open>
  The devices in time: a count-down contract shared by the timer and the disk controller,
  sectors of the disk image, the serial port, the well-formedness of the running machine, and
  its state at power-on.
\<close>

section \<open>Counting down\<close>

text \<open>
  A device that counts: while it runs, a step lowers its count by one, and at the count of one
  it fires. The client fact is the exact number of steps.
\<close>

locale countdown =
  fixes step :: "'s \<Rightarrow> 's"
    and running :: "'s \<Rightarrow> bool"
    and count :: "'s \<Rightarrow> nat"
    and set_count :: "nat \<Rightarrow> 's \<Rightarrow> 's"
    and fire :: "'s \<Rightarrow> 's"
    and top :: nat
  assumes count_range: "running s \<Longrightarrow> 0 < count s \<and> count s \<le> top"
    and step_count: "running s \<Longrightarrow> 1 < count s \<Longrightarrow> step s = set_count (count s - 1) s"
    and step_fire: "running s \<Longrightarrow> count s = 1 \<Longrightarrow> step s = fire s"
    and set_count_running: "running s \<Longrightarrow> 0 < n \<Longrightarrow> n \<le> top \<Longrightarrow> running (set_count n s)"
    and count_set_count: "running s \<Longrightarrow> 0 < n \<Longrightarrow> n \<le> top \<Longrightarrow> count (set_count n s) = n"
    and set_count_twice: "set_count n (set_count k s) = set_count n s"
    and set_count_same: "running s \<Longrightarrow> set_count (count s) s = s"
begin

lemma counting:
  "running s \<Longrightarrow> k < count s \<Longrightarrow> (step ^^ k) s = set_count (count s - k) s"
proof (induction k)
  case 0
  then show ?case by (simp add: set_count_same)
next
  case (Suc k)
  then have "(step ^^ k) s = set_count (count s - k) s" by simp
  moreover have r: "running (set_count (count s - k) s)" "count (set_count (count s - k) s) = count s - k"
    using Suc.prems count_range [OF Suc.prems(1)] by (simp_all add: set_count_running count_set_count)
  ultimately show ?case
    using Suc.prems step_count [OF r(1)] by (simp add: set_count_twice)
qed

lemma fires:
  assumes "running s"
  shows "(step ^^ count s) s = fire (set_count 1 s)"
proof -
  obtain k where k: "count s = Suc k" using count_range [OF assms] by (metis gr0_implies_Suc)
  have "running (set_count 1 s)" "count (set_count 1 s) = 1"
    using count_range [OF assms] assms by (simp_all add: set_count_running count_set_count)
  with counting [OF assms, of k] k show ?thesis by (simp add: step_fire)
qed

end

section \<open>Timer\<close>

definition timer_count :: "Machine \<Rightarrow> nat" where
  "timer_count m =
     (let c = mk_word (timer_counter_high (timer m)) (timer_counter_low (timer m))
      in if c = 0 then 65536 else unat c)"

definition timer_set :: "nat \<Rightarrow> Machine \<Rightarrow> Machine" where
  "timer_set n m = m\<lparr>timer := (timer m)\<lparr>timer_counter_high := hi_byte (of_nat n),
     timer_counter_low := lo_byte (of_nat n)\<rparr>\<rparr>"

definition timer_fire :: "Machine \<Rightarrow> Machine" where
  "timer_fire m = PLIC_raise PLIC_PIN_TIMER
     (m\<lparr>timer := (timer m)\<lparr>timer_counter_high := timer_latch_high (timer m),
        timer_counter_low := timer_latch_low (timer m)\<rparr>\<rparr>)"

definition timer_enabled :: "Machine \<Rightarrow> bool" where
  "timer_enabled m \<longleftrightarrow> timer_ctrl (timer m) \<noteq> TIMER_ENABLE_FALSE"

lemma word16_count:
  fixes c :: uint16
  defines "n \<equiv> if c = 0 then 65536 else unat c"
  shows "c = of_nat n" "0 < n" "n \<le> 65536" "n = 1 \<longleftrightarrow> c = 1" "1 < n \<Longrightarrow> c - 1 = of_nat (n - 1)"
proof -
  have lt: "unat c < 65536" using unsigned_less [of c, where ?'a = nat] by simp
  show c: "c = of_nat n" unfolding n_def by simp
  show "0 < n" "n \<le> 65536" unfolding n_def using lt by (auto simp: unat_gt_0)
  then show "c - 1 = of_nat (n - 1)" if "1 < n" using c by (simp add: of_nat_diff)
  show "n = 1 \<longleftrightarrow> c = 1" unfolding n_def by (auto simp: word_unat_eq_iff)
qed

lemma timer_set_count:
  "0 < n \<Longrightarrow> n \<le> 65536 \<Longrightarrow> timer_count (timer_set n m) = n"
  by (cases "n = 65536") (simp_all add: timer_count_def timer_set_def Let_def word_unat_eq_iff)

interpretation timer_countdown:
  countdown "\<lambda>m. snd (Timer_step m)" timer_enabled timer_count timer_set timer_fire 65536
proof unfold_locales
  fix m :: Machine and n k :: nat
  let ?c = "mk_word (timer_counter_high (timer m)) (timer_counter_low (timer m))"
  note w = word16_count [of ?c]
  have t: "timer_count m = (if ?c = 0 then 65536 else unat ?c)" by (simp add: timer_count_def Let_def)
  show "0 < timer_count m \<and> timer_count m \<le> 65536" using w t by simp
  show "snd (Timer_step m) = timer_set (timer_count m - 1) m" if "timer_enabled m" "1 < timer_count m"
    using that w(4,5) unfolding t
    by (simp add: Timer_step_def timer_enabled_def timer_set_def Let_def)
  show "snd (Timer_step m) = timer_fire m" if "timer_enabled m" "timer_count m = 1"
    using that w(4) unfolding t
    by (simp add: Timer_step_def timer_enabled_def timer_fire_def Let_def)
  show "timer_enabled (timer_set n m)" if "timer_enabled m"
    using that by (simp add: timer_enabled_def timer_set_def)
  show "timer_count (timer_set n m) = n" if "0 < n" "n \<le> 65536"
    using that by (rule timer_set_count)
  show "timer_set n (timer_set k m) = timer_set n m" by (simp add: timer_set_def)
  show "timer_set (timer_count m) m = m"
    using w(1) unfolding t timer_set_def by simp
qed

section \<open>Disk\<close>

definition disk_busy :: "Machine \<Rightarrow> bool" where
  "disk_busy m \<longleftrightarrow> disk_status (disk m) = DISK_STATUS_BUSY \<and>
     0 < disk_delay (disk m) \<and> disk_delay (disk m) \<le> DISK_LATENCY"

definition disk_set :: "nat \<Rightarrow> Machine \<Rightarrow> Machine" where
  "disk_set n m = m\<lparr>disk := (disk m)\<lparr>disk_delay := int n\<rparr>\<rparr>"

text \<open>A transfer the host file takes in full.\<close>

abbreviation disk_tick :: "Machine \<Rightarrow> Machine" where
  "disk_tick m \<equiv> snd (Disk_step DISK_SECTOR_SIZE m)"

interpretation disk_countdown:
  countdown "\<lambda>m. snd (Disk_step accepted m)" disk_busy "\<lambda>m. nat (disk_delay (disk m))" disk_set
    "\<lambda>m. snd (Disk_step accepted m)" 200 for accepted
  by unfold_locales (auto simp: disk_busy_def disk_set_def Disk_step_def Let_def)

definition sector_offset :: "Machine \<Rightarrow> nat" where
  "sector_offset m =
     unat (mk_word (disk_lba_high (disk m)) (disk_lba_low (disk m))) * DISK_SECTOR_SIZE"

lemma file_read_write:
  "file_read off (length bytes) (file_write off bytes file) = bytes"
  by (simp add: file_read_def file_write_def min_def)

lemma file_write_length:
  "length (file_write off bytes file) = max (length file) (off + length bytes)"
  by (simp add: file_write_def)

lemma file_write_nth:
  "i < length file \<Longrightarrow> file_write off bytes file ! i =
     (if off \<le> i \<and> i < off + length bytes then bytes ! (i - off) else file ! i)"
  by (auto simp: file_write_def nth_append min_def)

lemma disk_fires_read:
  assumes "disk_status (disk m) = DISK_STATUS_BUSY" and "disk_delay (disk m) = 1"
    and "disk_cmd (disk m) = DISK_CMD_READ"
    and "bytes = file_read (sector_offset m) DISK_SECTOR_SIZE (disk_file (disk m))"
    and "length bytes = DISK_SECTOR_SIZE" and "length (disk_buffer (disk m)) = DISK_SECTOR_SIZE"
  shows "snd (Disk_step accepted m) = PLIC_raise PLIC_PIN_DISK
    (m\<lparr>disk := (disk m)\<lparr>disk_delay := 0, disk_buffer := bytes, disk_status := DISK_STATUS_READY\<rparr>\<rparr>)"
  using assms by (simp add: Disk_step_def sector_offset_def Let_def)

lemma disk_fires_write:
  assumes "disk_status (disk m) = DISK_STATUS_BUSY" and "disk_delay (disk m) = 1"
    and "disk_cmd (disk m) = DISK_CMD_WRITE" and "length (disk_buffer (disk m)) = DISK_SECTOR_SIZE"
  shows "disk_tick m = PLIC_raise PLIC_PIN_DISK
    (m\<lparr>disk := (disk m)\<lparr>disk_delay := 0,
       disk_file := file_write (sector_offset m) (disk_buffer (disk m)) (disk_file (disk m)),
       disk_status := DISK_STATUS_READY\<rparr>\<rparr>)"
  using assms by (simp add: Disk_step_def sector_offset_def Let_def)

text \<open>The disk registers on the bus, from the kernel's mapping of the last segment.\<close>

definition kernel_mapped :: "Machine \<Rightarrow> bool" where
  "kernel_mapped m \<longleftrightarrow> page_table (mmu m) ! MMU_LAST_SEGMENT = MMU_LAST_FRAME"

lemma kernel_translate:
  assumes "kernel_mapped m"
  shows "MMU_translate 0xFE01 (mmu m) = (DISK_CMD, mmu m)"
    and "MMU_translate 0xFE10 (mmu m) = (UART_TX, mmu m)"
    and "MMU_translate 0xFE11 (mmu m) = (UART_RX, mmu m)"
  using assms by (simp_all add: kernel_mapped_def translate_cases segment_of_def phys_def)

lemma disk_command:
  assumes "kernel_mapped m" and "cmd \<in> {DISK_CMD_READ, DISK_CMD_WRITE}"
  shows "Machine_write 0xFE01 cmd m =
    m\<lparr>disk := (disk m)\<lparr>disk_cmd := cmd, disk_status := DISK_STATUS_BUSY, disk_delay := DISK_LATENCY\<rparr>\<rparr>"
  using assms(2) by (auto simp: Machine_write_def kernel_translate [OF assms(1)] Let_def)

lemma disk_write_command:
  assumes "kernel_mapped m" and "length (disk_buffer (disk m)) = DISK_SECTOR_SIZE"
  shows "(disk_tick ^^ 200) (Machine_write 0xFE01 DISK_CMD_WRITE m) = PLIC_raise PLIC_PIN_DISK
    (m\<lparr>disk := (disk m)\<lparr>disk_cmd := DISK_CMD_WRITE, disk_delay := 0,
       disk_file := file_write (sector_offset m) (disk_buffer (disk m)) (disk_file (disk m)),
       disk_status := DISK_STATUS_READY\<rparr>\<rparr>)"
proof -
  let ?m = "Machine_write 0xFE01 DISK_CMD_WRITE m"
  have "disk_busy ?m" "nat (disk_delay (disk ?m)) = 200"
    using disk_command [OF assms(1)] by (simp_all add: disk_busy_def)
  with disk_countdown.fires [of ?m DISK_SECTOR_SIZE]
  have "(disk_tick ^^ 200) ?m = disk_tick (disk_set 1 ?m)" by simp
  then show ?thesis
    using disk_fires_write [of "disk_set 1 ?m"] assms
    by (simp add: disk_command disk_set_def sector_offset_def)
qed

lemma disk_read_command:
  assumes "kernel_mapped m" and "length (disk_buffer (disk m)) = DISK_SECTOR_SIZE"
    and "bytes = file_read (sector_offset m) DISK_SECTOR_SIZE (disk_file (disk m))"
    and "length bytes = DISK_SECTOR_SIZE"
  shows "(disk_tick ^^ 200) (Machine_write 0xFE01 DISK_CMD_READ m) = PLIC_raise PLIC_PIN_DISK
    (m\<lparr>disk := (disk m)\<lparr>disk_cmd := DISK_CMD_READ, disk_delay := 0, disk_buffer := bytes,
       disk_status := DISK_STATUS_READY\<rparr>\<rparr>)"
proof -
  let ?m = "Machine_write 0xFE01 DISK_CMD_READ m"
  have "disk_busy ?m" "nat (disk_delay (disk ?m)) = 200"
    using disk_command [OF assms(1)] by (simp_all add: disk_busy_def)
  with disk_countdown.fires [of ?m DISK_SECTOR_SIZE]
  have "(disk_tick ^^ 200) ?m = disk_tick (disk_set 1 ?m)" by simp
  then show ?thesis
    using disk_fires_read [of "disk_set 1 ?m" bytes] assms
    by (simp add: disk_command disk_set_def sector_offset_def)
qed

section \<open>Serial port\<close>

lemma uart_transmit:
  assumes "kernel_mapped m"
  shows "\<exists>m'. Uart_step None (Machine_write 0xFE10 b m) = (True, [b], m') \<and> Uart_step None m' = (True, [], m')"
  using assms
  by (simp add: Machine_write_def kernel_translate Let_def Uart_step_def byte_bits bit_simps)

lemma uart_rx_read:
  assumes "kernel_mapped m"
  shows "Machine_read 0xFE11 m =
    (uart_rx (uart m), m\<lparr>uart := (uart m)\<lparr>uart_status := uart_status (uart m) AND NOT UART_STATUS_RX_READY\<rparr>\<rparr>)"
  using assms by (simp add: Machine_read_def kernel_translate Let_def)

lemma uart_key:
  assumes "key \<noteq> 0x1B" and "Uart_step (Some key) m = (on, out, m')"
  shows "on" and "uart_rx (uart m') = key" and "bit (uart_status (uart m')) 0"
    and "plic m' = plic (PLIC_raise PLIC_PIN_UART_RX m)" and "mmu m' = mmu m"
  using assms by (auto simp: Uart_step_def PLIC_raise_def Let_def bit_simps split: if_splits)

section \<open>Well-formedness of the running machine\<close>

abbreviation running_wf :: "system \<Rightarrow> bool" where
  "running_wf \<equiv> on_bus Machine_read Machine_write machine_wf"

lemma device_wf:
  assumes "machine_wf m"
  shows "machine_wf (snd (Timer_step m))" and "machine_wf (snd (snd (Uart_step key m)))"
    and "machine_wf (snd (Disk_step accepted m))" and "machine_wf (enter_kernel_segment m)"
    and "machine_wf (MMU_post_exec m)" and "machine_wf (PLIC_lower m)"
  using assms
  by (simp_all add: machine_wf_def Timer_step_def Uart_step_def Disk_step_def PLIC_raise_def
      PLIC_lower_def enter_kernel_segment_def MMU_post_exec_def file_read_def Let_def
      split: option.split)

lemma on_machine_wf:
  "running_wf c \<Longrightarrow> (\<And>m. machine_wf m \<Longrightarrow> machine_wf (f m)) \<Longrightarrow> running_wf (on_machine f c)"
  by (simp add: on_bus_def)

lemma mmu_update_wf [simp]:
  "machine_wf (m\<lparr>mmu := (mmu m)\<lparr>mmu_watchdog := w, mmu_cause := k\<rparr>\<rparr>) = machine_wf m"
  "machine_wf (m\<lparr>mmu := (mmu m)\<lparr>mmu_cause := k\<rparr>\<rparr>) = machine_wf m"
  "machine_wf (m\<lparr>mmu := (mmu m)\<lparr>pending_nmi := b\<rparr>\<rparr>) = machine_wf m"
  "machine_wf (m\<lparr>mmu := (mmu m)\<lparr>mmu_opcode := opc, in_user := b\<rparr>\<rparr>) = machine_wf m"
  by (simp_all add: machine_wf_def)

lemma stages_wf:
  assumes "running_wf c"
  shows "running_wf (MMU_fetch c)" and "running_wf (MMU_intercept c)"
    and "running_wf (MMU_privilege_watchdog c)" and "running_wf (MMU_violation_watchdog c)"
proof -
  show "running_wf (MMU_fetch c)"
    using assms by (simp add: MMU_fetch_def on_bus_def split_beta read_wf)
  show "running_wf (MMU_intercept c)"
    using assms by (auto simp: MMU_intercept_def Let_def device_wf
        intro!: wf.entry_on_bus on_machine_wf)
  show "running_wf (MMU_privilege_watchdog c)"
    using assms by (auto simp: MMU_privilege_watchdog_def Let_def
        intro!: wf.entry_on_bus on_machine_wf device_wf)
  show "running_wf (MMU_violation_watchdog c)"
    using assms by (auto simp: MMU_violation_watchdog_def Let_def
        intro!: wf.entry_on_bus on_machine_wf device_wf)
qed

lemma cycle_wf: "running_wf c \<Longrightarrow> running_wf (snd (CPU_cycle c))"
  by (simp add: CPU_cycle_def MMU_pre_exec_def split_beta)
     (intro on_machine_wf wf.ExecNext_on_bus stages_wf device_wf)

lemma CPU_loop_wf: "running_wf c \<Longrightarrow> running_wf (snd (CPU_loop n c))"
  by (induction n arbitrary: c) (auto simp: Let_def split_beta dest: cycle_wf)

lemma step_wf: "running_wf c \<Longrightarrow> running_wf (snd (snd (Machine_step key accepted c)))"
  by (auto simp: Machine_step_def CPU_step_def split_beta Let_def
      intro!: CPU_loop_wf) (auto simp: on_bus_def intro!: device_wf)

lemma run_wf: "running_wf c \<Longrightarrow> running_wf (snd (Machine_run host c))"
proof (induction host c rule: Machine_run.induct)
  case (2 key accepted host c)
  obtain ok out c1 where s: "Machine_step key accepted c = (ok, out, c1)" by (metis prod_cases3)
  then have "running_wf c1" using step_wf [OF 2(2), of key accepted] by simp
  with 2(1) s show ?case by (simp add: split_beta)
qed simp

section \<open>Power-on\<close>

definition power_on :: "uint8 list \<Rightarrow> uint8 list \<Rightarrow> Machine" where
  "power_on rom_img disk_img =
     \<lparr>ram = RAM_create, rom = ROM_create rom_img, uart = Uart_create, disk = Disk_create disk_img,
      mmu = MMU_create, timer = Timer_create, plic = PLIC_create\<rparr>"

lemma power_on_wf: "machine_wf (power_on r d)"
  by (simp add: machine_wf_def power_on_def ROM_create_def Disk_create_def MMU_create_def)

lemma power_on_mapping: "stack_mapped (power_on r d)" "kernel_mapped (power_on r d)"
  by (simp_all add: stack_mapped_def kernel_mapped_def power_on_def MMU_create_def)

lemma create_wf: "running_wf (CPU_create (power_on r d))"
  unfolding CPU_create_def
  by (rule wf.entry_on_bus) (simp add: on_bus_def MCS6502Init_def power_on_wf)

text \<open>The reset sequence reads its vector from the ROM and changes nothing behind the bus.\<close>

lemma reset_translate:
  "segment_of 0xFFFC = 15" "segment_of 0xFFFD = 15"
  "phys 15 0xFFFC = 0xFFFC" "phys 15 0xFFFD = 0xFFFD"
  by (simp_all add: segment_of_def phys_def)

lemma power_on_read:
  "Machine_read 0xFFFC (power_on r d) = (rom_data (ROM_create r) ! 0xFC, power_on r d)"
  "Machine_read 0xFFFD (power_on r d) = (rom_data (ROM_create r) ! 0xFD, power_on r d)"
proof -
  have pt: "page_table (mmu (power_on r d)) ! 15 = 15"
    by (simp add: power_on_def MMU_create_def)
  have en: "rom_enable (rom (power_on r d)) = 1" "rom (power_on r d) = ROM_create r"
    by (simp_all add: power_on_def ROM_create_def)
  show "Machine_read 0xFFFC (power_on r d) = (rom_data (ROM_create r) ! 0xFC, power_on r d)"
    "Machine_read 0xFFFD (power_on r d) = (rom_data (ROM_create r) ! 0xFD, power_on r d)"
    using en by (simp_all add: Machine_read_def translate_cases reset_translate pt Let_def)
qed

lemma create_reset:
  "readWriteContext (CPU_create (power_on r d)) = power_on r d"
  "reg_pc (CPU_create (power_on r d)) = mk_word (rom_data (ROM_create r) ! 0xFD) (rom_data (ROM_create r) ! 0xFC)"
  "reg_p (CPU_create (power_on r d)) = MCS6502_STATUS_I"
  "reg_sp (CPU_create (power_on r d)) = 0xFD"
  by (simp_all add: CPU_create_def MCS6502Reset_def MCS6502Init_def ReadWordAtAddress_def
      MCS6502ReadByte_def power_on_read Let_def)

end
