(* ===== verification/Machine_Create.thy ===== *)
theory Machine_Create
  imports Machine_Devices
begin

text \<open>
  Putting the machine together and taking it apart (\<^verbatim>\<open>src/machine/machine.c\<close>, \<^verbatim>\<open>Machine_create\<close> and
  \<^verbatim>\<open>Machine_destroy\<close>): the host's files and terminal, the machine as a structure of pointers of which some may
  be null, the bus over such a structure, and the constructor, which resets the processor on that bus before it looks for
  missing parts. Destructors that only release memory have no effect on this state.
\<close>

section \<open>The host\<close>

text \<open>
  The terminal attributes (of which only \<^verbatim>\<open>c_lflag\<close> is changed), the status flags of standard input, the files by
  path with the paths that may be opened for writing, and the bytes written to standard output. \<^verbatim>\<open>orig_termios\<close> and
  \<^verbatim>\<open>orig_fcntl_flags\<close> are global variables of the emulator. What it writes to standard error is left out.
\<close>

record termios =
  c_lflag :: uint32
  other_attributes :: "uint8 list"

record host =
  tty :: termios
  stdin_flags :: uint32
  orig_termios :: termios
  orig_fcntl_flags :: uint32
  host_files :: "string \<rightharpoonup> uint8 list"
  host_writable :: "string \<Rightarrow> bool"
  host_stdout :: "uint8 list"

abbreviation ECHO :: uint32 where "ECHO \<equiv> 8"
abbreviation ICANON :: uint32 where "ICANON \<equiv> 2"
abbreviation ISIG :: uint32 where "ISIG \<equiv> 1"
abbreviation O_NONBLOCK :: uint32 where "O_NONBLOCK \<equiv> 0x800"

definition COLOR_GREEN :: "uint8 list" where "COLOR_GREEN = [0x1B, 0x5B, 0x33, 0x32, 0x6D]"
definition COLOR_RESET :: "uint8 list" where "COLOR_RESET = [0x1B, 0x5B, 0x30, 0x6D]"

text \<open>
  Opening the images: the ROM's for reading, the disk's for reading and writing. \<open>None\<close> is the null pointer of a
  constructor that could not open its file. Then the part of \<open>Uart_create\<close> that configures the terminal, and
  \<^verbatim>\<open>Uart_destroy\<close>, which undoes it; closing the disk image, with what the controller wrote in the file.
\<close>

definition ROM_open :: "string \<Rightarrow> host \<Rightarrow> ROM option" where
  "ROM_open path h = map_option ROM_create (host_files h path)"

definition Disk_open :: "string \<Rightarrow> host \<Rightarrow> Disk option" where
  "Disk_open path h = (if host_writable h path then map_option Disk_create (host_files h path) else None)"

definition Uart_terminal :: "host \<Rightarrow> host" where
  "Uart_terminal h =
     (let raw = (tty h)\<lparr>c_lflag := c_lflag (tty h) AND NOT (ECHO OR ICANON OR ISIG)\<rparr>
      in h\<lparr>orig_termios := tty h, tty := raw, orig_fcntl_flags := stdin_flags h,
           stdin_flags := stdin_flags h OR O_NONBLOCK, host_stdout := host_stdout h @ COLOR_GREEN\<rparr>)"

definition Uart_destroy :: "host \<Rightarrow> host" where
  "Uart_destroy h = h\<lparr>tty := orig_termios h, stdin_flags := orig_fcntl_flags h, host_stdout := host_stdout h @ COLOR_RESET\<rparr>"

definition Disk_destroy :: "string \<Rightarrow> Disk \<Rightarrow> host \<Rightarrow> host" where
  "Disk_destroy path d h = h\<lparr>host_files := (host_files h)(path \<mapsto> disk_file d)\<rparr>"

section \<open>Parts\<close>

text \<open>
  The machine as \<^verbatim>\<open>Machine_create\<close> builds it: a pointer per part. Dereferencing a null pointer ends the program; the
  error names the function that does it.
\<close>

datatype create_error = NullDereference string

record Parts =
  p_ram :: "(uint32 \<Rightarrow> uint8) option"
  p_rom :: "ROM option"
  p_uart :: "Uart option"
  p_disk :: "Disk option"
  p_mmu :: "MMU option"
  p_timer :: "Timer option"
  p_plic :: "PLIC option"

fun deref :: "string \<Rightarrow> 'a option \<Rightarrow> ('a \<Rightarrow> create_error + 'b) \<Rightarrow> create_error + 'b" where
  "deref place None k = Inl (NullDereference place)"
| "deref place (Some x) k = k x"

definition parts_of :: "Machine \<Rightarrow> Parts" where
  "parts_of m = \<lparr>p_ram = Some (ram m), p_rom = Some (rom m), p_uart = Some (uart m), p_disk = Some (disk m),
     p_mmu = Some (mmu m), p_timer = Some (timer m), p_plic = Some (plic m)\<rparr>"

text \<open>\<open>Machine_read\<close> on a machine whose parts may be missing, in the order of the source.\<close>

definition Parts_read :: "uint16 \<Rightarrow> Parts \<Rightarrow> create_error + (uint8 \<times> Parts)" where
  "Parts_read addr q0 =
    deref ''MMU_translate'' (p_mmu q0) (\<lambda>mm0.
     (let (pa, mm) = MMU_translate addr mm0;
          q = q0\<lparr>p_mmu := Some mm\<rparr>
      in if pa = PLIC_INTERRUPT_LINES then deref ''Machine_read'' (p_plic q) (\<lambda>p. Inr (interrupts_lines p, q))
         else if pa = TIMER_CTRL then deref ''Machine_read'' (p_timer q) (\<lambda>t. Inr (timer_ctrl t, q))
         else if pa = TIMER_LATCH_HIGH then deref ''Machine_read'' (p_timer q) (\<lambda>t. Inr (timer_latch_high t, q))
         else if pa = TIMER_LATCH_LOW then deref ''Machine_read'' (p_timer q) (\<lambda>t. Inr (timer_latch_low t, q))
         else if pa = TIMER_COUNTER_HIGH then deref ''Machine_read'' (p_timer q) (\<lambda>t. Inr (timer_counter_high t, q))
         else if pa = TIMER_COUNTER_LOW then deref ''Machine_read'' (p_timer q) (\<lambda>t. Inr (timer_counter_low t, q))
         else if pa \<ge> MMU_PAGE_TABLE \<and> pa < MMU_PAGE_TABLE + 16
           then Inr (page_table mm ! unat (pa - MMU_PAGE_TABLE), q)
         else if pa = MMU_PREV_REGISTER then Inr (mmu_prev mm, q)
         else if pa = MMU_WATCHDOG_REGISTER then Inr (mmu_watchdog mm, q)
         else if pa = MMU_CAUSE_REGISTER then Inr (mmu_cause mm, q)
         else if pa = MMU_VA_REGISTER_LOW then Inr (ucast (mmu_va mm AND 0x00ff), q)
         else if pa = MMU_VA_REGISTER_HIGH then Inr (ucast (drop_bit 8 (mmu_va mm)), q)
         else if pa = ROM_ENABLE then deref ''Machine_read'' (p_rom q) (\<lambda>r. Inr (rom_enable r, q))
         else if pa \<ge> ROM_BASE \<and> pa < ROM_BASE + ROM_SIZE \<and> (p_rom q = None \<or> rom_enable (the (p_rom q)) \<noteq> 0)
           then deref ''Machine_read'' (p_rom q) (\<lambda>r. Inr (rom_data r ! unat (pa - ROM_BASE), q))
         else if pa \<ge> DISK_BUF \<and> pa < DISK_BUF + 512
           then deref ''Machine_read'' (p_disk q) (\<lambda>d. Inr (disk_buffer d ! unat (pa - DISK_BUF), q))
         else if pa = DISK_CMD then deref ''Machine_read'' (p_disk q) (\<lambda>d. Inr (disk_cmd d, q))
         else if pa = DISK_STAT then deref ''Machine_read'' (p_disk q) (\<lambda>d. Inr (disk_status d, q))
         else if pa = DISK_LBA + 0 then deref ''Machine_read'' (p_disk q) (\<lambda>d. Inr (disk_lba_low d, q))
         else if pa = DISK_LBA + 1 then deref ''Machine_read'' (p_disk q) (\<lambda>d. Inr (disk_lba_high d, q))
         else if pa = UART_RX
           then deref ''Machine_read'' (p_uart q) (\<lambda>u.
             Inr (uart_rx u, q\<lparr>p_uart := Some (u\<lparr>uart_status := uart_status u AND NOT UART_STATUS_RX_READY\<rparr>)\<rparr>))
         else if pa = UART_TX then deref ''Machine_read'' (p_uart q) (\<lambda>u. Inr (uart_tx u, q))
         else if pa = UART_STAT then deref ''Machine_read'' (p_uart q) (\<lambda>u. Inr (uart_status u, q))
         else if pa < RAM_SIZE then deref ''Machine_read'' (p_ram q) (\<lambda>r. Inr (r pa, q))
         else Inr (0xFF, q)))"

text \<open>\<open>Machine_write\<close> on a machine whose parts may be missing.\<close>

definition Parts_write :: "uint16 \<Rightarrow> uint8 \<Rightarrow> Parts \<Rightarrow> create_error + Parts" where
  "Parts_write addr byte q0 =
    deref ''MMU_translate'' (p_mmu q0) (\<lambda>mm0.
     (let (pa, mm) = MMU_translate addr mm0;
          q = q0\<lparr>p_mmu := Some mm\<rparr>;
          timer_set = (\<lambda>f. deref ''Machine_write'' (p_timer q) (\<lambda>t. Inr (q\<lparr>p_timer := Some (f t)\<rparr>)));
          disk_set = (\<lambda>f. deref ''Machine_write'' (p_disk q) (\<lambda>d. Inr (q\<lparr>p_disk := Some (f d)\<rparr>)))
      in if pa = PLIC_INTERRUPT_LINES
           then deref ''Machine_write'' (p_plic q) (\<lambda>p. Inr (q\<lparr>p_plic := Some (p\<lparr>interrupts_lines := byte\<rparr>)\<rparr>))
         else if pa = TIMER_CTRL then timer_set (\<lambda>t.
           (let t1 = t\<lparr>timer_ctrl := byte\<rparr>
            in if byte = TIMER_ENABLE_TRUE
               then t1\<lparr>timer_counter_high := timer_latch_high t1, timer_counter_low := timer_latch_low t1\<rparr> else t1))
         else if pa = TIMER_LATCH_HIGH then timer_set (\<lambda>t. t\<lparr>timer_latch_high := byte\<rparr>)
         else if pa = TIMER_LATCH_LOW then timer_set (\<lambda>t. t\<lparr>timer_latch_low := byte\<rparr>)
         else if pa = TIMER_COUNTER_HIGH then timer_set (\<lambda>t. t\<lparr>timer_counter_high := byte\<rparr>)
         else if pa = TIMER_COUNTER_LOW then timer_set (\<lambda>t. t\<lparr>timer_counter_low := byte\<rparr>)
         else if pa \<ge> MMU_PAGE_TABLE \<and> pa < MMU_PAGE_TABLE + 16
           then Inr (q\<lparr>p_mmu := Some (mm\<lparr>page_table := (page_table mm)[unat (pa - MMU_PAGE_TABLE) := byte]\<rparr>)\<rparr>)
         else if pa = MMU_PREV_REGISTER then Inr (q\<lparr>p_mmu := Some (mm\<lparr>mmu_prev := byte\<rparr>)\<rparr>)
         else if pa = MMU_CAUSE_REGISTER then Inr (q\<lparr>p_mmu := Some (mm\<lparr>mmu_cause := byte\<rparr>)\<rparr>)
         else if pa = ROM_ENABLE
           then deref ''Machine_write'' (p_rom q) (\<lambda>r. Inr (q\<lparr>p_rom := Some (r\<lparr>rom_enable := byte\<rparr>)\<rparr>))
         else if pa \<ge> DISK_BUF \<and> pa < DISK_BUF + 512
           then disk_set (\<lambda>d. d\<lparr>disk_buffer := (disk_buffer d)[unat (pa - DISK_BUF) := byte]\<rparr>)
         else if pa = DISK_CMD then disk_set (\<lambda>d.
           (let d1 = d\<lparr>disk_cmd := byte\<rparr>
            in if byte = DISK_CMD_READ then d1\<lparr>disk_status := DISK_STATUS_BUSY, disk_delay := DISK_LATENCY\<rparr>
               else if byte = DISK_CMD_WRITE then d1\<lparr>disk_status := DISK_STATUS_BUSY, disk_delay := DISK_LATENCY\<rparr>
               else d1))
         else if pa = DISK_LBA + 0 then disk_set (\<lambda>d. d\<lparr>disk_lba_low := byte\<rparr>)
         else if pa = DISK_LBA + 1 then disk_set (\<lambda>d. d\<lparr>disk_lba_high := byte\<rparr>)
         else if pa = UART_TX
           then deref ''Machine_write'' (p_uart q) (\<lambda>u.
             Inr (q\<lparr>p_uart := Some (u\<lparr>uart_tx := byte, uart_status := uart_status u AND NOT UART_STATUS_TX_READY\<rparr>)\<rparr>))
         else if pa < RAM_SIZE then deref ''Machine_write'' (p_ram q) (\<lambda>r. Inr (q\<lparr>p_ram := Some (r(pa := byte))\<rparr>))
         else Inr q))"

text \<open>On a machine with all its parts this is the bus of \<open>Machine_State\<close>.\<close>

lemma parts_of_simps [simp]:
  "p_ram (parts_of m) = Some (ram m)" "p_rom (parts_of m) = Some (rom m)" "p_uart (parts_of m) = Some (uart m)"
  "p_disk (parts_of m) = Some (disk m)" "p_mmu (parts_of m) = Some (mmu m)" "p_timer (parts_of m) = Some (timer m)"
  "p_plic (parts_of m) = Some (plic m)"
  by (simp_all add: parts_of_def)

lemma parts_of_update [simp]:
  "(parts_of m)\<lparr>p_ram := Some a\<rparr> = parts_of (m\<lparr>ram := a\<rparr>)"
  "(parts_of m)\<lparr>p_rom := Some b\<rparr> = parts_of (m\<lparr>rom := b\<rparr>)"
  "(parts_of m)\<lparr>p_uart := Some c\<rparr> = parts_of (m\<lparr>uart := c\<rparr>)"
  "(parts_of m)\<lparr>p_disk := Some d\<rparr> = parts_of (m\<lparr>disk := d\<rparr>)"
  "(parts_of m)\<lparr>p_mmu := Some e\<rparr> = parts_of (m\<lparr>mmu := e\<rparr>)"
  "(parts_of m)\<lparr>p_timer := Some f\<rparr> = parts_of (m\<lparr>timer := f\<rparr>)"
  "(parts_of m)\<lparr>p_plic := Some g\<rparr> = parts_of (m\<lparr>plic := g\<rparr>)"
  by (simp_all add: parts_of_def)

lemma push_read:
  "fst (if c then x else y) = (if c then fst x else fst y)" "snd (if c then x else y) = (if c then snd x else snd y)"
  "(if c then Inr (u, v) else Inr (u', v')) = Inr (if c then u else u', if c then v else v')"
  "(if c then parts_of m else parts_of m') = parts_of (if c then m else m')"
  by simp_all

lemma push_write:
  "(if c then Inr (parts_of m) else Inr (parts_of m')) = Inr (parts_of (if c then m else m'))"
  by simp

lemma Parts_read_complete:
  "Parts_read a (parts_of m) = Inr (fst (Machine_read a m), parts_of (snd (Machine_read a m)))"
proof -
  obtain pa mm where t: "MMU_translate a (mmu m) = (pa, mm)" by force
  show ?thesis
    by (simp add: Parts_read_def Machine_read_def t Let_def push_read cong: if_cong split del: if_split)
qed

lemma Parts_write_complete: "Parts_write a v (parts_of m) = Inr (parts_of (Machine_write a v m))"
proof -
  obtain pa mm where t: "MMU_translate a (mmu m) = (pa, mm)" by force
  show ?thesis
    by (simp add: Parts_write_def Machine_write_def t Let_def push_write if_distrib [of "\<lambda>x. m\<lparr>mmu := mm, timer := x\<rparr>"]
        if_distrib [of "\<lambda>x. m\<lparr>mmu := mm, disk := x\<rparr>"] cong: if_cong split del: if_split)
qed

section \<open>The constructor\<close>

text \<open>
  The processor's memory while the machine is put together: the parts, or the error that has ended the program. The value of a
  read after the error is never used: the constructor looks at the error first.
\<close>

type_synonym parts_memory = "create_error + Parts"

definition parts_read :: "uint16 \<Rightarrow> parts_memory \<Rightarrow> uint8 \<times> parts_memory" where
  "parts_read addr s =
     (case s of
        Inl e \<Rightarrow> (0, Inl e)
      | Inr q \<Rightarrow> (case Parts_read addr q of Inl e \<Rightarrow> (0, Inl e) | Inr (b, q1) \<Rightarrow> (b, Inr q1)))"

definition parts_write :: "uint16 \<Rightarrow> uint8 \<Rightarrow> parts_memory \<Rightarrow> parts_memory" where
  "parts_write addr byte s = (case s of Inl e \<Rightarrow> Inl e | Inr q \<Rightarrow> Parts_write addr byte q)"

text \<open>\<open>CPU_create\<close> on the parts: the same initialisation and reset of the processor.\<close>

definition Parts_CPU_create :: "Parts \<Rightarrow> parts_memory ctx" where
  "Parts_CPU_create q = MCS6502Reset (MCS6502Init parts_read parts_write (Inr q))"

text \<open>
  \<^verbatim>\<open>Machine_destroy\<close>: the processor, the ROM, the RAM, the serial port, the disk and the rest, in this order. Freeing a null
  pointer does nothing; \<^verbatim>\<open>ROM_destroy\<close>, \<^verbatim>\<open>RAM_destroy\<close> and \<^verbatim>\<open>Disk_destroy\<close> look into the structure first.
\<close>

definition Machine_destroy :: "string \<Rightarrow> Parts \<Rightarrow> host \<Rightarrow> (create_error + unit) \<times> host" where
  "Machine_destroy path q h =
     (if p_rom q = None then (Inl (NullDereference ''ROM_destroy''), h)
      else if p_ram q = None then (Inl (NullDereference ''RAM_destroy''), h)
      else (let h1 = Uart_destroy h
            in case p_disk q of
                 None \<Rightarrow> (Inl (NullDereference ''Disk_destroy''), h1)
               | Some d \<Rightarrow> (Inr (), Disk_destroy path d h1)))"

text \<open>The processor with its bus, once all the parts are there.\<close>

definition Machine_connect :: "parts_memory ctx \<Rightarrow> Parts \<Rightarrow> system" where
  "Machine_connect cpu q =
     \<lparr>reg_a = reg_a cpu, reg_x = reg_x cpu, reg_y = reg_y cpu, reg_sp = reg_sp cpu, reg_pc = reg_pc cpu, reg_p = reg_p cpu,
      pendingTiming = pendingTiming cpu, timingForLastOperation = timingForLastOperation cpu,
      irqPending = irqPending cpu, nmiPending = nmiPending cpu, readByte = Machine_read, writeByte = Machine_write,
      readWriteContext = \<lparr>ram = the (p_ram q), rom = the (p_rom q), uart = the (p_uart q), disk = the (p_disk q),
        mmu = the (p_mmu q), timer = the (p_timer q), plic = the (p_plic q)\<rparr>\<rparr>"

text \<open>
  \<^verbatim>\<open>Machine_create\<close>: a crash, the null pointer (\<open>Inr None\<close>) or the machine. Memory allocations succeed, so the processor
  and the parts without a file are never missing.
\<close>

definition Machine_create :: "string \<Rightarrow> string \<Rightarrow> host \<Rightarrow> (create_error + system option) \<times> host" where
  "Machine_create rom_file image_file h =
    (let m_rom = ROM_open rom_file h;
         h1 = Uart_terminal h;
         m_disk = Disk_open image_file h1;
         cpu = Parts_CPU_create \<lparr>p_ram = Some RAM_create, p_rom = m_rom, p_uart = Some Uart_create, p_disk = m_disk,
                 p_mmu = Some MMU_create, p_timer = Some Timer_create, p_plic = Some PLIC_create\<rparr>
     in case readWriteContext cpu of
          Inl e \<Rightarrow> (Inl e, h1)
        | Inr q \<Rightarrow>
            (if p_ram q = None \<or> p_rom q = None \<or> p_uart q = None \<or> p_disk q = None \<or> p_timer q = None \<or>
                p_mmu q = None \<or> p_plic q = None
             then (case Machine_destroy image_file q h1 of
                     (Inl e, h2) \<Rightarrow> (Inl e, h2)
                   | (Inr _, h2) \<Rightarrow> (Inr None, h2))
             else (Inr (Some (Machine_connect cpu q)), h1)))"

section \<open>What the constructor does\<close>

text \<open>The reset of the processor fetches its vector from the top of the ROM.\<close>

definition fresh_parts :: "ROM option \<Rightarrow> Disk option \<Rightarrow> Parts" where
  "fresh_parts r d = \<lparr>p_ram = Some RAM_create, p_rom = r, p_uart = Some Uart_create, p_disk = d,
     p_mmu = Some MMU_create, p_timer = Some Timer_create, p_plic = Some PLIC_create\<rparr>"

lemma fresh_translate: "segment_of va = 15 \<Longrightarrow> MMU_translate va MMU_create = (phys 15 va, MMU_create)"
  by (simp add: translate_cases MMU_create_def)

lemma fresh_read:
  "Parts_read 0xFFFC (fresh_parts None d) = Inl (NullDereference ''Machine_read'')"
  "rom_enable r \<noteq> 0 \<Longrightarrow> Parts_read 0xFFFC (fresh_parts (Some r) d) = Inr (rom_data r ! 0xFC, fresh_parts (Some r) d)"
  "rom_enable r \<noteq> 0 \<Longrightarrow> Parts_read 0xFFFD (fresh_parts (Some r) d) = Inr (rom_data r ! 0xFD, fresh_parts (Some r) d)"
  by (simp_all add: Parts_read_def fresh_parts_def fresh_translate reset_translate Let_def)

lemma reset_context:
  "readWriteContext (Parts_CPU_create q) =
     snd (parts_read 0xFFFD (snd (parts_read 0xFFFC (Inr q))))"
  "reg_pc (Parts_CPU_create q) =
     mk_word (fst (parts_read 0xFFFD (snd (parts_read 0xFFFC (Inr q))))) (fst (parts_read 0xFFFC (Inr q)))"
  by (simp_all add: Parts_CPU_create_def MCS6502Reset_def MCS6502Init_def ReadWordAtAddress_def MCS6502ReadByte_def
      Let_def split_beta)

text \<open>Without the ROM the reset crashes on the bus, before the constructor looks for missing parts.\<close>

lemma reset_without_rom:
  "readWriteContext (Parts_CPU_create (fresh_parts None d)) = Inl (NullDereference ''Machine_read'')"
  by (simp add: reset_context parts_read_def fresh_read)

lemma reset_with_rom:
  assumes "rom_enable r \<noteq> 0"
  shows "readWriteContext (Parts_CPU_create (fresh_parts (Some r) d)) = Inr (fresh_parts (Some r) d)"
    and "reg_pc (Parts_CPU_create (fresh_parts (Some r) d)) = mk_word (rom_data r ! 0xFD) (rom_data r ! 0xFC)"
  using assms by (simp_all add: reset_context parts_read_def fresh_read)

lemma reset_registers:
  "reg_a (Parts_CPU_create q) = 0" "reg_x (Parts_CPU_create q) = 0" "reg_y (Parts_CPU_create q) = 0"
  "reg_sp (Parts_CPU_create q) = 0xFD" "reg_p (Parts_CPU_create q) = MCS6502_STATUS_I"
  "pendingTiming (Parts_CPU_create q) = 0" "timingForLastOperation (Parts_CPU_create q) = 0"
  "\<not> irqPending (Parts_CPU_create q)" "\<not> nmiPending (Parts_CPU_create q)"
  by (simp_all add: Parts_CPU_create_def MCS6502Reset_def MCS6502Init_def ReadWordAtAddress_def MCS6502ReadByte_def
      Let_def split_beta)

lemma CPU_create_on_power_on:
  "CPU_create (power_on r d) =
     \<lparr>reg_a = 0, reg_x = 0, reg_y = 0, reg_sp = 0xFD,
      reg_pc = mk_word (rom_data (ROM_create r) ! 0xFD) (rom_data (ROM_create r) ! 0xFC), reg_p = MCS6502_STATUS_I,
      pendingTiming = 0, timingForLastOperation = 0, irqPending = False, nmiPending = False,
      readByte = Machine_read, writeByte = Machine_write, readWriteContext = power_on r d\<rparr>"
  by (simp add: CPU_create_def MCS6502Reset_def MCS6502Init_def ReadWordAtAddress_def MCS6502ReadByte_def power_on_read Let_def)

lemma connected:
  "Machine_connect (Parts_CPU_create (fresh_parts (Some (ROM_create r)) (Some (Disk_create d))))
     (fresh_parts (Some (ROM_create r)) (Some (Disk_create d))) = CPU_create (power_on r d)"
proof -
  have "rom_enable (ROM_create r) \<noteq> 0" by (simp add: ROM_create_def)
  then show ?thesis
    by (simp add: Machine_connect_def reset_registers reset_with_rom CPU_create_on_power_on)
       (simp add: fresh_parts_def power_on_def)
qed

lemma Uart_terminal_files [simp]:
  "host_files (Uart_terminal h) = host_files h" "host_writable (Uart_terminal h) = host_writable h"
  by (simp_all add: Uart_terminal_def Let_def)

text \<open>The constructor, case by case: the ROM image missing, the disk image missing, both there.\<close>

lemma create_without_rom:
  assumes "host_files h rom_file = None"
  shows "Machine_create rom_file image_file h = (Inl (NullDereference ''Machine_read''), Uart_terminal h)"
  using assms reset_without_rom
  by (simp add: Machine_create_def ROM_open_def Let_def flip: fresh_parts_def)

lemma create_without_disk:
  assumes "host_files h rom_file = Some r" and "host_files h image_file = None \<or> \<not> host_writable h image_file"
  shows "Machine_create rom_file image_file h = (Inl (NullDereference ''Disk_destroy''), Uart_destroy (Uart_terminal h))"
proof -
  have d: "Disk_open image_file (Uart_terminal h) = None" using assms(2) by (auto simp: Disk_open_def)
  have "rom_enable (ROM_create r) \<noteq> 0" by (simp add: ROM_create_def)
  note reset = reset_with_rom(1) [OF this, of None]
  have "Machine_destroy image_file (fresh_parts (Some (ROM_create r)) None) h1 =
      (Inl (NullDereference ''Disk_destroy''), Uart_destroy h1)" for h1
    by (simp add: Machine_destroy_def fresh_parts_def)
  moreover have "p_disk (fresh_parts (Some (ROM_create r)) None) = None" by (simp add: fresh_parts_def)
  ultimately show ?thesis
    using assms(1) d reset by (simp add: Machine_create_def ROM_open_def Let_def flip: fresh_parts_def)
qed

lemma created:
  assumes "host_files h rom_file = Some r" and "host_files h image_file = Some d" and "host_writable h image_file"
  shows "Machine_create rom_file image_file h = (Inr (Some (CPU_create (power_on r d))), Uart_terminal h)"
proof -
  let ?q = "fresh_parts (Some (ROM_create r)) (Some (Disk_create d))"
  have d: "Disk_open image_file (Uart_terminal h) = Some (Disk_create d)" using assms by (simp add: Disk_open_def)
  have "rom_enable (ROM_create r) \<noteq> 0" by (simp add: ROM_create_def)
  note reset = reset_with_rom(1) [OF this, of "Some (Disk_create d)"]
  have "p_ram ?q = Some RAM_create" "p_rom ?q = Some (ROM_create r)" "p_uart ?q = Some Uart_create"
    "p_disk ?q = Some (Disk_create d)" "p_timer ?q = Some Timer_create" "p_mmu ?q = Some MMU_create"
    "p_plic ?q = Some PLIC_create" by (simp_all add: fresh_parts_def)
  then show ?thesis
    using assms(1) d reset connected [of r d]
    by (simp add: Machine_create_def ROM_open_def Let_def flip: fresh_parts_def)
qed

text \<open>A machine that was created is the one of its two images.\<close>

lemma create_Some:
  assumes "Machine_create rom_file image_file h = (Inr (Some c), h')"
  obtains r d where "host_files h rom_file = Some r" and "host_files h image_file = Some d"
    and "c = CPU_create (power_on r d)"
proof (cases "host_files h rom_file")
  case None
  with assms create_without_rom [OF this, of image_file] show ?thesis by simp
next
  case (Some r)
  show ?thesis
  proof (cases "host_files h image_file = None \<or> \<not> host_writable h image_file")
    case True
    with assms create_without_disk [OF Some this] show ?thesis by simp
  next
    case False
    then obtain d where "host_files h image_file = Some d" "host_writable h image_file" by auto
    with assms created [OF Some this] that [OF Some this(1)] show ?thesis by simp
  qed
qed

lemma destroyed:
  "Machine_destroy path (parts_of m) h = (Inr (), Disk_destroy path (disk m) (Uart_destroy h))"
  by (simp add: Machine_destroy_def Let_def)

end
