(* ===== verification/Machine_Main.thy ===== *)
theory Machine_Main
  imports Machine_Create
begin

text \<open>
  The emulator as a program of the host (\<^verbatim>\<open>src/machine/machine.c\<close>, \<^verbatim>\<open>main\<close> with the core dump): the machine is created
  from the files of the host, runs until a step returns false, is dumped and destroyed.
\<close>

section \<open>Core dump and main\<close>

definition Machine_coredump :: "Machine \<Rightarrow> string \<Rightarrow> host \<Rightarrow> host" where
  "Machine_coredump m path h =
     (if host_writable h path
      then h\<lparr>host_files := (host_files h)(path \<mapsto> map (\<lambda>a. ram m (of_nat a)) [0..<unat RAM_SIZE])\<rparr>
      else h)"

text \<open>
  The loop of \<^verbatim>\<open>main\<close> over the host's answers: the output and the system when a step returns false, \<open>None\<close> when it is
  still running after the last answer.
\<close>

fun main_loop :: "(uint8 option \<times> nat) list \<Rightarrow> system \<Rightarrow> (uint8 list \<times> system) option" where
  "main_loop [] cpu = None"
| "main_loop ((key, accepted) # answers) cpu =
     (let (ok, out, cpu1) = Machine_step key accepted cpu
      in if ok then map_option (\<lambda>(out', cpu2). (out @ out', cpu2)) (main_loop answers cpu1)
         else Some (out, cpu1))"

datatype run_outcome = Exited int | Crashed create_error | Still_running

definition rom_path :: string where "rom_path = ''machine/rom.bin''"
definition coredump_path :: string where "coredump_path = ''machine/coredump.bin''"

text \<open>\<^verbatim>\<open>main\<close>: a null dereference on the way is a crash, a null pointer from the constructor the exit code 1.\<close>

definition machine_main :: "string list \<Rightarrow> (uint8 option \<times> nat) list \<Rightarrow> host \<Rightarrow> run_outcome \<times> host" where
  "machine_main argv answers h =
    (if length argv \<noteq> 2 then (Exited 1, h)
     else
       (let disk_path = argv ! 1
        in case Machine_create rom_path disk_path h of
             (Inl e, h1) \<Rightarrow> (Crashed e, h1)
           | (Inr None, h1) \<Rightarrow> (Exited 1, h1)
           | (Inr (Some cpu), h1) \<Rightarrow>
               (case main_loop answers cpu of
                  None \<Rightarrow> (Still_running, h1)
                | Some (out, cpu1) \<Rightarrow>
                    (let h2 = h1\<lparr>host_stdout := host_stdout h1 @ out\<rparr>;
                         h3 = Machine_coredump (readWriteContext cpu1) coredump_path h2
                     in case Machine_destroy disk_path (parts_of (readWriteContext cpu1)) h3 of
                          (Inl e, h4) \<Rightarrow> (Crashed e, h4)
                        | (Inr _, h4) \<Rightarrow> (Exited 0, h4)))))"

section \<open>Powering off\<close>

lemma main_loop_run: "main_loop answers cpu = Some r \<Longrightarrow> r = Machine_run answers cpu"
proof (induction answers cpu arbitrary: r rule: main_loop.induct)
  case (2 key accepted answers cpu)
  obtain ok out cpu1 where s: "Machine_step key accepted cpu = (ok, out, cpu1)" by (metis prod_cases3)
  show ?case using 2 s by (auto split: if_splits prod.splits)
qed simp

text \<open>The escape key ends the loop at the latest when it is read.\<close>

lemma main_loop_escape: "Some 0x1B \<in> fst ` set answers \<Longrightarrow> main_loop answers cpu \<noteq> None"
proof (induction answers cpu rule: main_loop.induct)
  case (2 key accepted answers cpu)
  obtain ok out cpu1 where s: "Machine_step key accepted cpu = (ok, out, cpu1)" by (metis prod_cases3)
  show ?case
  proof (cases ok)
    case True
    then have "key \<noteq> Some 0x1B" using s by (auto simp: Machine_step_def Uart_step_def)
    then show ?thesis using 2 s True by (auto split: prod.splits)
  qed (use s in simp)
qed simp

text \<open>The settings of the terminal survive the emulator.\<close>

definition same_terminal :: "host \<Rightarrow> host \<Rightarrow> bool" where
  "same_terminal h h' \<longleftrightarrow> tty h' = tty h \<and> stdin_flags h' = stdin_flags h"

lemma terminal_restored:
  "orig_termios h = tty g \<Longrightarrow> orig_fcntl_flags h = stdin_flags g \<Longrightarrow> same_terminal g (Uart_destroy h)"
  by (simp add: same_terminal_def Uart_destroy_def)

lemma main_powered_off:
  assumes "host_files h rom_path = Some r" and "host_files h path = Some d" and "host_writable h path"
    and "main_loop answers (CPU_create (power_on r d)) = Some (out, cpu)"
  shows "machine_main [prog, path] answers h =
    (Exited 0, Disk_destroy path (disk (readWriteContext cpu)) (Uart_destroy
       (Machine_coredump (readWriteContext cpu) coredump_path
         ((Uart_terminal h)\<lparr>host_stdout := host_stdout (Uart_terminal h) @ out\<rparr>))))"
  using assms(4) created [OF assms(1-3)] by (simp add: machine_main_def Let_def destroyed)

section \<open>Failing to start\<close>

lemma main_usage: "length argv \<noteq> 2 \<Longrightarrow> machine_main argv answers h = (Exited 1, h)"
  by (simp add: machine_main_def)

lemma main_without_rom:
  "host_files h rom_path = None \<Longrightarrow>
     machine_main [prog, path] answers h = (Crashed (NullDereference ''Machine_read''), Uart_terminal h)"
  by (simp add: machine_main_def create_without_rom)

lemma main_without_disk:
  "host_files h rom_path = Some r \<Longrightarrow> host_files h path = None \<or> \<not> host_writable h path \<Longrightarrow>
     machine_main [prog, path] answers h = (Crashed (NullDereference ''Disk_destroy''), Uart_destroy (Uart_terminal h))"
  by (simp add: machine_main_def create_without_disk)

lemma main_started:
  assumes "host_files h rom_path = Some r" and "host_files h path = Some d" and "host_writable h path"
  shows "fst (machine_main [prog, path] answers h) \<in> {Exited 0, Still_running}"
  using created [OF assms] by (auto simp: machine_main_def Let_def destroyed split: option.splits)

end
