(* ===== verification/Machine_Properties.thy ===== *)
theory Machine_Properties
  imports Machine_Trap Machine_Main
begin

text \<open>
  The machine's properties: protection of the kernel and the devices from user programs, the
  stack on the machine's bus, the running machine's invariants, power-on, and the devices.
\<close>

section \<open>Example machines\<close>

text \<open>The kernel's mapping after power-on, and a user program's mapping of frames 16 to 31.\<close>

definition kernel_system :: system where
  "kernel_system = CPU_create (power_on [] [])"

abbreviation JSR_abs :: MCS6502Instruction where
  "JSR_abs \<equiv> mk_instr 0x20 ''JSR'' AddressingAbsolute 6 False"
abbreviation RTS_impl :: MCS6502Instruction where
  "RTS_impl \<equiv> mk_instr 0x60 ''RTS'' AddressingImplied 6 False"
abbreviation RTI_impl :: MCS6502Instruction where
  "RTI_impl \<equiv> mk_instr 0x40 ''RTI'' AddressingImplied 6 False"

definition user_machine :: "uint8 \<Rightarrow> Machine" where
  "user_machine b = (power_on [] [])\<lparr>ram := (\<lambda>_. b),
     mmu := MMU_create\<lparr>page_table := map of_nat [16..<32]\<rparr>\<rparr>"

definition user_system :: "uint8 \<Rightarrow> system" where
  "user_system b = (CPU_create (power_on [] []))\<lparr>readWriteContext := user_machine b, reg_pc := 0x1000\<rparr>"

lemma kernel_system_stack: "on_bus Machine_read Machine_write stack_mapped kernel_system"
proof -
  have "on_bus Machine_read Machine_write machine_wf kernel_system"
    unfolding kernel_system_def by (rule create_wf)
  then show ?thesis
    by (simp add: on_bus_def kernel_system_def create_reset power_on_mapping)
qed

lemma user_machine_table: "user_table (user_machine b)"
  by (simp add: user_table_def user_machine_def upt_rec)

lemma user_system_mode: "user_mode (user_system b)"
  using create_wf [of "[]" "[]"] user_machine_table
  by (simp add: user_mode_def on_bus_def user_system_def)

lemma user_system_fetch:
  "fst (Machine_read 0x1000 (user_machine b)) = b" "pending_nmi (mmu (latched (user_system b))) = False"
proof -
  have p: "page_table (mmu (user_machine b)) ! segment_of 0x1000 = 17"
    by (simp add: user_machine_def segment_of_def upt_rec)
  then show "fst (Machine_read 0x1000 (user_machine b)) = b"
    by (simp add: read_value_plain) (simp add: user_machine_def)
  have t: "MMU_translate 0x1000 (mmu (user_machine b)) = (phys 17 0x1000, mmu (user_machine b))"
    by (simp add: translate_cases p)
  have "snd (Machine_read 0x1000 (user_machine b)) = user_machine b"
    using Machine_read_plain [OF t] by (simp add: phys_frame)
  then show "pending_nmi (mmu (latched (user_system b))) = False"
    by (simp add: latched_def user_system_def split_beta user_machine_def MMU_create_def)
qed

lemma user_system_latched:
  "mmu_opcode (mmu (latched (user_system b))) = b" "plic (latched (user_system b)) = PLIC_create"
  "reg_p (user_system b) = MCS6502_STATUS_I" "reg_pc (user_system b) = 0x1000"
  "readWriteContext (user_system b) = user_machine b" "segment_of 0x1000 = 1"
  "\<not> nmiPending (user_system b)" "\<not> irqPending (user_system b)" "pendingTiming (user_system b) = 0"
  using user_system_fetch(1)
  by (simp_all add: user_system_def latched_def split_beta create_reset)
     (simp_all add: user_machine_def power_on_def segment_of_def CPU_create_def MCS6502Reset_def
       MCS6502Init_def Let_def split_beta)

lemma user_NOP: "\<not> traps (user_system 0xEA)"
  by (simp add: traps_def user_system_latched user_system_fetch Let_def PLIC_create_def
      valid_opcode_table_def)

section \<open>User programs\<close>

text \<open>
  C1: a user program cannot reach what its page table does not map. While the page table maps no
  segment to the device frame, a stretch of processor cycles that does not trap leaves the ROM,
  every device, the page table and the MMU's trap registers, and every RAM frame outside the page
  table unchanged, and the machine is still in user mode.
\<close>

theorem user_isolation:
  assumes "user_mode cpu" and "\<forall>k < n. \<not> traps (cycles k cpu)"
  shows "user_mode (cycles n cpu) \<and>
    protected (readWriteContext cpu) (readWriteContext (cycles n cpu))"
  using assms user_stretch by blast

theorem user_isolation_witness:
  "protected (user_machine 0xEA) (readWriteContext (snd (CPU_cycle (user_system 0xEA))))"
  using user_isolation [of "user_system 0xEA" 1] user_system_mode user_NOP
  by (simp add: user_system_latched)

text \<open>
  C4: what a trap does. If the next user instruction traps (an interrupt is pending and enabled,
  the opcode is privileged or invalid, or an access has faulted), then before the processor
  executes anything the kernel's last segment is mapped, interrupts are disabled and the program
  counter is at the NMI or IRQ vector that the kernel's frame holds; the memory of that frame and
  the ROM are unchanged. (A plain \<open>BRK\<close> is the next property.)
\<close>

theorem trap_entry:
  assumes "user_mode cpu" and "pendingTiming cpu = 0" and "traps cpu"
    and "mmu_opcode (mmu (latched cpu)) \<noteq> 0"
  shows "entered (latched cpu) (MMU_pre_exec cpu)"
  using trap_enters_kernel [OF assms(1-3)] assms(4) by blast

theorem trap_entry_witness:
  "reg_pc (MMU_pre_exec (user_system 0x78)) \<in>
     {kernel_vector (latched (user_system 0x78)) MCS6502_NMI_vector,
      kernel_vector (latched (user_system 0x78)) MCS6502_IRQ_BRK_vector}"
proof -
  have "traps (user_system 0x78)" by (simp add: traps_def user_system_latched Let_def)
  then have "entered (latched (user_system 0x78)) (MMU_pre_exec (user_system 0x78))"
    by (intro trap_entry) (simp_all add: user_system_mode user_system_latched)
  then show ?thesis by (simp only: entered_def)
qed

text \<open>
  C6: a system call enters the kernel. A user \<open>BRK\<close> outside the last segment, with no interrupt
  and no fault pending, ends its cycle with the kernel's last segment mapped, interrupts disabled,
  and the program counter at the kernel's IRQ vector.
\<close>

theorem system_call_entry:
  assumes "user_mode cpu" and "mmu_opcode (mmu (latched cpu)) = 0"
    and "\<not> pending_irq (plic (latched cpu)) \<or> IsInterruptDisableSet cpu"
    and "\<not> pending_nmi (mmu (latched cpu))"
    and "\<not> nmiPending cpu" and "\<not> irqPending cpu" and "segment_of (reg_pc cpu) \<noteq> MMU_LAST_SEGMENT"
  shows "entered (latched cpu) (snd (CPU_cycle cpu)) \<and>
    reg_pc (snd (CPU_cycle cpu)) = kernel_vector (latched cpu) MCS6502_IRQ_BRK_vector"
proof -
  have "\<not> (pending_irq (plic (latched cpu)) \<and> reg_p cpu AND MCS6502_STATUS_I = 0)"
    using assms(3) by (auto simp: IsInterruptDisableSet_def)
  from brk_enters_kernel [OF assms(1,2) this assms(4-7)] show ?thesis by blast
qed

theorem system_call_entry_witness:
  "reg_pc (snd (CPU_cycle (user_system 0))) =
     kernel_vector (latched (user_system 0)) MCS6502_IRQ_BRK_vector"
  using system_call_entry [of "user_system 0"]
  by (simp add: user_system_mode user_system_latched user_system_fetch PLIC_create_def)

text \<open>
  a user program cannot stop the machine with a bad opcode: a cycle in user mode that does not
  trap executes an instruction the processor knows.
\<close>

theorem user_opcode_known:
  assumes "user_mode cpu" and "\<not> traps cpu"
  shows "fst (CPU_cycle cpu) \<noteq> MCS6502ExecResultInvalidOperation"
  using assms by (rule user_cycle_valid)

theorem user_opcode_known_witness:
  "fst (CPU_cycle (user_system 0xEA)) \<noteq> MCS6502ExecResultInvalidOperation"
  by (rule user_opcode_known [OF user_system_mode user_NOP])

text \<open>The MMU's table of valid opcodes and the processor's opcode table accept the same opcodes.\<close>

theorem opcode_tables:
  "valid_opcode_table ! unat opc \<longleftrightarrow> MCS6502OpcodeTable opc \<noteq> None"
  by (rule opcode_tables_agree)

section \<open>The stack on the machine's bus\<close>

text \<open>On the machine's bus, pulling returns the byte pushed last and the old stack pointer.\<close>

theorem stack_roundtrip:
  assumes "on_bus Machine_read Machine_write stack_mapped c"
  shows "PullByte (PushByte v c) = (v, (PushByte v c)\<lparr>reg_sp := reg_sp c\<rparr>)"
  using assms by (rule machine_stack.push_pull)

theorem stack_roundtrip_witness:
  "fst (PullByte (PushByte 0x5A kernel_system)) = 0x5A"
  using stack_roundtrip [OF kernel_system_stack, of "0x5A"] by simp

text \<open>
  Subroutine linkage: after \<open>JSR\<close> and any code that leaves the stack pointer and the two
  stacked bytes as the call left them, \<open>RTS\<close> continues behind the three-byte call with the stack
  pointer the caller had.
\<close>

theorem JSR_RTS:
  assumes "on_bus Machine_read Machine_write stack_mapped c"
    and "on_bus Machine_read Machine_write stack_mapped h"
    and "reg_sp h = reg_sp c - 2"
    and "\<forall>s \<in> {reg_sp c, reg_sp c - 1}.
      stack_byte (readWriteContext h) s = stack_byte (readWriteContext (exec_JSR i c)) s"
  shows "reg_pc (exec_RTS j h) = reg_pc c + 3 \<and> reg_sp (exec_RTS j h) = reg_sp c"
  using machine_stack.call_return [OF assms] by blast

lemma JSR_keeps_stack:
  "on_bus Machine_read Machine_write stack_mapped c \<Longrightarrow>
   on_bus Machine_read Machine_write stack_mapped (exec_JSR i c)"
  by (simp add: exec_JSR_def Let_def split_beta)

theorem JSR_RTS_witness:
  "reg_pc (exec_RTS RTS_impl (exec_JSR JSR_abs kernel_system)) = reg_pc kernel_system + 3"
  using JSR_RTS [OF kernel_system_stack JSR_keeps_stack [OF kernel_system_stack], of JSR_abs JSR_abs RTS_impl]
  by (simp add: machine_stack.jsr_stack [OF kernel_system_stack])

text \<open>
  Interrupts are transparent: after an IRQ or NMI sequence and any handler that leaves the
  stack pointer and the three stacked bytes as the sequence left them, \<open>RTI\<close> restores the program
  counter, the status register and the stack pointer of the interrupted program.
\<close>

theorem interrupt_RTI:
  assumes "on_bus Machine_read Machine_write stack_mapped c"
    and "on_bus Machine_read Machine_write stack_mapped h" and "status_ok c"
    and "reg_sp h = reg_sp c - 3"
    and "(\<forall>s \<in> {reg_sp c, reg_sp c - 1, reg_sp c - 2}.
        stack_byte (readWriteContext h) s = stack_byte (readWriteContext (HandleIRQ c)) s) \<or>
      (\<forall>s \<in> {reg_sp c, reg_sp c - 1, reg_sp c - 2}.
        stack_byte (readWriteContext h) s = stack_byte (readWriteContext (HandleNMI c)) s)"
  shows "reg_pc (exec_RTI i h) = reg_pc c \<and> reg_p (exec_RTI i h) = reg_p c \<and>
    reg_sp (exec_RTI i h) = reg_sp c"
  using assms(3,5) machine_stack.interrupt_return [OF assms(1,2) _ _ assms(4), of i]
    machine_stack.nmi_return [OF assms(1,2) _ _ assms(4), of i]
  unfolding status_ok_def by blast

lemma HandleIRQ_keeps_stack:
  "on_bus Machine_read Machine_write stack_mapped c \<Longrightarrow>
   on_bus Machine_read Machine_write stack_mapped (HandleIRQ c)"
  by (simp add: HandleIRQ_def Let_def split_beta machine_stack.flags_pushed)

lemma kernel_system_status: "status_ok kernel_system"
  by (simp add: status_ok_def kernel_system_def create_reset byte_bits)

theorem interrupt_RTI_witness:
  "reg_pc (exec_RTI RTI_impl (HandleIRQ kernel_system)) = reg_pc kernel_system \<and>
   reg_p (exec_RTI RTI_impl (HandleIRQ kernel_system)) = reg_p kernel_system"
  using interrupt_RTI [OF kernel_system_stack HandleIRQ_keeps_stack [OF kernel_system_stack]
      kernel_system_status, of RTI_impl]
  by (simp add: machine_stack.irq_stack [OF kernel_system_stack])

section \<open>The running machine\<close>

text \<open>
  C24: the machine stays well-formed. Whatever ROM and disk image it starts from, whatever keys and
  host answers arrive, after any number of steps the page table has 16 entries, the disk buffer
  512 bytes and the ROM 256 bytes (so every index of the bus is in range), the processor is still
  on the machine's bus, and the break and unused bits of its status register are clear.
\<close>

theorem run_invariant:
  assumes "Machine_create rom_file image_file h = (Inr (Some c), h')"
  shows "machine_wf (readWriteContext (snd (Machine_run host c))) \<and>
    readByte (snd (Machine_run host c)) = Machine_read \<and>
    writeByte (snd (Machine_run host c)) = Machine_write \<and>
    status_ok (snd (Machine_run host c))"
proof -
  obtain r d where c: "c = CPU_create (power_on r d)" using assms by (rule create_Some)
  have "status_ok c" by (simp add: c status_ok_def create_reset byte_bits)
  then have "status_ok (snd (Machine_run host c))" by (rule run_status_ok)
  moreover have "running_wf (snd (Machine_run host c))"
    unfolding c by (rule run_wf [OF create_wf])
  ultimately show ?thesis by (simp add: on_bus_def)
qed

text \<open>A host with an empty ROM image and an empty disk image.\<close>

definition example_host :: host where
  "example_host = \<lparr>tty = \<lparr>c_lflag = 0x8A3B, other_attributes = []\<rparr>, stdin_flags = 2,
     orig_termios = \<lparr>c_lflag = 0, other_attributes = []\<rparr>, orig_fcntl_flags = 0,
     host_files = [rom_path \<mapsto> [], ''disk.img'' \<mapsto> []], host_writable = (\<lambda>_. True), host_stdout = []\<rparr>"

lemma example_created:
  "Machine_create rom_path ''disk.img'' example_host = (Inr (Some kernel_system), Uart_terminal example_host)"
  unfolding kernel_system_def by (rule created) (simp_all add: example_host_def rom_path_def)

theorem run_invariant_witness:
  "machine_wf (readWriteContext (snd (Machine_run [(None, 512), (Some 0x41, 0)] kernel_system)))"
  using run_invariant [OF example_created, of "[(None, 512), (Some 0x41, 0)]"] by simp

text \<open>
  Power-on. With both images the machine starts at the reset vector of the ROM image (padded
  with zero bytes to 256), with interrupts disabled, the stack pointer at \<open>0xFD\<close>, the identity page
  table, the ROM enabled, the timer stopped and no interrupt pending.
\<close>

theorem power_on_state:
  assumes "host_files h rom_file = Some r" and "host_files h image_file = Some d" and "host_writable h image_file"
  shows "fst (Machine_create rom_file image_file h) = Inr (Some (CPU_create (power_on r d))) \<and>
   reg_pc (CPU_create (power_on r d)) =
     mk_word ((take 256 r @ replicate (256 - length r) 0) ! 0xFD)
       ((take 256 r @ replicate (256 - length r) 0) ! 0xFC) \<and>
   reg_p (CPU_create (power_on r d)) = MCS6502_STATUS_I \<and> reg_sp (CPU_create (power_on r d)) = 0xFD \<and>
   readWriteContext (CPU_create (power_on r d)) = power_on r d \<and>
   page_table (mmu (power_on r d)) = map of_nat [0..<16] \<and> rom_enable (rom (power_on r d)) = 1 \<and>
   timer_ctrl (timer (power_on r d)) = TIMER_ENABLE_FALSE \<and> \<not> pending_irq (plic (power_on r d))"
proof -
  have "fst (Machine_create rom_file image_file h) = Inr (Some (CPU_create (power_on r d)))"
    by (simp add: created [OF assms])
  moreover have "rom_data (ROM_create r) = take 256 r @ replicate (256 - length r) 0"
    by (simp add: ROM_create_def)
  moreover have "page_table (mmu (power_on r d)) = map of_nat [0..<16]"
    "rom_enable (rom (power_on r d)) = 1" "timer_ctrl (timer (power_on r d)) = TIMER_ENABLE_FALSE"
    "\<not> pending_irq (plic (power_on r d))"
    by (simp_all add: power_on_def MMU_create_def ROM_create_def Timer_create_def PLIC_create_def)
  ultimately show ?thesis by (simp only: create_reset) simp
qed

section \<open>Devices\<close>

text \<open>
  The timer's period is exact. While the timer is enabled with the 16-bit count \<open>n\<close> (a count of
  zero stands for 65536), the next \<open>n - 1\<close> steps only count down, and step \<open>n\<close> reloads the counter
  from the latch and raises the timer's interrupt line.
\<close>

theorem timer_period:
  assumes "timer_ctrl (timer m) \<noteq> TIMER_ENABLE_FALSE"
  shows "(k < timer_count m \<longrightarrow>
      ((\<lambda>m. snd (Timer_step m)) ^^ k) m = timer_set (timer_count m - k) m) \<and>
    ((\<lambda>m. snd (Timer_step m)) ^^ timer_count m) m =
      PLIC_raise PLIC_PIN_TIMER
        (m\<lparr>timer := (timer m)\<lparr>timer_counter_high := timer_latch_high (timer m),
           timer_counter_low := timer_latch_low (timer m)\<rparr>\<rparr>)"
proof -
  have e: "timer_enabled m" using assms by (simp add: timer_enabled_def)
  show ?thesis
    using timer_countdown.counting [OF e, of k] timer_countdown.fires [OF e]
    by (simp add: timer_fire_def timer_set_def)
qed

theorem timer_period_witness:
  "interrupts_lines (plic (((\<lambda>m. snd (Timer_step m)) ^^ 3) ((power_on [] [])\<lparr>timer :=
     Timer_create\<lparr>timer_ctrl := 1, timer_counter_low := 3\<rparr>\<rparr>))) = PLIC_PIN_TIMER"
proof -
  let ?m = "(power_on [] [])\<lparr>timer := Timer_create\<lparr>timer_ctrl := 1, timer_counter_low := 3\<rparr>\<rparr>"
  have "timer_count ?m = 3"
    by (simp add: timer_count_def mk_word_def Timer_create_def)
  then show ?thesis
    using timer_period [of ?m 0]
    by (simp add: PLIC_raise_def power_on_def PLIC_create_def)
qed

text \<open>
  Disk commands through the bus. A write command stores the buffer in the sector the LBA
  registers name, a later read command for the same sector (with any other buffer content in
  between) brings the bytes back; each completes after exactly 200 device steps, with the status
  ready and the interrupt line raised.
\<close>

theorem disk_roundtrip:
  assumes "kernel_mapped m" and "length (disk_buffer (disk m)) = DISK_SECTOR_SIZE"
    and "length other = DISK_SECTOR_SIZE"
    and "m1 = (disk_tick ^^ 200) (Machine_write 0xFE01 DISK_CMD_WRITE m)"
    and "m2 = (disk_tick ^^ 200) (Machine_write 0xFE01 DISK_CMD_READ
      (m1\<lparr>disk := (disk m1)\<lparr>disk_buffer := other\<rparr>\<rparr>))"
  shows "disk_buffer (disk m2) = disk_buffer (disk m) \<and> disk_status (disk m1) = DISK_STATUS_READY \<and>
    disk_status (disk m2) = DISK_STATUS_READY \<and> pending_irq (plic m1) \<and> pending_irq (plic m2)"
proof -
  note w = disk_write_command [OF assms(1,2)]
  let ?m = "m1\<lparr>disk := (disk m1)\<lparr>disk_buffer := other\<rparr>\<rparr>"
  have m1: "kernel_mapped ?m" "length (disk_buffer (disk ?m)) = DISK_SECTOR_SIZE"
    "sector_offset ?m = sector_offset m"
    "disk_file (disk ?m) = file_write (sector_offset m) (disk_buffer (disk m)) (disk_file (disk m))"
    "disk_status (disk m1) = DISK_STATUS_READY" "pending_irq (plic m1)"
    using assms(1,3) by (simp_all add: assms(4) w kernel_mapped_def PLIC_raise_def sector_offset_def)
  have b: "disk_buffer (disk m) = file_read (sector_offset ?m) DISK_SECTOR_SIZE (disk_file (disk ?m))"
    unfolding m1(3,4)
    using file_read_write [of "sector_offset m" "disk_buffer (disk m)" "disk_file (disk m)"] assms(2)
    by simp
  show ?thesis
    using m1(5,6) by (simp add: assms(5) disk_read_command [OF m1(1,2) b assms(2)] PLIC_raise_def)
qed

theorem disk_roundtrip_witness:
  "disk_buffer (disk ((disk_tick ^^ 200) (Machine_write 0xFE01 DISK_CMD_READ
     (((disk_tick ^^ 200) (Machine_write 0xFE01 DISK_CMD_WRITE (power_on [] [])))
        \<lparr>disk := (disk ((disk_tick ^^ 200) (Machine_write 0xFE01 DISK_CMD_WRITE (power_on [] []))))
           \<lparr>disk_buffer := replicate 512 7\<rparr>\<rparr>)))) = disk_buffer (disk (power_on [] []))"
proof -
  have "length (disk_buffer (disk (power_on [] []))) = DISK_SECTOR_SIZE"
    using power_on_wf [of "[]" "[]"] by (simp add: machine_wf_def)
  from disk_roundtrip [OF power_on_mapping(2) this _ refl refl, of "replicate 512 7"]
  show ?thesis by simp
qed

text \<open>
  A sector write changes its own 512 bytes of the disk image and nothing else; the image only
  grows when the sector lies beyond its end.
\<close>

theorem sector_write_local:
  assumes "kernel_mapped m" and "length (disk_buffer (disk m)) = DISK_SECTOR_SIZE"
    and "i < length (disk_file (disk m))"
  shows "disk_file (disk ((disk_tick ^^ 200) (Machine_write 0xFE01 DISK_CMD_WRITE m))) ! i =
      (if sector_offset m \<le> i \<and> i < sector_offset m + DISK_SECTOR_SIZE
       then disk_buffer (disk m) ! (i - sector_offset m) else disk_file (disk m) ! i) \<and>
    length (disk_file (disk ((disk_tick ^^ 200) (Machine_write 0xFE01 DISK_CMD_WRITE m)))) =
      max (length (disk_file (disk m))) (sector_offset m + DISK_SECTOR_SIZE)"
  using assms(2,3) file_write_nth [of i "disk_file (disk m)" "sector_offset m" "disk_buffer (disk m)"]
  by (simp add: disk_write_command [OF assms(1,2)] PLIC_raise_def file_write_length)

theorem sector_write_local_witness:
  "disk_file (disk ((disk_tick ^^ 200) (Machine_write 0xFE01 DISK_CMD_WRITE
     (power_on [] (replicate 600 9))))) ! 550 = 9"
proof -
  let ?m = "power_on [] (replicate 600 9)"
  have "sector_offset ?m = 0" "disk_file (disk ?m) = replicate 600 9"
    by (simp_all add: sector_offset_def power_on_def Disk_create_def mk_word_def)
  moreover have "length (disk_buffer (disk ?m)) = 512"
    using power_on_wf [of "[]" "replicate 600 9"] by (simp add: machine_wf_def)
  ultimately show ?thesis
    using sector_write_local [OF power_on_mapping(2), of "[]" "replicate 600 9" 550] by simp
qed

text \<open>
  The serial port sends a byte once: after the kernel writes a byte to the transmit register, the
  next step puts exactly that byte on the terminal, and the step after it nothing.
\<close>

theorem uart_sends_once:
  assumes "kernel_mapped m"
  shows "\<exists>m'. Uart_step None (Machine_write 0xFE10 b m) = (True, [b], m') \<and>
    Uart_step None m' = (True, [], m')"
  using assms by (rule uart_transmit)

theorem uart_sends_once_witness:
  "fst (snd (Uart_step None (Machine_write 0xFE10 0x41 (power_on [] [])))) = [0x41]"
  using uart_sends_once [OF power_on_mapping(2) [of "[]" "[]"], of "0x41"] by auto

text \<open>
  A key other than ESC is received: the receive register holds it, the ready bit and the
  interrupt line are set, and reading the register through the bus returns the key and clears the
  ready bit. ESC switches the machine off.
\<close>

theorem uart_receives:
  assumes "kernel_mapped m" and "key \<noteq> 0x1B" and "Uart_step (Some key) m = (on, out, m')"
  shows "on \<and> pending_irq (plic m') \<and> bit (interrupts_lines (plic m')) 1 \<and>
    bit (uart_status (uart m')) 0 \<and> fst (Machine_read 0xFE11 m') = key \<and>
    \<not> bit (uart_status (uart (snd (Machine_read 0xFE11 m')))) 0 \<and> \<not> fst (Uart_step (Some 0x1B) m)"
proof -
  note k = uart_key [OF assms(2,3)]
  have "kernel_mapped m'" using assms(1) k(5) by (simp add: kernel_mapped_def)
  then show ?thesis
    using k by (simp add: uart_rx_read PLIC_raise_def bit_simps Uart_step_def byte_bits)
qed

theorem uart_receives_witness:
  "fst (Machine_read 0xFE11 (snd (snd (Uart_step (Some 0x41) (power_on [] []))))) = 0x41"
proof -
  obtain on out m' where u: "Uart_step (Some 0x41) (power_on [] []) = (on, out, m')"
    by (metis prod_cases3)
  from uart_receives [OF power_on_mapping(2) _ u] show ?thesis by (simp add: u)
qed

section \<open>The emulator on its host\<close>

text \<open>
  C30: the escape key powers the machine off, cleanly. Started with both images present and the disk image writable, the
  emulator leaves its loop at the latest when it reads the escape key, whatever the other keys and host answers are. It exits
  with code 0; the terminal has the settings it had before; standard output received the bytes of the serial port between the
  two colour codes; the disk image is what the controller made of it, and the core dump is the final content of RAM. No
  other file has changed.
\<close>

theorem power_off:
  assumes "host_files h rom_path = Some r" and "host_files h path = Some d" and "host_writable h path"
    and "host_writable h coredump_path" and "path \<noteq> coredump_path" and "Some 0x1B \<in> fst ` set answers"
  shows "\<exists>out cpu h'. machine_main [prog, path] answers h = (Exited 0, h') \<and> same_terminal h h' \<and>
    Machine_run answers (CPU_create (power_on r d)) = (out, cpu) \<and>
    host_stdout h' = host_stdout h @ COLOR_GREEN @ out @ COLOR_RESET \<and>
    host_files h' = (host_files h)(coredump_path \<mapsto> map (\<lambda>a. ram (readWriteContext cpu) (of_nat a)) [0..<unat RAM_SIZE],
      path \<mapsto> disk_file (disk (readWriteContext cpu)))"
proof -
  obtain out cpu where l: "main_loop answers (CPU_create (power_on r d)) = Some (out, cpu)"
    using main_loop_escape [OF assms(6)] by fastforce
  note e = main_powered_off [OF assms(1-3) l] and r = main_loop_run [OF l]
  show ?thesis
    by (intro exI [of _ out] exI [of _ cpu] exI conjI, rule e)
       (use assms(4) r in \<open>simp_all del: upt_rec_numeral add: same_terminal_def Disk_destroy_def Uart_destroy_def
          Machine_coredump_def Uart_terminal_def Let_def\<close>)
qed

theorem power_off_witness:
  "\<exists>out cpu h'. machine_main [''machine'', ''disk.img''] [(None, 512), (Some 0x1B, 0)] example_host = (Exited 0, h') \<and>
     same_terminal example_host h' \<and> host_stdout h' = COLOR_GREEN @ out @ COLOR_RESET"
  using power_off [of example_host "[]" "''disk.img''" "[]" "[(None, 512), (Some 0x1B, 0)]" "''machine''"]
  by (fastforce simp: example_host_def rom_path_def coredump_path_def)



end
