(* ===== verification/Kernel_State.thy ===== *)
theory Kernel_State
  imports Machine_Laws
begin

text \<open>
  The state of the operating system kernel (\<^verbatim>\<open>src/kernel\<close>). The kernel runs on the machine of
  \<open>Machine_State\<close>: every access to a device register or through one of the two memory windows is
  an access to the machine's bus. The global variables of the C sources are the other fields of
  the state; C pointers to elements of a global array are indices into that array, and where a
  pointer is stored in bytes (the process control block) it is the address the linker gave the
  element, a field of \<open>symbols\<close>. The local variables of a C function are bound variables.
\<close>

section \<open>Constants of \<^verbatim>\<open>common.h\<close>\<close>

abbreviation WINDOW1 :: uint16 where "WINDOW1 \<equiv> 0x1000"
abbreviation WINDOW2 :: uint16 where "WINDOW2 \<equiv> 0x2000"
abbreviation PAGE_TABLE_SIZE :: nat where "PAGE_TABLE_SIZE \<equiv> 16"
abbreviation FRAME_UNUSED :: uint8 where "FRAME_UNUSED \<equiv> 0xff"
abbreviation CYCLES :: uint16 where "CYCLES \<equiv> 100"
abbreviation QUANTUM :: uint8 where "QUANTUM \<equiv> 10"
abbreviation MAX_PROC_COUNT :: nat where "MAX_PROC_COUNT \<equiv> 512"
abbreviation MAX_PROC_NAME :: nat where "MAX_PROC_NAME \<equiv> 16"
abbreviation MAX_FILES_PER_PROC :: int where "MAX_FILES_PER_PROC \<equiv> 16"
abbreviation CACHE_SIZE :: nat where "CACHE_SIZE \<equiv> 16"
abbreviation BLOCK_SIZE :: nat where "BLOCK_SIZE \<equiv> 4096"
abbreviation SUPER_BLOCK_BLOCK :: uint16 where "SUPER_BLOCK_BLOCK \<equiv> 16"
abbreviation ROOT_DRIVE :: uint8 where "ROOT_DRIVE \<equiv> 1"
abbreviation FS_MAGIC :: uint32 where "FS_MAGIC \<equiv> 0x32303536"
abbreviation PCB_OFFSET :: uint16 where "PCB_OFFSET \<equiv> 0x200"
abbreviation BUFFER_FLAGS_BUSY :: uint8 where "BUFFER_FLAGS_BUSY \<equiv> 1"
abbreviation BUFFER_FLAGS_VALID :: uint8 where "BUFFER_FLAGS_VALID \<equiv> 2"
abbreviation BUFFER_FLAGS_DIRTY :: uint8 where "BUFFER_FLAGS_DIRTY \<equiv> 4"

abbreviation BITS_PER_BLOCK :: uint16 where "BITS_PER_BLOCK \<equiv> 0x8000"
abbreviation (input) MAX_GLOBAL_OPEN_FILES :: nat where "MAX_GLOBAL_OPEN_FILES \<equiv> 128"
abbreviation (input) MAX_REGISTER_DEVICES :: nat where "MAX_REGISTER_DEVICES \<equiv> 8"
abbreviation (input) DEVICE_MAJOR_CONSOLE :: nat where "DEVICE_MAJOR_CONSOLE \<equiv> 1"
abbreviation (input) DEVICE_MAJOR_DISK :: nat where "DEVICE_MAJOR_DISK \<equiv> 2"
abbreviation (input) DEVICE_MAJOR_PIPE :: nat where "DEVICE_MAJOR_PIPE \<equiv> 3"

type_synonym frame_t = uint8

section \<open>Data\<close>

datatype Proc_State =
  PROC_STATE_UNUSED
| PROC_STATE_BUILDING
| PROC_STATE_NEW
| PROC_STATE_READY
| PROC_STATE_RUNING
| PROC_STATE_SLEEPING
| PROC_STATE_ZOMBIE

record Proc =
  proc_ksp :: uint8
  kernel_low_memory :: "frame_t list"
  proc_state :: Proc_State

text \<open>
  The buffers of the block cache: \<open>buf_next\<close>, \<open>buf_prev\<close> are indices into the cache, where the index
  \<open>CACHE_SIZE\<close> is the list head; \<open>buf_queue\<close> is \<open>None\<close> for the null pointer.
\<close>

record Block_Buffer =
  buf_flags :: uint8
  buf_drive :: uint8
  buf_refcount :: uint8
  buf_block_number :: uint16
  buf_next :: nat
  buf_prev :: nat
  buf_queue :: "nat option"
  buf_frame :: frame_t

record Ring_Buffer =
  rb_buffer :: "uint8 list"
  rb_head :: uint8
  rb_tail :: uint8

record Disk_Queue =
  dq_head :: "nat option"
  dq_tail :: "nat option"
  dq_sector :: uint8

record Super_Block =
  sb_magic :: uint32
  sb_size :: uint16
  sb_block_count :: uint16
  sb_inode_count :: uint16
  sb_inode_start :: uint16
  sb_bitmap_start :: uint16

text \<open>
  Open files. The operation tables \<^verbatim>\<open>console_ops\<close>, \<^verbatim>\<open>fs_ops\<close> and \<^verbatim>\<open>pipe_ops\<close> and the system call functions, which
  the sources store as pointers, are named by constructors.
\<close>

datatype File_Operations = console_ops | fs_ops | pipe_ops

record File =
  file_refcount :: uint8
  file_readable :: uint8
  file_writable :: uint8
  file_offset :: uint32
  file_fops :: "File_Operations option"
  file_inode :: uint16

datatype Syscall =
  SysFork | SysExit | SysWait | SysKill | SysSbrk | SysSleep | SysGetpid
| SysClose | SysOpen | SysWrite | SysRead | SysIoctl

text \<open>Link-time addresses, and the handlers the vectors point to.\<close>

record symbols =
  proc_addr :: "nat \<Rightarrow> uint16"
  buffer_addr :: "nat \<Rightarrow> uint16"
  file_addr :: "nat \<Rightarrow> uint16"
  ring_buffer_addr :: uint16
  systicks_addr :: uint16
  nmi_handler :: uint16
  irq_handler :: uint16
  kernel_vector_addr :: uint16
  init_code :: uint16
  zp_sp :: uint16

record kernel =
  machine :: Machine
  kernel_page_table :: "frame_t list"
  user_page_table :: "frame_t list"
  user_context :: "uint8 list"
  free_frames :: "frame_t list"
  free_top :: uint16
  proc_table :: "Proc list"
  init_process :: "nat option"
  current_process :: "nat option"
  next_pid :: uint16
  round_robin_index :: uint16
  ring_buffer :: Ring_Buffer
  systicks :: uint32
  next_wakeup_call :: uint32
  disk_queue :: Disk_Queue
  buffer_cache :: "Block_Buffer list"
  super_block :: Super_Block
  global_file_table :: "File list"
  devsw_table :: "File_Operations option list"
  syscalls_table :: "uint8 \<Rightarrow> Syscall option"
  inode_frame :: frame_t
  first_entry :: bool
  interrupts_on :: bool
  sym :: symbols

text \<open>
  A panic prints its message and never returns: it is an error value here. So is an access outside a C array,
  which has no defined behaviour.
\<close>

datatype kernel_error = Panic string | Undefined string

type_synonym 'a kresult = "kernel_error + 'a"

section \<open>Bus accesses of the kernel\<close>

definition MMIO8_read :: "uint16 \<Rightarrow> kernel \<Rightarrow> uint8 \<times> kernel" where
  [kernel_defs]: "MMIO8_read a k =
     (let (v, m) = Machine_read a (machine k) in (v, k\<lparr>machine := m\<rparr>))"

definition MMIO8_write :: "uint16 \<Rightarrow> uint8 \<Rightarrow> kernel \<Rightarrow> kernel" where
  [kernel_defs]: "MMIO8_write a v k = k\<lparr>machine := Machine_write a v (machine k)\<rparr>"

definition MMIO16_read :: "uint16 \<Rightarrow> kernel \<Rightarrow> uint16 \<times> kernel" where
  [kernel_defs]: "MMIO16_read a k =
     (let (lo, k1) = MMIO8_read a k; (hi, k2) = MMIO8_read (a + 1) k1 in (mk_word hi lo, k2))"

definition MMIO16_write :: "uint16 \<Rightarrow> uint16 \<Rightarrow> kernel \<Rightarrow> kernel" where
  [kernel_defs]: "MMIO16_write a v k = MMIO8_write (a + 1) (hi_byte v) (MMIO8_write a (lo_byte v) k)"

definition INTER_ON :: "kernel \<Rightarrow> kernel" where
  [kernel_defs]: "INTER_ON k = k\<lparr>interrupts_on := True\<rparr>"

definition INTER_OFF :: "kernel \<Rightarrow> kernel" where
  [kernel_defs]: "INTER_OFF k = k\<lparr>interrupts_on := False\<rparr>"

text \<open>Byte loops over consecutive addresses, ascending.\<close>

fun read_bytes :: "uint16 \<Rightarrow> nat \<Rightarrow> kernel \<Rightarrow> uint8 list \<times> kernel" where
  "read_bytes a 0 k = ([], k)"
| "read_bytes a (Suc n) k =
     (let (v, k1) = MMIO8_read a k; (vs, k2) = read_bytes (a + 1) n k1 in (v # vs, k2))"

fun write_bytes :: "uint16 \<Rightarrow> uint8 list \<Rightarrow> kernel \<Rightarrow> kernel" where
  "write_bytes a [] k = k"
| "write_bytes a (v # vs) k = write_bytes (a + 1) vs (MMIO8_write a v k)"

end
