(* ===== verification/Kernel_Memory.thy ===== *)
theory Kernel_Memory
  imports Kernel_State
begin

text \<open>
  The kernel's two memory windows (\<^verbatim>\<open>mmu.c\<close>) and its frame allocator (\<^verbatim>\<open>kalloc.c\<close>), with what they
  mean for physical memory: a byte loop through a window is a change of the frame behind it.
\<close>

section \<open>Windows\<close>

text \<open>
  \<open>map_window\<close> and \<open>unmap_window\<close> are the bodies of \<^verbatim>\<open>mmu_map_window\<close> and \<^verbatim>\<open>mmu_unmap_window\<close> behind
  their guards; all callers pass the constants 1 and 2.
\<close>

definition set_low_memory :: "nat \<Rightarrow> frame_t \<Rightarrow> kernel \<Rightarrow> kernel" where
  "set_low_memory window frame k =
     (case current_process k of
        None \<Rightarrow> k
      | Some p \<Rightarrow> k\<lparr>proc_table := (proc_table k)[p := (proc_table k ! p)
          \<lparr>kernel_low_memory := (kernel_low_memory (proc_table k ! p))[window := frame]\<rparr>]\<rparr>)"

definition install_window :: "nat \<Rightarrow> frame_t \<Rightarrow> kernel \<Rightarrow> kernel" where
  "install_window window frame k =
     (let k1 = MMIO8_write (0xfe20 + of_nat window) frame k;
          k2 = k1\<lparr>kernel_page_table := (kernel_page_table k1)[window := frame]\<rparr>
      in set_low_memory window frame k2)"

definition map_window :: "nat \<Rightarrow> frame_t \<Rightarrow> kernel \<Rightarrow> uint16 \<times> frame_t \<times> kernel" where
  "map_window window frame k =
     (let old_frame = kernel_page_table k ! window
      in (if window = 1 then WINDOW1 else WINDOW2, old_frame, install_window window frame k))"

definition unmap_window :: "nat \<Rightarrow> frame_t \<Rightarrow> kernel \<Rightarrow> kernel" where
  "unmap_window window old_frame k = install_window window old_frame k"

definition mmu_map_window ::
  "nat \<Rightarrow> frame_t \<Rightarrow> kernel \<Rightarrow> (uint16 \<times> frame_t \<times> kernel) kresult" where
  "mmu_map_window window frame k =
     (if window \<noteq> 1 \<and> window \<noteq> 2 then Inl (Panic ''mmu_map_window'')
      else Inr (map_window window frame k))"

definition mmu_unmap_window :: "nat \<Rightarrow> frame_t \<Rightarrow> kernel \<Rightarrow> kernel kresult" where
  "mmu_unmap_window window old_frame k =
     (if window \<noteq> 1 \<and> window \<noteq> 2 then Inl (Panic ''mmu_unmap_window'')
      else Inr (unmap_window window old_frame k))"

fun mmu_init_loop :: "nat \<Rightarrow> nat \<Rightarrow> kernel \<Rightarrow> kernel" where
  "mmu_init_loop 0 i k = k"
| "mmu_init_loop (Suc n) i k =
     (let k1 = MMIO8_write (0xfe20 + of_nat i) (of_nat i) k
      in mmu_init_loop n (Suc i) (k1\<lparr>kernel_page_table := (kernel_page_table k1)[i := of_nat i]\<rparr>))"

definition mmu_init :: "kernel \<Rightarrow> kernel" where
  "mmu_init k =
     (let k1 = MMIO8_write 0xfef0 0 k;
          k2 = MMIO16_write 0xfffa (nmi_handler (sym k)) k1;
          k3 = MMIO16_write 0xfffe (kernel_vector_addr (sym k)) k2;
          k4 = MMIO8_write (0xfe20 + 1) 1 k3;
          k5 = MMIO8_write (0xfe20 + 2) 2 k4
      in mmu_init_loop PAGE_TABLE_SIZE 0 k5)"

section \<open>Frame allocator\<close>

text \<open>
  The loop of \<^verbatim>\<open>kalloc_init\<close> counts a 16-bit variable down from 255 to 16; the first argument is
  the number of iterations left. An index past the array would be a wild write: \<open>list_update\<close>
  ignores it, and the invariant below excludes it.
\<close>

fun kalloc_init_loop :: "nat \<Rightarrow> uint16 \<Rightarrow> kernel \<Rightarrow> kernel" where
  "kalloc_init_loop 0 i k = k"
| "kalloc_init_loop (Suc n) i k =
     (if i \<ge> 16
      then kalloc_init_loop n (i - 1)
             (k\<lparr>free_frames := (free_frames k)[unat (free_top k) := ucast i],
                free_top := free_top k + 1\<rparr>)
      else k)"

definition kalloc_init :: "kernel \<Rightarrow> kernel" where
  "kalloc_init k = kalloc_init_loop 256 255 (k\<lparr>free_top := 0\<rparr>)"

definition kalloc :: "kernel \<Rightarrow> frame_t \<times> kernel" where
  "kalloc k =
     (if free_top k = 0 then (FRAME_UNUSED, k)
      else (let k1 = k\<lparr>free_top := free_top k - 1\<rparr>
            in (free_frames k1 ! unat (free_top k1), k1)))"

definition kfree :: "frame_t \<Rightarrow> kernel \<Rightarrow> kernel" where
  "kfree frame k =
     (if frame = FRAME_UNUSED \<or> frame < 16 then k
      else
        (let k1 = k\<lparr>free_frames := (free_frames k)[unat (free_top k) := frame],
                    free_top := free_top k + 1\<rparr>;
             (buffer, old_frame, k2) = map_window 1 frame k1;
             k3 = write_bytes buffer (replicate 4096 0x46) k2
         in unmap_window 1 old_frame k3))"

section \<open>Bytes of a frame\<close>

definition frame_addr :: "frame_t \<Rightarrow> nat \<Rightarrow> uint32" where
  "frame_addr f i = of_nat (4096 * unat f + i)"

definition frame_byte :: "kernel \<Rightarrow> frame_t \<Rightarrow> nat \<Rightarrow> uint8" where
  "frame_byte k f i = ram (machine k) (frame_addr f i)"

lemma phys_frame_addr: "phys f va = frame_addr f (unat va mod 4096)"
proof -
  have m: "(0x0FFF :: uint16) = mask 12" by (simp add: mask_eq_exp_minus_1)
  have u: "unat (va AND mask 12) = unat va mod 4096"
    by (simp only: take_bit_eq_mask [symmetric] unsigned_take_bit_eq) (simp add: take_bit_eq_mod)
  have "va AND mask 12 = of_nat (unat (va AND mask 12))" by simp
  then have a: "va AND mask 12 = of_nat (unat va mod 4096)" by (simp only: u)
  have d: "push_bit 12 (ucast f :: uint32) AND ucast (va AND mask 12) = 0"
    by (rule bit_word_eqI) (auto simp: bit_simps dest: bit_imp_le_length)
  then have "phys f va = push_bit 12 (ucast f) + ucast (va AND mask 12)"
    unfolding phys_def m by (simp add: disjunctive_add_eq_or)
  also have "\<dots> = frame_addr f (unat va mod 4096)"
    unfolding a frame_addr_def
    by (simp add: push_bit_eq_mult unsigned_of_nat take_bit_nat_eq_self)
  finally show ?thesis .
qed

lemma frame_addr_unat: "i < 4096 \<Longrightarrow> unat (frame_addr f i) = 4096 * unat f + i"
  unfolding frame_addr_def using unat_byte [of f] by (intro unat_of_nat_range) simp

lemma frame_addr_inject [simp]:
  assumes "i < 4096" and "j < 4096"
  shows "frame_addr f i = frame_addr g j \<longleftrightarrow> f = g \<and> i = j"
proof
  assume "frame_addr f i = frame_addr g j"
  then have "4096 * unat f + i = 4096 * unat g + j"
    using assms by (metis frame_addr_unat)
  then have "(4096 * unat f + i) div 4096 = (4096 * unat g + j) div 4096"
    and "(4096 * unat f + i) mod 4096 = (4096 * unat g + j) mod 4096" by simp_all
  with assms show "f = g \<and> i = j" by (simp add: word_unat_eq_iff)
qed simp

lemma frame_addr_RAM: "i < 4096 \<Longrightarrow> frame_addr f i < RAM_SIZE"
  using unat_byte [of f] by (simp add: word_less_nat_alt frame_addr_unat)

lemma frame_of_frame_addr [simp]: "i < 4096 \<Longrightarrow> frame_of (frame_addr f i) = ucast f"
proof -
  assume "i < 4096"
  then have "unat (frame_of (frame_addr f i)) = unat f"
    by (simp only: frame_of_def unat_drop_bit frame_addr_unat) simp
  then show ?thesis
    using unat_byte [of f] by (simp add: word_unat_eq_iff unsigned_ucast_eq take_bit_nat_eq_self)
qed

section \<open>Access through a window\<close>

text \<open>
  Writing \<open>bytes\<close> at offset \<open>off\<close> of frame \<open>f\<close>, as a change of physical memory.
\<close>

definition ram_write :: "frame_t \<Rightarrow> nat \<Rightarrow> uint8 list \<Rightarrow> (uint32 \<Rightarrow> uint8) \<Rightarrow> uint32 \<Rightarrow> uint8" where
  "ram_write f off bytes r pa =
     (let i = unat pa mod 4096
      in if unat pa div 4096 = unat f \<and> off \<le> i \<and> i < off + length bytes then bytes ! (i - off)
         else r pa)"

lemma ram_write_byte [simp]:
  "i < 4096 \<Longrightarrow> ram_write f off bytes r (frame_addr g i) =
     (if g = f \<and> off \<le> i \<and> i < off + length bytes then bytes ! (i - off) else r (frame_addr g i))"
  by (auto simp: ram_write_def frame_addr_unat Let_def word_unat_eq_iff)

lemma ram_write_Nil [simp]: "ram_write f off [] r = r"
  by (auto simp: ram_write_def fun_eq_iff Let_def)

lemma frame_addr_iff:
  "i < 4096 \<Longrightarrow> pa = frame_addr f i \<longleftrightarrow> unat pa div 4096 = unat f \<and> unat pa mod 4096 = i"
  by (auto simp: word_unat_eq_iff frame_addr_unat) (metis mult_div_mod_eq)

lemma ram_write_Cons:
  "off < 4096 \<Longrightarrow> ram_write f (Suc off) vs (r(frame_addr f off := v)) = ram_write f off (v # vs) r"
  by (rule ext) (auto simp: ram_write_def Let_def frame_addr_iff nth_Cons' not_less_eq_eq)

text \<open>\<open>window w f m\<close>: window \<open>w\<close> of the machine shows the ordinary frame \<open>f\<close>.\<close>

definition window :: "nat \<Rightarrow> frame_t \<Rightarrow> Machine \<Rightarrow> bool" where
  "window w f m \<longleftrightarrow> page_table (mmu m) ! w = f \<and> f \<notin> {MMU_FRAME_INVALID, MMU_LAST_FRAME}"

lemma window_address:
  assumes "w < 16" and "off < 4096"
  shows "unat (of_nat (4096 * w + off) :: uint16) = 4096 * w + off"
    and "segment_of (of_nat (4096 * w + off)) = w"
    and "phys f (of_nat (4096 * w + off)) = frame_addr f off"
proof -
  have "4096 * w + off < 65536" using assms by linarith
  then show u: "unat (of_nat (4096 * w + off) :: uint16) = 4096 * w + off"
    by (rule unat_of_nat_range)
  show "segment_of (of_nat (4096 * w + off)) = w"
    using assms by (simp only: segment_of_def unat_drop_bit u) simp
  show "phys f (of_nat (4096 * w + off)) = frame_addr f off"
    using assms by (simp only: phys_frame_addr u) simp
qed

lemma window_access:
  assumes "w < 16" and "off < 4096" and "window w f m"
  shows "Machine_read (of_nat (4096 * w + off)) m = (ram m (frame_addr f off), m)"
    and "Machine_write (of_nat (4096 * w + off)) v m = m\<lparr>ram := (ram m)(frame_addr f off := v)\<rparr>"
proof -
  have t: "MMU_translate (of_nat (4096 * w + off)) (mmu m) = (frame_addr f off, mmu m)"
    using assms window_address [OF assms(1,2)] by (simp only: translate_cases window_def) simp
  have f: "frame_of (frame_addr f off) \<noteq> 15" using assms by (simp add: window_def)
  show "Machine_read (of_nat (4096 * w + off)) m = (ram m (frame_addr f off), m)"
    using Machine_read_plain [OF t f] assms(2) by (simp only: frame_addr_RAM) simp
  show "Machine_write (of_nat (4096 * w + off)) v m = m\<lparr>ram := (ram m)(frame_addr f off := v)\<rparr>"
    using Machine_write_plain [OF t f] assms(2) by (simp only: frame_addr_RAM) simp
qed

lemma window_write_bytes:
  assumes "w < 16" and "off + length bytes \<le> 4096" and "window w f (machine k)"
  shows "write_bytes (of_nat (4096 * w + off)) bytes k =
    k\<lparr>machine := (machine k)\<lparr>ram := ram_write f off bytes (ram (machine k))\<rparr>\<rparr>"
  using assms(2,3)
proof (induction bytes arbitrary: off k)
  case Nil
  then show ?case by simp
next
  case (Cons v vs)
  let ?k = "k\<lparr>machine := (machine k)\<lparr>ram := (ram (machine k))(frame_addr f off := v)\<rparr>\<rparr>"
  have "window w f (machine ?k)" using Cons.prems by (simp add: window_def)
  then have "write_bytes (of_nat (4096 * w + Suc off)) vs ?k =
      ?k\<lparr>machine := (machine ?k)\<lparr>ram := ram_write f (Suc off) vs (ram (machine ?k))\<rparr>\<rparr>"
    using Cons.prems by (intro Cons.IH) simp_all
  moreover have "MMIO8_write (of_nat (4096 * w + off)) v k = ?k"
    using Cons.prems assms(1) window_access(2) [of w off f "machine k" v] by (simp add: MMIO8_write_def)
  moreover have "of_nat (4096 * w + off) + 1 = (of_nat (4096 * w + Suc off) :: uint16)" by simp
  ultimately show ?case
    using Cons.prems by (simp only: write_bytes.simps) (simp add: ram_write_Cons)
qed

lemma window_read_bytes:
  assumes "w < 16" and "off + n \<le> 4096" and "window w f (machine k)"
  shows "read_bytes (of_nat (4096 * w + off)) n k = (map (frame_byte k f) [off..<off + n], k)"
  using assms(2)
proof (induction n arbitrary: off)
  case 0
  then show ?case by simp
next
  case (Suc n)
  have "MMIO8_read (of_nat (4096 * w + off)) k = (frame_byte k f off, k)"
    using Suc.prems assms(1,3) window_access(1) [of w off f "machine k"]
    by (simp add: MMIO8_read_def frame_byte_def)
  moreover have "of_nat (4096 * w + off) + 1 = (of_nat (4096 * w + Suc off) :: uint16)" by simp
  moreover have "read_bytes (of_nat (4096 * w + Suc off)) n k = (map (frame_byte k f) [Suc off..<Suc off + n], k)"
    using Suc by (intro Suc.IH) simp
  moreover have "[off..<off + Suc n] = off # [Suc off..<Suc off + n]"
    by (simp add: upt_conv_Cons)
  ultimately show ?case by (simp only: read_bytes.simps Let_def) simp
qed

section \<open>Mapping and unmapping\<close>

text \<open>
  The consistency of the kernel's bookkeeping of its mapping: the last segment shows the device
  frame, the shadow table agrees with the hardware on both windows, and so does the running
  process's record.
\<close>

definition kmap :: "kernel \<Rightarrow> bool" where
  "kmap k \<longleftrightarrow>
     length (page_table (mmu (machine k))) = MMU_PAGE_TABLE_SIZE \<and>
     page_table (mmu (machine k)) ! MMU_LAST_SEGMENT = MMU_LAST_FRAME \<and>
     length (kernel_page_table k) = PAGE_TABLE_SIZE \<and>
     (\<forall>w \<in> {1, 2}. kernel_page_table k ! w = page_table (mmu (machine k)) ! w) \<and>
     length (proc_table k) = MAX_PROC_COUNT \<and>
     (\<forall>p \<in> set (proc_table k). length (kernel_low_memory p) = 3) \<and>
     (\<forall>p. current_process k = Some p \<longrightarrow> p < MAX_PROC_COUNT \<and>
        (\<forall>w \<in> {1, 2}. kernel_low_memory (proc_table k ! p) ! w = kernel_page_table k ! w))"

lemma page_table_address:
  assumes "page_table mm ! MMU_LAST_SEGMENT = MMU_LAST_FRAME" and "w < 16"
  shows "MMU_translate (0xfe20 + of_nat w) mm = (0xfe20 + of_nat w, mm)"
    and "(0xfe20 + of_nat w :: uint32) \<notin> {PLIC_INTERRUPT_LINES, TIMER_CTRL, TIMER_LATCH_HIGH,
      TIMER_LATCH_LOW, TIMER_COUNTER_HIGH, TIMER_COUNTER_LOW}"
    and "MMU_PAGE_TABLE \<le> 0xfe20 + of_nat w" and "(0xfe20 + of_nat w :: uint32) < MMU_PAGE_TABLE + 16"
    and "unat ((0xfe20 + of_nat w) - MMU_PAGE_TABLE) = w"
proof -
  have a: "0xfe20 + of_nat w = (of_nat (4096 * 15 + (0xe20 + w)) :: uint16)" by simp
  have off: "0xe20 + w < 4096" using assms(2) by simp
  have pa: "frame_addr 15 (0xe20 + w) = 0xfe20 + of_nat w" by (simp add: frame_addr_def)
  show "MMU_translate (0xfe20 + of_nat w) mm = (0xfe20 + of_nat w, mm)"
    using window_address(2,3) [OF _ off, of 15] assms(1) pa
    by (simp only: translate_cases a [symmetric]) simp
  have u: "unat (0xfe20 + of_nat w :: uint32) = 0xfe20 + w"
    using unat_of_nat_range(3) [of "0xfe20 + w"] assms(2) by simp
  show "(0xfe20 + of_nat w :: uint32) \<notin> {PLIC_INTERRUPT_LINES, TIMER_CTRL, TIMER_LATCH_HIGH,
      TIMER_LATCH_LOW, TIMER_COUNTER_HIGH, TIMER_COUNTER_LOW}"
    using u assms(2) by (auto simp: word_unat_eq_iff)
  show "MMU_PAGE_TABLE \<le> 0xfe20 + of_nat w" "(0xfe20 + of_nat w :: uint32) < MMU_PAGE_TABLE + 16"
    using u assms(2) by (simp_all add: word_le_nat_alt word_less_nat_alt)
  show "unat ((0xfe20 + of_nat w) - MMU_PAGE_TABLE) = w" using assms(2) by simp
qed

lemma page_table_access:
  assumes "page_table (mmu m) ! MMU_LAST_SEGMENT = MMU_LAST_FRAME" and "w < 16"
  shows "Machine_read (0xfe20 + of_nat w) m = (page_table (mmu m) ! w, m)"
    and "Machine_write (0xfe20 + of_nat w) f m =
      m\<lparr>mmu := (mmu m)\<lparr>page_table := (page_table (mmu m))[w := f]\<rparr>\<rparr>"
  unfolding Machine_read_def Machine_write_def page_table_address(1) [OF assms] Let_def
  using page_table_address(2-5) [OF assms] by simp_all

lemma install_window_effect:
  assumes "kmap k" and "w \<in> {1, 2}"
  shows "install_window w f k = set_low_memory w f
    (k\<lparr>machine := (machine k)\<lparr>mmu := (mmu (machine k))\<lparr>page_table := (page_table (mmu (machine k)))[w := f]\<rparr>\<rparr>,
       kernel_page_table := (kernel_page_table k)[w := f]\<rparr>)"
  using assms page_table_access(2) [of "machine k" w f]
  by (auto simp: install_window_def MMIO8_write_def kmap_def Let_def)

lemma set_low_memory_frame [simp]:
  "machine (set_low_memory w f k) = machine k"
  "kernel_page_table (set_low_memory w f k) = kernel_page_table k"
  "current_process (set_low_memory w f k) = current_process k"
  "free_frames (set_low_memory w f k) = free_frames k" "free_top (set_low_memory w f k) = free_top k"
  "length (proc_table (set_low_memory w f k)) = length (proc_table k)"
  by (simp_all add: set_low_memory_def split: option.split)

lemma install_window_kmap:
  assumes "kmap k" and "w \<in> {1, 2}"
  shows "kmap (install_window w f k)"
  using assms unfolding install_window_effect [OF assms]
  by (auto simp: kmap_def set_low_memory_def nth_list_update set_update_subset_insert [THEN subsetD]
      split: option.splits dest!: set_update_subset_insert [THEN subsetD])

text \<open>Mapping a frame, changing only its memory, and unmapping leaves only that change.\<close>

lemma unmap_map_machine:
  assumes "kmap k" and "w \<in> {1, 2}" and "map_window w f k = (base, old_frame, k1)"
    and "mmu m = mmu (machine k1)"
  shows "unmap_window w old_frame (k1\<lparr>machine := m\<rparr>) = k\<lparr>machine := m\<lparr>mmu := mmu (machine k)\<rparr>\<rparr>"
proof -
  have k1: "k1 = install_window w f k" and old: "old_frame = kernel_page_table k ! w"
    using assms(3) by (simp_all add: map_window_def Let_def)
  have k1e: "k1 = set_low_memory w f
    (k\<lparr>machine := (machine k)\<lparr>mmu := (mmu (machine k))\<lparr>page_table := (page_table (mmu (machine k)))[w := f]\<rparr>\<rparr>,
       kernel_page_table := (kernel_page_table k)[w := f]\<rparr>)"
    unfolding k1 by (rule install_window_effect [OF assms(1,2)])
  let ?k1 = "k1\<lparr>machine := m\<rparr>"
  have "kmap ?k1" using install_window_kmap [OF assms(1,2), of f] assms(4) by (simp add: kmap_def k1)
  note e = install_window_effect [OF this assms(2), of old_frame]
  have w: "w < 16" "w < 3" using assms(2) by auto
  have mm: "mmu m = (mmu (machine k))\<lparr>page_table := (page_table (mmu (machine k)))[w := f]\<rparr>"
    using assms(4) unfolding k1e by simp
  have pt: "page_table (mmu (machine k)) ! w = old_frame" "length (page_table (mmu (machine k))) = 16"
    "length (kernel_page_table k) = 16"
    using assms(1,2) by (auto simp: kmap_def old)
  have same: "(page_table (mmu (machine k)))[w := old_frame] = page_table (mmu (machine k))"
    "(kernel_page_table k)[w := old_frame] = kernel_page_table k"
    using pt(1) old by (metis list_update_id)+
  show ?thesis
  proof (cases "current_process k")
    case None
    then show ?thesis
      using pt w same mm unfolding unmap_window_def e unfolding k1e by (simp add: set_low_memory_def)
  next
    case (Some p)
    then have p: "p < length (proc_table k)" "kernel_low_memory (proc_table k ! p) ! w = old_frame"
      using assms(1,2) by (auto simp: kmap_def old)
    have "(kernel_low_memory (proc_table k ! p))[w := old_frame] = kernel_low_memory (proc_table k ! p)"
      using p(2) by (metis list_update_id)
    then show ?thesis
      using pt w same Some p mm unfolding unmap_window_def e unfolding k1e by (simp add: set_low_memory_def)
  qed
qed

lemma map_window_machine:
  assumes "kmap k" and "w \<in> {1, 2}" and "map_window w f k = (base, old_frame, k1)"
  shows "machine k1 =
    (machine k)\<lparr>mmu := (mmu (machine k))\<lparr>page_table := (page_table (mmu (machine k)))[w := f]\<rparr>\<rparr>"
proof -
  have "k1 = install_window w f k" using assms(3) by (simp add: map_window_def Let_def)
  then show ?thesis unfolding install_window_effect [OF assms(1,2)] by simp
qed

lemma unmap_map:
  assumes "kmap k" and "w \<in> {1, 2}" and "map_window w f k = (base, old_frame, k1)"
  shows "unmap_window w old_frame (k1\<lparr>machine := (machine k1)\<lparr>ram := r\<rparr>\<rparr>) =
    k\<lparr>machine := (machine k)\<lparr>ram := r\<rparr>\<rparr>"
  using unmap_map_machine [OF assms, of "(machine k1)\<lparr>ram := r\<rparr>"]
  by (simp add: map_window_machine [OF assms])

text \<open>The net effect of a byte loop through a window, and of a read.\<close>

lemma map_window_window:
  assumes "kmap k" and "w \<in> {1, 2}" and "f \<notin> {MMU_FRAME_INVALID, MMU_LAST_FRAME}"
    and "map_window w f k = (base, old_frame, k1)"
  shows "window w f (machine k1)" and "base = of_nat (4096 * w)" and "ram (machine k1) = ram (machine k)"
    and "kmap k1"
  using assms install_window_kmap [OF assms(1,2), of f]
  by (auto simp: window_def map_window_def Let_def install_window_effect kmap_def)

lemma window_bytes_written:
  assumes "kmap k" and "w \<in> {1, 2}" and "f \<notin> {MMU_FRAME_INVALID, MMU_LAST_FRAME}"
    and "map_window w f k = (base, old_frame, k1)" and "off + length bytes \<le> 4096"
  shows "unmap_window w old_frame (write_bytes (base + of_nat off) bytes k1) =
    k\<lparr>machine := (machine k)\<lparr>ram := ram_write f off bytes (ram (machine k))\<rparr>\<rparr>"
proof -
  note m = map_window_window [OF assms(1-4)]
  have w: "w < 16" using assms(2) by auto
  have "write_bytes (of_nat (4096 * w + off)) bytes k1 =
      k1\<lparr>machine := (machine k1)\<lparr>ram := ram_write f off bytes (ram (machine k1))\<rparr>\<rparr>"
    by (rule window_write_bytes [OF w assms(5) m(1)])
  then show ?thesis
    using unmap_map [OF assms(1,2,4)] m(2,3) by simp
qed

lemma window_bytes_read:
  assumes "kmap k" and "w \<in> {1, 2}" and "f \<notin> {MMU_FRAME_INVALID, MMU_LAST_FRAME}"
    and "map_window w f k = (base, old_frame, k1)" and "off + n \<le> 4096"
  shows "read_bytes (base + of_nat off) n k1 = (map (frame_byte k f) [off..<off + n], k1)"
    and "unmap_window w old_frame k1 = k"
proof -
  note m = map_window_window [OF assms(1-4)]
  have w: "w < 16" using assms(2) by auto
  have "frame_byte k1 f = frame_byte k f" using m(3) by (simp add: frame_byte_def fun_eq_iff)
  then show "read_bytes (base + of_nat off) n k1 = (map (frame_byte k f) [off..<off + n], k1)"
    using window_read_bytes [OF w assms(5) m(1)] m(2) by simp
  show "unmap_window w old_frame k1 = k"
    using unmap_map [OF assms(1,2,4), of "ram (machine k)"] m(3) by (metis (no_types, lifting)
      kernel.surjective kernel.update_convs(1) Machine.surjective Machine.update_convs(1))
qed

section \<open>The frame allocator\<close>

text \<open>
  The free frames as a list, the next one to hand out first. The invariant: the pool lies within
  its array, holds no frame twice and no kernel frame.
\<close>

definition free_list :: "kernel \<Rightarrow> frame_t list" where
  "free_list k = rev (take (unat (free_top k)) (free_frames k))"

definition kalloc_inv :: "kernel \<Rightarrow> bool" where
  "kalloc_inv k \<longleftrightarrow> length (free_frames k) = 256 \<and> unat (free_top k) \<le> 240 \<and>
     distinct (free_list k) \<and> (\<forall>f \<in> set (free_list k). 16 \<le> f)"

lemma free_top_push:
  "unat (free_top k) < 256 \<Longrightarrow> unat (free_top k + 1) = Suc (unat (free_top k))"
  by (simp add: unat_word_ariths)

lemma free_list_push:
  assumes "unat (free_top k) < 256" and "length (free_frames k) = 256"
  shows "free_list (k\<lparr>free_frames := (free_frames k)[unat (free_top k) := f], free_top := free_top k + 1\<rparr>) =
      f # free_list k"
  using assms by (simp add: free_list_def free_top_push take_Suc_conv_app_nth)

lemma free_list_pop:
  assumes "free_top k \<noteq> 0" and "unat (free_top k) \<le> length (free_frames k)"
  shows "free_list k = free_frames k ! unat (free_top k - 1) # free_list (k\<lparr>free_top := free_top k - 1\<rparr>)"
proof -
  obtain n where n: "unat (free_top k) = Suc n" using assms(1) by (metis unat_eq_zero not0_implies_Suc)
  then have "unat (free_top k - 1) = n" using assms(1) by (metis diff_Suc_1 unat_minus_one)
  with n assms(2) show ?thesis by (simp add: free_list_def take_Suc_conv_app_nth)
qed

lemma free_list_empty: "free_list k = [] \<longleftrightarrow> free_top k = 0 \<or> free_frames k = []"
  by (auto simp: free_list_def unat_eq_zero)

lemma free_list_length:
  "length (free_frames k) = 256 \<Longrightarrow> unat (free_top k) \<le> 256 \<Longrightarrow> length (free_list k) = unat (free_top k)"
  by (simp add: free_list_def)

text \<open>At boot the pool holds the frames 16 to 255, the lowest on top.\<close>

lemma kalloc_init_loop_effect:
  assumes "j \<le> n" and "unat (free_top k) + j \<le> 256" and "length (free_frames k) = 256" and "j \<le> 240"
  shows "free_list (kalloc_init_loop n (of_nat (15 + j)) k) = map of_nat [16..<16 + j] @ free_list k \<and>
    unat (free_top (kalloc_init_loop n (of_nat (15 + j)) k)) = unat (free_top k) + j \<and>
    length (free_frames (kalloc_init_loop n (of_nat (15 + j)) k)) = 256"
  using assms
proof (induction j arbitrary: n k)
  case 0
  then show ?case by (cases n) (simp_all add: word_le_nat_alt)
next
  case (Suc j)
  then obtain n' where n: "n = Suc n'" by (cases n) auto
  let ?i = "of_nat (15 + Suc j) :: uint16"
  have u: "unat ?i = 16 + j" using Suc.prems by (simp only: unat_of_nat_range)
  have step: "?i - 1 = of_nat (15 + j)" by simp
  have "(ucast ?i :: uint8) = of_nat (unat ?i)" by simp
  then have c: "(ucast ?i :: uint8) = of_nat (16 + j)" by (simp only: u)
  let ?k = "k\<lparr>free_frames := (free_frames k)[unat (free_top k) := of_nat (16 + j)], free_top := free_top k + 1\<rparr>"
  have p: "free_list ?k = of_nat (16 + j) # free_list k" "unat (free_top ?k) = Suc (unat (free_top k))"
    using free_list_push [of k "of_nat (16 + j)"] free_top_push [of k] Suc.prems by simp_all
  have l: "kalloc_init_loop n ?i k = kalloc_init_loop n' (of_nat (15 + j)) ?k"
    using u Suc.prems unfolding n kalloc_init_loop.simps step c by (simp add: word_le_nat_alt)
  have "free_list (kalloc_init_loop n' (of_nat (15 + j)) ?k) = map of_nat [16..<16 + j] @ free_list ?k \<and>
      unat (free_top (kalloc_init_loop n' (of_nat (15 + j)) ?k)) = unat (free_top ?k) + j \<and>
      length (free_frames (kalloc_init_loop n' (of_nat (15 + j)) ?k)) = 256"
    by (rule Suc.IH) (use Suc.prems p(2) n in simp_all)
  moreover have "[16..<16 + Suc j] = [16..<16 + j] @ [16 + j]"
    by (metis add_Suc_right le_add1 upt_Suc_append)
  ultimately show ?case unfolding l p by (simp only:) simp
qed

lemma boot_frames:
  assumes "N \<le> 256"
  shows "distinct (map (of_nat :: nat \<Rightarrow> uint8) [16..<N]) \<and>
    (\<forall>f \<in> set (map of_nat [16..<N]). (16 :: uint8) \<le> f)"
proof -
  have "inj_on (of_nat :: nat \<Rightarrow> uint8) {16..<N}"
    by (rule inj_onI) (metis assms atLeastLessThan_iff order_less_le_trans unat_of_nat_range(1))
  then show ?thesis using assms by (auto simp: distinct_map word_le_nat_alt)
qed

lemma kalloc_init_effect:
  assumes "length (free_frames k) = 256"
  shows "free_list (kalloc_init k) = map of_nat [16..<256]" and "kalloc_inv (kalloc_init k)"
proof -
  have i: "(255 :: uint16) = of_nat (15 + 240)" by simp
  have "free_list (k\<lparr>free_top := 0\<rparr>) = []" by (simp add: free_list_empty)
  then have e: "free_list (kalloc_init k) = map of_nat [16..<256]" "unat (free_top (kalloc_init k)) = 240"
    "length (free_frames (kalloc_init k)) = 256"
    using kalloc_init_loop_effect [of 240 256 "k\<lparr>free_top := 0\<rparr>"] assms
    unfolding kalloc_init_def i by simp_all
  show "free_list (kalloc_init k) = map of_nat [16..<256]" by (rule e)
  show "kalloc_inv (kalloc_init k)"
    unfolding kalloc_inv_def e using boot_frames [OF order_refl]
    by (intro conjI refl order_refl) blast+
qed

text \<open>Interface of the allocator: a stack of frames.\<close>

locale frame_pool =
  fixes alloc :: "'s \<Rightarrow> frame_t \<times> 's"
    and free :: "frame_t \<Rightarrow> 's \<Rightarrow> 's"
    and pool :: "'s \<Rightarrow> frame_t list"
    and inv :: "'s \<Rightarrow> bool"
    and usable :: "frame_t \<Rightarrow> bool"
  assumes alloc_empty: "inv s \<Longrightarrow> pool s = [] \<Longrightarrow> alloc s = (FRAME_UNUSED, s)"
    and alloc_pop: "inv s \<Longrightarrow> pool s = f # fs \<Longrightarrow> fst (alloc s) = f \<and> pool (snd (alloc s)) = fs"
    and alloc_inv: "inv s \<Longrightarrow> inv (snd (alloc s))"
    and free_push: "inv s \<Longrightarrow> usable f \<Longrightarrow> f \<notin> set (pool s) \<Longrightarrow> pool (free f s) = f # pool s \<and> inv (free f s)"
    and pool_distinct: "inv s \<Longrightarrow> distinct (pool s)"
    and unusable_unused: "\<not> usable FRAME_UNUSED"
begin

lemma alloc_fresh:
  assumes "inv s" and "alloc s = (f, s')" and "f \<noteq> FRAME_UNUSED"
  shows "pool s = f # pool s'" and "f \<notin> set (pool s')" and "inv s'"
proof -
  from assms have "pool s \<noteq> []" using alloc_empty [of s] by auto
  then obtain g gs where g: "pool s = g # gs" by (cases "pool s") auto
  with assms alloc_pop [OF assms(1) g] show p: "pool s = f # pool s'" by simp
  with pool_distinct [OF assms(1)] show "f \<notin> set (pool s')" by simp
  show "inv s'" using alloc_inv [OF assms(1)] assms(2) by simp
qed

lemma alloc_free:
  assumes "inv s" and "usable f" and "f \<notin> set (pool s)"
  shows "fst (alloc (free f s)) = f" and "pool (snd (alloc (free f s))) = pool s"
  using free_push [OF assms] alloc_pop by auto

text \<open>Frames handed out one after the other are different from each other and from what is left.\<close>

fun allocs :: "nat \<Rightarrow> 's \<Rightarrow> frame_t list \<times> 's" where
  "allocs 0 s = ([], s)"
| "allocs (Suc n) s = (let (f, s1) = alloc s; (fs, s2) = allocs n s1 in (f # fs, s2))"

lemma allocs_pool:
  "inv s \<Longrightarrow> n \<le> length (pool s) \<Longrightarrow>
   fst (allocs n s) = take n (pool s) \<and> pool (snd (allocs n s)) = drop n (pool s) \<and> inv (snd (allocs n s))"
proof (induction n arbitrary: s)
  case 0
  then show ?case by simp
next
  case (Suc n)
  then obtain g gs where g: "pool s = g # gs" by (cases "pool s") auto
  obtain s1 where s1: "alloc s = (g, s1)" "pool s1 = gs" "inv s1"
    using alloc_pop [OF Suc.prems(1) g] alloc_inv [OF Suc.prems(1)] by (cases "alloc s") auto
  with Suc.IH [OF s1(3)] Suc.prems(2) g show ?case by (simp add: split_beta)
qed

lemma allocs_distinct:
  "inv s \<Longrightarrow> n \<le> length (pool s) \<Longrightarrow>
   distinct (fst (allocs n s)) \<and> set (fst (allocs n s)) \<inter> set (pool (snd (allocs n s))) = {}"
  using allocs_pool [of s n] pool_distinct [of s] by (simp add: set_take_disj_set_drop_if_distinct)

end

definition usable_frame :: "frame_t \<Rightarrow> bool" where
  "usable_frame f \<longleftrightarrow> 16 \<le> f \<and> f \<noteq> FRAME_UNUSED"

lemma usable_not_device: "usable_frame f \<Longrightarrow> f \<notin> {MMU_FRAME_INVALID, MMU_LAST_FRAME}"
  by (auto simp: usable_frame_def)

lemma kalloc_frame [simp]:
  "machine (snd (kalloc k)) = machine k" "kernel_page_table (snd (kalloc k)) = kernel_page_table k"
  "proc_table (snd (kalloc k)) = proc_table k" "current_process (snd (kalloc k)) = current_process k"
  "free_frames (snd (kalloc k)) = free_frames k"
  by (simp_all add: kalloc_def Let_def)

lemma kfree_effect:
  assumes "kmap k" and "usable_frame f"
  shows "kfree f k = k\<lparr>free_frames := (free_frames k)[unat (free_top k) := f], free_top := free_top k + 1,
    machine := (machine k)\<lparr>ram := ram_write f 0 (replicate 4096 0x46) (ram (machine k))\<rparr>\<rparr>"
proof -
  let ?k = "k\<lparr>free_frames := (free_frames k)[unat (free_top k) := f], free_top := free_top k + 1\<rparr>"
  obtain base old k1 where m: "map_window 1 f ?k = (base, old, k1)" by (metis prod_cases3)
  have "kmap ?k" using assms(1) by (simp add: kmap_def)
  from window_bytes_written [OF this _ usable_not_device [OF assms(2)] m, of 0 "replicate 4096 0x46"]
  have "unmap_window 1 old (write_bytes base (replicate 4096 0x46) k1) =
      ?k\<lparr>machine := (machine ?k)\<lparr>ram := ram_write f 0 (replicate 4096 0x46) (ram (machine ?k))\<rparr>\<rparr>"
    by simp
  then show ?thesis
    using assms(2) m by (simp add: kfree_def usable_frame_def Let_def not_less [symmetric])
qed

definition memory_inv :: "kernel \<Rightarrow> bool" where
  "memory_inv k \<longleftrightarrow> kmap k \<and> kalloc_inv k"

lemma free_list_bound:
  assumes "kalloc_inv k" and "f \<notin> set (free_list k)" and "16 \<le> f"
  shows "unat (free_top k) < 240"
proof -
  let ?F = "{g :: uint8. 16 \<le> g}"
  have "g \<in> of_nat ` {16..<256}" if "16 \<le> g" for g :: uint8
    using that unat_byte [of g] by (intro image_eqI [of _ _ "unat g"]) (auto simp: word_le_nat_alt)
  then have "card ?F \<le> card ((of_nat :: nat \<Rightarrow> uint8) ` {16..<256})"
    by (intro card_mono) auto
  also have "\<dots> \<le> 240" using card_image_le [of "{16..<256}" "of_nat :: nat \<Rightarrow> uint8"] by simp
  finally have F: "card ?F \<le> 240" .
  have "set (free_list k) \<subseteq> ?F - {f}" using assms by (auto simp: kalloc_inv_def)
  then have "card (set (free_list k)) \<le> card (?F - {f})" by (intro card_mono) auto
  also have "\<dots> < card ?F" using assms(3) by (intro psubset_card_mono) auto
  finally have "card (set (free_list k)) < 240" using F by simp
  then show ?thesis
    using assms(1) free_list_length [of k] by (simp add: kalloc_inv_def distinct_card)
qed

lemma kalloc_inv_kalloc: "kalloc_inv k \<Longrightarrow> kalloc_inv (snd (kalloc k))"
proof (cases "free_top k = 0")
  case False
  assume k: "kalloc_inv k"
  let ?k = "k\<lparr>free_top := free_top k - 1\<rparr>"
  have "free_list k = free_frames k ! unat (free_top k - 1) # free_list ?k"
    using k False by (intro free_list_pop) (auto simp: kalloc_inv_def)
  moreover have "unat (free_top k - 1) \<le> unat (free_top k)" using False by (simp add: unat_minus_one)
  ultimately show ?thesis using k False by (simp add: kalloc_inv_def kalloc_def Let_def)
qed (simp add: kalloc_def)

lemma kfree_inv:
  assumes "memory_inv k" and "usable_frame f" and "f \<notin> set (free_list k)"
  shows "free_list (kfree f k) = f # free_list k" and "memory_inv (kfree f k)"
proof -
  have u: "unat (free_top k) < 240" "16 \<le> f"
    using free_list_bound [of k f] assms by (auto simp: memory_inv_def usable_frame_def)
  have l: "length (free_frames k) = 256" using assms(1) by (simp add: memory_inv_def kalloc_inv_def)
  note e = kfree_effect [of k f]
  show fl: "free_list (kfree f k) = f # free_list k"
    using free_list_push [of k f] e assms u l by (simp add: free_list_def memory_inv_def)
  have "kmap (kfree f k)" using e assms by (simp add: memory_inv_def kmap_def)
  moreover have "unat (free_top (kfree f k)) = Suc (unat (free_top k))"
    using free_top_push [of k] e assms u l by (simp add: memory_inv_def)
  ultimately show "memory_inv (kfree f k)"
    using fl u l e assms by (simp add: memory_inv_def kalloc_inv_def)
qed

interpretation kernel_frames: frame_pool kalloc kfree free_list memory_inv usable_frame
proof unfold_locales
  fix k :: kernel and f :: frame_t and fs :: "frame_t list"
  assume k: "memory_inv k"
  show "kalloc k = (FRAME_UNUSED, k)" if "free_list k = []"
    using that k by (auto simp: free_list_empty kalloc_def memory_inv_def kalloc_inv_def)
  show "fst (kalloc k) = f \<and> free_list (snd (kalloc k)) = fs" if "free_list k = f # fs"
  proof -
    have "free_top k \<noteq> 0" using that by (auto simp: free_list_def)
    moreover have "unat (free_top k) \<le> length (free_frames k)"
      using k by (simp add: memory_inv_def kalloc_inv_def)
    ultimately show ?thesis using free_list_pop [of k] that by (simp add: kalloc_def Let_def)
  qed
  show "memory_inv (snd (kalloc k))"
    using k kalloc_inv_kalloc [of k] by (simp add: memory_inv_def kmap_def)
  show "free_list (kfree f k) = f # free_list k \<and> memory_inv (kfree f k)"
    if "usable_frame f" "f \<notin> set (free_list k)"
    using kfree_inv [OF k that] by simp
  show "distinct (free_list k)" using k by (simp add: memory_inv_def kalloc_inv_def)
qed (simp add: usable_frame_def)

section \<open>How many allocations succeed\<close>

text \<open>
  \<^verbatim>\<open>kalloc_init\<close> puts frame 255 at the bottom of the pool, and its number is the value \<^verbatim>\<open>kalloc\<close> returns for
  failure: the call that pops it is taken for a failed one by every caller. The number of calls that
  succeed from now on is therefore the number of frames above it.
\<close>

definition frames_ready :: "kernel \<Rightarrow> nat" where
  "frames_ready k = length (takeWhile (\<lambda>f. f \<noteq> FRAME_UNUSED) (free_list k))"

lemma frames_ready_Cons:
  "free_list k = f # fs \<Longrightarrow> free_list k' = fs \<Longrightarrow>
     frames_ready k = (if f = FRAME_UNUSED then 0 else Suc (frames_ready k'))"
  by (simp add: frames_ready_def)

lemma frames_readyE:
  assumes "0 < frames_ready k"
  obtains f fs where "free_list k = f # fs" "f \<noteq> FRAME_UNUSED"
  using assms by (cases "free_list k") (auto simp: frames_ready_def split: if_splits)

lemma frames_ready_none: "frames_ready k = 0 \<longleftrightarrow> (\<forall>f fs. free_list k = f # fs \<longrightarrow> f = FRAME_UNUSED)"
  by (cases "free_list k") (simp_all add: frames_ready_def)

lemma frames_ready_le: "frames_ready k \<le> length (free_list k)"
  by (simp add: frames_ready_def length_takeWhile_le)

lemma kalloc_ready:
  assumes "kalloc_inv k" and "0 < frames_ready k" and "kalloc k = (f, k1)"
  shows "f \<noteq> FRAME_UNUSED" and "free_list k = f # free_list k1" and "frames_ready k = Suc (frames_ready k1)"
    and "kalloc_inv k1"
proof -
  obtain g gs where g: "free_list k = g # gs" "g \<noteq> FRAME_UNUSED" by (rule frames_readyE [OF assms(2)])
  have t: "free_top k \<noteq> 0" using g(1) by (auto simp: free_list_def)
  then have p: "free_list k = f # free_list k1"
    using assms(1,3) free_list_pop [of k] by (auto simp: kalloc_inv_def kalloc_def Let_def)
  show "free_list k = f # free_list k1" by (rule p)
  show f: "f \<noteq> FRAME_UNUSED" using p g by simp
  show "frames_ready k = Suc (frames_ready k1)" using frames_ready_Cons [OF p refl] f by simp
  show "kalloc_inv k1" using kalloc_inv_kalloc [OF assms(1)] assms(3) by simp
qed

text \<open>At boot all frames but the last can be handed out.\<close>

lemma kalloc_init_ready:
  assumes "length (free_frames k) = 256"
  shows "frames_ready (kalloc_init k) = 239"
proof -
  have u: "(of_nat i :: uint8) \<noteq> FRAME_UNUSED" if "i \<in> set [16..<255]" for i
    using that unat_of_nat_range(1) [of i] by (auto simp: word_unat_eq_iff)
  have s: "[16..<256] = [16..<255] @ [255 :: nat]"
    using upt_Suc_append [of 16 255] by simp
  have "takeWhile (\<lambda>f. f \<noteq> FRAME_UNUSED) (map (of_nat :: nat \<Rightarrow> uint8) [16..<255] @ [of_nat 255]) = map of_nat [16..<255]"
    using u by (subst takeWhile_append2) (auto simp del: upt_conv_Cons_Cons upt_rec_numeral)
  then show ?thesis
    unfolding frames_ready_def kalloc_init_effect(1) [OF assms] s by (simp del: upt_conv_Cons_Cons upt_rec_numeral)
qed

end
