(* ===== verification/Kernel_Proc.thy ===== *)
theory Kernel_Proc
  imports Kernel_Memory
begin

text \<open>
  Processes (\<^verbatim>\<open>proc.c\<close>): the control block of a process, which lives as bytes in the process's kernel
  stack frame and is reached through window 2, allocation of processes, sleeping, waking and the
  round-robin scheduler. A function that gives up the processor is split where it does: the part
  before the switch ends with the scheduler's choice, the part after it starts when the process is
  switched to again.
\<close>

section \<open>The process control block\<close>

text \<open>The offsets of the members of \<^verbatim>\<open>PCB\<close>; the compiler lays them out without padding.\<close>

abbreviation (input) off_page_table :: nat where "off_page_table \<equiv> 0"
abbreviation (input) off_ctx :: nat where "off_ctx \<equiv> 16"
abbreviation (input) off_ctx_sp :: nat where "off_ctx_sp \<equiv> 16"
abbreviation (input) off_ctx_pc :: nat where "off_ctx_pc \<equiv> 18"
abbreviation (input) off_ctx_a :: nat where "off_ctx_a \<equiv> 20"
abbreviation (input) off_ctx_x :: nat where "off_ctx_x \<equiv> 21"
abbreviation (input) off_ctx_y :: nat where "off_ctx_y \<equiv> 22"
abbreviation (input) off_ctx_ksp :: nat where "off_ctx_ksp \<equiv> 23"
abbreviation (input) off_top :: nat where "off_top \<equiv> 24"
abbreviation (input) off_pid :: nat where "off_pid \<equiv> 26"
abbreviation (input) off_uid :: nat where "off_uid \<equiv> 28"
abbreviation (input) off_exit_code :: nat where "off_exit_code \<equiv> 30"
abbreviation (input) off_ticks :: nat where "off_ticks \<equiv> 32"
abbreviation (input) off_parent :: nat where "off_parent \<equiv> 33"
abbreviation (input) off_killed :: nat where "off_killed \<equiv> 35"
abbreviation (input) off_channel :: nat where "off_channel \<equiv> 37"
abbreviation (input) off_open_files :: nat where "off_open_files \<equiv> 41"
abbreviation (input) off_name :: nat where "off_name \<equiv> 73"

abbreviation pcb_frame :: "kernel \<Rightarrow> nat \<Rightarrow> frame_t" where
  "pcb_frame k p \<equiv> kernel_low_memory (proc_table k ! p) ! 0"

definition MAP_PCB :: "nat \<Rightarrow> kernel \<Rightarrow> uint16 \<times> frame_t \<times> kernel" where
  "MAP_PCB p k =
     (let (w, old_frame, k1) = map_window 2 (pcb_frame k p) k in (w + PCB_OFFSET, old_frame, k1))"

definition UNMAP_PCB :: "frame_t \<Rightarrow> kernel \<Rightarrow> kernel" where
  "UNMAP_PCB old_frame k = unmap_window 2 old_frame k"

definition proc_get_8 :: "nat \<Rightarrow> nat \<Rightarrow> kernel \<Rightarrow> uint8 \<times> kernel" where
  "proc_get_8 p offset k =
     (let (pcb, old_frame, k1) = MAP_PCB p k;
          (v, k2) = MMIO8_read (pcb + of_nat offset) k1
      in (v, UNMAP_PCB old_frame k2))"

definition proc_set_8 :: "nat \<Rightarrow> nat \<Rightarrow> uint8 \<Rightarrow> kernel \<Rightarrow> kernel" where
  "proc_set_8 p offset v k =
     (let (pcb, old_frame, k1) = MAP_PCB p k
      in UNMAP_PCB old_frame (MMIO8_write (pcb + of_nat offset) v k1))"

definition proc_get_16 :: "nat \<Rightarrow> nat \<Rightarrow> kernel \<Rightarrow> uint16 \<times> kernel" where
  "proc_get_16 p offset k =
     (let (pcb, old_frame, k1) = MAP_PCB p k;
          (v, k2) = MMIO16_read (pcb + of_nat offset) k1
      in (v, UNMAP_PCB old_frame k2))"

definition proc_set_16 :: "nat \<Rightarrow> nat \<Rightarrow> uint16 \<Rightarrow> kernel \<Rightarrow> kernel" where
  "proc_set_16 p offset v k =
     (let (pcb, old_frame, k1) = MAP_PCB p k
      in UNMAP_PCB old_frame (MMIO16_write (pcb + of_nat offset) v k1))"

definition proc_read_bytes :: "nat \<Rightarrow> nat \<Rightarrow> nat \<Rightarrow> kernel \<Rightarrow> uint8 list \<times> kernel" where
  "proc_read_bytes p offset n k =
     (let (pcb, old_frame, k1) = MAP_PCB p k;
          (vs, k2) = read_bytes (pcb + of_nat offset) n k1
      in (vs, UNMAP_PCB old_frame k2))"

definition proc_write_bytes :: "nat \<Rightarrow> nat \<Rightarrow> uint8 list \<Rightarrow> kernel \<Rightarrow> kernel" where
  "proc_write_bytes p offset src k =
     (let (pcb, old_frame, k1) = MAP_PCB p k
      in UNMAP_PCB old_frame (write_bytes (pcb + of_nat offset) src k1))"

section \<open>What an access to a control block does\<close>

definition pcb_byte :: "kernel \<Rightarrow> nat \<Rightarrow> nat \<Rightarrow> uint8" where
  "pcb_byte k p offset = frame_byte k (pcb_frame k p) (0x200 + offset)"

definition pcb_word :: "kernel \<Rightarrow> nat \<Rightarrow> nat \<Rightarrow> uint16" where
  "pcb_word k p offset = mk_word (pcb_byte k p (Suc offset)) (pcb_byte k p offset)"

definition pcb_bytes :: "kernel \<Rightarrow> nat \<Rightarrow> nat \<Rightarrow> nat \<Rightarrow> uint8 list" where
  "pcb_bytes k p offset n = map (pcb_byte k p) [offset..<offset + n]"

definition pcb_write :: "nat \<Rightarrow> nat \<Rightarrow> uint8 list \<Rightarrow> kernel \<Rightarrow> kernel" where
  "pcb_write p offset bytes k =
     k\<lparr>machine := (machine k)\<lparr>ram := ram_write (pcb_frame k p) (0x200 + offset) bytes (ram (machine k))\<rparr>\<rparr>"

definition pcb_ok :: "kernel \<Rightarrow> nat \<Rightarrow> bool" where
  "pcb_ok k p \<longleftrightarrow> p < MAX_PROC_COUNT \<and> pcb_frame k p \<notin> {MMU_FRAME_INVALID, MMU_LAST_FRAME}"

lemma pcb_read:
  assumes "kmap k" and "pcb_ok k p" and "offset + n \<le> 3584"
  shows "proc_read_bytes p offset n k = (pcb_bytes k p offset n, k)"
proof -
  obtain w old k1 where m: "map_window 2 (pcb_frame k p) k = (w, old, k1)" by (metis prod_cases3)
  have f: "pcb_frame k p \<notin> {MMU_FRAME_INVALID, MMU_LAST_FRAME}" using assms(2) by (simp add: pcb_ok_def)
  have a: "w + PCB_OFFSET + of_nat offset = w + of_nat (0x200 + offset)" by simp
  have "read_bytes (w + of_nat (0x200 + offset)) n k1 =
      (map (frame_byte k (pcb_frame k p)) [0x200 + offset..<0x200 + offset + n], k1)"
    using assms(3) by (intro window_bytes_read(1) [OF assms(1) _ f m]) simp_all
  moreover have "map (frame_byte k (pcb_frame k p)) [0x200 + offset..<0x200 + offset + n] =
      pcb_bytes k p offset n"
    by (rule nth_equalityI) (simp_all add: pcb_bytes_def pcb_byte_def add.assoc)
  ultimately show ?thesis
    using window_bytes_read(2) [OF assms(1) _ f m, of 0 0] m
    by (simp only: proc_read_bytes_def MAP_PCB_def UNMAP_PCB_def Let_def prod.case a) simp
qed

lemma pcb_written:
  assumes "kmap k" and "pcb_ok k p" and "offset + length bytes \<le> 3584"
  shows "proc_write_bytes p offset bytes k = pcb_write p offset bytes k"
proof -
  obtain w old k1 where m: "map_window 2 (pcb_frame k p) k = (w, old, k1)" by (metis prod_cases3)
  have f: "pcb_frame k p \<notin> {MMU_FRAME_INVALID, MMU_LAST_FRAME}" using assms(2) by (simp add: pcb_ok_def)
  have a: "w + PCB_OFFSET + of_nat offset = w + of_nat (0x200 + offset)" by simp
  have "unmap_window 2 old (write_bytes (w + of_nat (0x200 + offset)) bytes k1) = pcb_write p offset bytes k"
    unfolding pcb_write_def using assms(3)
    by (intro window_bytes_written [OF assms(1) _ f m]) simp_all
  then show ?thesis
    using m by (simp only: proc_write_bytes_def MAP_PCB_def UNMAP_PCB_def Let_def prod.case a)
qed

text \<open>The byte and word accessors are byte loops of length one and two.\<close>

lemma accessors_as_loops:
  "proc_get_8 p offset k = (let (vs, k1) = proc_read_bytes p offset 1 k in (hd vs, k1))"
  "proc_set_8 p offset v k = proc_write_bytes p offset [v] k"
  "proc_get_16 p offset k = (let (vs, k1) = proc_read_bytes p offset 2 k in (mk_word (vs ! 1) (hd vs), k1))"
  "proc_set_16 p offset w k = proc_write_bytes p offset [lo_byte w, hi_byte w] k"
  by (simp_all add: proc_get_8_def proc_set_8_def proc_get_16_def proc_set_16_def proc_read_bytes_def
      proc_write_bytes_def MMIO16_read_def MMIO16_write_def Let_def split_beta numeral_2_eq_2)

lemma pcb_access:
  assumes "kmap k" and "pcb_ok k p" and "offset < 3582"
  shows "proc_get_8 p offset k = (pcb_byte k p offset, k)"
    and "proc_set_8 p offset v k = pcb_write p offset [v] k"
    and "proc_get_16 p offset k = (pcb_word k p offset, k)"
    and "proc_set_16 p offset w k = pcb_write p offset [lo_byte w, hi_byte w] k"
  using assms
  by (simp_all add: accessors_as_loops pcb_read pcb_written pcb_bytes_def pcb_word_def upt_conv_Cons)

lemma pcb_write_frame [simp]:
  "proc_table (pcb_write p offset bytes k) = proc_table k"
  "current_process (pcb_write p offset bytes k) = current_process k"
  "kernel_page_table (pcb_write p offset bytes k) = kernel_page_table k"
  "free_list (pcb_write p offset bytes k) = free_list k"
  "mmu (machine (pcb_write p offset bytes k)) = mmu (machine k)"
  by (simp_all add: pcb_write_def free_list_def)

lemma pcb_write_kmap [simp]: "kmap (pcb_write p offset bytes k) = kmap k"
  by (simp add: kmap_def pcb_write_def)

lemma pcb_write_ok [simp]: "pcb_ok (pcb_write p offset bytes k) q = pcb_ok k q"
  by (simp add: pcb_ok_def)

lemma pcb_byte_write [simp]:
  assumes "o2 < 3584"
  shows "pcb_byte (pcb_write p o1 bytes k) q o2 =
    (if pcb_frame k q = pcb_frame k p \<and> o1 \<le> o2 \<and> o2 < o1 + length bytes then bytes ! (o2 - o1)
     else pcb_byte k q o2)"
  using assms by (simp add: pcb_byte_def frame_byte_def pcb_write_def)

section \<open>Creation and release of processes\<close>

definition set_state :: "nat \<Rightarrow> Proc_State \<Rightarrow> kernel \<Rightarrow> kernel" where
  "set_state p s k = k\<lparr>proc_table := (proc_table k)[p := (proc_table k ! p)\<lparr>proc_state := s\<rparr>]\<rparr>"

definition pid_alloc :: "kernel \<Rightarrow> (uint16 \<times> kernel) kresult" where
  "pid_alloc k =
     (let pid = next_pid k
      in if pid = 0 then Inl (Panic ''pid_alloc'') else Inr (pid, k\<lparr>next_pid := next_pid k + 1\<rparr>))"

fun proc_init_loop :: "nat \<Rightarrow> nat \<Rightarrow> kernel \<Rightarrow> kernel" where
  "proc_init_loop 0 i k = k"
| "proc_init_loop (Suc n) i k = proc_init_loop n (Suc i) (set_state i PROC_STATE_UNUSED k)"

definition proc_init :: "kernel \<Rightarrow> kernel" where
  "proc_init k =
     (proc_init_loop MAX_PROC_COUNT 0 k)\<lparr>init_process := None, current_process := None\<rparr>"

text \<open>
  The assembly routine behind \<^verbatim>\<open>proc_alloc\<close> maps the frame in the hardware table only and stores the
  initial value of the C stack pointer, \<^verbatim>\<open>__STACK_START__\<close>, at its zero-page address.
\<close>

abbreviation STACK_START :: uint16 where "STACK_START \<equiv> 0x1000"

definition make_kernel_stack :: "frame_t \<Rightarrow> kernel \<Rightarrow> kernel" where
  "make_kernel_stack frame k =
     (let (tmp1, k1) = MMIO8_read (0xfe20 + of_nat 1) k;
          k2 = MMIO8_write (0xfe20 + of_nat 1) frame k1;
          k3 = MMIO8_write (WINDOW1 + zp_sp (sym k)) (lo_byte STACK_START) k2;
          k4 = MMIO8_write (WINDOW1 + (zp_sp (sym k) + 1)) (hi_byte STACK_START) k3
      in MMIO8_write (0xfe20 + of_nat 1) tmp1 k4)"

definition find_unused :: "kernel \<Rightarrow> nat option" where
  "find_unused k = find (\<lambda>i. proc_state (proc_table k ! i) = PROC_STATE_UNUSED) [0..<MAX_PROC_COUNT]"

definition proc_alloc :: "kernel \<Rightarrow> (nat option \<times> kernel) kresult" where
  "proc_alloc k =
     (case find_unused k of
        None \<Rightarrow> Inr (None, k)
      | Some p \<Rightarrow>
          (let (stack_frame, k1) = kalloc k;
               k2 = k1\<lparr>proc_table := (proc_table k1)[p := (proc_table k1 ! p)
                 \<lparr>kernel_low_memory := (kernel_low_memory (proc_table k1 ! p))[0 := stack_frame]\<rparr>]\<rparr>
           in if stack_frame = FRAME_UNUSED then Inr (None, k2)
              else
                (let k3 = make_kernel_stack stack_frame k2;
                     k4 = k3\<lparr>proc_table := (proc_table k3)[p := (proc_table k3 ! p)
                       \<lparr>kernel_low_memory := (kernel_low_memory (proc_table k3 ! p))[1 := 1, 2 := 2],
                        proc_state := PROC_STATE_BUILDING, proc_ksp := 0xff\<rparr>]\<rparr>;
                     (pcb, old_frame, k5) = MAP_PCB p k4
                 in case pid_alloc k5 of
                      Inl e \<Rightarrow> Inl e
                    | Inr (pid, k6) \<Rightarrow>
                        (let k7 = MMIO16_write (pcb + of_nat off_pid) pid k6;
                             k8 = MMIO8_write (pcb + of_nat off_ctx_sp) 0xff k7;
                             k9 = MMIO8_write (pcb + of_nat off_ctx_ksp) 0xff k8;
                             k10 = write_bytes (pcb + of_nat off_page_table)
                                     (replicate PAGE_TABLE_SIZE FRAME_UNUSED) k9
                         in Inr (Some p, UNMAP_PCB old_frame k10)))))"

definition proc_free :: "nat option \<Rightarrow> kernel \<Rightarrow> kernel kresult" where
  "proc_free p k =
     (case p of
        None \<Rightarrow> Inl (Panic ''proc_free'')
      | Some q \<Rightarrow> Inr (set_state q PROC_STATE_UNUSED (kfree (pcb_frame k q) k)))"

section \<open>Sleeping and waking\<close>

text \<open>
  A sleeping process calls the scheduler, which returns when the process is switched to again. The
  effect of that call, including all that other processes and interrupt handlers do in between, is
  the argument \<open>resume\<close>.
\<close>

definition sleep :: "uint16 \<Rightarrow> (kernel \<Rightarrow> kernel) \<Rightarrow> kernel \<Rightarrow> kernel" where
  "sleep channel resume k =
     (let k1 = proc_set_16 (the (current_process k)) off_channel channel k;
          k2 = set_state (the (current_process k1)) PROC_STATE_SLEEPING k1;
          k3 = resume k2
      in proc_set_16 (the (current_process k3)) off_channel 0 k3)"

definition wakeup_at :: "uint16 \<Rightarrow> nat \<Rightarrow> kernel \<Rightarrow> kernel" where
  "wakeup_at channel i k =
     (if proc_state (proc_table k ! i) = PROC_STATE_SLEEPING
      then (let (c, k1) = proc_get_16 i off_channel k
            in if c = channel then set_state i PROC_STATE_READY k1 else k1)
      else k)"

definition wakeup :: "uint16 \<Rightarrow> kernel \<Rightarrow> kernel" where
  "wakeup channel k = fold (wakeup_at channel) [0..<MAX_PROC_COUNT] k"

definition yield :: "(kernel \<Rightarrow> kernel) \<Rightarrow> kernel \<Rightarrow> kernel" where
  "yield resume k =
     (let k1 = INTER_OFF k;
          k2 = set_state (the (current_process k1)) PROC_STATE_READY k1
      in INTER_ON (resume k2))"

section \<open>The scheduler\<close>

definition runnable :: "kernel \<Rightarrow> nat \<Rightarrow> bool" where
  "runnable k p \<longleftrightarrow> proc_state (proc_table k ! p) = PROC_STATE_READY \<or>
     proc_state (proc_table k ! p) = PROC_STATE_NEW"

text \<open>The scan of the table; the first argument is the number of iterations left.\<close>

fun scheduler_scan :: "nat \<Rightarrow> kernel \<Rightarrow> nat option \<times> kernel" where
  "scheduler_scan 0 k = (None, k)"
| "scheduler_scan (Suc n) k =
     (let p = unat (round_robin_index k);
          k1 = k\<lparr>round_robin_index := round_robin_index k + 1\<rparr>;
          k2 = (if round_robin_index k1 \<ge> of_nat MAX_PROC_COUNT then k1\<lparr>round_robin_index := 0\<rparr> else k1)
      in if runnable k2 p then (Some p, k2) else scheduler_scan n k2)"

text \<open>Which of its three ways the scheduler leaves: to the first process, to a new one, or back to an old one.\<close>

datatype switch = First_Run nat | First_Switch nat nat | Context_Switch nat nat

definition scheduler_dispatch :: "nat option \<Rightarrow> nat \<Rightarrow> kernel \<Rightarrow> switch \<times> kernel" where
  "scheduler_dispatch old p k =
     (let is_new = (proc_state (proc_table k ! p) = PROC_STATE_NEW);
          k1 = set_state p PROC_STATE_RUNING k;
          k2 = k1\<lparr>current_process := Some p\<rparr>;
          k3 = proc_set_8 p off_ticks QUANTUM k2
      in (case old of
            None \<Rightarrow> First_Run p
          | Some q \<Rightarrow> if is_new then First_Switch q p else Context_Switch q p, k3))"

text \<open>
  Each element of \<open>idle\<close> is the effect of the interrupts that arrive during one idle wait; the
  result is \<open>None\<close> when the list ends before a process is ready.
\<close>

fun scheduler_loop :: "nat option \<Rightarrow> (kernel \<Rightarrow> kernel) list \<Rightarrow> kernel \<Rightarrow> (switch \<times> kernel) option" where
  "scheduler_loop old idle k =
     (case scheduler_scan MAX_PROC_COUNT k of
        (Some p, k1) \<Rightarrow> Some (scheduler_dispatch old p k1)
      | (None, k1) \<Rightarrow>
          (case idle of
             [] \<Rightarrow> None
           | f # fs \<Rightarrow> scheduler_loop old fs (INTER_OFF (f (INTER_ON k1)))))"

declare scheduler_loop.simps [simp del]

definition scheduler :: "(kernel \<Rightarrow> kernel) list \<Rightarrow> kernel \<Rightarrow> (switch \<times> kernel) option" where
  "scheduler idle k = scheduler_loop (current_process k) idle k"

text \<open>
  The assembly routine that changes processes. The processor's stack pointer is an argument and
  part of the result.
\<close>

definition context_switch :: "nat \<Rightarrow> nat \<Rightarrow> uint8 \<Rightarrow> kernel \<Rightarrow> uint8 \<times> kernel" where
  "context_switch old new ksp k =
     (let k1 = k\<lparr>proc_table := (proc_table k)[old := (proc_table k ! old)
            \<lparr>kernel_low_memory := (kernel_low_memory (proc_table k ! old))
               [0 := kernel_page_table k ! 0, 1 := kernel_page_table k ! 1, 2 := kernel_page_table k ! 2],
             proc_ksp := ksp\<rparr>]\<rparr>;
          low = kernel_low_memory (proc_table k1 ! new);
          k2 = MMIO8_write (0xfe20 + of_nat 2) (low ! 2) k1;
          k3 = k2\<lparr>kernel_page_table := (kernel_page_table k2)[2 := low ! 2]\<rparr>;
          k4 = MMIO8_write (0xfe20 + of_nat 1) (low ! 1) k3;
          k5 = k4\<lparr>kernel_page_table := (kernel_page_table k4)[1 := low ! 1]\<rparr>;
          k6 = MMIO8_write (0xfe20 + of_nat 0) (low ! 0) k5;
          k7 = k6\<lparr>kernel_page_table := (kernel_page_table k6)[0 := low ! 0]\<rparr>
      in (proc_ksp (proc_table k1 ! new), k7))"

end
