(* ===== verification/Kernel_Copy.thy ===== *)
theory Kernel_Copy
  imports Kernel_Proc
begin

text \<open>
  Copies between the kernel and the memory of a process (\<^verbatim>\<open>copy_to_user\<close> and \<^verbatim>\<open>copy_from_user\<close> of
  \<^verbatim>\<open>proc.c\<close>). The code copies frame by frame through window 1; the reference it is compared with
  translates every single byte through the page table of the process.
\<close>

section \<open>The code\<close>

text \<open>The size of the next piece: what is left, or what fits into the frame.\<close>

definition chunk_size :: "uint16 \<Rightarrow> uint16 \<Rightarrow> uint16" where
  "chunk_size user n =
     (let offset = user AND 0x0FFF;
          bytes_in_frame = 4096 - offset
      in if n < bytes_in_frame then n else bytes_in_frame)"

lemma unat_mask12: "unat ((va :: uint16) AND 0x0FFF) = unat va mod 4096"
proof -
  have m: "(0x0FFF :: uint16) = mask 12" by (simp add: mask_eq_exp_minus_1)
  show ?thesis unfolding m
    by (simp only: take_bit_eq_mask [symmetric] unsigned_take_bit_eq) (simp add: take_bit_eq_mod)
qed

lemma unat_chunk_size: "unat (chunk_size va n) = min (unat n) (4096 - unat va mod 4096)"
proof -
  have le: "va AND 0x0FFF \<le> 4096" by (simp only: word_le_nat_alt unat_mask12) simp
  have "unat (4096 - (va AND 0x0FFF)) = 4096 - unat va mod 4096"
    using le by (simp only: unat_sub unat_mask12) simp
  then show ?thesis by (simp add: chunk_size_def Let_def word_less_nat_alt min_def)
qed

lemma chunk_size_shrinks:
  assumes "0 < n"
  shows "unat (n - chunk_size va n) = unat n - unat (chunk_size va n)"
    and "unat (n - chunk_size va n) < unat n"
proof -
  have "chunk_size va n \<le> n" by (simp add: word_le_nat_alt unat_chunk_size)
  then show e: "unat (n - chunk_size va n) = unat n - unat (chunk_size va n)" by (rule unat_sub)
  have "0 < unat n" using assms by (simp add: word_less_nat_alt)
  then show "unat (n - chunk_size va n) < unat n"
    unfolding e unat_chunk_size by (simp add: min_def)
qed

function copy_to_user_loop ::
  "frame_t list \<Rightarrow> uint8 list \<Rightarrow> uint16 \<Rightarrow> uint16 \<Rightarrow> kernel \<Rightarrow> int \<times> kernel" where
  "copy_to_user_loop pt src user_dest n k =
     (if 0 < n then
        (let segment = unat (drop_bit 12 user_dest);
             offset = user_dest AND 0x0FFF;
             physical_frame = pt ! segment
         in if physical_frame = FRAME_UNUSED then (- 1, k)
            else
              (let (dst_window, old_frame, k1) = map_window 1 physical_frame k;
                   chunk = chunk_size user_dest n;
                   k2 = write_bytes (dst_window + offset) (take (unat chunk) src) k1;
                   k3 = unmap_window 1 old_frame k2
               in copy_to_user_loop pt (drop (unat chunk) src) (user_dest + chunk) (n - chunk) k3))
      else (0, k))"
  by pat_completeness auto
termination
  by (relation "measure (\<lambda>(pt, src, user_dest, n, k). unat n)") (auto intro: chunk_size_shrinks(2))

declare copy_to_user_loop.simps [simp del]

definition copy_to_user :: "uint8 list \<Rightarrow> uint16 \<Rightarrow> uint16 \<Rightarrow> nat \<Rightarrow> kernel \<Rightarrow> int \<times> kernel" where
  "copy_to_user kernel_src user_dest n p k =
     (let (limit, k1) = proc_get_16 p off_top k
      in if user_dest \<ge> limit then (- 1, k1)
         else (let (pt, k2) = proc_read_bytes p off_page_table PAGE_TABLE_SIZE k1
               in copy_to_user_loop pt kernel_src user_dest n k2))"

text \<open>\<^verbatim>\<open>copy_from_user\<close> returns the bytes stored to the destination so far beside the status.\<close>

function copy_from_user_loop ::
  "frame_t list \<Rightarrow> uint8 list \<Rightarrow> uint16 \<Rightarrow> uint16 \<Rightarrow> kernel \<Rightarrow> int \<times> uint8 list \<times> kernel" where
  "copy_from_user_loop pt dst user_src n k =
     (if 0 < n then
        (let segment = unat (drop_bit 12 user_src);
             offset = user_src AND 0x0FFF;
             physical_frame = pt ! segment
         in if physical_frame = FRAME_UNUSED then (- 1, dst, k)
            else
              (let (src_window, old_frame, k1) = map_window 1 physical_frame k;
                   chunk = chunk_size user_src n;
                   (bytes, k2) = read_bytes (src_window + offset) (unat chunk) k1;
                   k3 = unmap_window 1 old_frame k2
               in copy_from_user_loop pt (dst @ bytes) (user_src + chunk) (n - chunk) k3))
      else (0, dst, k))"
  by pat_completeness auto
termination
  by (relation "measure (\<lambda>(pt, dst, user_src, n, k). unat n)") (auto intro: chunk_size_shrinks(2))

declare copy_from_user_loop.simps [simp del]

definition copy_from_user :: "uint16 \<Rightarrow> uint16 \<Rightarrow> nat \<Rightarrow> kernel \<Rightarrow> int \<times> uint8 list \<times> kernel" where
  "copy_from_user user_src n p k =
     (let (limit, k1) = proc_get_16 p off_top k
      in if user_src \<ge> limit then (- 1, [], k1)
         else (let (pt, k2) = proc_read_bytes p off_page_table PAGE_TABLE_SIZE k1
               in copy_from_user_loop pt [] user_src n k2))"

section \<open>The reference\<close>

definition user_addr :: "frame_t list \<Rightarrow> uint16 \<Rightarrow> uint32" where
  "user_addr pt va = frame_addr (pt ! segment_of va) (unat va mod 4096)"

definition user_mapped :: "frame_t list \<Rightarrow> uint16 \<Rightarrow> bool" where
  "user_mapped pt va \<longleftrightarrow> pt ! segment_of va \<noteq> FRAME_UNUSED"

fun user_store :: "frame_t list \<Rightarrow> uint16 \<Rightarrow> uint8 list \<Rightarrow> kernel \<Rightarrow> int \<times> kernel" where
  "user_store pt va [] k = (0, k)"
| "user_store pt va (b # bs) k =
     (if user_mapped pt va
      then user_store pt (va + 1) bs
             (k\<lparr>machine := (machine k)\<lparr>ram := (ram (machine k))(user_addr pt va := b)\<rparr>\<rparr>)
      else (- 1, k))"

fun user_load :: "frame_t list \<Rightarrow> uint16 \<Rightarrow> nat \<Rightarrow> kernel \<Rightarrow> int \<times> uint8 list" where
  "user_load pt va 0 k = (0, [])"
| "user_load pt va (Suc n) k =
     (if user_mapped pt va
      then (let (r, bs) = user_load pt (va + 1) n k in (r, ram (machine k) (user_addr pt va) # bs))
      else (- 1, []))"

section \<open>The code refines the reference\<close>

text \<open>Stepping inside one frame stays in its segment.\<close>

lemma segment_step:
  assumes "unat (va :: uint16) mod 4096 + 1 < 4096"
  shows "segment_of (va + 1) = segment_of va" and "unat (va + 1) mod 4096 = Suc (unat va mod 4096)"
proof -
  have b: "unat va < 65536" using unsigned_less [of va, where ?'a = nat] by simp
  have "unat va + 1 < 65536"
  proof (rule ccontr)
    assume "\<not> unat va + 1 < 65536"
    with b have "unat va = 65535" by linarith
    with assms show False by simp
  qed
  then have u: "unat (va + 1) = unat va + 1" by (simp add: unat_word_ariths)
  have m: "(unat va + 1) mod 4096 = unat va mod 4096 + 1" "(unat va + 1) div 4096 = unat va div 4096"
    using assms by (simp_all add: mod_Suc div_Suc)
  show "segment_of (va + 1) = segment_of va"
    by (simp only: segment_of_def unat_drop_bit u) (use m(2) in simp)
  show "unat (va + 1) mod 4096 = Suc (unat va mod 4096)" using m(1) u by simp
qed

lemma ram_write_single: "off < 4096 \<Longrightarrow> ram_write f off [b] r = r(frame_addr f off := b)"
  using ram_write_Cons [of off f "[]" r b] by simp

lemma user_store_chunk:
  assumes "pt ! segment_of va \<noteq> FRAME_UNUSED" and "unat va mod 4096 + length bs \<le> 4096"
  shows "user_store pt va (bs @ cs) k = user_store pt (va + of_nat (length bs)) cs
    (k\<lparr>machine := (machine k)\<lparr>ram := ram_write (pt ! segment_of va) (unat va mod 4096) bs (ram (machine k))\<rparr>\<rparr>)"
  using assms
proof (induction bs arbitrary: va k)
  case Nil
  then show ?case by simp
next
  case (Cons b bs)
  let ?k = "k\<lparr>machine := (machine k)\<lparr>ram := (ram (machine k))(user_addr pt va := b)\<rparr>\<rparr>"
  have s: "user_store pt va ((b # bs) @ cs) k = user_store pt (va + 1) (bs @ cs) ?k"
    using Cons.prems by (simp add: user_mapped_def)
  show ?case
  proof (cases bs)
    case Nil
    have e: "ram_write (pt ! segment_of va) (unat va mod 4096) [b] (ram (machine k)) =
        (ram (machine k))(user_addr pt va := b)"
      unfolding user_addr_def by (rule ram_write_single) simp
    have "of_nat (length [b]) = (1 :: uint16)" by simp
    then show ?thesis using s unfolding Nil e append_Nil by (simp only:)
  next
    case (Cons b' bs')
    define r where "r = (ram (machine k))(user_addr pt va := b)"
    have o: "unat va mod 4096 + 1 < 4096" using Cons.prems(2) Cons by simp
    have "user_store pt (va + 1) (bs @ cs) (k\<lparr>machine := (machine k)\<lparr>ram := r\<rparr>\<rparr>) =
        user_store pt (va + 1 + of_nat (length bs)) cs
        (k\<lparr>machine := (machine k)\<lparr>ram := ram_write (pt ! segment_of va) (Suc (unat va mod 4096)) bs r\<rparr>\<rparr>)"
      using Cons.IH [of "va + 1" "k\<lparr>machine := (machine k)\<lparr>ram := r\<rparr>\<rparr>"] Cons.prems segment_step [OF o] by simp
    moreover have "ram_write (pt ! segment_of va) (Suc (unat va mod 4096)) bs r =
        ram_write (pt ! segment_of va) (unat va mod 4096) (b # bs) (ram (machine k))"
      unfolding r_def user_addr_def by (rule ram_write_Cons) simp
    moreover have "va + of_nat (length (b # bs)) = va + 1 + of_nat (length bs)" by simp
    ultimately show ?thesis unfolding s r_def [symmetric] by (simp only:)
  qed
qed

lemma user_load_chunk:
  assumes "pt ! segment_of va \<noteq> FRAME_UNUSED" and "unat va mod 4096 + m \<le> 4096"
  shows "user_load pt va (m + n) k =
    (let (r, bs) = user_load pt (va + of_nat m) n k
     in (r, map (frame_byte k (pt ! segment_of va)) [unat va mod 4096..<unat va mod 4096 + m] @ bs))"
  using assms
proof (induction m arbitrary: va)
  case 0
  then show ?case by simp
next
  case (Suc m)
  let ?f = "pt ! segment_of va" and ?o = "unat va mod 4096"
  have b: "ram (machine k) (user_addr pt va) = frame_byte k ?f ?o" by (simp add: user_addr_def frame_byte_def)
  have s: "user_load pt va (Suc m + n) k =
      (let (r, bs) = user_load pt (va + 1) (m + n) k in (r, frame_byte k ?f ?o # bs))"
    using Suc.prems b by (simp add: user_mapped_def)
  show ?case
  proof (cases m)
    case 0
    then show ?thesis unfolding s by simp
  next
    case (Suc m')
    have o: "?o + 1 < 4096" using Suc.prems(2) Suc by simp
    have "user_load pt (va + 1) (m + n) k = (let (r, bs) = user_load pt (va + 1 + of_nat m) n k
        in (r, map (frame_byte k ?f) [Suc ?o..<Suc ?o + m] @ bs))"
      using Suc.IH [of "va + 1"] Suc.prems segment_step [OF o] by simp
    moreover have "[?o..<?o + Suc m] = ?o # [Suc ?o..<Suc ?o + m]" by (simp add: upt_conv_Cons)
    moreover have "va + of_nat (Suc m) = va + 1 + of_nat m" by simp
    ultimately show ?thesis
      unfolding s by (simp only: Let_def split_beta fst_conv snd_conv list.map append_Cons)
  qed
qed

lemma window_offset: "(va :: uint16) AND 0x0FFF = of_nat (unat va mod 4096)"
proof -
  have "va AND 0x0FFF = of_nat (unat (va AND 0x0FFF))" by simp
  then show ?thesis by (simp only: unat_mask12)
qed

lemma segment_of_less: "segment_of va < 16"
proof -
  have "unat va < 65536" using unsigned_less [of va, where ?'a = nat] by simp
  then show ?thesis by (simp add: segment_of_def unat_drop_bit less_mult_imp_div_less)
qed

lemma copy_to_user_loop_refines:
  assumes "kmap k" and "MMU_LAST_FRAME \<notin> set pt" and "length pt = 16" and "unat n \<le> length src"
  shows "copy_to_user_loop pt src va n k = user_store pt va (take (unat n) src) k"
  using assms
proof (induction pt src va n k rule: copy_to_user_loop.induct)
  case (1 pt src va n k)
  show ?case
  proof (cases "0 < n")
    case False
    then have "unat n = 0" by (simp add: word_less_nat_alt)
    then show ?thesis using False by (simp add: copy_to_user_loop.simps)
  next
    case n: True
    then obtain b bs where src: "take (unat n) src = b # bs"
      using "1.prems"(4) by (cases "take (unat n) src") (auto simp: word_less_nat_alt)
    let ?f = "pt ! segment_of va" and ?c = "unat (chunk_size va n)" and ?o = "unat va mod 4096"
    show ?thesis
    proof (cases "?f = FRAME_UNUSED")
      case True
      then show ?thesis
        using n src by (simp add: copy_to_user_loop.simps segment_of_def user_mapped_def)
    next
      case f: False
      then have f': "?f \<notin> {MMU_FRAME_INVALID, MMU_LAST_FRAME}"
        using "1.prems"(2,3) segment_of_less [of va] by (metis insert_iff nth_mem singletonD)
      obtain w old k1 where m: "map_window 1 ?f k = (w, old, k1)" by (metis prod_cases3)
      let ?k = "k\<lparr>machine := (machine k)\<lparr>ram := ram_write ?f ?o (take ?c src) (ram (machine k))\<rparr>\<rparr>"
      have c: "?c \<le> unat n" "?o + ?c \<le> 4096" by (simp_all add: unat_chunk_size)
      have w: "unmap_window 1 old (write_bytes (w + of_nat ?o) (take ?c src) k1) = ?k"
        using c by (intro window_bytes_written [OF "1.prems"(1) _ f' m]) simp_all
      have e: "copy_to_user_loop pt src va n k =
          copy_to_user_loop pt (drop ?c src) (va + chunk_size va n) (n - chunk_size va n) ?k"
        using n f m w by (subst copy_to_user_loop.simps) (simp add: Let_def segment_of_def window_offset)
      have "kmap ?k" using "1.prems"(1) by (simp add: kmap_def)
      then have "copy_to_user_loop pt (drop ?c src) (va + chunk_size va n) (n - chunk_size va n) ?k =
          user_store pt (va + chunk_size va n) (take (unat (n - chunk_size va n)) (drop ?c src)) ?k"
        using "1.IH" [OF n refl refl refl _ m [symmetric, unfolded segment_of_def] refl refl refl refl]
          "1.prems" n f w chunk_size_shrinks [OF n, of va]
        by (simp add: segment_of_def window_offset)
      moreover have "take (unat n) src = take ?c src @ take (unat (n - chunk_size va n)) (drop ?c src)"
        using c(1) by (simp add: chunk_size_shrinks [OF n] take_add [symmetric])
      moreover have "length (take ?c src) = ?c" using c(1) "1.prems"(4) by simp
      ultimately show ?thesis
        using user_store_chunk [OF f, of "take ?c src" "take (unat (n - chunk_size va n)) (drop ?c src)" k] c e
        by simp
    qed
  qed
qed

lemma copy_from_user_loop_refines:
  assumes "kmap k" and "MMU_LAST_FRAME \<notin> set pt" and "length pt = 16"
  shows "copy_from_user_loop pt dst va n k =
    (let (r, bs) = user_load pt va (unat n) k in (r, dst @ bs, k))"
  using assms
proof (induction pt dst va n k rule: copy_from_user_loop.induct)
  case (1 pt dst va n k)
  show ?case
  proof (cases "0 < n")
    case False
    then have "unat n = 0" by (simp add: word_less_nat_alt)
    then show ?thesis using False by (simp add: copy_from_user_loop.simps)
  next
    case n: True
    then obtain n' where n': "unat n = Suc n'" by (cases "unat n") (auto simp: word_less_nat_alt)
    let ?f = "pt ! segment_of va" and ?c = "unat (chunk_size va n)" and ?o = "unat va mod 4096"
    show ?thesis
    proof (cases "?f = FRAME_UNUSED")
      case True
      then show ?thesis
        using n n' by (simp add: copy_from_user_loop.simps segment_of_def user_mapped_def)
    next
      case f: False
      then have f': "?f \<notin> {MMU_FRAME_INVALID, MMU_LAST_FRAME}"
        using "1.prems"(2,3) segment_of_less [of va] by (metis insert_iff nth_mem singletonD)
      obtain w old k1 where m: "map_window 1 ?f k = (w, old, k1)" by (metis prod_cases3)
      have c: "?c \<le> unat n" "?o + ?c \<le> 4096" by (simp_all add: unat_chunk_size)
      let ?bs = "map (frame_byte k ?f) [?o..<?o + ?c]"
      have r: "read_bytes (w + of_nat ?o) ?c k1 = (?bs, k1)" and u: "unmap_window 1 old k1 = k"
        using window_bytes_read [OF "1.prems"(1) _ f' m c(2)] by simp_all
      have e: "copy_from_user_loop pt dst va n k =
          copy_from_user_loop pt (dst @ ?bs) (va + chunk_size va n) (n - chunk_size va n) k"
        using n f m r u by (subst copy_from_user_loop.simps) (simp add: Let_def segment_of_def window_offset)
      have "copy_from_user_loop pt (dst @ ?bs) (va + chunk_size va n) (n - chunk_size va n) k =
          (let (r, bs) = user_load pt (va + chunk_size va n) (unat (n - chunk_size va n)) k
           in (r, (dst @ ?bs) @ bs, k))"
        using "1.IH" [OF n refl refl refl _ m [symmetric, unfolded segment_of_def] refl refl refl
            r [symmetric, folded window_offset]] "1.prems" f u
        by (simp add: segment_of_def)
      moreover have "user_load pt va (unat n) k =
          (let (r, bs) = user_load pt (va + chunk_size va n) (unat (n - chunk_size va n)) k in (r, ?bs @ bs))"
        using user_load_chunk [OF f c(2), of "unat (n - chunk_size va n)" k] c(1)
          chunk_size_shrinks(1) [OF n, of va] by simp
      ultimately show ?thesis unfolding e by (simp only: Let_def split_beta fst_conv snd_conv append_assoc)
    qed
  qed
qed

text \<open>What a stored byte string reads back as, when no two segments share a frame.\<close>

definition user_frames_distinct :: "frame_t list \<Rightarrow> bool" where
  "user_frames_distinct pt \<longleftrightarrow>
     (\<forall>i < 16. \<forall>j < 16. pt ! i = pt ! j \<and> pt ! i \<noteq> FRAME_UNUSED \<longrightarrow> i = j)"

lemma user_addr_inject:
  assumes "user_frames_distinct pt" and "user_mapped pt va" and "user_addr pt va = user_addr pt vb"
  shows "va = vb"
proof -
  have o: "pt ! segment_of va = pt ! segment_of vb \<and> unat va mod 4096 = unat vb mod 4096"
    using assms(3) by (simp add: user_addr_def)
  moreover have "segment_of va = segment_of vb"
    using assms(1,2) o segment_of_less unfolding user_frames_distinct_def user_mapped_def by metis
  then have "unat va div 4096 = unat vb div 4096" by (simp add: segment_of_def unat_drop_bit)
  ultimately have "unat va = unat vb" by (metis div_mult_mod_eq)
  then show ?thesis by (simp add: word_unat_eq_iff)
qed

lemma user_store_frame:
  assumes "user_frames_distinct pt" and "\<forall>i < length bs. vb \<noteq> va + of_nat i" and "user_store pt va bs k = (r, k')"
    and "user_mapped pt vb"
  shows "ram (machine k') (user_addr pt vb) = ram (machine k) (user_addr pt vb)"
  using assms(2,3)
proof (induction bs arbitrary: va k)
  case Nil
  then show ?case by simp
next
  case (Cons b bs)
  show ?case
  proof (cases "user_mapped pt va")
    case True
    have later: "\<forall>i < length bs. vb \<noteq> va + 1 + of_nat i"
    proof (intro allI impI)
      fix i
      assume "i < length bs"
      then have "vb \<noteq> va + of_nat (Suc i)" using Cons.prems(1) by (metis Suc_less_eq length_Cons)
      then show "vb \<noteq> va + 1 + of_nat i" by (simp add: add.assoc)
    qed
    have "va \<noteq> vb" using spec [OF Cons.prems(1), of 0] by simp
    then have "user_addr pt vb \<noteq> user_addr pt va" using user_addr_inject [OF assms(1) True, of vb] by metis
    moreover have "user_store pt (va + 1) bs
        (k\<lparr>machine := (machine k)\<lparr>ram := (ram (machine k))(user_addr pt va := b)\<rparr>\<rparr>) = (r, k')"
      using Cons.prems(2) True by simp
    ultimately show ?thesis by (simp add: Cons.IH [OF later])
  next
    case False
    then show ?thesis using Cons.prems(2) by simp
  qed
qed

lemma user_store_load:
  assumes "user_frames_distinct pt" and "length bs \<le> 65536" and "user_store pt va bs k = (0, k')"
  shows "user_load pt va (length bs) k' = (0, bs)"
  using assms(2,3)
proof (induction bs arbitrary: va k)
  case Nil
  then show ?case by simp
next
  case (Cons b bs)
  let ?k = "k\<lparr>machine := (machine k)\<lparr>ram := (ram (machine k))(user_addr pt va := b)\<rparr>\<rparr>"
  have m: "user_mapped pt va" and s: "user_store pt (va + 1) bs ?k = (0, k')"
    using Cons.prems(2) by (simp_all split: if_splits)
  have "va \<noteq> va + 1 + of_nat i" if "i < length bs" for i
  proof
    assume "va = va + 1 + of_nat i"
    then have "(of_nat (Suc i) :: uint16) = 0" by (simp add: add.assoc)
    then have "unat (of_nat (Suc i) :: uint16) = 0" by simp
    moreover have "Suc i < 65536" using that Cons.prems(1) by simp
    ultimately show False by (simp only: unat_of_nat_range)
  qed
  then have "ram (machine k') (user_addr pt va) = b"
    using user_store_frame [OF assms(1) _ s m] by simp
  then show ?case using Cons.IH [of "va + 1" ?k] Cons.prems(1) s m by simp
qed

lemma user_store_keeps:
  assumes "user_store pt va bs k = (r, k')" and "length pt = 16"
  shows "\<exists>m. k' = k\<lparr>machine := (machine k)\<lparr>ram := m\<rparr>\<rparr> \<and>
    (\<forall>f i. f \<notin> set pt \<longrightarrow> i < 4096 \<longrightarrow> m (frame_addr f i) = ram (machine k) (frame_addr f i))"
  using assms(1)
proof (induction bs arbitrary: va k)
  case Nil
  then show ?case by (intro exI [of _ "ram (machine k)"]) simp
next
  case (Cons b bs)
  show ?case
  proof (cases "user_mapped pt va")
    case False
    then show ?thesis using Cons.prems by (intro exI [of _ "ram (machine k)"]) simp
  next
    case True
    define r0 where "r0 = (ram (machine k))(user_addr pt va := b)"
    have "pt ! segment_of va \<in> set pt" using assms(2) segment_of_less [of va] by simp
    then have u: "r0 (frame_addr f i) = ram (machine k) (frame_addr f i)" if "f \<notin> set pt" "i < 4096" for f i
      using that by (auto simp: r0_def user_addr_def)
    have "user_store pt (va + 1) bs (k\<lparr>machine := (machine k)\<lparr>ram := r0\<rparr>\<rparr>) = (r, k')"
      using Cons.prems True by (simp add: r0_def)
    from Cons.IH [OF this] obtain m where "k' = k\<lparr>machine := (machine k)\<lparr>ram := m\<rparr>\<rparr>"
      "\<forall>f i. f \<notin> set pt \<longrightarrow> i < 4096 \<longrightarrow> m (frame_addr f i) = r0 (frame_addr f i)" by auto
    with u show ?thesis by (intro exI [of _ m]) simp
  qed
qed

lemma user_store_pcb:
  assumes "user_store pt va bs k = (r, k')" and "length pt = 16" and "pcb_frame k p \<notin> set pt" and "off < 3584"
  shows "pcb_byte k' p off = pcb_byte k p off"
proof -
  from user_store_keeps [OF assms(1,2)] obtain m where
    m: "k' = k\<lparr>machine := (machine k)\<lparr>ram := m\<rparr>\<rparr>"
      "\<forall>f i. f \<notin> set pt \<longrightarrow> i < 4096 \<longrightarrow> m (frame_addr f i) = ram (machine k) (frame_addr f i)" by blast
  have "m (frame_addr (pcb_frame k p) (0x200 + off)) = ram (machine k) (frame_addr (pcb_frame k p) (0x200 + off))"
    using m(2) assms(3,4) by simp
  then show ?thesis by (simp add: m(1) pcb_byte_def frame_byte_def)
qed

text \<open>The whole functions, with the limit and the page table of the control block.\<close>

lemma pcb_limits:
  assumes "kmap k" and "pcb_ok k p"
  shows "proc_read_bytes p off_page_table PAGE_TABLE_SIZE k = (pcb_bytes k p off_page_table 16, k)"
    and "proc_get_16 p off_top k = (pcb_word k p off_top, k)"
    and "length (pcb_bytes k p off_page_table 16) = 16"
  using pcb_read [OF assms, of 0 16] pcb_access(3) [OF assms] by (simp_all add: pcb_bytes_def)

lemma copy_to_user_bytewise:
  assumes "kmap k" and "pcb_ok k p" and "MMU_LAST_FRAME \<notin> set (pcb_bytes k p off_page_table 16)"
    and "unat n \<le> length src"
  shows "copy_to_user src va n p k =
      (if pcb_word k p off_top \<le> va then (- 1, k)
       else user_store (pcb_bytes k p off_page_table 16) va (take (unat n) src) k)"
  using copy_to_user_loop_refines [OF assms(1,3) pcb_limits(3) [OF assms(1,2)] assms(4)]
  by (simp add: copy_to_user_def pcb_limits [OF assms(1,2)])

lemma copy_from_user_bytewise:
  assumes "kmap k" and "pcb_ok k p" and "MMU_LAST_FRAME \<notin> set (pcb_bytes k p off_page_table 16)"
  shows "copy_from_user va n p k =
      (if pcb_word k p off_top \<le> va then (- 1, [], k)
       else (let (r, bs) = user_load (pcb_bytes k p off_page_table 16) va (unat n) k in (r, bs, k)))"
  using copy_from_user_loop_refines [OF assms(1,3) pcb_limits(3) [OF assms(1,2)]]
  by (simp add: copy_from_user_def pcb_limits [OF assms(1,2)])

end
