(* ===== verification/Kernel_Sched.thy ===== *)
theory Kernel_Sched
  imports Kernel_Proc
begin

text \<open>
  Laws of the process layer: what waking changes, which process the round-robin scan finds and how
  long a ready process waits, and what a context switch saves and restores.
\<close>

section \<open>States of processes\<close>

lemma set_state_frame [simp]:
  "machine (set_state p s k) = machine k"
  "kernel_page_table (set_state p s k) = kernel_page_table k"
  "current_process (set_state p s k) = current_process k"
  "free_list (set_state p s k) = free_list k"
  "round_robin_index (set_state p s k) = round_robin_index k"
  "length (proc_table (set_state p s k)) = length (proc_table k)"
  by (simp_all add: set_state_def free_list_def)

lemma set_state_nth:
  "q < length (proc_table k) \<Longrightarrow> proc_table (set_state p s k) ! q =
     (if q = p then (proc_table k ! q)\<lparr>proc_state := s\<rparr> else proc_table k ! q)"
  by (simp add: set_state_def nth_list_update)

lemma set_state_low_memory [simp]:
  "q < length (proc_table k) \<Longrightarrow>
     kernel_low_memory (proc_table (set_state p s k) ! q) = kernel_low_memory (proc_table k ! q)"
  by (simp add: set_state_nth)

text \<open>The bookkeeping of the mapping does not depend on the states of the processes.\<close>

lemma kmap_cong:
  assumes "kmap k" and "machine k' = machine k" and "kernel_page_table k' = kernel_page_table k"
    and "current_process k' = current_process k" and "length (proc_table k') = length (proc_table k)"
    and "\<And>q. q < length (proc_table k) \<Longrightarrow>
      kernel_low_memory (proc_table k' ! q) = kernel_low_memory (proc_table k ! q)"
  shows "kmap k'"
  using assms unfolding kmap_def all_set_conv_all_nth by simp

lemma set_state_kmap: "kmap k \<Longrightarrow> kmap (set_state p s k)"
  by (erule kmap_cong) simp_all

lemma set_state_pcb:
  assumes "kmap k" and "q < MAX_PROC_COUNT"
  shows "pcb_ok (set_state p s k) q = pcb_ok k q" and "pcb_word (set_state p s k) q off = pcb_word k q off"
proof -
  have "pcb_frame (set_state p s k) q = pcb_frame k q" using assms by (simp add: kmap_def)
  then show "pcb_ok (set_state p s k) q = pcb_ok k q" "pcb_word (set_state p s k) q off = pcb_word k q off"
    by (simp_all add: pcb_ok_def pcb_word_def pcb_byte_def frame_byte_def)
qed

section \<open>Waking\<close>

definition sleeps_on :: "kernel \<Rightarrow> uint16 \<Rightarrow> nat \<Rightarrow> bool" where
  "sleeps_on k channel p \<longleftrightarrow>
     proc_state (proc_table k ! p) = PROC_STATE_SLEEPING \<and> pcb_word k p off_channel = channel"

definition sleepers_ok :: "kernel \<Rightarrow> bool" where
  "sleepers_ok k \<longleftrightarrow> (\<forall>p < MAX_PROC_COUNT. proc_state (proc_table k ! p) = PROC_STATE_SLEEPING \<longrightarrow> pcb_ok k p)"

definition woken :: "uint16 \<Rightarrow> nat \<Rightarrow> kernel \<Rightarrow> kernel" where
  "woken channel n k = k\<lparr>proc_table :=
     map (\<lambda>p. if p < n \<and> sleeps_on k channel p then (proc_table k ! p)\<lparr>proc_state := PROC_STATE_READY\<rparr>
              else proc_table k ! p) [0..<length (proc_table k)]\<rparr>"

lemma woken_0: "woken channel 0 k = k"
  by (simp add: woken_def map_nth)

lemma woken_frame [simp]:
  "machine (woken channel n k) = machine k" "kernel_page_table (woken channel n k) = kernel_page_table k"
  "current_process (woken channel n k) = current_process k" "free_list (woken channel n k) = free_list k"
  "length (proc_table (woken channel n k)) = length (proc_table k)"
  by (simp_all add: woken_def free_list_def)

lemma woken_nth:
  "q < length (proc_table k) \<Longrightarrow> proc_table (woken channel n k) ! q =
     (if q < n \<and> sleeps_on k channel q then (proc_table k ! q)\<lparr>proc_state := PROC_STATE_READY\<rparr>
      else proc_table k ! q)"
  by (simp add: woken_def)

lemma woken_low_memory [simp]:
  "q < length (proc_table k) \<Longrightarrow>
     kernel_low_memory (proc_table (woken channel n k) ! q) = kernel_low_memory (proc_table k ! q)"
  by (simp add: woken_nth)

lemma woken_kmap: "kmap k \<Longrightarrow> kmap (woken channel n k)"
  by (erule kmap_cong) simp_all

lemma woken_step:
  assumes "kmap k" and "sleepers_ok k" and "i < MAX_PROC_COUNT"
  shows "wakeup_at channel i (woken channel i k) = woken channel (Suc i) k"
proof -
  let ?k = "woken channel i k"
  have l: "length (proc_table k) = MAX_PROC_COUNT" using assms(1) by (simp add: kmap_def)
  have same: "proc_table ?k ! i = proc_table k ! i" using assms(3) l by (simp add: woken_nth)
  let ?p = "if sleeps_on k channel i then (proc_table k ! i)\<lparr>proc_state := PROC_STATE_READY\<rparr> else proc_table k ! i"
  have "proc_table (woken channel (Suc i) k) = (proc_table ?k)[i := ?p]"
    using assms(3) l by (intro nth_equalityI) (auto simp: woken_nth nth_list_update less_Suc_eq)
  then have ext: "woken channel (Suc i) k = ?k\<lparr>proc_table := (proc_table ?k)[i := ?p]\<rparr>"
    by (simp add: woken_def)
  show ?thesis
  proof (cases "proc_state (proc_table k ! i) = PROC_STATE_SLEEPING")
    case False
    moreover have "(proc_table ?k)[i := proc_table k ! i] = proc_table ?k"
      using same by (metis list_update_id)
    ultimately show ?thesis by (simp add: wakeup_at_def same ext sleeps_on_def)
  next
    case True
    then have "pcb_ok k i" using assms(2,3) by (simp add: sleepers_ok_def)
    then have "pcb_ok ?k i" using same by (simp add: pcb_ok_def)
    then have "proc_get_16 i off_channel ?k = (pcb_word ?k i off_channel, ?k)"
      using assms(1) by (intro pcb_access(3)) (simp_all add: woken_kmap)
    moreover have "pcb_word ?k i off_channel = pcb_word k i off_channel"
      using same by (simp add: pcb_word_def pcb_byte_def frame_byte_def)
    moreover have "(proc_table ?k)[i := proc_table k ! i] = proc_table ?k"
      using same by (metis list_update_id)
    ultimately show ?thesis
      using True by (simp add: wakeup_at_def same ext sleeps_on_def set_state_def)
  qed
qed

lemma wakeup_prefix:
  assumes "kmap k" and "sleepers_ok k" and "n \<le> MAX_PROC_COUNT"
  shows "fold (wakeup_at channel) [0..<n] k = woken channel n k"
  using assms(3)
proof (induction n)
  case 0
  then show ?case by (simp add: woken_0)
next
  case (Suc n)
  then show ?case using woken_step [OF assms(1,2), of n channel] by simp
qed

lemma wakeup_effect:
  assumes "kmap k" and "sleepers_ok k"
  shows "wakeup channel k = woken channel MAX_PROC_COUNT k"
  unfolding wakeup_def by (rule wakeup_prefix [OF assms order_refl])

section \<open>The round-robin scan\<close>

abbreviation rr :: "kernel \<Rightarrow> nat \<Rightarrow> nat" where
  "rr k d \<equiv> (unat (round_robin_index k) + d) mod 512"

definition rr_ok :: "kernel \<Rightarrow> bool" where
  "rr_ok k \<longleftrightarrow> unat (round_robin_index k) < MAX_PROC_COUNT"

lemma rr_advance:
  assumes "rr_ok k"
  shows "(if round_robin_index k + 1 \<ge> of_nat MAX_PROC_COUNT then 0 else round_robin_index k + 1) =
    of_nat (rr k 1)"
proof -
  let ?r = "unat (round_robin_index k)"
  have r: "?r < 512" using assms by (simp add: rr_ok_def)
  then have u: "unat (round_robin_index k + 1) = Suc ?r" by (simp add: unat_word_ariths)
  show ?thesis
  proof (cases "?r = 511")
    case True
    then show ?thesis using u by (simp add: word_le_nat_alt)
  next
    case False
    then have "rr k 1 = Suc ?r" using r by simp
    moreover have "(of_nat (Suc ?r) :: uint16) = round_robin_index k + 1" by simp
    ultimately show ?thesis using u False r by (simp only: word_le_nat_alt) simp
  qed
qed

lemma rr_shift: "(a mod 512 + d) mod 512 = (a + d) mod (512 :: nat)"
  by (simp add: mod_add_left_eq)

lemma scan_result:
  assumes "rr_ok k"
  shows "(\<exists>d < n. runnable k (rr k d) \<and> (\<forall>e < d. \<not> runnable k (rr k e)) \<and>
       scheduler_scan n k = (Some (rr k d), k\<lparr>round_robin_index := of_nat (rr k (Suc d))\<rparr>)) \<or>
     (\<forall>d < n. \<not> runnable k (rr k d)) \<and>
       scheduler_scan n k = (None, k\<lparr>round_robin_index := of_nat (rr k n)\<rparr>)"
  using assms
proof (induction n arbitrary: k)
  case 0
  then have "rr k 0 = unat (round_robin_index k)" by (simp add: rr_ok_def)
  then show ?case by simp
next
  case (Suc n)
  let ?k = "k\<lparr>round_robin_index := of_nat (rr k 1)\<rparr>"
  have p: "rr k 0 = unat (round_robin_index k)" using Suc.prems by (simp add: rr_ok_def)
  have run: "runnable (k\<lparr>round_robin_index := j\<rparr>) q = runnable k q" for j q by (simp add: runnable_def)
  have step: "scheduler_scan (Suc n) k =
      (if runnable k (rr k 0) then (Some (rr k 0), ?k) else scheduler_scan n ?k)"
    using rr_advance [OF Suc.prems] run unfolding scheduler_scan.simps Let_def p
    by (simp split: if_splits)
  have rr1: "rr ?k d = rr k (Suc d)" for d
  proof -
    have "unat (of_nat (rr k 1) :: uint16) = rr k 1"
      by (rule unat_of_nat_range) (simp add: less_trans [OF mod_less_divisor])
    then show ?thesis by (simp add: rr_shift)
  qed
  have ok: "rr_ok ?k"
    using rr1 [of 0] by (simp add: rr_ok_def)
  show ?case
  proof (cases "runnable k (rr k 0)")
    case True
    then show ?thesis by (intro disjI1 exI [of _ 0]) (simp del: scheduler_scan.simps add: step)
  next
    case False
    then have s: "scheduler_scan (Suc n) k = scheduler_scan n ?k" by (simp only: step if_False)
    from Suc.IH [OF ok] show ?thesis
    proof (elim disjE exE conjE)
      fix d
      assume d: "d < n" "runnable ?k (rr ?k d)" "\<forall>e < d. \<not> runnable ?k (rr ?k e)"
        "scheduler_scan n ?k = (Some (rr ?k d), ?k\<lparr>round_robin_index := of_nat (rr ?k (Suc d))\<rparr>)"
      then have "\<forall>e < Suc d. \<not> runnable k (rr k e)"
        using False unfolding rr1 run by (metis less_Suc_eq_0_disj)
      then show ?thesis
        using d unfolding s rr1 run by (intro disjI1 exI [of _ "Suc d"]) simp
    next
      assume d: "\<forall>d < n. \<not> runnable ?k (rr ?k d)"
        "scheduler_scan n ?k = (None, ?k\<lparr>round_robin_index := of_nat (rr ?k n)\<rparr>)"
      then have "\<forall>d < Suc n. \<not> runnable k (rr k d)"
        using False unfolding rr1 run by (metis less_Suc_eq_0_disj)
      then show ?thesis using d unfolding s rr1 run by (intro disjI2) simp
    qed
  qed
qed

lemma scan_frame:
  assumes "rr_ok k"
  shows "rr_ok (snd (scheduler_scan n k))" and "proc_table (snd (scheduler_scan n k)) = proc_table k"
proof -
  from scan_result [OF assms, of n] show "rr_ok (snd (scheduler_scan n k))"
    by (elim disjE exE conjE) (simp_all add: rr_ok_def)
  from scan_result [OF assms, of n] show "proc_table (snd (scheduler_scan n k)) = proc_table k"
    by (elim disjE exE conjE) simp_all
qed

text \<open>
  How many other processes the scan may pass before it reaches \<open>p\<close>. A scan that finds another
  process moves the index closer to \<open>p\<close>.
\<close>

definition rr_distance :: "kernel \<Rightarrow> nat \<Rightarrow> nat" where
  "rr_distance k p = (p + MAX_PROC_COUNT - unat (round_robin_index k)) mod 512"

lemma rr_distance_less: "rr_distance k p < MAX_PROC_COUNT"
  by (simp add: rr_distance_def)

lemma rr_distance_reaches:
  assumes "rr_ok k" and "p < MAX_PROC_COUNT"
  shows "rr k (rr_distance k p) = p"
proof -
  have "rr k (rr_distance k p) = (unat (round_robin_index k) + (p + 512 - unat (round_robin_index k))) mod 512"
    unfolding rr_distance_def by (simp add: mod_add_right_eq)
  also have "\<dots> = (p + 512) mod 512" using assms(1) by (simp add: rr_ok_def)
  finally show ?thesis using assms(2) by simp
qed

lemma mod_diff_nat:
  fixes a b n :: nat
  assumes "b \<le> a" and "0 < n"
  shows "(a mod n + n - b mod n) mod n = (a - b) mod n"
proof -
  have "b mod n \<le> a mod n + n" using assms(2) by (simp add: less_imp_le trans_le_add2)
  then have "int ((a mod n + n - b mod n) mod n) = ((int a mod int n - int b mod int n) + int n) mod int n"
    by (simp add: of_nat_diff of_nat_mod algebra_simps)
  also have "\<dots> = (int a mod int n - int b mod int n) mod int n" by simp
  also have "\<dots> = int ((a - b) mod n)" using assms(1) by (simp add: mod_diff_eq of_nat_mod of_nat_diff)
  finally show ?thesis by simp
qed

lemma rr_distance_advance:
  assumes "rr_ok k" and "p < MAX_PROC_COUNT" and "d < rr_distance k p"
    and "round_robin_index k' = of_nat (rr k (Suc d))"
  shows "rr_distance k' p < rr_distance k p" and "rr_ok k'"
proof -
  let ?r = "unat (round_robin_index k)" and ?D = "rr_distance k p"
  have r: "?r < 512" using assms(1) by (simp add: rr_ok_def)
  have D: "?D < 512" by (rule rr_distance_less)
  have u: "unat (round_robin_index k') = rr k (Suc d)"
    unfolding assms(4) by (rule unat_of_nat_range) (simp add: less_trans [OF mod_less_divisor])
  then show "rr_ok k'" by (simp add: rr_ok_def)
  have "p = rr k ?D" using rr_distance_reaches [OF assms(1,2)] by simp
  then have "rr_distance k' p = ((?r + ?D) mod 512 + 512 - (?r + Suc d) mod 512) mod 512"
    unfolding rr_distance_def u by simp
  also have "\<dots> = ((?r + ?D) - (?r + Suc d)) mod 512" using assms(3) by (intro mod_diff_nat) simp_all
  finally show "rr_distance k' p < ?D" using assms(3) D by simp
qed

lemma scan_progress:
  assumes "rr_ok k" and "p < MAX_PROC_COUNT" and "runnable k p"
    and "scheduler_scan MAX_PROC_COUNT k = (found, k')"
  shows "found = Some p \<or> rr_distance k' p < rr_distance k p \<and> rr_ok k'"
proof -
  have D: "rr_distance k p < MAX_PROC_COUNT" "runnable k (rr k (rr_distance k p))"
    using assms(1-3) by (simp_all only: rr_distance_less rr_distance_reaches)
  with scan_result [OF assms(1), of MAX_PROC_COUNT] obtain d where d: "d < MAX_PROC_COUNT"
    "\<forall>e < d. \<not> runnable k (rr k e)" "found = Some (rr k d)" "k' = k\<lparr>round_robin_index := of_nat (rr k (Suc d))\<rparr>"
    using assms(4) by (metis prod.inject)
  then have "d \<le> rr_distance k p" using D(2) by (meson not_le_imp_less)
  then consider "d = rr_distance k p" | "d < rr_distance k p" by fastforce
  then show ?thesis
  proof cases
    case 1
    then show ?thesis using d(3) rr_distance_reaches [OF assms(1,2)] by simp
  next
    case 2
    then show ?thesis using rr_distance_advance [OF assms(1,2) 2, of k'] d(4) by simp
  qed
qed

text \<open>
  A sequence of scheduler calls: only the scheduler moves its index. A process that is ready at
  every call is chosen by one of the first 512.
\<close>

lemma bounded_waiting_from:
  assumes "\<And>n. round_robin_index (ks (Suc n)) = round_robin_index (snd (scheduler_scan MAX_PROC_COUNT (ks n)))"
    and "\<And>n. runnable (ks n) p" and "p < MAX_PROC_COUNT" and "rr_ok (ks 0)"
  shows "\<exists>n \<le> rr_distance (ks 0) p. fst (scheduler_scan MAX_PROC_COUNT (ks n)) = Some p"
  using assms
proof (induction "rr_distance (ks 0) p" arbitrary: ks rule: less_induct)
  case less
  obtain found k' where f: "scheduler_scan MAX_PROC_COUNT (ks 0) = (found, k')" by fastforce
  from scan_progress [OF less.prems(4,3) less.prems(2) f] show ?case
  proof
    assume "found = Some p"
    then show ?thesis using f by (intro exI [of _ 0]) simp
  next
    assume c: "rr_distance k' p < rr_distance (ks 0) p \<and> rr_ok k'"
    have i: "round_robin_index (ks (Suc 0)) = round_robin_index k'" using less.prems(1) [of 0] f by simp
    let ?ks = "\<lambda>n. ks (Suc n)"
    have e: "rr_distance (?ks 0) p = rr_distance k' p" "rr_ok (?ks 0)"
      using i c by (simp_all add: rr_distance_def rr_ok_def)
    have "rr_distance (?ks 0) p < rr_distance (ks 0) p" using e c by simp
    then have "\<exists>n \<le> rr_distance (?ks 0) p. fst (scheduler_scan MAX_PROC_COUNT (?ks n)) = Some p"
      by (rule less.hyps) (rule less.prems(1) less.prems(2) less.prems(3) e(2))+
    then obtain n where "n \<le> rr_distance (?ks 0) p" "fst (scheduler_scan MAX_PROC_COUNT (?ks n)) = Some p"
      by blast
    then show ?thesis using e(1) c by (intro exI [of _ "Suc n"]) simp
  qed
qed

section \<open>Dispatch and context switch\<close>

definition windows_agree :: "kernel \<Rightarrow> nat \<Rightarrow> bool" where
  "windows_agree k p \<longleftrightarrow>
     (\<forall>w \<in> {1, 2}. kernel_low_memory (proc_table k ! p) ! w = kernel_page_table k ! w)"

lemma kmap_current:
  "kmap k \<Longrightarrow> p < MAX_PROC_COUNT \<Longrightarrow> windows_agree k p \<Longrightarrow> kmap (k\<lparr>current_process := Some p\<rparr>)"
  by (simp add: kmap_def windows_agree_def)

lemma dispatch_effect:
  assumes "kmap k" and "pcb_ok k p" and "windows_agree k p"
  shows "snd (scheduler_dispatch old p k) =
    pcb_write p off_ticks [QUANTUM] ((set_state p PROC_STATE_RUNING k)\<lparr>current_process := Some p\<rparr>)"
proof -
  let ?k = "(set_state p PROC_STATE_RUNING k)\<lparr>current_process := Some p\<rparr>"
  have p: "p < MAX_PROC_COUNT" "p < length (proc_table k)"
    using assms(1,2) by (simp_all add: pcb_ok_def kmap_def)
  have "windows_agree (set_state p PROC_STATE_RUNING k) p"
    using assms(3) p by (simp add: windows_agree_def)
  then have "kmap ?k" using kmap_current [OF set_state_kmap [OF assms(1)] p(1)] by blast
  moreover have "pcb_ok ?k p" using assms(2) p by (simp add: pcb_ok_def)
  ultimately have "proc_set_8 p off_ticks QUANTUM ?k = pcb_write p off_ticks [QUANTUM] ?k"
    by (intro pcb_access(2)) simp_all
  then show ?thesis by (simp add: scheduler_dispatch_def Let_def)
qed

lemma dispatched:
  assumes "kmap k" and "pcb_ok k p" and "windows_agree k p"
  shows "proc_state (proc_table (snd (scheduler_dispatch old p k)) ! p) = PROC_STATE_RUNING"
    and "current_process (snd (scheduler_dispatch old p k)) = Some p"
    and "pcb_byte (snd (scheduler_dispatch old p k)) p off_ticks = QUANTUM"
    and "q < MAX_PROC_COUNT \<Longrightarrow> q \<noteq> p \<Longrightarrow>
      proc_table (snd (scheduler_dispatch old p k)) ! q = proc_table k ! q"
    and "kmap (snd (scheduler_dispatch old p k))"
proof -
  have p: "p < MAX_PROC_COUNT" "length (proc_table k) = MAX_PROC_COUNT"
    using assms(1,2) by (simp_all add: pcb_ok_def kmap_def)
  note e = dispatch_effect [OF assms, of old]
  show "proc_state (proc_table (snd (scheduler_dispatch old p k)) ! p) = PROC_STATE_RUNING"
    "current_process (snd (scheduler_dispatch old p k)) = Some p"
    "pcb_byte (snd (scheduler_dispatch old p k)) p off_ticks = QUANTUM"
    using p by (simp_all add: e set_state_nth)
  show "proc_table (snd (scheduler_dispatch old p k)) ! q = proc_table k ! q"
    if "q < MAX_PROC_COUNT" "q \<noteq> p" using p that by (simp add: e set_state_nth)
  have "windows_agree (set_state p PROC_STATE_RUNING k) p" using assms(3) p by (simp add: windows_agree_def)
  then show "kmap (snd (scheduler_dispatch old p k))"
    using kmap_current [OF set_state_kmap [OF assms(1)] p(1)] by (simp add: e)
qed

lemma page_table_MMIO:
  assumes "page_table (mmu (machine k)) ! 15 = 15" and "w < 15"
  shows "MMIO8_write (0xfe20 + of_nat w) f k =
    k\<lparr>machine := (machine k)\<lparr>mmu := (mmu (machine k))\<lparr>page_table := (page_table (mmu (machine k)))[w := f]\<rparr>\<rparr>\<rparr>"
  using page_table_access(2) [of "machine k" w f] assms by (simp add: MMIO8_write_def)

text \<open>The process table once the old process is saved, and the state once \<open>low\<close> is loaded.\<close>

definition saved_table :: "nat \<Rightarrow> uint8 \<Rightarrow> kernel \<Rightarrow> Proc list" where
  "saved_table old ksp k = (proc_table k)[old := (proc_table k ! old)\<lparr>kernel_low_memory :=
      (kernel_low_memory (proc_table k ! old))[0 := kernel_page_table k ! 0, 1 := kernel_page_table k ! 1,
        2 := kernel_page_table k ! 2], proc_ksp := ksp\<rparr>]"

definition load_low :: "frame_t list \<Rightarrow> kernel \<Rightarrow> kernel" where
  "load_low low k =
     k\<lparr>machine := (machine k)\<lparr>mmu := (mmu (machine k))\<lparr>page_table :=
         (page_table (mmu (machine k)))[2 := low ! 2, 1 := low ! 1, 0 := low ! 0]\<rparr>\<rparr>,
       kernel_page_table := (kernel_page_table k)[2 := low ! 2, 1 := low ! 1, 0 := low ! 0]\<rparr>"

lemma context_switch_effect:
  assumes "kmap k"
  shows "context_switch old new ksp k =
    (proc_ksp (saved_table old ksp k ! new),
     load_low (kernel_low_memory (saved_table old ksp k ! new)) (k\<lparr>proc_table := saved_table old ksp k\<rparr>))"
proof -
  have pt: "page_table (mmu (machine k)) ! 15 = 15" using assms by (simp add: kmap_def)
  show ?thesis
    unfolding context_switch_def saved_table_def [symmetric] Let_def load_low_def
    using pt by (simp add: page_table_MMIO [of _ 0, simplified]
        page_table_MMIO [of _ 1, simplified] page_table_MMIO [of _ 2, simplified])
qed

end
