(* ===== verification/Kernel_IO.thy ===== *)
theory Kernel_IO
  imports Kernel_Proc
begin

text \<open>
  Kernel code that may wait. A C function that sleeps, yields or polls a device gives the rest of the
  system a chance to run in the middle of it. Such a function is an action: it takes the list of what the
  rest of the system does at its successive waits and the state, and gives its result, the waits left
  over and the new state. The outcome \<open>None\<close> means that the function has not returned: the list ended
  at a wait, or a loop does not end; a panic is the error value of \<open>kresult\<close>. The synchronous character
  routines of \<^verbatim>\<open>uart.c\<close>, on which all output of the kernel rests, are the first such actions.
\<close>

section \<open>Actions\<close>

type_synonym waits = "(kernel \<Rightarrow> kernel) list"

type_synonym 'a io = "waits \<Rightarrow> kernel \<Rightarrow> ('a \<times> waits \<times> kernel) kresult option"

definition io_return :: "'a \<Rightarrow> 'a io" where
  [kernel_defs]: "io_return x ws k = Some (Inr (x, ws, k))"

definition io_panic :: "string \<Rightarrow> 'a io" where
  [kernel_defs]: "io_panic msg ws k = Some (Inl (Panic msg))"

definition io_bind :: "'a io \<Rightarrow> ('a \<Rightarrow> 'b io) \<Rightarrow> 'b io" where
  "io_bind act f ws k =
     Option.bind (act ws k) (\<lambda>r. case r of Inl e \<Rightarrow> Some (Inl e) | Inr (x, ws1, k1) \<Rightarrow> f x ws1 k1)"

definition io_then :: "unit io \<Rightarrow> 'b io \<Rightarrow> 'b io" where
  [kernel_defs]: "io_then act f = io_bind act (\<lambda>_. f)"

text \<open>Code that does not wait: a change of the state, one with a result, one that may panic.\<close>

definition io_do :: "(kernel \<Rightarrow> kernel) \<Rightarrow> unit io" where
  [kernel_defs]: "io_do f ws k = Some (Inr ((), ws, f k))"

definition io_run :: "(kernel \<Rightarrow> 'a \<times> kernel) \<Rightarrow> 'a io" where
  [kernel_defs]: "io_run f ws k = Some (Inr (fst (f k), ws, snd (f k)))"

definition io_try :: "(kernel \<Rightarrow> kernel kresult) \<Rightarrow> unit io" where
  [kernel_defs]: "io_try f ws k = Some (case f k of Inl e \<Rightarrow> Inl e | Inr k1 \<Rightarrow> Inr ((), ws, k1))"

definition io_get :: "(kernel \<Rightarrow> 'a) \<Rightarrow> 'a io" where
  [kernel_defs]: "io_get f ws k = Some (Inr (f k, ws, k))"

text \<open>Code that waits once: \<open>f\<close> is applied to what happens during the wait.\<close>

definition io_wait :: "((kernel \<Rightarrow> kernel) \<Rightarrow> kernel \<Rightarrow> kernel) \<Rightarrow> unit io" where
  [kernel_defs]: "io_wait f ws k = (case ws of [] \<Rightarrow> None | r # ws1 \<Rightarrow> Some (Inr ((), ws1, f r k)))"

lemma io_bind_simps [simp]:
  "io_bind (io_return x) f ws k = f x ws k"
  "io_bind (io_panic msg) f ws k = Some (Inl (Panic msg))"
  "io_bind (io_do g) h ws k = h () ws (g k)"
  "io_bind (io_run p) f ws k = f (fst (p k)) ws (snd (p k))"
  "io_bind (io_get q) f ws k = f (q k) ws k"
  by (simp_all add: io_bind_def io_return_def io_panic_def io_do_def io_run_def io_get_def)

lemma io_bind_result:
  "act ws k = Some (Inr (x, ws1, k1)) \<Longrightarrow> io_bind act f ws k = f x ws1 k1"
  by (simp add: io_bind_def)

lemma io_then_simps [simp]:
  "io_then (io_do g) h ws k = h ws (g k)"
  "io_then (io_return ()) h ws k = h ws k"
  by (simp_all add: io_then_def)

lemma io_wait_simps [simp]:
  "io_then (io_wait f) g [] k = None" "io_then (io_wait f) g (w # ws) k = g ws (f w k)"
  by (simp_all add: io_then_def io_bind_def io_wait_def)

lemma io_then_result:
  "act ws k = Some (Inr ((), ws1, k1)) \<Longrightarrow> io_then act f ws k = f ws1 k1"
  by (simp add: io_then_def io_bind_result)

lemma io_bind_mono [partial_function_mono]:
  assumes "\<And>ws k. mono_option (\<lambda>g. act g ws k)" and "\<And>x ws k. mono_option (\<lambda>g. f g x ws k)"
  shows "mono_option (\<lambda>g. io_bind (act g) (f g) ws k)"
  unfolding io_bind_def
proof (rule bind_mono [OF assms(1)])
  fix r
  show "mono_option (\<lambda>g. case r of Inl e \<Rightarrow> Some (Inl e) | Inr (x, ws1, k1) \<Rightarrow> f g x ws1 k1)"
    by (cases r) (auto simp only: sum.case intro: option.const_mono assms(2) split: prod.split)
qed

lemma io_then_mono [partial_function_mono]:
  assumes "\<And>ws k. mono_option (\<lambda>g. act g ws k)" and "\<And>ws k. mono_option (\<lambda>g. f g ws k)"
  shows "mono_option (\<lambda>g. io_then (act g) (f g) ws k)"
  unfolding io_then_def by (intro io_bind_mono assms)

lemma io_if_mono [partial_function_mono]:
  assumes "mono_option (\<lambda>g. f g ws k)" and "mono_option (\<lambda>g. h g ws k)"
  shows "mono_option (\<lambda>g. (if b then f g else h g) ws k)"
  using assms by (cases b) simp_all

fun io_for :: "'a list \<Rightarrow> ('a \<Rightarrow> unit io) \<Rightarrow> unit io" where
  "io_for [] f = io_return ()"
| "io_for (x # xs) f = io_then (f x) (io_for xs f)"

section \<open>Characters\<close>

text \<open>
  Waiting for a bit of the status register: between two polls the rest of the system runs.
\<close>

fun uart_poll :: "uint8 \<Rightarrow> ((kernel \<Rightarrow> kernel) \<Rightarrow> kernel \<Rightarrow> kernel) \<Rightarrow> unit io" where
  "uart_poll flag step ws k =
     (let (stat, k1) = MMIO8_read 0xfe12 k
      in if stat AND flag \<noteq> 0 then Some (Inr ((), ws, k1))
         else case ws of [] \<Rightarrow> None | w # ws1 \<Rightarrow> uart_poll flag step ws1 (step w k1))"

declare uart_poll.simps [simp del]

definition uart_putc_sync :: "uint8 \<Rightarrow> unit io" where
  "uart_putc_sync c =
     io_then (uart_poll UART_STATUS_TX_READY (\<lambda>w k. w k)) (io_do (MMIO8_write 0xfe10 c))"

definition uart_putc :: "uint8 \<Rightarrow> unit io" where
  "uart_putc c =
     io_then (uart_poll UART_STATUS_TX_READY yield) (io_do (MMIO8_write 0xfe10 c))"

definition uart_getc_sync :: "uint8 io" where
  "uart_getc_sync =
     io_then (uart_poll UART_STATUS_RX_READY (\<lambda>w k. w k)) (io_run (MMIO8_read 0xfe11))"

end
