(* ===== verification/Kernel_Syscalls.thy ===== *)
theory Kernel_Syscalls
  imports Kernel_Copy Kernel_Sched Kernel_IO
begin

text \<open>
  The system calls of the process layer (\<^verbatim>\<open>proc.c\<close>) and the fetching of their arguments
  (\<^verbatim>\<open>syscall.c\<close>). A result of type \<^verbatim>\<open>int\<close> is given as its 16 bits, so that -1 is \<open>0xFFFF\<close>. A call that
  sleeps or yields is an action in the sense of \<open>Kernel_IO\<close>.
\<close>

abbreviation (input) cur :: "kernel \<Rightarrow> nat" where "cur k \<equiv> the (current_process k)"

section \<open>Arguments\<close>

abbreviation SYSCALL_ARGUMENT_SIZE :: uint16 where "SYSCALL_ARGUMENT_SIZE \<equiv> 6"

definition syscall_populate_argument :: "kernel \<Rightarrow> bool \<times> uint8 list \<times> kernel" where
  "syscall_populate_argument k =
     (let (ax, k1) = proc_get_16 (cur k) off_ctx_a k;
          (r, bytes, k2) = copy_from_user ax SYSCALL_ARGUMENT_SIZE (cur k1) k1
      in (\<not> r < 0, bytes, k2))"

definition argument_32 :: "uint8 list \<Rightarrow> uint32" where
  "argument_32 bs = of_nat (unat (bs ! 0) + 256 * unat (bs ! 1) + 65536 * unat (bs ! 2) + 16777216 * unat (bs ! 3))"

section \<open>getpid, sleep\<close>

definition sys_getpid :: "kernel \<Rightarrow> uint16 \<times> kernel" where
  "sys_getpid k = proc_get_16 (cur k) off_pid k"

fun sys_sleep_loop :: "uint32 \<Rightarrow> unit io" where
  "sys_sleep_loop total_ticks ws k =
     (if systicks k \<ge> total_ticks then Some (Inr ((), ws, k))
      else
        (let k1 = (if total_ticks < next_wakeup_call k then k\<lparr>next_wakeup_call := total_ticks\<rparr> else k)
         in case ws of
              [] \<Rightarrow> None
            | w # ws1 \<Rightarrow> sys_sleep_loop total_ticks ws1 (sleep (systicks_addr (sym k1)) w k1)))"

declare sys_sleep_loop.simps [simp del]

definition sys_sleep :: "uint16 io" where
  "sys_sleep =
     io_bind (io_run (\<lambda>k. proc_get_16 (cur k) off_ctx_a k)) (\<lambda>ax.
     io_bind (io_run (\<lambda>k. let (ok, arg, k1) = syscall_populate_argument k in ((ok, arg), k1))) (\<lambda>(ok, arg).
       if \<not> ok then io_return 0xFFFF
       else
         io_then (io_do INTER_OFF)
           (io_bind (io_get systicks) (\<lambda>now.
              let tick_sum = argument_32 arg + now;
                  total_ticks = (if tick_sum < now then 0xFFFFFFFF else tick_sum)
              in io_then (sys_sleep_loop total_ticks) (io_then (io_do INTER_ON) (io_return 0))))))"

section \<open>sbrk\<close>

text \<open>
  The sum of a \<^verbatim>\<open>uint16_t\<close> and an \<^verbatim>\<open>int16_t\<close> is computed with the 16 bits of the compiler's \<^verbatim>\<open>unsigned int\<close>
  and only then widened.
\<close>

fun sbrk_rollback :: "nat \<Rightarrow> nat \<Rightarrow> frame_t list \<Rightarrow> kernel \<Rightarrow> kernel" where
  "sbrk_rollback 0 old_segment pt k = k"
| "sbrk_rollback (Suc s) old_segment pt k =
     (if Suc s > old_segment
      then if pt ! Suc s \<noteq> FRAME_UNUSED
           then sbrk_rollback s old_segment (pt[Suc s := FRAME_UNUSED]) (kfree (pt ! Suc s) k)
           else sbrk_rollback s old_segment pt k
      else k)"

function sbrk_grow :: "nat \<Rightarrow> nat \<Rightarrow> nat \<Rightarrow> frame_t list \<Rightarrow> kernel \<Rightarrow> (frame_t list option) \<times> kernel" where
  "sbrk_grow old_segment segment new_segment pt k =
     (if segment \<le> new_segment
      then if pt ! segment = FRAME_UNUSED
           then (let (frame, k1) = kalloc k
                 in if frame = FRAME_UNUSED then (None, sbrk_rollback segment old_segment pt k1)
                    else sbrk_grow old_segment (Suc segment) new_segment (pt[segment := frame]) k1)
           else sbrk_grow old_segment (Suc segment) new_segment pt k
      else (Some pt, k))"
  by pat_completeness auto
termination
  by (relation "measure (\<lambda>(old_segment, segment, new_segment, pt, k). Suc new_segment - segment)") auto

declare sbrk_grow.simps [simp del]

fun sbrk_shrink :: "nat \<Rightarrow> nat \<Rightarrow> frame_t list \<Rightarrow> kernel \<Rightarrow> frame_t list \<times> kernel" where
  "sbrk_shrink 0 new_segment pt k = (pt, k)"
| "sbrk_shrink (Suc s) new_segment pt k =
     (if Suc s > new_segment
      then if pt ! Suc s \<noteq> FRAME_UNUSED
           then sbrk_shrink s new_segment (pt[Suc s := FRAME_UNUSED]) (kfree (pt ! Suc s) k)
           else sbrk_shrink s new_segment pt k
      else (pt, k))"

definition top_segment :: "uint16 \<Rightarrow> nat" where
  "top_segment limit = (if limit = 0 then 0 else unat (drop_bit 12 (limit - 1)))"

definition sbrk_commit :: "frame_t list \<Rightarrow> uint16 \<Rightarrow> kernel \<Rightarrow> kernel" where
  "sbrk_commit pt new_top k =
     (let k1 = proc_write_bytes (cur k) off_page_table pt k
      in proc_set_16 (cur k1) off_top new_top k1)"

definition sys_sbrk :: "kernel \<Rightarrow> uint16 \<times> kernel" where
  "sys_sbrk k =
     (let (increment, k1) = proc_get_16 (cur k) off_ctx_a k;
          (old_top, k2) = proc_get_16 (cur k1) off_top k1;
          overflow_check = int (unat (old_top + increment));
          (pt, k3) = proc_read_bytes (cur k2) off_page_table PAGE_TABLE_SIZE k2
      in if overflow_check \<ge> 0x10000 \<or> overflow_check < 0 then (0xFFFF, k3)
         else
           (let new_top = of_int overflow_check;
                old_segment = top_segment old_top;
                new_segment = top_segment new_top
            in if sint increment > 0
               then (case sbrk_grow old_segment old_segment new_segment pt k3 of
                       (None, k4) \<Rightarrow> (0xFFFF, k4)
                     | (Some pt1, k4) \<Rightarrow> (old_top, sbrk_commit pt1 new_top k4))
               else if sint increment < 0
               then (let (pt1, k4) = sbrk_shrink old_segment new_segment pt k3
                     in (old_top, sbrk_commit pt1 new_top k4))
               else (old_top, sbrk_commit pt new_top k3)))"

section \<open>kill\<close>

definition kill_match :: "uint16 \<Rightarrow> nat \<Rightarrow> kernel \<Rightarrow> bool \<times> kernel" where
  "kill_match pid i k =
     (if proc_state (proc_table k ! i) = PROC_STATE_UNUSED \<or> proc_state (proc_table k ! i) = PROC_STATE_ZOMBIE
      then (False, k)
      else
        (let (v, k1) = proc_get_16 i off_pid k
         in if v \<noteq> pid then (False, k1)
            else
              (let (u1, k2) = proc_get_8 i off_uid k1;
                   (u2, k3) = proc_get_8 (cur k2) off_uid k2
               in (u1 = u2, k3))))"

fun sys_kill_loop :: "uint16 \<Rightarrow> nat list \<Rightarrow> kernel \<Rightarrow> uint16 \<times> kernel" where
  "sys_kill_loop pid [] k = (0xFFFF, INTER_ON k)"
| "sys_kill_loop pid (i # is) k =
     (let (found, k1) = kill_match pid i k
      in if found
         then (let (me, k2) = proc_get_16 (cur k1) off_pid k1;
                   k3 = proc_set_16 i off_killed me k2;
                   k4 = (if proc_state (proc_table k3 ! i) = PROC_STATE_SLEEPING
                         then set_state i PROC_STATE_READY k3 else k3)
               in (0, INTER_ON k4))
         else sys_kill_loop pid is k1)"

definition sys_kill :: "kernel \<Rightarrow> uint16 \<times> kernel" where
  "sys_kill k =
     (let (pid, k1) = proc_get_16 (cur k) off_ctx_a k
      in if pid \<le> 1 then (0xFFFF, k1) else sys_kill_loop pid [0..<MAX_PROC_COUNT] (INTER_OFF k1))"

section \<open>wait and exit\<close>

text \<open>
  One scan of the table by \<^verbatim>\<open>sys_wait\<close>: whether a child was seen, and the value returned if the scan
  ends the call. The pid passes through a \<^verbatim>\<open>uint8_t\<close>.
\<close>

fun wait_scan :: "uint16 \<Rightarrow> nat list \<Rightarrow> bool \<Rightarrow> kernel \<Rightarrow> bool \<times> uint16 option \<times> kernel" where
  "wait_scan user_exit_code [] has_children k = (has_children, None, k)"
| "wait_scan user_exit_code (i # is) has_children k =
     (if proc_state (proc_table k ! i) = PROC_STATE_UNUSED
      then wait_scan user_exit_code is has_children k
      else
        (let (parent, k1) = proc_get_16 i off_parent k
         in if parent \<noteq> proc_addr (sym k1) (cur k1)
            then wait_scan user_exit_code is has_children k1
            else if proc_state (proc_table k1 ! i) \<noteq> PROC_STATE_ZOMBIE
            then wait_scan user_exit_code is True k1
            else
              (let (failed, k2) =
                     (if user_exit_code \<noteq> 0
                      then (let (child_exit, ka) = proc_get_8 i off_exit_code k1;
                                (r, kb) = copy_to_user [child_exit] user_exit_code 1 (cur ka) ka
                            in (r < 0, kb))
                      else (False, k1))
               in if failed then (True, Some 0xFFFF, k2)
                  else
                    (let (pid, k3) = proc_get_16 i off_pid k2;
                         k4 = set_state i PROC_STATE_UNUSED (kfree (pcb_frame k3 i) k3)
                     in (True, Some (ucast (ucast pid :: uint8)), INTER_ON k4)))))"

fun sys_wait_loop :: "uint16 \<Rightarrow> bool \<Rightarrow> uint16 io" where
  "sys_wait_loop user_exit_code has_children ws k =
     (case wait_scan user_exit_code [0..<MAX_PROC_COUNT] has_children k of
        (_, Some r, k1) \<Rightarrow> Some (Inr (r, ws, k1))
      | (has, None, k1) \<Rightarrow>
          if \<not> has then Some (Inr (0xFFFF, ws, INTER_ON k1))
          else (case ws of
                  [] \<Rightarrow> None
                | w # ws1 \<Rightarrow> sys_wait_loop user_exit_code has ws1 (sleep (proc_addr (sym k1) (cur k1)) w k1)))"

declare sys_wait_loop.simps [simp del]

definition sys_wait :: "uint16 io" where
  "sys_wait =
     io_bind (io_run (\<lambda>k. proc_get_16 (cur k) off_ctx_a k)) (\<lambda>user_exit_code.
       io_then (io_do INTER_OFF) (sys_wait_loop user_exit_code False))"

text \<open>
  \<^verbatim>\<open>sys_exit\<close> up to its call of the scheduler, which does not return: the process is a zombie by then.
  The argument \<open>n\<close> counts the segments left.
\<close>

fun exit_free_loop :: "nat \<Rightarrow> nat \<Rightarrow> uint16 \<Rightarrow> kernel \<Rightarrow> kernel" where
  "exit_free_loop 0 segment pcb k = k"
| "exit_free_loop (Suc n) segment pcb k =
     (let (frame, k1) = MMIO8_read (pcb + of_nat segment) k
      in if frame \<noteq> FRAME_UNUSED
         then exit_free_loop n (Suc segment) pcb
                (MMIO8_write (pcb + of_nat segment) FRAME_UNUSED (kfree frame k1))
         else exit_free_loop n (Suc segment) pcb k1)"

fun reparent_loop :: "nat list \<Rightarrow> kernel \<Rightarrow> kernel" where
  "reparent_loop [] k = k"
| "reparent_loop (i # is) k =
     (if proc_state (proc_table k ! i) = PROC_STATE_UNUSED then reparent_loop is k
      else
        (let (parent, k1) = proc_get_16 i off_parent k
         in if parent \<noteq> proc_addr (sym k1) (cur k1) then reparent_loop is k1
            else
              (let k2 = proc_set_16 i off_parent (proc_addr (sym k1) (the (init_process k1))) k1;
                   k3 = (if proc_state (proc_table k2 ! i) = PROC_STATE_ZOMBIE
                         then wakeup (proc_addr (sym k2) (the (init_process k2))) k2 else k2)
               in reparent_loop is k3)))"

definition sys_exit :: "kernel \<Rightarrow> kernel kresult" where
  "sys_exit k =
     (if current_process k = init_process k then Inl (Panic ''init exited'')
      else
        (let (pcb, old_frame, k1) = MAP_PCB (cur k) k;
             k2 = exit_free_loop PAGE_TABLE_SIZE 0 pcb k1;
             (a, k3) = MMIO8_read (pcb + of_nat off_ctx_a) k2;
             k4 = MMIO8_write (pcb + of_nat off_exit_code) a k3;
             (my_parent, k5) = MMIO16_read (pcb + of_nat off_parent) k4;
             k6 = UNMAP_PCB old_frame k5;
             k7 = wakeup my_parent (INTER_OFF k6);
             k8 = set_state (cur k7) PROC_STATE_ZOMBIE k7
         in Inr (reparent_loop [0..<MAX_PROC_COUNT] k8)))"

section \<open>fork\<close>

text \<open>
  The roll-back of \<^verbatim>\<open>sys_fork\<close>: a \<^verbatim>\<open>do\<close> loop over an 8-bit segment number that ends when the number
  is zero after the decrement.
\<close>

function fork_rollback :: "nat \<Rightarrow> uint8 \<Rightarrow> kernel \<Rightarrow> kernel" where
  "fork_rollback child segment k =
     (let (pcb, old_window2, k1) = MAP_PCB child k;
          (frame, k2) = MMIO8_read (pcb + ucast segment) k1;
          k3 = (if frame \<noteq> FRAME_UNUSED
                then (let (again, ka) = MMIO8_read (pcb + ucast segment) k2 in kfree again ka) else k2);
          k4 = unmap_window 2 old_window2 k3
      in if segment - 1 \<noteq> 0 then fork_rollback child (segment - 1) k4 else k4)"
  by pat_completeness auto
termination
proof (relation "measure (\<lambda>(child, segment, k). unat (segment - 1))", simp, clarsimp)
  fix segment :: uint8
  assume "segment \<noteq> 1"
  then have n: "segment - 1 \<noteq> 0" by simp
  have e: "segment - 2 = segment - 1 - 1" by simp
  have "unat (segment - 2) = unat (segment - 1) - 1" unfolding e by (rule unat_minus_one [OF n])
  moreover have "unat (segment - 1) \<noteq> 0" using n by (metis unat_eq_zero)
  ultimately show "unat (segment - 2) < unat (segment - 1)" by linarith
qed

declare fork_rollback.simps [simp del]

definition copy_frame :: "frame_t \<Rightarrow> frame_t \<Rightarrow> kernel \<Rightarrow> uint16 \<times> frame_t \<times> frame_t \<times> kernel" where
  "copy_frame parent child k =
     (let (parent_buffer, old_window1, k1) = map_window 1 parent k;
          (child_buffer, old_window2, k2) = map_window 2 child k1;
          (bytes, k3) = read_bytes parent_buffer 4096 k2
      in (child_buffer, old_window1, old_window2, write_bytes child_buffer bytes k3))"

definition fork_segment :: "nat \<Rightarrow> nat \<Rightarrow> frame_t \<Rightarrow> frame_t \<Rightarrow> kernel \<Rightarrow> kernel" where
  "fork_segment child segment parent_frame child_frame k =
     (let (pcb, old_window2, k2) = MAP_PCB child k;
          k3 = MMIO8_write (pcb + of_nat segment) child_frame k2;
          k4 = unmap_window 2 old_window2 k3;
          (_, old1, old2, k5) = copy_frame parent_frame child_frame k4
      in unmap_window 2 old2 (unmap_window 1 old1 k5))"

fun fork_clone :: "nat \<Rightarrow> nat \<Rightarrow> nat \<Rightarrow> frame_t list \<Rightarrow> bool io" where
  "fork_clone child 0 segment parent_page_table = io_return True"
| "fork_clone child (Suc n) segment parent_page_table =
     (let parent_frame = parent_page_table ! segment
      in if parent_frame = FRAME_UNUSED then fork_clone child n (Suc segment) parent_page_table
         else
           io_bind (io_run kalloc) (\<lambda>child_frame.
             if child_frame = FRAME_UNUSED
             then io_then (io_do (fork_rollback child (of_nat segment)))
                    (io_then (io_do (\<lambda>k. set_state child PROC_STATE_UNUSED (kfree (pcb_frame k child) k)))
                      (io_return False))
             else
               io_then (io_do (fork_segment child segment parent_frame child_frame))
                 (io_then (io_wait yield) (fork_clone child n (Suc segment) parent_page_table))))"

text \<open>The child's control block, and the page table of the parent.\<close>

definition fork_pcb :: "nat \<Rightarrow> uint16 \<Rightarrow> kernel \<Rightarrow> frame_t list \<times> kernel" where
  "fork_pcb child child_pid k =
     (let (child_buffer, old1, old2, k3) = copy_frame (pcb_frame k (cur k)) (pcb_frame k child) k;
          child_pcb = child_buffer + PCB_OFFSET;
          k4 = MMIO16_write (child_pcb + of_nat off_pid) child_pid k3;
          k5 = MMIO16_write (child_pcb + of_nat off_parent) (proc_addr (sym k4) (cur k4)) k4;
          k6 = MMIO8_write (child_pcb + of_nat off_ctx_a) 0 k5;
          k7 = MMIO8_write (child_pcb + of_nat off_ctx_x) 0 k6;
          (parent_page_table, k8) = read_bytes child_pcb PAGE_TABLE_SIZE k7;
          k9 = write_bytes child_pcb (replicate PAGE_TABLE_SIZE FRAME_UNUSED) k8
      in (parent_page_table, unmap_window 2 old2 (unmap_window 1 old1 k9)))"

definition fork_child :: "nat \<Rightarrow> uint16 io" where
  "fork_child child =
     io_bind (io_run (proc_get_16 child off_pid)) (\<lambda>child_pid.
     io_bind (io_run (fork_pcb child child_pid)) (\<lambda>parent_page_table.
       io_then (io_wait yield)
         (io_bind (fork_clone child PAGE_TABLE_SIZE 0 parent_page_table) (\<lambda>ok.
            if ok then io_then (io_do (set_state child PROC_STATE_NEW)) (io_return child_pid)
            else io_return 0xFFFF))))"

definition sys_fork :: "uint16 io" where
  "sys_fork ws k =
     (case proc_alloc k of
        Inl e \<Rightarrow> Some (Inl e)
      | Inr (None, k1) \<Rightarrow> Some (Inr (0xFFFF, ws, k1))
      | Inr (Some child, k1) \<Rightarrow> fork_child child ws k1)"

end
