(* ===== verification/Kernel_Sbrk.thy ===== *)
theory Kernel_Sbrk
  imports Kernel_Syscalls
begin

text \<open>
  Laws of the heap system call: which segments it maps and from where the frames come.
\<close>

section \<open>Growing\<close>

text \<open>The segments a growth has to map, and the condition that no frame has two owners.\<close>

definition missing :: "nat \<Rightarrow> nat \<Rightarrow> frame_t list \<Rightarrow> nat" where
  "missing segment new_segment pt = length (filter (\<lambda>i. pt ! i = FRAME_UNUSED) [segment..<Suc new_segment])"

definition owned_once :: "frame_t list \<Rightarrow> frame_t list \<Rightarrow> bool" where
  "owned_once pt pool \<longleftrightarrow> user_frames_distinct pt \<and> (\<forall>f \<in> set pt. f \<noteq> FRAME_UNUSED \<longrightarrow> f \<notin> set pool)"

lemma missing_step:
  assumes "segment \<le> new_segment"
  shows "missing segment new_segment pt =
    (if pt ! segment = FRAME_UNUSED then Suc (missing (Suc segment) new_segment pt)
     else missing (Suc segment) new_segment pt)"
  using assms by (simp add: missing_def upt_conv_Cons del: upt_Suc)

lemma missing_update: "j < segment \<Longrightarrow> missing segment new_segment (pt[j := f]) = missing segment new_segment pt"
  unfolding missing_def by (rule arg_cong [where f = length], rule filter_cong) auto

lemma owned_once_map:
  assumes "owned_once pt (f # pool)" and "f \<notin> set pool" and "length pt = 16"
  shows "owned_once (pt[i := f]) pool"
proof -
  have d: "user_frames_distinct pt" and o: "\<forall>g \<in> set pt. g \<noteq> FRAME_UNUSED \<longrightarrow> g \<noteq> f \<and> g \<notin> set pool"
    using assms(1) by (auto simp: owned_once_def)
  have "user_frames_distinct (pt[i := f])"
    unfolding user_frames_distinct_def
  proof (intro allI impI)
    fix a b
    assume a: "a < 16" "b < (16 :: nat)" "pt[i := f] ! a = pt[i := f] ! b \<and> pt[i := f] ! a \<noteq> FRAME_UNUSED"
    have "pt ! a \<in> set pt" "pt ! b \<in> set pt" using a(1,2) assms(3) by simp_all
    then show "a = b"
      using a o d assms(3) unfolding user_frames_distinct_def
      by (cases "a = i"; cases "b = i") (auto simp: nth_list_update)
  qed
  moreover have "g \<notin> set pool" if "g \<in> set (pt[i := f])" "g \<noteq> FRAME_UNUSED" for g
    using that o assms(2) set_update_subset_insert [of pt i f] by auto
  ultimately show ?thesis by (simp add: owned_once_def)
qed

text \<open>\<open>pt'\<close> and \<open>k'\<close> are what growing by the segments from \<open>segment\<close> to \<open>new_segment\<close> makes of \<open>pt\<close> and \<open>k\<close>.\<close>

definition grown :: "nat \<Rightarrow> nat \<Rightarrow> frame_t list \<Rightarrow> kernel \<Rightarrow> frame_t list \<Rightarrow> kernel \<Rightarrow> bool" where
  "grown segment new_segment pt k pt' k' \<longleftrightarrow> length pt' = 16 \<and>
    (\<forall>i < 16. segment \<le> i \<and> i \<le> new_segment \<longrightarrow> pt' ! i \<noteq> FRAME_UNUSED) \<and>
    (\<forall>i < 16. pt ! i \<noteq> FRAME_UNUSED \<or> i < segment \<or> new_segment < i \<longrightarrow> pt' ! i = pt ! i) \<and>
    set pt' \<subseteq> set pt \<union> set (free_list k) \<and>
    free_list k' = drop (missing segment new_segment pt) (free_list k) \<and> owned_once pt' (free_list k') \<and>
    memory_inv k' \<and> machine k' = machine k \<and> proc_table k' = proc_table k \<and>
    current_process k' = current_process k"

lemma grown_mapped:
  assumes "grown (Suc segment) new_segment pt k pt' k'" and "pt ! segment \<noteq> FRAME_UNUSED"
    and "segment \<le> new_segment"
  shows "grown segment new_segment pt k pt' k'"
proof -
  have "pt' ! i \<noteq> FRAME_UNUSED" if "i < 16" "segment \<le> i" "i \<le> new_segment" for i
    using assms(1,2) that by (cases "i = segment") (auto simp: grown_def)
  moreover have "pt' ! i = pt ! i" if "i < 16" "pt ! i \<noteq> FRAME_UNUSED \<or> i < segment \<or> new_segment < i" for i
    using assms(1) that by (auto simp: grown_def)
  moreover have "missing segment new_segment pt = missing (Suc segment) new_segment pt"
    using missing_step [OF assms(3), of pt] assms(2) by simp
  ultimately show ?thesis using assms(1) unfolding grown_def by metis
qed

lemma grown_allocated:
  assumes "grown (Suc segment) new_segment (pt[segment := f]) k1 pt' k'" and "pt ! segment = FRAME_UNUSED"
    and "segment \<le> new_segment" and "new_segment < 16" and "length pt = 16" and "f \<noteq> FRAME_UNUSED"
    and "free_list k = f # free_list k1" and "machine k1 = machine k" and "proc_table k1 = proc_table k"
    and "current_process k1 = current_process k"
  shows "grown segment new_segment pt k pt' k'"
proof -
  have s: "pt' ! segment = f" using assms(1,3-5) by (simp add: grown_def)
  have "pt' ! i \<noteq> FRAME_UNUSED" if "i < 16" "segment \<le> i" "i \<le> new_segment" for i
    using assms(1,6) s that by (cases "i = segment") (auto simp: grown_def)
  moreover have "pt' ! i = pt ! i" if "i < 16" "pt ! i \<noteq> FRAME_UNUSED \<or> i < segment \<or> new_segment < i" for i
  proof -
    have "i \<noteq> segment" using that assms(2,3) by auto
    then show ?thesis using assms(1) that by (auto simp: grown_def)
  qed
  moreover have "set pt' \<subseteq> set pt \<union> set (free_list k)"
    using assms(1,7) set_update_subset_insert [of pt segment f] by (auto simp: grown_def)
  moreover have "missing segment new_segment pt = Suc (missing (Suc segment) new_segment (pt[segment := f]))"
    using missing_step [OF assms(3), of pt] assms(2) by (simp add: missing_update)
  moreover have "free_list k' = drop (missing segment new_segment pt) (free_list k)"
    using assms(1,7) calculation(4) by (simp add: grown_def)
  moreover have "length pt' = 16" "owned_once pt' (free_list k')" "memory_inv k'" "machine k' = machine k"
    "proc_table k' = proc_table k" "current_process k' = current_process k"
    using assms(1,8-10) unfolding grown_def by metis+
  ultimately show ?thesis unfolding grown_def by blast
qed

lemma grown_from_pool:
  assumes "grown segment new_segment pt k pt' k'" and "length pt = 16"
    and "i < 16" and "pt ! i = FRAME_UNUSED" and "segment \<le> i" and "i \<le> new_segment"
  shows "pt' ! i \<in> set (take (missing segment new_segment pt) (free_list k))"
proof -
  let ?m = "missing segment new_segment pt"
  have l: "length pt' = 16" and u: "pt' ! i \<noteq> FRAME_UNUSED" and o: "owned_once pt' (drop ?m (free_list k))"
    and s: "set pt' \<subseteq> set pt \<union> set (free_list k)"
    using assms(1,3,5,6) by (auto simp: grown_def)
  have i: "pt' ! i \<in> set pt'" using l assms(3) by simp
  have "pt' ! i \<notin> set pt"
  proof
    assume "pt' ! i \<in> set pt"
    then obtain j where j: "j < 16" "pt ! j = pt' ! i" using assms(2) by (auto simp: in_set_conv_nth)
    have "pt' ! j = pt ! j" using assms(1) j u unfolding grown_def by metis
    then have "i = j" using o j u assms(3) unfolding owned_once_def user_frames_distinct_def by metis
    then show False using j(2) u assms(4) by simp
  qed
  then have "pt' ! i \<in> set (take ?m (free_list k) @ drop ?m (free_list k))" using i s by auto
  moreover have "pt' ! i \<notin> set (drop ?m (free_list k))" using o i u unfolding owned_once_def by blast
  ultimately show ?thesis by (auto simp del: append_take_drop_id)
qed

lemma sbrk_grow_effect:
  assumes "memory_inv k" and "length pt = 16" and "new_segment < 16" and "owned_once pt (free_list k)"
    and "missing segment new_segment pt \<le> length (free_list k)"
    and "FRAME_UNUSED \<notin> set (take (missing segment new_segment pt) (free_list k))"
  shows "\<exists>pt' k'. sbrk_grow old_segment segment new_segment pt k = (Some pt', k') \<and>
    grown segment new_segment pt k pt' k'"
  using assms
proof (induction old_segment segment new_segment pt k rule: sbrk_grow.induct)
  case (1 old_segment segment new_segment pt k)
  show ?case
  proof (cases "segment \<le> new_segment")
    case False
    then show ?thesis
      using "1.prems" by (auto simp: sbrk_grow.simps [of _ segment] missing_def grown_def)
  next
    case le: True
    note ms = missing_step [OF le, of pt]
    show ?thesis
    proof (cases "pt ! segment = FRAME_UNUSED")
      case False
      then have e: "sbrk_grow old_segment segment new_segment pt k = sbrk_grow old_segment (Suc segment) new_segment pt k"
        using le by (subst sbrk_grow.simps) simp
      have "\<exists>pt' k'. sbrk_grow old_segment (Suc segment) new_segment pt k = (Some pt', k') \<and>
          grown (Suc segment) new_segment pt k pt' k'"
        by (rule "1.IH"(2) [OF le False]) (use "1.prems" ms False in simp_all)
      then show ?thesis unfolding e using grown_mapped [OF _ False le] by blast
    next
      case True
      let ?m = "missing (Suc segment) new_segment pt" and ?pt = "\<lambda>f. pt[segment := f]"
      have m: "missing segment new_segment pt = Suc ?m" using ms True by simp
      then obtain f fs where pool: "free_list k = f # fs" using "1.prems"(5) by (cases "free_list k") auto
      have f: "f \<noteq> FRAME_UNUSED" using "1.prems"(6) m pool by auto
      obtain k1 where k1: "kalloc k = (f, k1)" "free_list k1 = fs" "memory_inv k1"
        using kernel_frames.alloc_pop [OF "1.prems"(1) pool] kernel_frames.alloc_inv [OF "1.prems"(1)]
        by (cases "kalloc k") auto
      have same: "machine k1 = machine k" "proc_table k1 = proc_table k" "current_process k1 = current_process k"
        using kalloc_frame [of k] k1(1) by simp_all
      have e: "sbrk_grow old_segment segment new_segment pt k = sbrk_grow old_segment (Suc segment) new_segment (?pt f) k1"
        using le True k1(1) f by (subst sbrk_grow.simps) simp
      have mm: "missing (Suc segment) new_segment (?pt f) = ?m" by (rule missing_update) simp
      have fd: "f \<notin> set fs" using kernel_frames.pool_distinct [OF "1.prems"(1)] pool by simp
      have o: "owned_once (?pt f) (free_list k1)"
        using owned_once_map [of pt f fs segment] "1.prems"(2,4) fd pool k1(2) by simp
      have "\<exists>pt' k'. sbrk_grow old_segment (Suc segment) new_segment (?pt f) k1 = (Some pt', k') \<and>
          grown (Suc segment) new_segment (?pt f) k1 pt' k'"
        by (rule "1.IH"(1) [OF le True k1(1) [symmetric] refl f]) (use "1.prems" k1 o pool m mm in simp_all)
      then show ?thesis
        unfolding e using grown_allocated [OF _ True le "1.prems"(3,2) f _ same] pool k1(2) by blast
    qed
  qed
qed

section \<open>The system call\<close>

lemma pcb_write_memory_inv [simp]: "memory_inv (pcb_write p offset bytes k) = memory_inv k"
  by (simp add: memory_inv_def kalloc_inv_def) (simp add: pcb_write_def)

lemma sbrk_commit_effect:
  assumes "kmap k" and "current_process k = Some p" and "pcb_ok k p" and "length pt = 16"
  shows "sbrk_commit pt t k = pcb_write p off_top [lo_byte t, hi_byte t] (pcb_write p off_page_table pt k)"
proof -
  have "proc_write_bytes p off_page_table pt k = pcb_write p off_page_table pt k"
    using assms by (intro pcb_written) simp_all
  moreover have "proc_set_16 p off_top t (pcb_write p off_page_table pt k) =
      pcb_write p off_top [lo_byte t, hi_byte t] (pcb_write p off_page_table pt k)"
    using assms by (intro pcb_access(4)) simp_all
  ultimately show ?thesis using assms(2) by (simp add: sbrk_commit_def)
qed

lemma sbrk_committed:
  fixes k :: kernel and t :: uint16
  assumes "length pt = 16" and "k' = pcb_write p off_top [lo_byte t, hi_byte t] (pcb_write p off_page_table pt k)"
  shows "pcb_bytes k' p off_page_table 16 = pt" and "pcb_word k' p off_top = t"
proof -
  show "pcb_bytes k' p off_page_table 16 = pt"
    using assms(1) by (intro nth_equalityI) (simp_all add: assms(2) pcb_bytes_def)
  show "pcb_word k' p off_top = t" by (simp add: assms(2) pcb_word_def)
qed

text \<open>The state in which a process makes the call: its increment, its top and its page table.\<close>

lemma sbrk_reads:
  assumes "kmap k" and "current_process k = Some p" and "pcb_ok k p"
  shows "sys_sbrk k =
    (let increment = pcb_word k p off_ctx_a; old_top = pcb_word k p off_top; pt = pcb_bytes k p off_page_table 16;
         new_top = old_top + increment; old_segment = top_segment old_top; new_segment = top_segment new_top
     in if sint increment > 0
        then (case sbrk_grow old_segment old_segment new_segment pt k of
                (None, k4) \<Rightarrow> (0xFFFF, k4)
              | (Some pt1, k4) \<Rightarrow> (old_top, sbrk_commit pt1 new_top k4))
        else if sint increment < 0
        then (let (pt1, k4) = sbrk_shrink old_segment new_segment pt k in (old_top, sbrk_commit pt1 new_top k4))
        else (old_top, sbrk_commit pt new_top k))"
proof -
  have r: "proc_get_16 p off_ctx_a k = (pcb_word k p off_ctx_a, k)" "proc_get_16 p off_top k = (pcb_word k p off_top, k)"
    using pcb_access(3) [OF assms(1,3)] by simp_all
  have b: "\<not> int (unat (w :: uint16)) \<ge> 0x10000" "\<not> int (unat w) < 0" "of_int (int (unat w)) = w" for w
    using unsigned_less [of w, where ?'a = int] by simp_all
  show ?thesis
    unfolding sys_sbrk_def assms(2) option.sel r Let_def prod.case pcb_limits(1) [OF assms(1,3)]
    by (simp only: b simp_thms if_False assms(2) option.sel)
qed

lemma top_segment_less: "top_segment t < 16"
  using segment_of_less [of "t - 1"] by (simp add: top_segment_def segment_of_def)

lemma top_segment_unat: "top_segment t = (unat t - 1) div 4096"
proof (cases "t = 0")
  case False
  then show ?thesis by (simp add: top_segment_def unat_drop_bit unat_minus_one)
qed (simp add: top_segment_def)

lemma grown_heap_mapped:
  assumes "grown (top_segment t) (top_segment (t + inc)) pt k pt' k'" and "unat t + unat inc < 65536"
    and "unat t \<le> unat va" and "unat va < unat t + unat inc"
  shows "user_mapped pt' va"
proof -
  have n: "unat (t + inc) = unat t + unat inc" using assms(2) by (simp add: unat_word_ariths)
  have "segment_of va = unat va div 4096" by (simp add: segment_of_def unat_drop_bit)
  moreover have "(unat t - 1) div 4096 \<le> unat va div 4096" using assms(3) by (intro div_le_mono) simp
  moreover have "unat va div 4096 \<le> (unat t + unat inc - 1) div 4096" using assms(4) by (intro div_le_mono) simp
  ultimately have "top_segment t \<le> segment_of va" "segment_of va \<le> top_segment (t + inc)"
    by (simp_all add: top_segment_unat n)
  then show ?thesis using assms(1) segment_of_less [of va] by (simp add: grown_def user_mapped_def)
qed

lemma sbrk_grow_call:
  assumes "memory_inv k" and "current_process k = Some p" and "pcb_ok k p"
    and "pt = pcb_bytes k p off_page_table 16" and "t = pcb_word k p off_top" and "inc = pcb_word k p off_ctx_a"
    and "0 < sint inc" and "owned_once pt (free_list k)"
    and "m = missing (top_segment t) (top_segment (t + inc)) pt"
    and "m \<le> length (free_list k)" and "FRAME_UNUSED \<notin> set (take m (free_list k))"
  shows "\<exists>pt' k1. grown (top_segment t) (top_segment (t + inc)) pt k pt' k1 \<and>
    sys_sbrk k = (t, pcb_write p off_top [lo_byte (t + inc), hi_byte (t + inc)] (pcb_write p off_page_table pt' k1))"
proof -
  have kmap: "kmap k" using assms(1) by (simp add: memory_inv_def)
  have l: "length pt = 16" by (simp add: assms(4) pcb_bytes_def)
  obtain pt' k1 where g: "sbrk_grow (top_segment t) (top_segment t) (top_segment (t + inc)) pt k = (Some pt', k1)"
    "grown (top_segment t) (top_segment (t + inc)) pt k pt' k1"
    using sbrk_grow_effect [OF assms(1) l top_segment_less assms(8)] assms(9-11) by blast
  have k1: "kmap k1" "current_process k1 = Some p" "pcb_ok k1 p" "length pt' = 16"
    using g(2) assms(2,3) by (simp_all add: grown_def memory_inv_def pcb_ok_def)
  have "sys_sbrk k = (t, sbrk_commit pt' (t + inc) k1)"
    using g(1) assms(4-7) unfolding sbrk_reads [OF kmap assms(2,3)] Let_def by simp
  then show ?thesis using g(2) sbrk_commit_effect [OF k1] by auto
qed

lemma sbrk_shrink_none: "s \<le> new_segment \<Longrightarrow> sbrk_shrink s new_segment pt k = (pt, k)"
  by (cases s) simp_all

end
