(* ===== verification/Kernel_Print.thy ===== *)
theory Kernel_Print
  imports Kernel_IO "HOL-Library.Signed_Division"
begin

text \<open>
  Formatted output (\<^verbatim>\<open>printk.c\<close>), the log macro of \<^verbatim>\<open>common.h\<close> and the process listing of \<^verbatim>\<open>proc.c\<close>. A C string is
  the list of its bytes before the terminator. A \<^verbatim>\<open>long\<close> is 32 bits wide, an \<^verbatim>\<open>int\<close> 16.
\<close>

section \<open>Digits\<close>

definition chars :: "string \<Rightarrow> uint8 list" where
  "chars s = map of_char s"

definition digits :: "uint8 list" where
  "digits = chars ''0123456789abcdef'' @ [0]"

text \<open>The index has the sign of the C remainder: outside the array the read is undefined.\<close>

definition digit_at :: "int \<Rightarrow> uint8 option" where
  "digit_at i = (if 0 \<le> i \<and> i < int (length digits) then Some (digits ! nat i) else None)"

text \<open>
  The \<^verbatim>\<open>do\<close> loop of \<^verbatim>\<open>print_int\<close>, least significant digit first; the first argument is the room left in
  the buffer of 20 characters.
\<close>

fun int_digits :: "nat \<Rightarrow> int \<Rightarrow> int \<Rightarrow> uint8 list option" where
  "int_digits 0 number base = None"
| "int_digits (Suc room) number base =
     (case digit_at (number smod base) of
        None \<Rightarrow> None
      | Some c \<Rightarrow>
          if number sdiv base \<noteq> 0 then map_option (\<lambda>cs. c # cs) (int_digits room (number sdiv base) base)
          else Some [c])"

definition int_chars :: "uint32 \<Rightarrow> int \<Rightarrow> bool \<Rightarrow> uint8 list option" where
  "int_chars number base sign =
     (let negative = sign \<and> sint number < 0;
          number1 = (if negative then - number else number)
      in Option.bind (int_digits 20 (sint number1) base) (\<lambda>ds.
           if negative then if length ds < 20 then Some (rev (ds @ [0x2D])) else None
           else Some (rev ds)))"

definition print_int :: "uint32 \<Rightarrow> int \<Rightarrow> bool \<Rightarrow> unit io" where
  "print_int number base sign =
     (case int_chars number base sign of
        None \<Rightarrow> (\<lambda>ws k. Some (Inl (Undefined ''print_int'')))
      | Some cs \<Rightarrow> io_for cs uart_putc_sync)"

fun ptr_digits :: "nat \<Rightarrow> uint16 \<Rightarrow> uint8 list" where
  "ptr_digits 0 ptr = []"
| "ptr_digits (Suc n) ptr = digits ! unat (drop_bit 12 ptr) # ptr_digits n (push_bit 4 ptr)"

definition print_ptr :: "uint16 \<Rightarrow> unit io" where
  "print_ptr ptr = io_for ([0x30, 0x78] @ ptr_digits 4 ptr) uart_putc_sync"

definition print_str :: "uint8 list option \<Rightarrow> unit io" where
  "print_str str = io_for (case str of None \<Rightarrow> chars ''(null)'' | Some s \<Rightarrow> takeWhile (\<lambda>c. c \<noteq> 0) s) uart_putc_sync"

section \<open>Formats\<close>

text \<open>
  The variable arguments: 16-bit and 32-bit values, and pointers to strings. Fetching an argument that is
  not there, or as another type, is undefined.
\<close>

datatype va_arg = Va16 uint16 | Va32 uint32 | VaStr "uint8 list option"

definition with16 :: "va_arg list \<Rightarrow> (uint16 \<Rightarrow> va_arg list \<Rightarrow> unit io) \<Rightarrow> unit io" where
  "with16 ap f = (case ap of Va16 v # ap1 \<Rightarrow> f v ap1 | _ \<Rightarrow> (\<lambda>ws k. Some (Inl (Undefined ''va_arg''))))"

definition with32 :: "va_arg list \<Rightarrow> (uint32 \<Rightarrow> va_arg list \<Rightarrow> unit io) \<Rightarrow> unit io" where
  "with32 ap f = (case ap of Va32 v # ap1 \<Rightarrow> f v ap1 | _ \<Rightarrow> (\<lambda>ws k. Some (Inl (Undefined ''va_arg''))))"

definition with_str :: "va_arg list \<Rightarrow> (uint8 list option \<Rightarrow> va_arg list \<Rightarrow> unit io) \<Rightarrow> unit io" where
  "with_str ap f = (case ap of VaStr s # ap1 \<Rightarrow> f s ap1 | _ \<Rightarrow> (\<lambda>ws k. Some (Inl (Undefined ''va_arg''))))"

lemma with_cong [fundef_cong]:
  "ap = ap' \<Longrightarrow> (\<And>v ap1. ap' = Va16 v # ap1 \<Longrightarrow> f v ap1 = f' v ap1) \<Longrightarrow> with16 ap f = with16 ap' f'"
  "ap = ap' \<Longrightarrow> (\<And>v ap1. ap' = Va32 v # ap1 \<Longrightarrow> g v ap1 = g' v ap1) \<Longrightarrow> with32 ap g = with32 ap' g'"
  "ap = ap' \<Longrightarrow> (\<And>s ap1. ap' = VaStr s # ap1 \<Longrightarrow> h s ap1 = h' s ap1) \<Longrightarrow> with_str ap h = with_str ap' h'"
  by (auto simp: with16_def with32_def with_str_def split: list.split va_arg.split)

text \<open>The loop of \<^verbatim>\<open>vprintk\<close> on the rest of the format; the flag is set after a percent sign.\<close>

fun vprintk_loop :: "bool \<Rightarrow> uint8 list \<Rightarrow> va_arg list \<Rightarrow> unit io" where
  "vprintk_loop state [] ap = io_return ()"
| "vprintk_loop False (c0 # fmt) ap =
     (if c0 = 0 then io_return ()
      else if c0 = of_char CHR ''%'' then vprintk_loop True fmt ap
      else io_then (uart_putc_sync c0) (vprintk_loop False fmt ap))"
| "vprintk_loop True (c0 # fmt) ap =
     (let c1 = (case fmt of [] \<Rightarrow> 0 | c # _ \<Rightarrow> c)
      in if c0 = 0 then io_return ()
         else if c0 = of_char CHR ''d'' then
           with16 ap (\<lambda>v ap1. io_then (print_int (scast v) 10 True) (vprintk_loop False fmt ap1))
         else if c0 = of_char CHR ''l'' \<and> c1 = of_char CHR ''d'' then
           with32 ap (\<lambda>v ap1. io_then (print_int v 10 True) (vprintk_loop False (drop 1 fmt) ap1))
         else if c0 = of_char CHR ''u'' then
           with16 ap (\<lambda>v ap1. io_then (print_int (ucast v) 10 False) (vprintk_loop False fmt ap1))
         else if c0 = of_char CHR ''l'' \<and> c1 = of_char CHR ''u'' then
           with32 ap (\<lambda>v ap1. io_then (print_int v 10 False) (vprintk_loop False (drop 1 fmt) ap1))
         else if c0 = of_char CHR ''x'' then
           with16 ap (\<lambda>v ap1. io_then (print_int (ucast v) 16 False) (vprintk_loop False fmt ap1))
         else if c0 = of_char CHR ''l'' \<and> c1 = of_char CHR ''x'' then
           with32 ap (\<lambda>v ap1. io_then (print_int v 16 False) (vprintk_loop False (drop 1 fmt) ap1))
         else if c0 = of_char CHR ''p'' then
           with16 ap (\<lambda>v ap1. io_then (print_ptr v) (vprintk_loop False fmt ap1))
         else if c0 = of_char CHR ''c'' then
           with16 ap (\<lambda>v ap1. io_then (uart_putc_sync (ucast v)) (vprintk_loop False fmt ap1))
         else if c0 = of_char CHR ''s'' then
           with_str ap (\<lambda>s ap1. io_then (print_str s) (vprintk_loop False fmt ap1))
         else if c0 = of_char CHR ''%'' then
           io_then (uart_putc_sync (of_char CHR ''%'')) (vprintk_loop False fmt ap)
         else
           io_then (uart_putc_sync (of_char CHR ''%''))
             (io_then (uart_putc_sync c0) (vprintk_loop False fmt ap)))"

declare vprintk_loop.simps [simp del]

definition vprintk :: "uint8 list \<Rightarrow> va_arg list \<Rightarrow> unit io" where
  "vprintk fmt ap = vprintk_loop False fmt ap"

definition printk :: "uint8 list \<Rightarrow> va_arg list \<Rightarrow> unit io" where
  "printk fmt ap = vprintk fmt ap"

definition LOG :: "string \<Rightarrow> uint16 \<Rightarrow> uint8 list \<Rightarrow> va_arg list \<Rightarrow> unit io" where
  "LOG file line fmt ap =
     io_then (printk (0x09 # chars ''[%s:%d] '') [VaStr (Some (chars file)), Va16 line])
       (io_then (printk fmt ap) (uart_putc_sync 0x0A))"

section \<open>The process listing\<close>

text \<open>The member \<^verbatim>\<open>name\<close> is printed as a string: without a terminator in its 16 bytes the read is undefined.\<close>

definition state_name :: "Proc_State \<Rightarrow> string" where
  "state_name s =
     (case s of
        PROC_STATE_BUILDING \<Rightarrow> ''BUILDING''
      | PROC_STATE_NEW \<Rightarrow> ''NEW''
      | PROC_STATE_READY \<Rightarrow> ''READY''
      | PROC_STATE_RUNING \<Rightarrow> ''RUNING''
      | PROC_STATE_SLEEPING \<Rightarrow> ''SLEEPING''
      | PROC_STATE_ZOMBIE \<Rightarrow> ''ZOMBIE''
      | PROC_STATE_UNUSED \<Rightarrow> ''UNKNOWN'')"

definition proc_dump_entry :: "nat \<Rightarrow> unit io" where
  "proc_dump_entry i =
     io_bind (io_get (\<lambda>k. proc_state (proc_table k ! i))) (\<lambda>s.
       if s = PROC_STATE_UNUSED then io_return ()
       else
         io_bind (io_run (proc_read_bytes i off_name MAX_PROC_NAME)) (\<lambda>name.
         io_bind (io_run (proc_get_16 i off_pid)) (\<lambda>pid.
           if 0 \<in> set name
           then printk (0x09 # chars ''[%d] \"%s\" %s'' @ [0x0A])
                  [Va16 pid, VaStr (Some name), VaStr (Some (chars (state_name s)))]
           else (\<lambda>ws k. Some (Inl (Undefined ''proc_dump''))))))"

definition proc_dump :: "unit io" where
  "proc_dump =
     io_then (io_do INTER_OFF)
       (io_then (printk ([0x0A, 0x09] @ chars ''proc dump:'' @ [0x0A]) [])
         (io_then (io_for [0..<MAX_PROC_COUNT] proc_dump_entry)
           (io_then (printk [0x0A] []) (io_do INTER_ON))))"

section \<open>Printed numbers\<close>

text \<open>The usual positional notation, as the reference for the loop.\<close>

fun radix :: "nat \<Rightarrow> nat \<Rightarrow> uint8 list" where
  "radix base n =
     (if n < base \<or> base < 2 then [digits ! n] else radix base (n div base) @ [digits ! (n mod base)])"

declare radix.simps [simp del]

lemma length_digits: "length digits = 17"
  by (simp add: digits_def chars_def)

lemma digit_at_nat: "i < 17 \<Longrightarrow> digit_at (int i) = Some (digits ! i)"
  by (simp add: digit_at_def length_digits)

lemma int_digits_radix:
  assumes "2 \<le> base" and "base \<le> 16"
  shows "n < base ^ room \<Longrightarrow> 0 < room \<Longrightarrow> int_digits room (int n) (int base) = Some (rev (radix base n))"
proof (induction room arbitrary: n)
  case 0
  then show ?case by simp
next
  case (Suc room)
  have q: "int n sdiv int base = int (n div base)" "int n smod int base = int (n mod base)"
    by (simp_all add: signed_divide_int_def signed_modulo_int_def sgn_if zdiv_int zmod_int)
  have d: "digit_at (int (n mod base)) = Some (digits ! (n mod base))"
    using assms mod_less_divisor [of base n] by (intro digit_at_nat) linarith
  show ?case
  proof (cases "n < base")
    case True
    then show ?thesis using q d assms by (simp add: radix.simps)
  next
    case False
    then have "n div base \<noteq> 0" using assms by (simp add: div_eq_0_iff)
    moreover have "n div base < base ^ room" "0 < room"
      using Suc.prems assms False by (auto simp: less_mult_imp_div_less mult.commute intro!: gr0I)
    ultimately show ?thesis
      using q d Suc.IH [of "n div base"] assms False by (subst radix.simps) simp
  qed
qed

lemma int_digits_negative:
  assumes "n < 0" and "2 \<le> base"
  shows "int_digits room n base = None"
  using assms(1)
proof (induction room arbitrary: n)
  case 0
  show ?case by simp
next
  case (Suc room)
  have q: "n sdiv base = - (- n div base)" "n smod base = - (- n mod base)"
    using Suc.prems assms(2) by (simp_all add: signed_divide_int_def signed_modulo_int_def sgn_if)
  show ?case
  proof (cases "- n mod base = 0")
    case True
    then have "- n div base \<noteq> 0" using Suc.prems mult_div_mod_eq [of base "- n"] by auto
    then have "n sdiv base < 0"
      using q(1) Suc.prems assms(2) pos_imp_zdiv_nonneg_iff [of base "- n"] by linarith
    then show ?thesis using Suc.IH by (simp split: option.split)
  next
    case False
    then have "n smod base < 0" using q(2) assms(2) pos_mod_sign [of base "- n"] by linarith
    then show ?thesis by (simp add: digit_at_def)
  qed
qed

text \<open>The printed form of every 32-bit value, and the values that are not printed.\<close>

lemma int_chars_nonnegative:
  assumes "0 \<le> sint number" and "base \<in> {10, 16}"
  shows "int_chars number base sign = Some (radix (nat base) (nat (sint number)))"
proof -
  have "nat (sint number) < 2 ^ 31" using sint_less [of number] assms(1) by simp
  also have "\<dots> < nat base ^ 20" using assms(2) by auto
  finally have "int_digits 20 (int (nat (sint number))) (int (nat base)) = Some (rev (radix (nat base) (nat (sint number))))"
    using assms(2) by (intro int_digits_radix) auto
  then show ?thesis using assms by (auto simp: int_chars_def Let_def)
qed

lemma radix_length:
  assumes "2 \<le> base"
  shows "n < base ^ m \<Longrightarrow> 0 < m \<Longrightarrow> length (radix base n) \<le> m"
proof (induction m arbitrary: n)
  case 0
  then show ?case by simp
next
  case (Suc m)
  show ?case
  proof (cases "n < base")
    case True
    then show ?thesis by (simp add: radix.simps)
  next
    case False
    then have "n div base < base ^ m" "0 < m"
      using Suc.prems assms by (auto simp: less_mult_imp_div_less mult.commute intro!: gr0I)
    then show ?thesis using Suc.IH [of "n div base"] assms False by (subst radix.simps) simp
  qed
qed

lemma sint_minus_long:
  fixes number :: uint32
  assumes "sint number \<noteq> - (2 ^ 31)"
  shows "sint (- number) = - sint number"
  using sint_greater_eq [of number] sint_less [of number] assms
  by (simp add: sint_word_minus signed_take_bit_int_eq_self)

lemma int_chars_negative:
  assumes "sint number < 0"
  shows "int_chars number 10 True =
      (if sint number = - (2 ^ 31) then None else Some (0x2D # radix 10 (nat (- sint number))))"
    and "2 \<le> base \<Longrightarrow> int_chars number base False = None"
proof -
  show "2 \<le> base \<Longrightarrow> int_chars number base False = None"
    using assms by (simp add: int_chars_def int_digits_negative)
  let ?n = "nat (- sint number)"
  show "int_chars number 10 True =
      (if sint number = - (2 ^ 31) then None else Some (0x2D # radix 10 ?n))"
  proof (cases "sint number = - (2 ^ 31)")
    case True
    have "sint (- number) = signed_take_bit 31 (2 ^ 31)" using True by (simp add: sint_word_minus)
    also have "\<dots> < 0" by simp
    finally show ?thesis using assms True by (simp add: int_chars_def int_digits_negative)
  next
    case False
    note m = sint_minus_long [OF False]
    have b: "?n < 10 ^ 10" using sint_greater_eq [of number] by simp
    then have "?n < 10 ^ 20" by simp
    then have "int_digits 20 (int ?n) (int 10) = Some (rev (radix 10 ?n))" by (intro int_digits_radix) auto
    moreover have "length (radix 10 ?n) \<le> 10" using b by (intro radix_length) auto
    ultimately show ?thesis using assms False m by (simp add: int_chars_def Let_def)
  qed
qed

text \<open>A pointer is four hexadecimal digits.\<close>

lemma unat_push_bit: "unat (push_bit m (w :: uint16)) = unat w * 2 ^ m mod 65536"
  unfolding unsigned_push_bit_eq unfolding push_bit_eq_mult take_bit_eq_mod by simp

lemma ptr_digits_value:
  "ptr_digits 4 ptr = map (\<lambda>i. digits ! (unat ptr div 16 ^ i mod 16)) [3, 2, 1, 0]"
proof -
  have "unat ptr div 4096 < 16" using unsigned_less [of ptr, where ?'a = nat] by (simp add: less_mult_imp_div_less)
  then have a: "unat ptr div 4096 = unat ptr div 4096 mod 16" by simp
  have m: "y mod 65536 div 4096 = y div 4096 mod 16" for y :: nat
    using mod_mult2_eq [of y 4096 16] by simp
  have b: "x * 16 mod 65536 div 4096 = x div 256 mod 16" "x * 256 mod 65536 div 4096 = x div 16 mod 16"
    "x * 4096 mod 65536 div 4096 = x mod 16" for x :: nat
    using div_mult_mult2 [of 16 x 256] div_mult_mult2 [of 256 x 16] unfolding m by simp_all
  have "ptr_digits (Suc (Suc (Suc (Suc 0)))) ptr = map (\<lambda>j. digits ! (unat (push_bit j ptr) div 4096)) [0, 4, 8, 12]"
    by (simp add: unat_drop_bit del: push_bit_numeral)
  moreover have "Suc (Suc (Suc (Suc 0))) = 4" by simp
  ultimately have "ptr_digits 4 ptr = map (\<lambda>j. digits ! (unat (push_bit j ptr) div 4096)) [0, 4, 8, 12]"
    by (simp only:)
  then show ?thesis using a b [of "unat ptr"] m [of "unat ptr"] by (simp add: unat_push_bit)
qed

end
