(* ===== verification/Kernel_Serial.thy ===== *)
theory Kernel_Serial
  imports Kernel_Sched Kernel_Print Machine_Devices
begin

text \<open>
  The drivers of the timer (\<^verbatim>\<open>timer.c\<close>) and of the serial port (\<^verbatim>\<open>uart.c\<close>): the system clock and its
  wake-up calls, and the ring buffer of received characters as a bounded first-in first-out queue.
\<close>

section \<open>Timer\<close>

definition timer_init :: "kernel \<Rightarrow> kernel" where
  "timer_init k = MMIO8_write 0xfe56 TIMER_ENABLE_TRUE (MMIO16_write 0xfe52 CYCLES k)"

definition timer_resume :: "kernel \<Rightarrow> kernel" where
  "timer_resume k = MMIO8_write 0xfe56 TIMER_ENABLE_TRUE k"

definition timer_pause :: "kernel \<Rightarrow> kernel" where
  "timer_pause k = MMIO8_write 0xfe56 TIMER_ENABLE_FALSE k"

text \<open>\<^verbatim>\<open>MMIO8(PLIC_INTERRUPT_LINES) &= ~pin\<close>, the acknowledgement every handler starts with.\<close>

definition plic_acknowledge :: "uint8 \<Rightarrow> kernel \<Rightarrow> kernel" where
  "plic_acknowledge pin k =
     (let (v, k1) = MMIO8_read 0xfe60 k in MMIO8_write 0xfe60 (v AND NOT pin) k1)"

definition timer_interrupt :: "kernel \<Rightarrow> kernel kresult" where
  "timer_interrupt k =
     (let k1 = plic_acknowledge PLIC_PIN_TIMER k;
          k2 = k1\<lparr>systicks := systicks k1 + 1\<rparr>
      in if systicks k2 = 0 then Inl (Panic ''systicks'')
         else if systicks k2 \<ge> next_wakeup_call k2
         then Inr ((wakeup (systicks_addr (sym k2)) k2)\<lparr>next_wakeup_call := 0xFFFFFFFF\<rparr>)
         else Inr k2)"

section \<open>Serial port\<close>

definition uart_init :: "kernel \<Rightarrow> kernel" where
  "uart_init k = k\<lparr>ring_buffer := (ring_buffer k)\<lparr>rb_tail := 0, rb_head := 0\<rparr>\<rparr>"

text \<open>
  The test for room compares \<^verbatim>\<open>head + 1\<close>, computed as an \<open>int\<close>, with \<^verbatim>\<open>tail\<close>; the stores truncate to
  eight bits.
\<close>

definition ring_push :: "uint8 \<Rightarrow> Ring_Buffer \<Rightarrow> Ring_Buffer option" where
  "ring_push data rb =
     (if unat (rb_head rb) + 1 \<noteq> unat (rb_tail rb)
      then Some (rb\<lparr>rb_buffer := (rb_buffer rb)[unat (rb_head rb) := data], rb_head := rb_head rb + 1\<rparr>)
      else None)"

definition uart_store :: "uint8 \<Rightarrow> kernel \<Rightarrow> kernel" where
  "uart_store data k =
     (case ring_push data (ring_buffer k) of
        Some rb \<Rightarrow> wakeup (ring_buffer_addr (sym k)) (k\<lparr>ring_buffer := rb\<rparr>)
      | None \<Rightarrow> k)"

definition uart_rx_interrupt :: "unit io" where
  "uart_rx_interrupt =
     io_then (io_do (plic_acknowledge PLIC_PIN_UART_RX))
       (io_bind (io_run (MMIO8_read 0xfe12)) (\<lambda>stat.
          if stat AND UART_STATUS_RX_READY \<noteq> 0
          then io_bind (io_run (MMIO8_read 0xfe11)) (\<lambda>data.
                 if data = 0x04 then proc_dump else io_do (uart_store data))
          else io_return ()))"

definition ring_pop :: "Ring_Buffer \<Rightarrow> int \<times> Ring_Buffer" where
  "ring_pop rb =
     (if rb_head rb = rb_tail rb then (- 1, rb)
      else (int (unat (rb_buffer rb ! unat (rb_tail rb))), rb\<lparr>rb_tail := rb_tail rb + 1\<rparr>))"

definition uart_getc :: "kernel \<Rightarrow> int \<times> kernel" where
  "uart_getc k = (let (c, rb) = ring_pop (ring_buffer k) in (c, k\<lparr>ring_buffer := rb\<rparr>))"

section \<open>Registers\<close>

lemma kmap_mapped: "kmap k \<Longrightarrow> kernel_mapped (machine k)"
  by (simp add: kmap_def kernel_mapped_def)

lemma register_translate:
  assumes "kernel_mapped m"
  shows "MMU_translate 0xFE60 (mmu m) = (PLIC_INTERRUPT_LINES, mmu m)"
    and "MMU_translate 0xFE12 (mmu m) = (UART_STAT, mmu m)"
    and "MMU_translate 0xFE00 (mmu m) = (DISK_STAT, mmu m)"
  using assms by (simp_all add: kernel_mapped_def translate_cases segment_of_def phys_def)

definition acknowledged :: "uint8 \<Rightarrow> Machine \<Rightarrow> Machine" where
  "acknowledged pin m = m\<lparr>plic := (plic m)\<lparr>interrupts_lines := interrupts_lines (plic m) AND NOT pin\<rparr>\<rparr>"

lemma acknowledged_frame [simp]:
  "ram (acknowledged pin m) = ram m" "mmu (acknowledged pin m) = mmu m" "uart (acknowledged pin m) = uart m"
  "disk (acknowledged pin m) = disk m" "kernel_mapped (acknowledged pin m) = kernel_mapped m"
  by (simp_all add: acknowledged_def kernel_mapped_def)

lemma plic_acknowledge_effect:
  "kmap k \<Longrightarrow> plic_acknowledge pin k = k\<lparr>machine := acknowledged pin (machine k)\<rparr>"
  using register_translate(1) [OF kmap_mapped, of k]
  by (simp add: plic_acknowledge_def acknowledged_def MMIO8_read_def MMIO8_write_def Machine_read_def
      Machine_write_def Let_def)

lemma status_read:
  assumes "kernel_mapped m"
  shows "Machine_read 0xFE12 m = (uart_status (uart m), m)"
    and "Machine_read 0xFE00 m = (disk_status (disk m), m)"
  using register_translate [OF assms] by (simp_all add: Machine_read_def Let_def)

text \<open>The mapping, the control blocks and the sleepers only depend on part of the machine.\<close>

lemma kmap_machine:
  "mmu m = mmu (machine k) \<Longrightarrow> kmap (k\<lparr>machine := m\<rparr>) = kmap k"
  by (simp add: kmap_def)

lemma sleepers_ok_machine [simp]: "sleepers_ok (k\<lparr>machine := m\<rparr>) = sleepers_ok k"
  by (simp add: sleepers_ok_def pcb_ok_def)

section \<open>The ring buffer as a queue\<close>

definition ring_contents :: "Ring_Buffer \<Rightarrow> uint8 list" where
  "ring_contents rb =
     map (\<lambda>i. rb_buffer rb ! unat (rb_tail rb + of_nat i)) [0..<unat (rb_head rb - rb_tail rb)]"

definition ring_wf :: "Ring_Buffer \<Rightarrow> bool" where
  "ring_wf rb \<longleftrightarrow> length (rb_buffer rb) = 256"

lemma unat_byte_inc: "unat (w + 1 :: uint8) = (if w = 255 then 0 else Suc (unat w))"
proof -
  have "unat (w + 1) = (unat w + 1) mod 256" by (simp add: unat_word_ariths)
  moreover have "w = 255 \<longleftrightarrow> unat w = 255" by (simp add: word_unat_eq_iff)
  ultimately show ?thesis using unat_byte [of w] by auto
qed

lemma length_ring_contents: "length (ring_contents rb) = unat (rb_head rb - rb_tail rb)"
  by (simp add: ring_contents_def)

lemma ring_full_iff:
  "length (ring_contents rb) = 255 \<longleftrightarrow> rb_head rb + 1 = rb_tail rb"
proof -
  have "length (ring_contents rb) = 255 \<longleftrightarrow> rb_head rb - rb_tail rb = 255"
    unfolding length_ring_contents by (simp add: word_unat_eq_iff)
  also have "\<dots> \<longleftrightarrow> unat (rb_head rb - rb_tail rb + 1) = 0" by (simp add: unat_byte_inc)
  also have "\<dots> \<longleftrightarrow> rb_head rb + 1 - rb_tail rb = 0" by (simp add: unat_eq_zero algebra_simps)
  also have "\<dots> \<longleftrightarrow> rb_head rb + 1 = rb_tail rb" by simp
  finally show ?thesis .
qed

lemma ring_room:
  "length (ring_contents rb) < 255 \<Longrightarrow> unat (rb_head rb) + 1 \<noteq> unat (rb_tail rb)"
proof
  assume "length (ring_contents rb) < 255" and "unat (rb_head rb) + 1 = unat (rb_tail rb)"
  moreover from this(2) have "rb_head rb + 1 = rb_tail rb"
    using unat_byte [of "rb_tail rb"] by (auto simp: word_unat_eq_iff unat_byte_inc)
  ultimately show False using ring_full_iff [of rb] by simp
qed

lemma ring_push_contents:
  assumes "ring_wf rb" and "length (ring_contents rb) < 255"
  shows "\<exists>rb'. ring_push x rb = Some rb' \<and> ring_wf rb' \<and> ring_contents rb' = ring_contents rb @ [x]"
proof -
  let ?h = "rb_head rb" and ?t = "rb_tail rb"
  let ?n = "unat (?h - ?t)"
  let ?rb = "rb\<lparr>rb_buffer := (rb_buffer rb)[unat ?h := x], rb_head := ?h + 1\<rparr>"
  have n: "?n < 255" using assms(2) by (simp add: length_ring_contents)
  have s: "unat (?h + 1 - ?t) = Suc ?n"
  proof -
    have "?h - ?t \<noteq> 255"
    proof
      assume "?h - ?t = 255"
      then have "?n = 255" by simp
      with n show False by simp
    qed
    moreover have "?h + 1 - ?t = ?h - ?t + 1" by simp
    ultimately show ?thesis using unat_byte_inc [of "?h - ?t"] by (simp only: if_False)
  qed
  have last: "?t + of_nat ?n = ?h" by simp
  have other: "unat ?h \<noteq> unat (?t + of_nat i)" if "i < ?n" for i
  proof
    assume "unat ?h = unat (?t + of_nat i)"
    then have "(of_nat i :: uint8) = ?h - ?t" by (simp add: word_unat_eq_iff [symmetric])
    then have "unat (of_nat i :: uint8) = ?n" by simp
    with that n show False by simp
  qed
  have "map (\<lambda>i. (rb_buffer rb)[unat ?h := x] ! unat (?t + of_nat i)) [0..<?n] = ring_contents rb"
    unfolding ring_contents_def by (rule map_cong [OF refl]) (use other in simp)
  moreover have "(rb_buffer rb)[unat ?h := x] ! unat (?t + of_nat ?n) = x"
    unfolding last using assms(1) unat_byte [of ?h] by (simp add: ring_wf_def)
  ultimately have "ring_contents ?rb = ring_contents rb @ [x]"
    by (simp add: ring_contents_def s)
  then show ?thesis
    using assms ring_room [OF assms(2)] by (simp add: ring_push_def ring_wf_def)
qed

lemma ring_push_full:
  assumes "length (ring_contents rb) = 255"
  shows "rb_tail rb = 0 \<or> ring_push x rb = None"
proof -
  have f: "rb_head rb + 1 = rb_tail rb" using assms by (simp add: ring_full_iff)
  show ?thesis
  proof (cases "rb_tail rb = 0")
    case True
    then show ?thesis by simp
  next
    case False
    then have "unat (rb_head rb) + 1 = unat (rb_tail rb)"
      using f unat_byte_inc [of "rb_head rb"] by (auto simp: unat_eq_zero split: if_splits)
    then show ?thesis by (simp add: ring_push_def)
  qed
qed

lemma ring_push_full_zero:
  assumes "length (ring_contents rb) = 255" and "rb_tail rb = 0"
  shows "\<exists>rb'. ring_push x rb = Some rb' \<and> ring_contents rb' = []"
proof -
  have "rb_head rb + 1 = rb_tail rb" using assms(1) by (simp add: ring_full_iff)
  with assms(2) show ?thesis by (simp add: ring_push_def ring_contents_def)
qed

lemma ring_pop_contents:
  "ring_contents rb = [] \<Longrightarrow> ring_pop rb = (- 1, rb)"
  "ring_contents rb = c # cs \<Longrightarrow>
     \<exists>rb'. ring_pop rb = (int (unat c), rb') \<and> ring_contents rb' = cs \<and> rb_buffer rb' = rb_buffer rb"
proof -
  let ?h = "rb_head rb" and ?t = "rb_tail rb"
  show "ring_pop rb = (- 1, rb)" if "ring_contents rb = []"
    using that by (simp add: ring_contents_def ring_pop_def unat_eq_zero)
  assume c: "ring_contents rb = c # cs"
  then obtain m where m: "unat (?h - ?t) = Suc m"
    using length_ring_contents [of rb] by (metis length_Cons)
  then have ne: "?h - ?t \<noteq> 0" by auto
  then have m': "unat (?h - (?t + 1)) = m"
    using m unat_minus_one [OF ne] by (simp add: algebra_simps)
  have "ring_contents rb = rb_buffer rb ! unat ?t # map (\<lambda>i. rb_buffer rb ! unat (?t + 1 + of_nat i)) [0..<m]"
    unfolding ring_contents_def m by (simp only: upt_conv_Cons zero_less_Suc)
      (simp add: map_Suc_upt [symmetric] add.assoc o_def del: upt_Suc)
  with c ne m' show "\<exists>rb'. ring_pop rb = (int (unat c), rb') \<and> ring_contents rb' = cs \<and> rb_buffer rb' = rb_buffer rb"
    by (simp add: ring_pop_def ring_contents_def)
qed

text \<open>
  The contract the readers of the ring buffer rely on: as long as there is room, what is put in
  comes out in the same order.
\<close>

locale bounded_fifo =
  fixes put :: "'a \<Rightarrow> 's \<Rightarrow> 's option"
    and get :: "'s \<Rightarrow> ('a \<times> 's) option"
    and contents :: "'s \<Rightarrow> 'a list"
    and inv :: "'s \<Rightarrow> bool"
    and capacity :: nat
  assumes put_room: "inv s \<Longrightarrow> length (contents s) < capacity \<Longrightarrow>
      \<exists>s'. put x s = Some s' \<and> inv s' \<and> contents s' = contents s @ [x]"
    and get_empty: "inv s \<Longrightarrow> contents s = [] \<Longrightarrow> get s = None"
    and get_first: "inv s \<Longrightarrow> contents s = x # xs \<Longrightarrow> \<exists>s'. get s = Some (x, s') \<and> inv s' \<and> contents s' = xs"
begin

fun puts :: "'a list \<Rightarrow> 's \<Rightarrow> 's option" where
  "puts [] s = Some s"
| "puts (x # xs) s = Option.bind (put x s) (puts xs)"

fun gets :: "nat \<Rightarrow> 's \<Rightarrow> ('a list \<times> 's) option" where
  "gets 0 s = Some ([], s)"
| "gets (Suc n) s =
     Option.bind (get s) (\<lambda>(x, s1). map_option (\<lambda>(xs, s2). (x # xs, s2)) (gets n s1))"

lemma puts_room:
  "inv s \<Longrightarrow> length (contents s) + length xs \<le> capacity \<Longrightarrow>
   \<exists>s'. puts xs s = Some s' \<and> inv s' \<and> contents s' = contents s @ xs"
proof (induction xs arbitrary: s)
  case Nil
  then show ?case by simp
next
  case (Cons x xs)
  then obtain s1 where s1: "put x s = Some s1" "inv s1" "contents s1 = contents s @ [x]"
    using put_room [of s x] by auto
  with Cons.IH [of s1] Cons.prems show ?case by auto
qed

lemma gets_contents:
  "inv s \<Longrightarrow> n \<le> length (contents s) \<Longrightarrow>
   \<exists>s'. gets n s = Some (take n (contents s), s') \<and> inv s' \<and> contents s' = drop n (contents s)"
proof (induction n arbitrary: s)
  case 0
  then show ?case by simp
next
  case (Suc n)
  then obtain x xs where c: "contents s = x # xs" by (cases "contents s") auto
  from get_first [OF Suc.prems(1) c] obtain s1 where s1: "get s = Some (x, s1)" "inv s1" "contents s1 = xs"
    by blast
  with Suc.IH [of s1] Suc.prems c show ?case by auto
qed

lemma fifo:
  assumes "inv s" and "contents s = []" and "length xs \<le> capacity"
  shows "\<exists>s1 s2. puts xs s = Some s1 \<and> gets (length xs) s1 = Some (xs, s2) \<and> contents s2 = []"
proof -
  obtain s1 where s1: "puts xs s = Some s1" "inv s1" "contents s1 = xs"
    using puts_room [of s xs] assms by auto
  with gets_contents [of s1 "length xs"] show ?thesis by auto
qed

end

definition ring_get :: "Ring_Buffer \<Rightarrow> (uint8 \<times> Ring_Buffer) option" where
  "ring_get rb = (case ring_pop rb of (c, rb') \<Rightarrow> if c = - 1 then None else Some (of_int c, rb'))"

interpretation ring_fifo: bounded_fifo ring_push ring_get ring_contents ring_wf 255
proof unfold_locales
  fix rb :: Ring_Buffer and x :: uint8 and xs
  assume wf: "ring_wf rb"
  show "\<exists>rb'. ring_push x rb = Some rb' \<and> ring_wf rb' \<and> ring_contents rb' = ring_contents rb @ [x]"
    if "length (ring_contents rb) < 255" using ring_push_contents [OF wf that] .
  show "ring_get rb = None" if "ring_contents rb = []"
    using ring_pop_contents(1) [OF that] by (simp add: ring_get_def)
  show "\<exists>rb'. ring_get rb = Some (x, rb') \<and> ring_wf rb' \<and> ring_contents rb' = xs"
    if c: "ring_contents rb = x # xs"
  proof -
    obtain rb' where "ring_pop rb = (int (unat x), rb')" "ring_contents rb' = xs" "rb_buffer rb' = rb_buffer rb"
      using ring_pop_contents(2) [OF c] by blast
    moreover have "0 \<le> uint x" by simp
    then have "uint x \<noteq> - 1" by linarith
    ultimately show ?thesis using wf by (simp add: ring_get_def ring_wf_def)
  qed
qed

section \<open>What the interrupt handlers do\<close>

lemma wakeup_frame:
  assumes "kmap k" and "sleepers_ok k"
  shows "machine (wakeup ch k) = machine k" and "ring_buffer (wakeup ch k) = ring_buffer k"
    and "systicks (wakeup ch k) = systicks k" and "free_list (wakeup ch k) = free_list k"
    and "current_process (wakeup ch k) = current_process k" and "kmap (wakeup ch k)"
  using wakeup_effect [OF assms] woken_kmap [OF assms(1)] by (simp_all add: woken_def free_list_def)

lemma uart_rx_effect:
  assumes "kmap k" and "sleepers_ok k" and "bit (uart_status (uart (machine k))) 0"
    and "uart_rx (uart (machine k)) \<noteq> 4"
    and "ring_push (uart_rx (uart (machine k))) (ring_buffer k) = Some rb"
  obtains k' where "uart_rx_interrupt ws k = Some (Inr ((), ws, k'))" and "ring_buffer k' = rb"
    and "\<And>p. p < MAX_PROC_COUNT \<Longrightarrow> sleeps_on k (ring_buffer_addr (sym k)) p \<Longrightarrow>
      proc_state (proc_table k' ! p) = PROC_STATE_READY"
proof -
  let ?m = "acknowledged PLIC_PIN_UART_RX (machine k)"
  let ?m1 = "?m\<lparr>uart := (uart ?m)\<lparr>uart_status := uart_status (uart ?m) AND NOT UART_STATUS_RX_READY\<rparr>\<rparr>"
  let ?k = "k\<lparr>machine := ?m1\<rparr>"
  let ?k' = "wakeup (ring_buffer_addr (sym k)) (?k\<lparr>ring_buffer := rb\<rparr>)"
  have mp: "kernel_mapped ?m" using kmap_mapped [OF assms(1)] by simp
  have e: "uart_rx_interrupt ws k = Some (Inr ((), ws, ?k'))"
    using assms(3-5) uart_rx_read [OF mp] status_read(1) [OF mp]
    by (simp add: uart_rx_interrupt_def plic_acknowledge_effect [OF assms(1)] MMIO8_read_def byte_bits
        uart_store_def io_do_def)
  have k1: "kmap (?k\<lparr>ring_buffer := rb\<rparr>)" "sleepers_ok (?k\<lparr>ring_buffer := rb\<rparr>)"
    using assms(1,2) by (simp_all add: kmap_def sleepers_ok_def pcb_ok_def)
  have "proc_state (proc_table ?k' ! p) = PROC_STATE_READY"
    if "p < MAX_PROC_COUNT" "sleeps_on k (ring_buffer_addr (sym k)) p" for p
  proof -
    have "sleeps_on (?k\<lparr>ring_buffer := rb\<rparr>) (ring_buffer_addr (sym k)) p"
      using that(2) by (simp add: sleeps_on_def pcb_word_def pcb_byte_def frame_byte_def)
    then show ?thesis using that(1) assms(1) wakeup_effect [OF k1] by (simp add: woken_nth kmap_def)
  qed
  then show ?thesis using e wakeup_frame(2) [OF k1] by (intro that [of ?k']) simp_all
qed

end
