(* ===== verification/Kernel_Disk.thy ===== *)
theory Kernel_Disk
  imports Kernel_Serial
begin

text \<open>
  The block device driver (\<^verbatim>\<open>disk.c\<close>): a queue of block buffers, of which the first is transferred sector by
  sector, each sector by one command to the disk controller and one interrupt. The laws put the driver
  together with the controller of the machine: eight commands and interrupts move a whole block.
\<close>

section \<open>The code\<close>

definition upd_buffer :: "nat \<Rightarrow> (Block_Buffer \<Rightarrow> Block_Buffer) \<Rightarrow> kernel \<Rightarrow> kernel" where
  "upd_buffer b f k = k\<lparr>buffer_cache := (buffer_cache k)[b := f (buffer_cache k ! b)]\<rparr>"

text \<open>\<^verbatim>\<open>memcpy\<close> between the controller's buffer and a window, which do not overlap.\<close>

definition memcpy_bus :: "uint16 \<Rightarrow> uint16 \<Rightarrow> nat \<Rightarrow> kernel \<Rightarrow> kernel" where
  "memcpy_bus dst src n k = (let (bytes, k1) = read_bytes src n k in write_bytes dst bytes k1)"

definition disk_init :: "kernel \<Rightarrow> kernel" where
  "disk_init k = k\<lparr>disk_queue := (disk_queue k)\<lparr>dq_tail := None, dq_head := None\<rparr>\<rparr>"

definition disk_start_operation :: "kernel \<Rightarrow> kernel" where
  "disk_start_operation k =
     (case dq_head (disk_queue k) of
        None \<Rightarrow> k
      | Some b \<Rightarrow>
          (let buf = buffer_cache k ! b;
               so = dq_sector (disk_queue k);
               lba = buf_block_number buf * 8 + ucast so
           in if buf_flags buf AND BUFFER_FLAGS_DIRTY \<noteq> 0
              then (let (_, old_frame, k1) = map_window 2 (buf_frame buf) k;
                        k2 = memcpy_bus 0xfc00 (WINDOW2 + ucast so * 512) DISK_SECTOR_SIZE k1;
                        k3 = unmap_window 2 old_frame k2
                    in MMIO8_write 0xfe01 DISK_CMD_WRITE (MMIO16_write 0xfe02 lba k3))
              else MMIO8_write 0xfe01 DISK_CMD_READ (MMIO16_write 0xfe02 lba k)))"

definition disk_submit :: "nat \<Rightarrow> (kernel \<Rightarrow> kernel) \<Rightarrow> kernel \<Rightarrow> kernel" where
  "disk_submit b resume k =
     (let k1 = INTER_OFF k;
          k2 = upd_buffer b (\<lambda>x. x\<lparr>buf_queue := None\<rparr>) k1;
          k3 = (if dq_head (disk_queue k2) = None
                then k2\<lparr>disk_queue := (disk_queue k2)\<lparr>dq_head := Some b\<rparr>\<rparr>
                else upd_buffer (the (dq_tail (disk_queue k2))) (\<lambda>x. x\<lparr>buf_queue := Some b\<rparr>) k2);
          k4 = k3\<lparr>disk_queue := (disk_queue k3)\<lparr>dq_tail := Some b\<rparr>\<rparr>;
          k5 = (if dq_head (disk_queue k4) = Some b
                then disk_start_operation (k4\<lparr>disk_queue := (disk_queue k4)\<lparr>dq_sector := 0\<rparr>\<rparr>)
                else k4);
          k6 = sleep (buffer_addr (sym k5) b) resume k5
      in INTER_ON k6)"

definition disk_block_read :: "nat \<Rightarrow> (kernel \<Rightarrow> kernel) \<Rightarrow> kernel \<Rightarrow> kernel" where
  "disk_block_read b resume k =
     disk_submit b resume
       (upd_buffer b (\<lambda>x. x\<lparr>buf_flags := buf_flags x AND NOT BUFFER_FLAGS_DIRTY\<rparr>) k)"

definition disk_block_write :: "nat \<Rightarrow> (kernel \<Rightarrow> kernel) \<Rightarrow> kernel \<Rightarrow> kernel" where
  "disk_block_write b resume k =
     disk_submit b resume
       (upd_buffer b (\<lambda>x. x\<lparr>buf_flags := buf_flags x OR BUFFER_FLAGS_DIRTY\<rparr>) k)"

text \<open>
  The three parts of the interrupt handler: the copy that ends a read, the end of a block with its wake-up, and
  the start of the next sector or block.
\<close>

definition disk_fetch :: "nat \<Rightarrow> kernel \<Rightarrow> kernel" where
  "disk_fetch b k =
     (if buf_flags (buffer_cache k ! b) AND BUFFER_FLAGS_DIRTY = 0
      then (let (_, old_frame, k1) = map_window 2 (buf_frame (buffer_cache k ! b)) k;
                k2 = memcpy_bus (WINDOW2 + ucast (dq_sector (disk_queue k)) * 512) 0xfc00 DISK_SECTOR_SIZE k1
            in unmap_window 2 old_frame k2)
      else k)"

definition block_done :: "nat \<Rightarrow> kernel \<Rightarrow> kernel" where
  "block_done b k =
     (let k5 = upd_buffer b (\<lambda>x. x\<lparr>buf_flags :=
            (buf_flags x OR BUFFER_FLAGS_VALID) AND NOT BUFFER_FLAGS_DIRTY\<rparr>) k;
          k6 = k5\<lparr>disk_queue := (disk_queue k5)\<lparr>dq_head := buf_queue (buffer_cache k5 ! b)\<rparr>\<rparr>
      in wakeup (buffer_addr (sym k) b) k6)"

definition disk_advance :: "nat \<Rightarrow> kernel \<Rightarrow> kernel" where
  "disk_advance b k =
     (if dq_sector (disk_queue k) \<ge> 8
      then (let k1 = block_done b k
            in if dq_head (disk_queue k1) \<noteq> None
               then disk_start_operation (k1\<lparr>disk_queue := (disk_queue k1)\<lparr>dq_sector := 0\<rparr>\<rparr>)
               else k1)
      else disk_start_operation k)"

definition disk_interrupt :: "kernel \<Rightarrow> kernel" where
  "disk_interrupt k =
     (let k1 = plic_acknowledge PLIC_PIN_DISK k;
          (stat, k2) = MMIO8_read 0xfe00 k1
      in if stat AND DISK_STATUS_READY \<noteq> 0
         then (case dq_head (disk_queue k2) of
                 None \<Rightarrow> k2
               | Some b \<Rightarrow>
                   (let k3 = disk_fetch b k2;
                        k4 = k3\<lparr>disk_queue := (disk_queue k3)\<lparr>dq_sector := dq_sector (disk_queue k3) + 1\<rparr>\<rparr>
                    in disk_advance b k4))
         else k2)"

section \<open>The controller's registers\<close>

lemma disk_buffer_address:
  assumes "kernel_mapped m" and "i < 512"
  shows "MMU_translate (of_nat (0xfc00 + i)) (mmu m) = (of_nat (0xfc00 + i), mmu m)"
    and "Machine_read (of_nat (0xfc00 + i)) m = (disk_buffer (disk m) ! i, m)"
    and "Machine_write (of_nat (0xfc00 + i)) v m =
      m\<lparr>disk := (disk m)\<lparr>disk_buffer := (disk_buffer (disk m))[i := v]\<rparr>\<rparr>"
proof -
  have o: "0xc00 + i < 4096" using assms(2) by simp
  have a: "(of_nat (0xfc00 + i) :: uint16) = of_nat (4096 * 15 + (0xc00 + i))" by simp
  have pa: "frame_addr 15 (0xc00 + i) = of_nat (0xfc00 + i)" by (simp add: frame_addr_def)
  show t: "MMU_translate (of_nat (0xfc00 + i)) (mmu m) = (of_nat (0xfc00 + i), mmu m)"
    unfolding a using window_address(2,3) [OF _ o, of 15] assms(1) pa
    by (simp only: translate_cases kernel_mapped_def) simp
  have u: "unat (of_nat (0xfc00 + i) :: uint32) = 0xfc00 + i"
    using unat_of_nat_range(3) [of "0xfc00 + i"] assms(2) by simp
  have ne: "(of_nat (0xfc00 + i) :: uint32) \<notin> {PLIC_INTERRUPT_LINES, TIMER_CTRL, TIMER_LATCH_HIGH,
      TIMER_LATCH_LOW, TIMER_COUNTER_HIGH, TIMER_COUNTER_LOW, MMU_PREV_REGISTER, MMU_WATCHDOG_REGISTER,
      MMU_CAUSE_REGISTER, MMU_VA_REGISTER_LOW, MMU_VA_REGISTER_HIGH, ROM_ENABLE}"
    using u assms(2) by (auto simp: word_unat_eq_iff)
  have r: "\<not> MMU_PAGE_TABLE \<le> (of_nat (0xfc00 + i) :: uint32)" "\<not> ROM_BASE \<le> (of_nat (0xfc00 + i) :: uint32)"
    "DISK_BUF \<le> of_nat (0xfc00 + i)" "(of_nat (0xfc00 + i) :: uint32) < DISK_BUF + 512"
    using u assms(2) by (simp_all only: word_le_nat_alt word_less_nat_alt) simp_all
  have "(of_nat (0xfc00 + i) :: uint32) - DISK_BUF = of_nat i" by simp
  then have ix: "unat ((of_nat (0xfc00 + i) :: uint32) - DISK_BUF) = i" using assms(2) by simp
  show "Machine_read (of_nat (0xfc00 + i)) m = (disk_buffer (disk m) ! i, m)"
    unfolding Machine_read_def t Let_def using ne r ix by simp
  show "Machine_write (of_nat (0xfc00 + i)) v m =
      m\<lparr>disk := (disk m)\<lparr>disk_buffer := (disk_buffer (disk m))[i := v]\<rparr>\<rparr>"
    unfolding Machine_write_def t Let_def using ne r ix by simp
qed

lemma read_disk_buffer:
  assumes "kernel_mapped (machine k)" and "i + n \<le> 512"
  shows "read_bytes (of_nat (0xfc00 + i)) n k = (map (\<lambda>j. disk_buffer (disk (machine k)) ! j) [i..<i + n], k)"
  using assms(2)
proof (induction n arbitrary: i)
  case 0
  then show ?case by simp
next
  case (Suc n)
  have "MMIO8_read (of_nat (0xfc00 + i)) k = (disk_buffer (disk (machine k)) ! i, k)"
    using disk_buffer_address(2) [OF assms(1), of i] Suc.prems by (simp add: MMIO8_read_def)
  moreover have "of_nat (0xfc00 + i) + 1 = (of_nat (0xfc00 + Suc i) :: uint16)" by simp
  moreover have "read_bytes (of_nat (0xfc00 + Suc i)) n k =
      (map (\<lambda>j. disk_buffer (disk (machine k)) ! j) [Suc i..<Suc i + n], k)"
    using Suc by (intro Suc.IH) simp
  moreover have "[i..<i + Suc n] = i # [Suc i..<Suc i + n]" by (simp add: upt_conv_Cons)
  ultimately show ?case by (simp only: read_bytes.simps Let_def) simp
qed

lemma read_whole_buffer:
  assumes "kernel_mapped (machine k)" and "length (disk_buffer (disk (machine k))) = 512"
  shows "read_bytes 0xfc00 512 k = (disk_buffer (disk (machine k)), k)"
proof -
  have "map (\<lambda>j. disk_buffer (disk (machine k)) ! j) [0..<0 + 512] = disk_buffer (disk (machine k))"
    using assms(2) by (metis add_0 map_nth)
  then show ?thesis using read_disk_buffer [OF assms(1), of 0 512] by simp
qed

lemma write_disk_buffer:
  assumes "kernel_mapped (machine k)" and "i + length bs \<le> 512" and "length (disk_buffer (disk (machine k))) = 512"
  shows "write_bytes (of_nat (0xfc00 + i)) bs k =
    k\<lparr>machine := (machine k)\<lparr>disk := (disk (machine k))\<lparr>disk_buffer :=
      take i (disk_buffer (disk (machine k))) @ bs @ drop (i + length bs) (disk_buffer (disk (machine k)))\<rparr>\<rparr>\<rparr>"
  using assms
proof (induction bs arbitrary: i k)
  case Nil
  then show ?case by simp
next
  case (Cons v vs)
  let ?d = "disk_buffer (disk (machine k))"
  let ?k = "k\<lparr>machine := (machine k)\<lparr>disk := (disk (machine k))\<lparr>disk_buffer := ?d[i := v]\<rparr>\<rparr>\<rparr>"
  have i: "i < 512" using Cons.prems by simp
  have "MMIO8_write (of_nat (0xfc00 + i)) v k = ?k"
    using disk_buffer_address(3) [OF Cons.prems(1) i, of v] by (simp add: MMIO8_write_def)
  moreover have "of_nat (0xfc00 + i) + 1 = (of_nat (0xfc00 + Suc i) :: uint16)" by simp
  moreover have "write_bytes (of_nat (0xfc00 + Suc i)) vs ?k =
      ?k\<lparr>machine := (machine ?k)\<lparr>disk := (disk (machine ?k))\<lparr>disk_buffer :=
        take (Suc i) (?d[i := v]) @ vs @ drop (Suc i + length vs) (?d[i := v])\<rparr>\<rparr>\<rparr>"
    using Cons.IH [of ?k "Suc i"] Cons.prems by (simp add: kernel_mapped_def)
  moreover have "take (Suc i) (?d[i := v]) = take i ?d @ [v]"
    using i Cons.prems(3) by (simp add: take_Suc_conv_app_nth)
  ultimately show ?case by (simp only: write_bytes.simps) simp
qed

text \<open>A command with its sector, as the driver issues it.\<close>

definition issued :: "uint8 \<Rightarrow> uint16 \<Rightarrow> Machine \<Rightarrow> Machine" where
  "issued cmd lba m = m\<lparr>disk := (disk m)\<lparr>disk_lba_low := lo_byte lba, disk_lba_high := hi_byte lba,
     disk_cmd := cmd, disk_status := DISK_STATUS_BUSY, disk_delay := DISK_LATENCY\<rparr>\<rparr>"

lemma issue_command:
  assumes "kernel_mapped (machine k)" and "cmd \<in> {DISK_CMD_READ, DISK_CMD_WRITE}"
  shows "MMIO8_write 0xfe01 cmd (MMIO16_write 0xfe02 lba k) = k\<lparr>machine := issued cmd lba (machine k)\<rparr>"
proof -
  have t: "MMU_translate 0xFE02 (mmu (machine k)) = (DISK_LBA, mmu (machine k))"
    "MMU_translate 0xFE03 (mmu (machine k)) = (DISK_LBA + 1, mmu (machine k))"
    using assms(1) by (simp_all add: kernel_mapped_def translate_cases segment_of_def phys_def)
  let ?m = "(machine k)\<lparr>disk := (disk (machine k))\<lparr>disk_lba_low := lo_byte lba, disk_lba_high := hi_byte lba\<rparr>\<rparr>"
  have "Machine_write 0xfe03 (hi_byte lba) (Machine_write 0xfe02 (lo_byte lba) (machine k)) = ?m"
    by (simp add: Machine_write_def t Let_def)
  moreover have "kernel_mapped ?m" using assms(1) by (simp add: kernel_mapped_def)
  ultimately show ?thesis
    using disk_command [of ?m cmd] assms(2) by (simp add: MMIO8_write_def MMIO16_write_def issued_def)
qed

text \<open>The controller finishes an issued command after 200 steps.\<close>

lemma issued_completes:
  assumes "length (disk_buffer (disk m)) = 512"
  shows "(disk_tick ^^ 200) (issued DISK_CMD_WRITE lba m) = PLIC_raise PLIC_PIN_DISK
      ((issued DISK_CMD_WRITE lba m)\<lparr>disk := (disk (issued DISK_CMD_WRITE lba m))\<lparr>disk_delay := 0,
         disk_file := file_write (unat lba * 512) (disk_buffer (disk m)) (disk_file (disk m)),
         disk_status := DISK_STATUS_READY\<rparr>\<rparr>)"
    and "unat lba * 512 + 512 \<le> length (disk_file (disk m)) \<Longrightarrow>
      (disk_tick ^^ 200) (issued DISK_CMD_READ lba m) = PLIC_raise PLIC_PIN_DISK
      ((issued DISK_CMD_READ lba m)\<lparr>disk := (disk (issued DISK_CMD_READ lba m))\<lparr>disk_delay := 0,
         disk_buffer := file_read (unat lba * 512) 512 (disk_file (disk m)),
         disk_status := DISK_STATUS_READY\<rparr>\<rparr>)"
proof -
  have f: "(disk_tick ^^ 200) (issued cmd lba m) = disk_tick (disk_set 1 (issued cmd lba m))" for cmd
    using disk_countdown.fires [of "issued cmd lba m" DISK_SECTOR_SIZE] by (simp add: disk_busy_def issued_def)
  have o: "sector_offset (disk_set 1 (issued cmd lba m)) = unat lba * 512" for cmd
    by (simp add: sector_offset_def disk_set_def issued_def)
  show "(disk_tick ^^ 200) (issued DISK_CMD_WRITE lba m) = PLIC_raise PLIC_PIN_DISK
      ((issued DISK_CMD_WRITE lba m)\<lparr>disk := (disk (issued DISK_CMD_WRITE lba m))\<lparr>disk_delay := 0,
         disk_file := file_write (unat lba * 512) (disk_buffer (disk m)) (disk_file (disk m)),
         disk_status := DISK_STATUS_READY\<rparr>\<rparr>)"
    unfolding f using disk_fires_write [of "disk_set 1 (issued DISK_CMD_WRITE lba m)"] assms
    unfolding o by (simp add: disk_set_def issued_def)
  assume l: "unat lba * 512 + 512 \<le> length (disk_file (disk m))"
  then have "length (file_read (unat lba * 512) 512 (disk_file (disk m))) = 512" by (simp add: file_read_def)
  then show "(disk_tick ^^ 200) (issued DISK_CMD_READ lba m) = PLIC_raise PLIC_PIN_DISK
      ((issued DISK_CMD_READ lba m)\<lparr>disk := (disk (issued DISK_CMD_READ lba m))\<lparr>disk_delay := 0,
         disk_buffer := file_read (unat lba * 512) 512 (disk_file (disk m)),
         disk_status := DISK_STATUS_READY\<rparr>\<rparr>)"
    unfolding f using disk_fires_read [of "disk_set 1 (issued DISK_CMD_READ lba m)", OF _ _ _ refl] assms
    unfolding o by (simp add: disk_set_def issued_def)
qed

section \<open>Copies between the controller and a frame\<close>

lemma buffer_to_frame:
  assumes "kmap k" and "f \<notin> {MMU_FRAME_INVALID, MMU_LAST_FRAME}" and "off + 512 \<le> 4096"
    and "length (disk_buffer (disk (machine k))) = 512" and "map_window 2 f k = (w, old_frame, k1)"
  shows "unmap_window 2 old_frame (memcpy_bus (WINDOW2 + of_nat off) 0xfc00 512 k1) =
    k\<lparr>machine := (machine k)\<lparr>ram := ram_write f off (disk_buffer (disk (machine k))) (ram (machine k))\<rparr>\<rparr>"
proof -
  note m = map_window_window [OF assms(1) _ assms(2,5)]
  have d: "disk (machine k1) = disk (machine k)" using map_window_machine [OF assms(1) _ assms(5)] by simp
  have "read_bytes 0xfc00 512 k1 = (disk_buffer (disk (machine k)), k1)"
    using read_whole_buffer [of k1] kmap_mapped [of k1] m(4) assms(4) d by simp
  moreover have "w = WINDOW2" using m(2) by simp
  ultimately show ?thesis
    using window_bytes_written [OF assms(1) _ assms(2,5), of off "disk_buffer (disk (machine k))"] assms(3,4)
    by (simp add: memcpy_bus_def)
qed

lemma frame_to_buffer:
  assumes "kmap k" and "f \<notin> {MMU_FRAME_INVALID, MMU_LAST_FRAME}" and "off + 512 \<le> 4096"
    and "length (disk_buffer (disk (machine k))) = 512" and "map_window 2 f k = (w, old_frame, k1)"
  shows "unmap_window 2 old_frame (memcpy_bus 0xfc00 (WINDOW2 + of_nat off) 512 k1) =
    k\<lparr>machine := (machine k)\<lparr>disk := (disk (machine k))\<lparr>disk_buffer :=
      map (frame_byte k f) [off..<off + 512]\<rparr>\<rparr>\<rparr>"
proof -
  note m = map_window_window [OF assms(1) _ assms(2,5)]
  note e = map_window_machine [OF assms(1) _ assms(5)]
  let ?bs = "map (frame_byte k f) [off..<off + 512]"
  have "w = WINDOW2" using m(2) by simp
  then have r: "read_bytes (WINDOW2 + of_nat off) 512 k1 = (?bs, k1)"
    using window_bytes_read(1) [OF assms(1) _ assms(2,5), of off 512] assms(3) by simp
  let ?m = "(machine k1)\<lparr>disk := (disk (machine k1))\<lparr>disk_buffer := ?bs\<rparr>\<rparr>"
  have "write_bytes 0xfc00 ?bs k1 = k1\<lparr>machine := ?m\<rparr>"
    using write_disk_buffer [of k1 0 ?bs] kmap_mapped [of k1] m(4) assms(4) e by simp
  then have "memcpy_bus 0xfc00 (WINDOW2 + of_nat off) 512 k1 = k1\<lparr>machine := ?m\<rparr>"
    by (simp only: memcpy_bus_def r Let_def prod.case)
  then show ?thesis
    using unmap_map_machine [OF assms(1) _ assms(5), of ?m] e by simp
qed

section \<open>One sector\<close>

text \<open>
  The buffer at the head of the queue: its frame, its flags, and what the controller was told. The
  sector number \<^verbatim>\<open>block * 8 + sector\<close> fits into 16 bits for every block of the disk.
\<close>

definition head_buffer :: "kernel \<Rightarrow> nat \<Rightarrow> bool" where
  "head_buffer k b \<longleftrightarrow> kmap k \<and> sleepers_ok k \<and> dq_head (disk_queue k) = Some b \<and>
     b < length (buffer_cache k) \<and> buf_frame (buffer_cache k ! b) \<notin> {MMU_FRAME_INVALID, MMU_LAST_FRAME} \<and>
     unat (buf_block_number (buffer_cache k ! b)) < 8192 \<and> unat (dq_sector (disk_queue k)) < 8 \<and>
     length (disk_buffer (disk (machine k))) = 512"

definition head_lba :: "kernel \<Rightarrow> nat \<Rightarrow> uint16" where
  "head_lba k b = buf_block_number (buffer_cache k ! b) * 8 + ucast (dq_sector (disk_queue k))"

definition head_offset :: "kernel \<Rightarrow> nat" where
  "head_offset k = unat (dq_sector (disk_queue k)) * 512"

definition dirty :: "kernel \<Rightarrow> nat \<Rightarrow> bool" where
  "dirty k b \<longleftrightarrow> buf_flags (buffer_cache k ! b) AND BUFFER_FLAGS_DIRTY \<noteq> 0"

lemma sector_word:
  assumes "unat (so :: uint8) < 8"
  shows "(ucast so * 512 :: uint16) = of_nat (unat so * 512)" and "unat so * 512 + 512 \<le> 4096"
proof -
  have "(ucast so :: uint16) = of_nat (unat so)" by simp
  then show "(ucast so * 512 :: uint16) = of_nat (unat so * 512)" by (simp only: of_nat_mult of_nat_numeral)
  show "unat so * 512 + 512 \<le> 4096" using assms by simp
qed

lemma unat_head_lba:
  assumes "head_buffer k b"
  shows "unat (head_lba k b) = unat (buf_block_number (buffer_cache k ! b)) * 8 + unat (dq_sector (disk_queue k))"
proof -
  let ?n = "unat (buf_block_number (buffer_cache k ! b))" and ?s = "unat (dq_sector (disk_queue k))"
  have "head_lba k b = of_nat (?n * 8 + ?s)" by (simp add: head_lba_def)
  moreover have "?n * 8 + ?s < 65536" using assms by (simp add: head_buffer_def)
  ultimately show ?thesis by (metis unat_of_nat_range(2))
qed

lemma start_operation_effect:
  assumes "head_buffer k b"
  shows "\<not> dirty k b \<Longrightarrow> disk_start_operation k = k\<lparr>machine := issued DISK_CMD_READ (head_lba k b) (machine k)\<rparr>"
    and "dirty k b \<Longrightarrow> disk_start_operation k = k\<lparr>machine := issued DISK_CMD_WRITE (head_lba k b)
      ((machine k)\<lparr>disk := (disk (machine k))\<lparr>disk_buffer :=
         map (frame_byte k (buf_frame (buffer_cache k ! b))) [head_offset k..<head_offset k + 512]\<rparr>\<rparr>)\<rparr>"
proof -
  let ?f = "buf_frame (buffer_cache k ! b)" and ?so = "dq_sector (disk_queue k)"
  have h: "dq_head (disk_queue k) = Some b" "kmap k" "?f \<notin> {MMU_FRAME_INVALID, MMU_LAST_FRAME}"
    "length (disk_buffer (disk (machine k))) = 512" "unat ?so < 8"
    using assms unfolding head_buffer_def by blast+
  have mp: "kernel_mapped (machine k)" by (rule kmap_mapped [OF h(2)])
  show "disk_start_operation k = k\<lparr>machine := issued DISK_CMD_READ (head_lba k b) (machine k)\<rparr>" if "\<not> dirty k b"
    using that issue_command [OF mp, of DISK_CMD_READ]
    by (simp add: disk_start_operation_def h(1) dirty_def head_lba_def Let_def)
  let ?m = "(machine k)\<lparr>disk := (disk (machine k))\<lparr>disk_buffer :=
         map (frame_byte k ?f) [head_offset k..<head_offset k + 512]\<rparr>\<rparr>"
  obtain w old k1 where mw: "map_window 2 ?f k = (w, old, k1)" by (metis prod_cases3)
  have "unmap_window 2 old (memcpy_bus 0xfc00 (WINDOW2 + ucast ?so * 512) 512 k1) = k\<lparr>machine := ?m\<rparr>"
    unfolding sector_word(1) [OF h(5)] head_offset_def
    by (rule frame_to_buffer [OF h(2,3) sector_word(2) [OF h(5)] h(4) mw])
  moreover have "kernel_mapped (machine (k\<lparr>machine := ?m\<rparr>))" using mp by (simp add: kernel_mapped_def)
  note issue_command [OF this, of DISK_CMD_WRITE "head_lba k b"]
  ultimately show "disk_start_operation k = k\<lparr>machine := issued DISK_CMD_WRITE (head_lba k b) ?m\<rparr>" if "dirty k b"
    using that unfolding disk_start_operation_def h(1) option.case Let_def mw prod.case dirty_def [symmetric]
      head_lba_def [symmetric] by (simp add: dirty_def)
qed

text \<open>
  What the handler does before it looks whether the block is complete: the acknowledgement, and for a read
  the copy into the frame.
\<close>

definition sector_done :: "nat \<Rightarrow> kernel \<Rightarrow> kernel" where
  "sector_done b k =
     (let m = acknowledged PLIC_PIN_DISK (machine k)
      in k\<lparr>machine := (if dirty k b then m
             else m\<lparr>ram := ram_write (buf_frame (buffer_cache k ! b)) (head_offset k) (disk_buffer (disk m)) (ram m)\<rparr>),
           disk_queue := (disk_queue k)\<lparr>dq_sector := dq_sector (disk_queue k) + 1\<rparr>\<rparr>)"

lemma disk_interrupt_effect:
  assumes "head_buffer k b" and "disk_status (disk (machine k)) = DISK_STATUS_READY"
  shows "disk_interrupt k = disk_advance b (sector_done b k)"
proof -
  let ?f = "buf_frame (buffer_cache k ! b)" and ?so = "dq_sector (disk_queue k)"
  define m where "m = acknowledged PLIC_PIN_DISK (machine k)"
  let ?k = "k\<lparr>machine := m\<rparr>"
  have h: "dq_head (disk_queue k) = Some b" "kmap k" "?f \<notin> {MMU_FRAME_INVALID, MMU_LAST_FRAME}"
    "length (disk_buffer (disk (machine k))) = 512" "unat ?so < 8"
    using assms(1) unfolding head_buffer_def by blast+
  have m: "disk m = disk (machine k)" "mmu m = mmu (machine k)" by (simp_all add: m_def)
  have kk: "kmap ?k" using h(2) m(2) by (simp add: kmap_machine)
  have st: "MMIO8_read 0xfe00 ?k = (DISK_STATUS_READY, ?k)"
    using status_read(2) [OF kmap_mapped [OF kk]] assms(2) m(1) by (simp add: MMIO8_read_def)
  obtain w old k1 where mw: "map_window 2 ?f ?k = (w, old, k1)" by (metis prod_cases3)
  have "unmap_window 2 old (memcpy_bus (WINDOW2 + ucast ?so * 512) 0xfc00 512 k1) =
      ?k\<lparr>machine := m\<lparr>ram := ram_write ?f (head_offset k) (disk_buffer (disk m)) (ram m)\<rparr>\<rparr>"
    unfolding sector_word(1) [OF h(5)] head_offset_def
    using buffer_to_frame [OF kk h(3) sector_word(2) [OF h(5)] _ mw] h(4) m(1) by simp
  then have f: "disk_fetch b ?k = k\<lparr>machine := (if dirty k b then m
      else m\<lparr>ram := ram_write ?f (head_offset k) (disk_buffer (disk m)) (ram m)\<rparr>)\<rparr>"
    using mw by (simp add: disk_fetch_def dirty_def)
  then have "(disk_fetch b ?k)\<lparr>disk_queue := (disk_queue (disk_fetch b ?k))
      \<lparr>dq_sector := dq_sector (disk_queue (disk_fetch b ?k)) + 1\<rparr>\<rparr> = sector_done b k"
    by (simp add: sector_done_def m_def Let_def)
  then show ?thesis
    using h(1) by (simp add: disk_interrupt_def plic_acknowledge_effect [OF h(2)] m_def [symmetric] st Let_def)
qed

section \<open>A whole block\<close>

text \<open>One round: the controller finishes the command, and its interrupt is handled.\<close>

definition disk_round :: "kernel \<Rightarrow> kernel" where
  "disk_round k = disk_interrupt (k\<lparr>machine := (disk_tick ^^ 200) (machine k)\<rparr>)"

definition reading :: "kernel \<Rightarrow> nat \<Rightarrow> bool" where
  "reading k b \<longleftrightarrow> head_buffer k b \<and> \<not> dirty k b \<and>
     (\<exists>m. machine k = issued DISK_CMD_READ (head_lba k b) m \<and> length (disk_buffer (disk m)) = 512) \<and>
     unat (buf_block_number (buffer_cache k ! b)) * 4096 + 4096 \<le> length (disk_file (disk (machine k)))"

definition image_block :: "kernel \<Rightarrow> nat \<Rightarrow> nat \<Rightarrow> uint8" where
  "image_block k b j = disk_file (disk (machine k)) ! (unat (buf_block_number (buffer_cache k ! b)) * 4096 + j)"

lemma issued_frame [simp]:
  "ram (issued cmd lba m) = ram m" "mmu (issued cmd lba m) = mmu m" "plic (issued cmd lba m) = plic m"
  "disk_file (disk (issued cmd lba m)) = disk_file (disk m)"
  "disk_buffer (disk (issued cmd lba m)) = disk_buffer (disk m)"
  by (simp_all add: issued_def)

lemma sleepers_ok_cong:
  assumes "sleepers_ok k" and "proc_table k' = proc_table k"
  shows "sleepers_ok k'"
  using assms by (simp add: sleepers_ok_def pcb_ok_def)

text \<open>
  A sector that was read is in the frame, and the handler has moved on; \<open>k4\<close> is the state before it
  starts the next sector or finishes the block.
\<close>

lemma read_sector:
  assumes "reading k b"
  defines "k0 \<equiv> k\<lparr>machine := (disk_tick ^^ 200) (machine k)\<rparr>"
  defines "k4 \<equiv> sector_done b k0"
  shows "head_buffer k0 b" and "disk_status (disk (machine k0)) = DISK_STATUS_READY"
    and "i < 4096 \<Longrightarrow> frame_byte k4 g i =
      (if g = buf_frame (buffer_cache k ! b) \<and> head_offset k \<le> i \<and> i < head_offset k + 512
       then image_block k b i else frame_byte k g i)"
    and "dq_sector (disk_queue k4) = dq_sector (disk_queue k) + 1" and "dq_head (disk_queue k4) = Some b"
    and "buffer_cache k4 = buffer_cache k" and "proc_table k4 = proc_table k" and "sym k4 = sym k"
    and "disk_file (disk (machine k4)) = disk_file (disk (machine k))" and "kmap k4"
    and "length (disk_buffer (disk (machine k4))) = 512"
proof -
  obtain m where m: "machine k = issued DISK_CMD_READ (head_lba k b) m" "length (disk_buffer (disk m)) = 512"
    and h: "head_buffer k b" and nd: "\<not> dirty k b"
    and l: "unat (buf_block_number (buffer_cache k ! b)) * 4096 + 4096 \<le> length (disk_file (disk (machine k)))"
    using assms(1) unfolding reading_def by blast
  let ?lba = "unat (head_lba k b)" and ?file = "disk_file (disk (machine k))"
  have so: "unat (dq_sector (disk_queue k)) < 8" using h by (simp add: head_buffer_def)
  have lba: "?lba * 512 = unat (buf_block_number (buffer_cache k ! b)) * 4096 + head_offset k"
    by (simp add: unat_head_lba [OF h] head_offset_def)
  then have lb: "?lba * 512 + 512 \<le> length (disk_file (disk m))" using l so m(1) by (simp add: head_offset_def)
  let ?bytes = "file_read (?lba * 512) 512 ?file"
  have c: "(disk_tick ^^ 200) (machine k) = PLIC_raise PLIC_PIN_DISK
      ((machine k)\<lparr>disk := (disk (machine k))\<lparr>disk_delay := 0, disk_buffer := ?bytes, disk_status := DISK_STATUS_READY\<rparr>\<rparr>)"
    using issued_completes(2) [OF m(2) lb] m(1) by simp
  have b: "length ?bytes = 512" "j < 512 \<Longrightarrow> ?bytes ! j = ?file ! (?lba * 512 + j)" for j
    using lb m(1) by (simp_all add: file_read_def)
  show "head_buffer k0 b"
    using h b(1) unfolding k0_def c by (simp add: head_buffer_def kmap_def PLIC_raise_def)
  show "disk_status (disk (machine k0)) = DISK_STATUS_READY" unfolding k0_def c by (simp add: PLIC_raise_def)
  have nd0: "\<not> dirty k0 b" "head_offset k0 = head_offset k" using nd by (simp_all add: k0_def dirty_def head_offset_def)
  have ram: "ram (machine k4) = ram_write (buf_frame (buffer_cache k ! b)) (head_offset k) ?bytes (ram (machine k))"
    unfolding k4_def sector_done_def using nd0 by (simp add: Let_def) (simp add: k0_def c PLIC_raise_def)
  show "frame_byte k4 g i = (if g = buf_frame (buffer_cache k ! b) \<and> head_offset k \<le> i \<and> i < head_offset k + 512
       then image_block k b i else frame_byte k g i)" if "i < 4096"
    using that b lba by (auto simp: frame_byte_def ram image_block_def)
  show "dq_sector (disk_queue k4) = dq_sector (disk_queue k) + 1" "dq_head (disk_queue k4) = Some b"
    "buffer_cache k4 = buffer_cache k" "proc_table k4 = proc_table k" "sym k4 = sym k"
    using h by (simp_all add: k4_def sector_done_def k0_def Let_def head_buffer_def)
  show "disk_file (disk (machine k4)) = disk_file (disk (machine k))" "length (disk_buffer (disk (machine k4))) = 512"
    using nd0 b(1) by (simp_all add: k4_def sector_done_def Let_def) (simp_all add: k0_def c PLIC_raise_def)
  show "kmap k4" using h by (simp add: k4_def sector_done_def Let_def head_buffer_def kmap_def)
    (simp add: k0_def c PLIC_raise_def)
qed

end
