(* ===== verification/Kernel_Block.thy ===== *)
theory Kernel_Block
  imports Kernel_Disk
begin

text \<open>
  Eight rounds of the disk driver and the controller move a whole block between the disk image and the
  frame of the buffer at the head of the queue.
\<close>

section \<open>Reading\<close>

lemma next_sector:
  assumes "unat (w :: uint8) < 7"
  shows "\<not> 8 \<le> w + 1" and "unat (w + 1) = Suc (unat w)"
proof -
  have "w \<noteq> 255" using assms by auto
  then show "unat (w + 1) = Suc (unat w)" by (simp add: unat_byte_inc)
  then show "\<not> 8 \<le> w + 1" using assms by (simp only: word_le_nat_alt) simp
qed

lemma read_round:
  assumes "reading k b" and "unat (dq_sector (disk_queue k)) < 7"
  defines "k' \<equiv> disk_round k"
  shows "reading k' b" and "unat (dq_sector (disk_queue k')) = Suc (unat (dq_sector (disk_queue k)))"
    and "i < 4096 \<Longrightarrow> frame_byte k' g i =
      (if g = buf_frame (buffer_cache k ! b) \<and> head_offset k \<le> i \<and> i < head_offset k + 512
       then image_block k b i else frame_byte k g i)"
    and "buffer_cache k' = buffer_cache k" and "proc_table k' = proc_table k" and "sym k' = sym k"
    and "disk_file (disk (machine k')) = disk_file (disk (machine k))"
proof -
  note r = read_sector [OF assms(1)]
  let ?k0 = "k\<lparr>machine := (disk_tick ^^ 200) (machine k)\<rparr>"
  define k4 where "k4 = sector_done b ?k0"
  note r' = r [folded k4_def]
  have h: "head_buffer k b" and nd: "\<not> dirty k b"
    and l: "unat (buf_block_number (buffer_cache k ! b)) * 4096 + 4096 \<le> length (disk_file (disk (machine k)))"
    using assms(1) unfolding reading_def by blast+
  have h4: "head_buffer k4 b"
    using h r'(4-7,10,11) sleepers_ok_cong [of k k4] next_sector(2) [OF assms(2)] assms(2)
    unfolding head_buffer_def by simp
  have nd4: "\<not> dirty k4 b" using nd r'(6) by (simp add: dirty_def)
  have "k' = disk_start_operation k4"
    unfolding k'_def disk_round_def disk_interrupt_effect [OF r(1,2)] k4_def [symmetric] disk_advance_def r'(4)
    using next_sector(1) [OF assms(2)] by simp
  then have e: "k' = k4\<lparr>machine := issued DISK_CMD_READ (head_lba k4 b) (machine k4)\<rparr>"
    using start_operation_effect(1) [OF h4 nd4] by simp
  have lba: "head_lba k' b = head_lba k4 b" by (simp add: e head_lba_def)
  show "frame_byte k' g i = (if g = buf_frame (buffer_cache k ! b) \<and> head_offset k \<le> i \<and> i < head_offset k + 512
       then image_block k b i else frame_byte k g i)" if "i < 4096"
    using r'(3) [OF that, of g] by (simp add: e frame_byte_def)
  show "unat (dq_sector (disk_queue k')) = Suc (unat (dq_sector (disk_queue k)))"
    using r'(4) next_sector(2) [OF assms(2)] by (simp add: e)
  show "buffer_cache k' = buffer_cache k" "proc_table k' = proc_table k" "sym k' = sym k"
    "disk_file (disk (machine k')) = disk_file (disk (machine k))"
    using r'(6-9) by (simp_all add: e)
  have "head_buffer k' b" using h4 by (simp add: e head_buffer_def kmap_machine)
  moreover have "\<not> dirty k' b" using nd4 by (simp add: e dirty_def)
  moreover have "machine k' = issued DISK_CMD_READ (head_lba k' b) (machine k4)" unfolding lba by (simp add: e)
  ultimately show "reading k' b"
    unfolding reading_def using r'(6,9,11) l by (auto simp: e)
qed

lemma read_rounds:
  assumes "reading k b" and "dq_sector (disk_queue k) = 0" and "n \<le> 7"
  defines "k' \<equiv> (disk_round ^^ n) k"
  shows "reading k' b \<and> unat (dq_sector (disk_queue k')) = n \<and>
    (\<forall>g i. i < 4096 \<longrightarrow> frame_byte k' g i =
      (if g = buf_frame (buffer_cache k ! b) \<and> i < n * 512 then image_block k b i else frame_byte k g i)) \<and>
    buffer_cache k' = buffer_cache k \<and> proc_table k' = proc_table k \<and> sym k' = sym k \<and>
    disk_file (disk (machine k')) = disk_file (disk (machine k))"
  using assms(3) unfolding k'_def
proof (induction n)
  case 0
  then show ?case using assms(1,2) by simp
next
  case (Suc n)
  define kn where "kn = (disk_round ^^ n) k"
  have IH: "reading kn b" "unat (dq_sector (disk_queue kn)) = n"
    "i < 4096 \<Longrightarrow> frame_byte kn g i =
      (if g = buf_frame (buffer_cache k ! b) \<and> i < n * 512 then image_block k b i else frame_byte k g i)"
    "buffer_cache kn = buffer_cache k" "proc_table kn = proc_table k" "sym kn = sym k"
    "disk_file (disk (machine kn)) = disk_file (disk (machine k))" for g i
    using Suc unfolding kn_def by simp_all
  have n: "unat (dq_sector (disk_queue kn)) < 7" using IH(2) Suc.prems by simp
  note r = read_round [OF IH(1) n]
  have im: "image_block kn b = image_block k b" by (simp add: image_block_def IH(4,7) fun_eq_iff)
  have o: "head_offset kn = n * 512" by (simp add: head_offset_def IH(2))
  have "frame_byte (disk_round kn) g i =
      (if g = buf_frame (buffer_cache k ! b) \<and> i < Suc n * 512 then image_block k b i else frame_byte k g i)"
    if "i < 4096" for g i
    using r(3) [OF that, of g] IH(3) [OF that, of g] unfolding im o IH(4) by auto
  then show ?case
    using r IH unfolding funpow.simps o_apply kn_def [symmetric] by simp
qed

lemma last_sector:
  assumes "unat (w :: uint8) = 7"
  shows "8 \<le> w + 1"
proof -
  have "w \<noteq> 255" using assms by auto
  then show ?thesis using assms by (simp only: word_le_nat_alt unat_byte_inc if_False) simp
qed

lemma valid_flags:
  "bit ((w OR BUFFER_FLAGS_VALID) AND NOT BUFFER_FLAGS_DIRTY) 1"
  "\<not> bit ((w OR BUFFER_FLAGS_VALID) AND NOT BUFFER_FLAGS_DIRTY) 2"
  by (simp_all add: bit_simps)

lemma block_done_effect:
  assumes "kmap k" and "sleepers_ok k" and "b < length (buffer_cache k)"
  shows "dq_head (disk_queue (block_done b k)) = buf_queue (buffer_cache k ! b)"
    and "buffer_cache (block_done b k) ! b = (buffer_cache k ! b)\<lparr>buf_flags :=
      (buf_flags (buffer_cache k ! b) OR BUFFER_FLAGS_VALID) AND NOT BUFFER_FLAGS_DIRTY\<rparr>"
    and "machine (block_done b k) = machine k"
    and "p < MAX_PROC_COUNT \<Longrightarrow> sleeps_on k (buffer_addr (sym k) b) p \<Longrightarrow>
      proc_state (proc_table (block_done b k) ! p) = PROC_STATE_READY"
    and "buffer_cache (block_done b k) = (buffer_cache k)[b := (buffer_cache k ! b)\<lparr>buf_flags :=
      (buf_flags (buffer_cache k ! b) OR BUFFER_FLAGS_VALID) AND NOT BUFFER_FLAGS_DIRTY\<rparr>]"
    and "kmap (block_done b k)" and "map kernel_low_memory (proc_table (block_done b k)) = map kernel_low_memory (proc_table k)"
    and "q < MAX_PROC_COUNT \<Longrightarrow> proc_state (proc_table (block_done b k) ! q) =
      (if sleeps_on k (buffer_addr (sym k) b) q then PROC_STATE_READY else proc_state (proc_table k ! q))"
proof -
  let ?k = "(upd_buffer b (\<lambda>x. x\<lparr>buf_flags :=
            (buf_flags x OR BUFFER_FLAGS_VALID) AND NOT BUFFER_FLAGS_DIRTY\<rparr>) k)
    \<lparr>disk_queue := (disk_queue k)\<lparr>dq_head := buf_queue (buffer_cache k ! b)\<rparr>\<rparr>"
  have k: "kmap ?k" "sleepers_ok ?k"
    using assms(1,2) by (simp_all add: kmap_def sleepers_ok_def pcb_ok_def upd_buffer_def)
  have "block_done b k = wakeup (buffer_addr (sym k) b) ?k"
    using assms(3) by (simp add: block_done_def upd_buffer_def Let_def)
  then have e: "block_done b k = woken (buffer_addr (sym k) b) MAX_PROC_COUNT ?k"
    using wakeup_effect [OF k] by simp
  show "dq_head (disk_queue (block_done b k)) = buf_queue (buffer_cache k ! b)"
    "buffer_cache (block_done b k) ! b = (buffer_cache k ! b)\<lparr>buf_flags :=
      (buf_flags (buffer_cache k ! b) OR BUFFER_FLAGS_VALID) AND NOT BUFFER_FLAGS_DIRTY\<rparr>"
    "machine (block_done b k) = machine k"
    "buffer_cache (block_done b k) = (buffer_cache k)[b := (buffer_cache k ! b)\<lparr>buf_flags :=
      (buf_flags (buffer_cache k ! b) OR BUFFER_FLAGS_VALID) AND NOT BUFFER_FLAGS_DIRTY\<rparr>]"
    using assms(3) by (simp_all add: e woken_def upd_buffer_def)
  show "kmap (block_done b k)" unfolding e by (rule woken_kmap [OF k(1)])
  show "map kernel_low_memory (proc_table (block_done b k)) = map kernel_low_memory (proc_table k)"
    unfolding e by (rule nth_equalityI) (simp_all add: woken_def upd_buffer_def)
  have "sleeps_on ?k (buffer_addr (sym k) b) q \<longleftrightarrow> sleeps_on k (buffer_addr (sym k) b) q" for q
    by (simp add: sleeps_on_def pcb_word_def pcb_byte_def frame_byte_def upd_buffer_def)
  then show st: "proc_state (proc_table (block_done b k) ! q) =
      (if sleeps_on k (buffer_addr (sym k) b) q then PROC_STATE_READY else proc_state (proc_table k ! q))"
    if "q < MAX_PROC_COUNT" for q
    using that assms(1) unfolding e by (simp add: woken_nth kmap_def upd_buffer_def)
  show "proc_state (proc_table (block_done b k) ! p) = PROC_STATE_READY"
    if "p < MAX_PROC_COUNT" "sleeps_on k (buffer_addr (sym k) b) p"
    using st [OF that(1)] that(2) by simp
qed

lemma read_block:
  assumes "reading k b" and "dq_sector (disk_queue k) = 0" and "buf_queue (buffer_cache k ! b) = None"
  defines "k' \<equiv> (disk_round ^^ 8) k"
  shows "i < 4096 \<Longrightarrow> frame_byte k' g i =
      (if g = buf_frame (buffer_cache k ! b) then image_block k b i else frame_byte k g i)"
    and "bit (buf_flags (buffer_cache k' ! b)) 1 \<and> \<not> bit (buf_flags (buffer_cache k' ! b)) 2"
    and "dq_head (disk_queue k') = None"
    and "p < MAX_PROC_COUNT \<Longrightarrow> sleeps_on k (buffer_addr (sym k) b) p \<Longrightarrow>
      pcb_frame k p \<noteq> buf_frame (buffer_cache k ! b) \<Longrightarrow> proc_state (proc_table k' ! p) = PROC_STATE_READY"
    and "buffer_cache k' = (buffer_cache k)[b := (buffer_cache k ! b)\<lparr>buf_flags :=
      (buf_flags (buffer_cache k ! b) OR BUFFER_FLAGS_VALID) AND NOT BUFFER_FLAGS_DIRTY\<rparr>]"
    and "kmap k'" and "map kernel_low_memory (proc_table k') = map kernel_low_memory (proc_table k)"
    and "q < MAX_PROC_COUNT \<Longrightarrow>
      proc_state (proc_table k ! q) = PROC_STATE_SLEEPING \<longrightarrow> pcb_frame k q \<noteq> buf_frame (buffer_cache k ! b) \<Longrightarrow>
      proc_state (proc_table k' ! q) =
        (if sleeps_on k (buffer_addr (sym k) b) q then PROC_STATE_READY else proc_state (proc_table k ! q))"
proof -
  define k7 where "k7 = (disk_round ^^ 7) k"
  have "8 = Suc (7 :: nat)" by simp
  then have k': "k' = disk_round k7" unfolding k'_def k7_def by (simp only: funpow.simps o_apply)
  have r7: "reading k7 b" "unat (dq_sector (disk_queue k7)) = 7"
    "i < 4096 \<Longrightarrow> frame_byte k7 g i =
      (if g = buf_frame (buffer_cache k ! b) \<and> i < 7 * 512 then image_block k b i else frame_byte k g i)"
    "buffer_cache k7 = buffer_cache k" "proc_table k7 = proc_table k" "sym k7 = sym k"
    "disk_file (disk (machine k7)) = disk_file (disk (machine k))" for i g
    using read_rounds [OF assms(1,2), of 7] unfolding k7_def by simp_all
  let ?k0 = "k7\<lparr>machine := (disk_tick ^^ 200) (machine k7)\<rparr>"
  note s = read_sector [OF r7(1)]
  define k4 where "k4 = sector_done b ?k0"
  note s' = s [folded k4_def]
  have ok: "kmap k4" "sleepers_ok k4" "b < length (buffer_cache k4)"
    using s'(1,6,7,10) sleepers_ok_cong [of k7 k4] r7(1) unfolding reading_def head_buffer_def by simp_all
  note d = block_done_effect [OF ok]
  have "k' = block_done b k4"
    unfolding k' disk_round_def disk_interrupt_effect [OF s(1,2)] k4_def [symmetric] disk_advance_def s'(4)
    using last_sector [OF r7(2)] d(1) s'(6) r7(4) assms(3) by simp
  note e = this
  have o: "head_offset k7 = 7 * 512" by (simp add: head_offset_def r7(2))
  have im: "image_block k7 b = image_block k b" by (simp add: image_block_def r7(4,7) fun_eq_iff)
  have fb: "frame_byte k4 g i = (if g = buf_frame (buffer_cache k ! b) then image_block k b i else frame_byte k g i)"
    if "i < 4096" for g i
    using that s'(3) [OF that, of g] r7(3) [OF that, of g] unfolding o im r7(4) by auto
  show "frame_byte k' g i = (if g = buf_frame (buffer_cache k ! b) then image_block k b i else frame_byte k g i)"
    if "i < 4096" using fb [OF that, of g] d(3) by (simp add: e frame_byte_def)
  show "bit (buf_flags (buffer_cache k' ! b)) 1 \<and> \<not> bit (buf_flags (buffer_cache k' ! b)) 2"
    unfolding e d(2) using valid_flags [of "buf_flags (buffer_cache k4 ! b)"] by simp
  show "dq_head (disk_queue k') = None" unfolding e d(1) s'(6) r7(4) by (rule assms(3))
  show "buffer_cache k' = (buffer_cache k)[b := (buffer_cache k ! b)\<lparr>buf_flags :=
      (buf_flags (buffer_cache k ! b) OR BUFFER_FLAGS_VALID) AND NOT BUFFER_FLAGS_DIRTY\<rparr>]"
    unfolding e d(5) s'(6) r7(4) ..
  show "kmap k'" unfolding e by (rule d(6))
  show "map kernel_low_memory (proc_table k') = map kernel_low_memory (proc_table k)"
    unfolding e d(7) s'(7) r7(5) ..
  have "pcb_word k4 q off_channel = pcb_word k q off_channel" if "pcb_frame k q \<noteq> buf_frame (buffer_cache k ! b)" for q
    using fb that s'(7) r7(5) by (simp add: pcb_word_def pcb_byte_def)
  then have sl: "sleeps_on k4 (buffer_addr (sym k4) b) q \<longleftrightarrow> sleeps_on k (buffer_addr (sym k) b) q"
    if "proc_state (proc_table k ! q) = PROC_STATE_SLEEPING \<longrightarrow> pcb_frame k q \<noteq> buf_frame (buffer_cache k ! b)" for q
    using that s'(7,8) r7(5,6) by (auto simp: sleeps_on_def)
  show st: "proc_state (proc_table k' ! q) =
      (if sleeps_on k (buffer_addr (sym k) b) q then PROC_STATE_READY else proc_state (proc_table k ! q))"
    if "q < MAX_PROC_COUNT" "proc_state (proc_table k ! q) = PROC_STATE_SLEEPING \<longrightarrow> pcb_frame k q \<noteq> buf_frame (buffer_cache k ! b)" for q
    using d(8) [OF that(1)] sl [OF that(2)] s'(7) r7(5) by (simp add: e)
  show "proc_state (proc_table k' ! p) = PROC_STATE_READY"
    if "p < MAX_PROC_COUNT" "sleeps_on k (buffer_addr (sym k) b) p" "pcb_frame k p \<noteq> buf_frame (buffer_cache k ! b)"
    using st [OF that(1)] that(2,3) by simp
qed

section \<open>Writing\<close>

definition head_bytes :: "kernel \<Rightarrow> nat \<Rightarrow> uint8 list" where
  "head_bytes k b = map (frame_byte k (buf_frame (buffer_cache k ! b))) [head_offset k..<head_offset k + 512]"

definition writing :: "kernel \<Rightarrow> nat \<Rightarrow> bool" where
  "writing k b \<longleftrightarrow> head_buffer k b \<and> dirty k b \<and>
     (\<exists>m. machine k = issued DISK_CMD_WRITE (head_lba k b) m) \<and>
     disk_buffer (disk (machine k)) = head_bytes k b \<and>
     unat (buf_block_number (buffer_cache k ! b)) * 4096 + 4096 \<le> length (disk_file (disk (machine k)))"

lemma file_write_append:
  assumes "off + length b1 + length b2 \<le> length file"
  shows "file_write (off + length b1) b2 (file_write off b1 file) = file_write off (b1 @ b2) file"
  using assms by (simp add: file_write_def add.assoc add.commute add.left_commute)

lemma write_sector:
  assumes "writing k b"
  defines "k0 \<equiv> k\<lparr>machine := (disk_tick ^^ 200) (machine k)\<rparr>"
  defines "k4 \<equiv> sector_done b k0"
  shows "head_buffer k0 b" and "disk_status (disk (machine k0)) = DISK_STATUS_READY"
    and "disk_file (disk (machine k4)) =
      file_write (unat (head_lba k b) * 512) (head_bytes k b) (disk_file (disk (machine k)))"
    and "dq_sector (disk_queue k4) = dq_sector (disk_queue k) + 1" and "dq_head (disk_queue k4) = Some b"
    and "buffer_cache k4 = buffer_cache k" and "proc_table k4 = proc_table k" and "sym k4 = sym k"
    and "ram (machine k4) = ram (machine k)" and "kmap k4" and "length (disk_buffer (disk (machine k4))) = 512"
proof -
  obtain m where m: "machine k = issued DISK_CMD_WRITE (head_lba k b) m"
    and h: "head_buffer k b" and d: "dirty k b" and hb: "disk_buffer (disk (machine k)) = head_bytes k b"
    using assms(1) unfolding writing_def by blast
  have lb': "length (disk_buffer (disk (machine k))) = 512" using h by (simp add: head_buffer_def)
  then have lb: "length (disk_buffer (disk m)) = 512" using m by simp
  let ?file = "file_write (unat (head_lba k b) * 512) (head_bytes k b) (disk_file (disk (machine k)))"
  have c: "(disk_tick ^^ 200) (machine k) = PLIC_raise PLIC_PIN_DISK
      ((machine k)\<lparr>disk := (disk (machine k))\<lparr>disk_delay := 0, disk_file := ?file, disk_status := DISK_STATUS_READY\<rparr>\<rparr>)"
    using issued_completes(1) [OF lb, of "head_lba k b"] m hb by simp
  show "head_buffer k0 b" using h unfolding k0_def c by (simp add: head_buffer_def kmap_def PLIC_raise_def)
  show "disk_status (disk (machine k0)) = DISK_STATUS_READY" unfolding k0_def c by (simp add: PLIC_raise_def)
  have d0: "dirty k0 b" using d by (simp add: k0_def dirty_def)
  show "disk_file (disk (machine k4)) = ?file" "ram (machine k4) = ram (machine k)"
    "length (disk_buffer (disk (machine k4))) = 512"
    using d0 lb' by (simp_all add: k4_def sector_done_def Let_def) (simp_all add: k0_def c PLIC_raise_def)
  show "dq_sector (disk_queue k4) = dq_sector (disk_queue k) + 1" "dq_head (disk_queue k4) = Some b"
    "buffer_cache k4 = buffer_cache k" "proc_table k4 = proc_table k" "sym k4 = sym k"
    using h by (simp_all add: k4_def sector_done_def k0_def Let_def head_buffer_def)
  show "kmap k4" using h by (simp add: k4_def sector_done_def Let_def head_buffer_def kmap_def)
    (simp add: k0_def c PLIC_raise_def)
qed

lemma write_round:
  assumes "writing k b" and "unat (dq_sector (disk_queue k)) < 7"
  defines "k' \<equiv> disk_round k"
  shows "writing k' b" and "unat (dq_sector (disk_queue k')) = Suc (unat (dq_sector (disk_queue k)))"
    and "disk_file (disk (machine k')) =
      file_write (unat (head_lba k b) * 512) (head_bytes k b) (disk_file (disk (machine k)))"
    and "buffer_cache k' = buffer_cache k" and "proc_table k' = proc_table k" and "sym k' = sym k"
    and "ram (machine k') = ram (machine k)"
proof -
  note r = write_sector [OF assms(1)]
  let ?k0 = "k\<lparr>machine := (disk_tick ^^ 200) (machine k)\<rparr>"
  define k4 where "k4 = sector_done b ?k0"
  note r' = r [folded k4_def]
  have h: "head_buffer k b" and d: "dirty k b"
    and l: "unat (buf_block_number (buffer_cache k ! b)) * 4096 + 4096 \<le> length (disk_file (disk (machine k)))"
    using assms(1) unfolding writing_def by blast+
  have h4: "head_buffer k4 b"
    using h r'(4-7,10,11) sleepers_ok_cong [of k k4] next_sector(2) [OF assms(2)] assms(2)
    unfolding head_buffer_def by simp
  have d4: "dirty k4 b" using d r'(6) by (simp add: dirty_def)
  have "k' = disk_start_operation k4"
    unfolding k'_def disk_round_def disk_interrupt_effect [OF r(1,2)] k4_def [symmetric] disk_advance_def r'(4)
    using next_sector(1) [OF assms(2)] by simp
  then have e: "k' = k4\<lparr>machine := issued DISK_CMD_WRITE (head_lba k4 b)
      ((machine k4)\<lparr>disk := (disk (machine k4))\<lparr>disk_buffer := head_bytes k4 b\<rparr>\<rparr>)\<rparr>"
    using start_operation_effect(2) [OF h4 d4] by (simp add: head_bytes_def)
  show "unat (dq_sector (disk_queue k')) = Suc (unat (dq_sector (disk_queue k)))"
    using r'(4) next_sector(2) [OF assms(2)] by (simp add: e)
  show "buffer_cache k' = buffer_cache k" "proc_table k' = proc_table k" "sym k' = sym k"
    "ram (machine k') = ram (machine k)" "disk_file (disk (machine k')) =
      file_write (unat (head_lba k b) * 512) (head_bytes k b) (disk_file (disk (machine k)))"
    using r'(3,6-9) by (simp_all add: e)
  have hb: "head_bytes k' b = head_bytes k4 b" by (simp add: e head_bytes_def head_offset_def frame_byte_def)
  have "head_buffer k' b" using h4 by (simp add: e head_buffer_def kmap_machine head_bytes_def)
  moreover have "dirty k' b" using d4 by (simp add: e dirty_def)
  moreover have "head_lba k' b = head_lba k4 b" by (simp add: e head_lba_def)
  then have "\<exists>m. machine k' = issued DISK_CMD_WRITE (head_lba k' b) m" by (auto simp: e)
  moreover have "disk_buffer (disk (machine k')) = head_bytes k' b" unfolding hb by (simp add: e)
  moreover have "length (disk_file (disk (machine k'))) \<ge> length (disk_file (disk (machine k)))"
    using r'(3) by (simp add: e file_write_length)
  ultimately show "writing k' b" unfolding writing_def using r'(6) l by (simp add: e)
qed

abbreviation block_bytes :: "kernel \<Rightarrow> nat \<Rightarrow> nat \<Rightarrow> uint8 list" where
  "block_bytes k b n \<equiv> map (frame_byte k (buf_frame (buffer_cache k ! b))) [0..<n * 512]"

lemma write_sector_file:
  assumes "writing k b" and "unat (dq_sector (disk_queue k)) = n"
    and "file = disk_file (disk (machine k0))" and "ram (machine k) = ram (machine k0)"
    and "buffer_cache k = buffer_cache k0" and "n < 8"
    and "unat (buf_block_number (buffer_cache k0 ! b)) * 4096 + 4096 \<le> length file"
    and "disk_file (disk (machine k)) =
      file_write (unat (buf_block_number (buffer_cache k0 ! b)) * 4096) (block_bytes k0 b n) file"
  shows "file_write (unat (head_lba k b) * 512) (head_bytes k b) (disk_file (disk (machine k))) =
    file_write (unat (buf_block_number (buffer_cache k0 ! b)) * 4096) (block_bytes k0 b (Suc n)) file"
proof -
  have "head_buffer k b" using assms(1) by (simp add: writing_def)
  then have lba: "unat (head_lba k b) * 512 =
      unat (buf_block_number (buffer_cache k0 ! b)) * 4096 + length (block_bytes k0 b n)"
    using assms(2,5) by (simp add: unat_head_lba)
  define part where "part = map (frame_byte k0 (buf_frame (buffer_cache k0 ! b))) [n * 512..<n * 512 + 512]"
  have hb: "head_bytes k b = part"
    using assms(2,4,5) by (simp add: part_def head_bytes_def head_offset_def frame_byte_def)
  have "[0..<Suc n * 512] = [0..<n * 512] @ [n * 512..<n * 512 + 512]"
    using upt_add_eq_append [of 0 "n * 512" 512] by (simp add: add.commute)
  then have all: "block_bytes k0 b (Suc n) = block_bytes k0 b n @ part" by (simp only: map_append part_def)
  have "unat (buf_block_number (buffer_cache k0 ! b)) * 4096 + length (block_bytes k0 b n) + length part \<le> length file"
    using assms(6,7) by (simp add: part_def)
  then show ?thesis unfolding assms(8) hb lba all by (rule file_write_append)
qed

lemma write_rounds:
  assumes "writing k b" and "dq_sector (disk_queue k) = 0" and "n \<le> 7"
  defines "k' \<equiv> (disk_round ^^ n) k"
  shows "writing k' b \<and> unat (dq_sector (disk_queue k')) = n \<and>
    disk_file (disk (machine k')) = file_write (unat (buf_block_number (buffer_cache k ! b)) * 4096)
      (block_bytes k b n) (disk_file (disk (machine k))) \<and>
    buffer_cache k' = buffer_cache k \<and> proc_table k' = proc_table k \<and> sym k' = sym k \<and>
    ram (machine k') = ram (machine k)"
  using assms(3) unfolding k'_def
proof (induction n)
  case 0
  have "unat (buf_block_number (buffer_cache k ! b)) * 4096 + 4096 \<le> length (disk_file (disk (machine k)))"
    using assms(1) by (simp add: writing_def)
  then show ?case using assms(1,2) by (simp add: file_write_def)
next
  case (Suc n)
  define kn where "kn = (disk_round ^^ n) k"
  have IH: "writing kn b" "unat (dq_sector (disk_queue kn)) = n"
    "disk_file (disk (machine kn)) = file_write (unat (buf_block_number (buffer_cache k ! b)) * 4096)
      (block_bytes k b n) (disk_file (disk (machine k)))"
    "buffer_cache kn = buffer_cache k" "proc_table kn = proc_table k" "sym kn = sym k"
    "ram (machine kn) = ram (machine k)"
    using Suc unfolding kn_def by simp_all
  have l: "unat (buf_block_number (buffer_cache k ! b)) * 4096 + 4096 \<le> length (disk_file (disk (machine k)))"
    using assms(1) by (simp add: writing_def)
  have n: "unat (dq_sector (disk_queue kn)) < 7" "n < 8" using IH(2) Suc.prems by simp_all
  note r = write_round [OF IH(1) n(1)]
  note f = write_sector_file [OF IH(1,2) refl IH(7,4) n(2) l IH(3)]
  show ?case
    using r IH f unfolding funpow.simps o_apply kn_def [symmetric] by simp
qed

lemma write_block:
  assumes "writing k b" and "dq_sector (disk_queue k) = 0" and "buf_queue (buffer_cache k ! b) = None"
  defines "k' \<equiv> (disk_round ^^ 8) k"
  shows "disk_file (disk (machine k')) = file_write (unat (buf_block_number (buffer_cache k ! b)) * 4096)
      (map (frame_byte k (buf_frame (buffer_cache k ! b))) [0..<4096]) (disk_file (disk (machine k)))"
    and "ram (machine k') = ram (machine k)"
    and "bit (buf_flags (buffer_cache k' ! b)) 1 \<and> \<not> bit (buf_flags (buffer_cache k' ! b)) 2"
    and "dq_head (disk_queue k') = None"
    and "p < MAX_PROC_COUNT \<Longrightarrow> sleeps_on k (buffer_addr (sym k) b) p \<Longrightarrow>
      proc_state (proc_table k' ! p) = PROC_STATE_READY"
proof -
  define k7 where "k7 = (disk_round ^^ 7) k"
  have "8 = Suc (7 :: nat)" by simp
  then have k': "k' = disk_round k7" unfolding k'_def k7_def by (simp only: funpow.simps o_apply)
  have r7: "writing k7 b" "unat (dq_sector (disk_queue k7)) = 7"
    "disk_file (disk (machine k7)) = file_write (unat (buf_block_number (buffer_cache k ! b)) * 4096)
      (block_bytes k b 7) (disk_file (disk (machine k)))"
    "buffer_cache k7 = buffer_cache k" "proc_table k7 = proc_table k" "sym k7 = sym k"
    "ram (machine k7) = ram (machine k)"
    using write_rounds [OF assms(1,2), of 7] unfolding k7_def by simp_all
  let ?k0 = "k7\<lparr>machine := (disk_tick ^^ 200) (machine k7)\<rparr>"
  note s = write_sector [OF r7(1)]
  define k4 where "k4 = sector_done b ?k0"
  note s' = s [folded k4_def]
  have ok: "kmap k4" "sleepers_ok k4" "b < length (buffer_cache k4)"
    using s'(1,6,7,10) sleepers_ok_cong [of k7 k4] r7(1) unfolding writing_def head_buffer_def by simp_all
  note d = block_done_effect [OF ok]
  have e: "k' = block_done b k4"
    unfolding k' disk_round_def disk_interrupt_effect [OF s(1,2)] k4_def [symmetric] disk_advance_def s'(4)
    using last_sector [OF r7(2)] d(1) s'(6) r7(4) assms(3) by simp
  have l: "unat (buf_block_number (buffer_cache k ! b)) * 4096 + 4096 \<le> length (disk_file (disk (machine k)))"
    using assms(1) by (simp add: writing_def)
  have "Suc 7 * 512 = (4096 :: nat)" by simp
  then show "disk_file (disk (machine k')) = file_write (unat (buf_block_number (buffer_cache k ! b)) * 4096)
      (map (frame_byte k (buf_frame (buffer_cache k ! b))) [0..<4096]) (disk_file (disk (machine k)))"
    using write_sector_file [OF r7(1,2) refl r7(7,4) _ l r7(3)] unfolding e d(3) s'(3) by simp
  show "ram (machine k') = ram (machine k)" unfolding e d(3) s'(9) by (rule r7(7))
  show "bit (buf_flags (buffer_cache k' ! b)) 1 \<and> \<not> bit (buf_flags (buffer_cache k' ! b)) 2"
    unfolding e d(2) using valid_flags [of "buf_flags (buffer_cache k4 ! b)"] by simp
  show "dq_head (disk_queue k') = None" unfolding e d(1) s'(6) r7(4) by (rule assms(3))
  assume p: "p < MAX_PROC_COUNT" "sleeps_on k (buffer_addr (sym k) b) p"
  have "pcb_word k4 p off_channel = pcb_word k p off_channel"
    using s'(7,9) r7(5,7) by (simp add: pcb_word_def pcb_byte_def frame_byte_def)
  then have "sleeps_on k4 (buffer_addr (sym k4) b) p" using p(2) s'(7,8) r7(5,6) by (simp add: sleeps_on_def)
  then show "proc_state (proc_table k' ! p) = PROC_STATE_READY" unfolding e by (rule d(4) [OF p(1)])
qed

section \<open>Starting a transfer\<close>

lemma start_reading:
  assumes "head_buffer k b" and "\<not> dirty k b"
    and "unat (buf_block_number (buffer_cache k ! b)) * 4096 + 4096 \<le> length (disk_file (disk (machine k)))"
  shows "reading (disk_start_operation k) b"
proof -
  have "head_lba (k\<lparr>machine := m\<rparr>) b = head_lba k b" for m by (simp add: head_lba_def)
  then show ?thesis
    using assms unfolding start_operation_effect(1) [OF assms(1,2)] reading_def
    by (auto simp: head_buffer_def kmap_machine dirty_def)
qed

lemma start_writing:
  assumes "head_buffer k b" and "dirty k b"
    and "unat (buf_block_number (buffer_cache k ! b)) * 4096 + 4096 \<le> length (disk_file (disk (machine k)))"
  shows "writing (disk_start_operation k) b"
proof -
  have "head_lba (k\<lparr>machine := m\<rparr>) b = head_lba k b" for m by (simp add: head_lba_def)
  then show ?thesis
    using assms unfolding start_operation_effect(2) [OF assms(1,2)] writing_def
    by (auto simp: head_buffer_def kmap_machine dirty_def head_bytes_def head_offset_def frame_byte_def)
qed

lemma start_frame:
  assumes "head_buffer k b"
  shows "buffer_cache (disk_start_operation k) = buffer_cache k" "disk_queue (disk_start_operation k) = disk_queue k"
    "ram (machine (disk_start_operation k)) = ram (machine k)" "sym (disk_start_operation k) = sym k"
    "proc_table (disk_start_operation k) = proc_table k"
    "disk_file (disk (machine (disk_start_operation k))) = disk_file (disk (machine k))"
  using start_operation_effect [OF assms] by (cases "dirty k b"; simp)+

end
