(* ===== verification/Kernel_String.thy ===== *)
theory Kernel_String
  imports Kernel_State
begin

text \<open>
  The string and memory routines (\<^verbatim>\<open>string.c\<close>) on a flat memory of 16-bit addresses, with pointers as addresses.
  Loops that scan for a terminator need not end, so their results are options: \<open>None\<close> for a loop that does
  not end. A \<^verbatim>\<open>char\<close> is unsigned and an \<^verbatim>\<open>int\<close> has 16 bits.
\<close>

type_synonym memory = "uint16 \<Rightarrow> uint8"

section \<open>The routines\<close>

partial_function (option) strcpy_loop :: "uint16 \<Rightarrow> uint16 \<Rightarrow> memory \<Rightarrow> memory option" where
  "strcpy_loop s t m =
     (let m1 = m(s := m t) in if m t \<noteq> 0 then strcpy_loop (s + 1) (t + 1) m1 else Some m1)"

definition strcpy :: "uint16 \<Rightarrow> uint16 \<Rightarrow> memory \<Rightarrow> (uint16 \<times> memory) option" where
  "strcpy s t m = map_option (\<lambda>m1. (s, m1)) (strcpy_loop s t m)"

partial_function (option) strcmp :: "uint16 \<Rightarrow> uint16 \<Rightarrow> memory \<Rightarrow> int option" where
  "strcmp p q m =
     (if m p \<noteq> 0 \<and> m p = m q then strcmp (p + 1) (q + 1) m
      else Some (int (unat (m p)) - int (unat (m q))))"

function strlen_loop :: "uint16 \<Rightarrow> uint16 \<Rightarrow> memory \<Rightarrow> uint16" where
  "strlen_loop s n m = (if m (s + n) \<noteq> 0 \<and> n < 0xFFFF then strlen_loop s (n + 1) m else n)"
  by pat_completeness auto
termination
  by (relation "measure (\<lambda>(s, n, m). 65535 - unat n)")
     (auto simp: word_less_nat_alt unat_word_ariths)

declare strlen_loop.simps [simp del]

definition strlen :: "uint16 \<Rightarrow> memory \<Rightarrow> uint16" where
  "strlen s m = strlen_loop s 0 m"

partial_function (option) strchr :: "uint16 \<Rightarrow> uint8 \<Rightarrow> memory \<Rightarrow> uint16 option" where
  "strchr s c m = (if m s \<noteq> 0 then if m s = c then Some s else strchr (s + 1) c m else Some 0)"

partial_function (option) atoi_loop :: "uint16 \<Rightarrow> uint16 \<Rightarrow> memory \<Rightarrow> uint16 option" where
  "atoi_loop s n m =
     (if 0x30 \<le> m s \<and> m s \<le> 0x39 then atoi_loop (s + 1) (n * 10 + ucast (m s) - 0x30) m else Some n)"

definition atoi :: "uint16 \<Rightarrow> memory \<Rightarrow> uint16 option" where
  "atoi s m = atoi_loop s 0 m"

fun copy_up :: "nat \<Rightarrow> uint16 \<Rightarrow> uint16 \<Rightarrow> memory \<Rightarrow> memory" where
  "copy_up 0 dst src m = m"
| "copy_up (Suc n) dst src m = copy_up n (dst + 1) (src + 1) (m(dst := m src))"

fun copy_down :: "nat \<Rightarrow> uint16 \<Rightarrow> uint16 \<Rightarrow> memory \<Rightarrow> memory" where
  "copy_down 0 dst src m = m"
| "copy_down (Suc n) dst src m = copy_down n (dst - 1) (src - 1) (m(dst - 1 := m (src - 1)))"

definition memmove :: "uint16 \<Rightarrow> uint16 \<Rightarrow> uint16 \<Rightarrow> memory \<Rightarrow> uint16 \<times> memory" where
  "memmove vdst vsrc n m =
     (vdst, if vsrc > vdst then copy_up (nat (sint n)) vdst vsrc m
            else copy_down (nat (sint n)) (vdst + n) (vsrc + n) m)"

fun memcmp_loop :: "nat \<Rightarrow> uint16 \<Rightarrow> uint16 \<Rightarrow> memory \<Rightarrow> int" where
  "memcmp_loop 0 p1 p2 m = 0"
| "memcmp_loop (Suc n) p1 p2 m =
     (if m p1 \<noteq> m p2 then int (unat (m p1)) - int (unat (m p2)) else memcmp_loop n (p1 + 1) (p2 + 1) m)"

definition memcmp :: "uint16 \<Rightarrow> uint16 \<Rightarrow> uint16 \<Rightarrow> memory \<Rightarrow> int" where
  "memcmp s1 s2 n m = memcmp_loop (unat n) s1 s2 m"

definition memcpy :: "uint16 \<Rightarrow> uint16 \<Rightarrow> uint16 \<Rightarrow> memory \<Rightarrow> uint16 \<times> memory" where
  "memcpy dst src n m = memmove dst src n m"

section \<open>Strings in memory\<close>

text \<open>The bytes at an address, and a string with its terminator.\<close>

fun stored :: "memory \<Rightarrow> uint16 \<Rightarrow> uint8 list \<Rightarrow> bool" where
  "stored m a [] \<longleftrightarrow> True"
| "stored m a (c # cs) \<longleftrightarrow> m a = c \<and> stored m (a + 1) cs"

definition cstring :: "memory \<Rightarrow> uint16 \<Rightarrow> uint8 list \<Rightarrow> bool" where
  "cstring m a s \<longleftrightarrow> stored m a (s @ [0]) \<and> 0 \<notin> set s"

lemma cstring_simps [simp]:
  "cstring m a [] \<longleftrightarrow> m a = 0"
  "cstring m a (c # s) \<longleftrightarrow> m a = c \<and> c \<noteq> 0 \<and> cstring m (a + 1) s"
  by (auto simp: cstring_def)

text \<open>The order of strings by their first difference, an end being the smallest byte.\<close>

fun string_difference :: "uint8 list \<Rightarrow> uint8 list \<Rightarrow> int" where
  "string_difference [] [] = 0"
| "string_difference [] (d # t) = - int (unat d)"
| "string_difference (c # s) [] = int (unat c)"
| "string_difference (c # s) (d # t) =
     (if c = d then string_difference s t else int (unat c) - int (unat d))"

lemma strcmp_stored:
  "cstring m p s \<Longrightarrow> cstring m q t \<Longrightarrow> strcmp p q m = Some (string_difference s t)"
proof (induction s t arbitrary: p q rule: string_difference.induct)
  case 1
  then show ?case by (subst strcmp.simps) simp
next
  case (2 d t)
  then show ?case by (subst strcmp.simps) simp
next
  case (3 c s)
  then show ?case by (subst strcmp.simps) auto
next
  case (4 c s d t)
  then show ?case by (subst strcmp.simps) auto
qed

lemma string_difference_order:
  assumes "0 \<notin> set s" and "0 \<notin> set t"
  shows "string_difference s t = 0 \<longleftrightarrow> s = t"
    and "string_difference s t < 0 \<longleftrightarrow> (s, t) \<in> lexord {(c, d). c < d}"
  using assms
  by (induction s t rule: string_difference.induct)
     (auto simp: word_less_def word_uint_eq_iff, simp add: order_less_le)

lemma strlen_loop_stored:
  "cstring m (s + n) t \<Longrightarrow> unat n + length t \<le> 65535 \<Longrightarrow> strlen_loop s n m = n + of_nat (length t)"
proof (induction t arbitrary: n)
  case Nil
  then show ?case by (simp add: strlen_loop.simps)
next
  case (Cons c t)
  have "n < 0xFFFF" using Cons.prems(2) by (simp add: word_less_nat_alt)
  moreover have "unat (n + 1) = Suc (unat n)" using Cons.prems(2) by (simp add: unat_word_ariths)
  moreover have "cstring m (s + (n + 1)) t" using Cons.prems(1) by (simp add: add.assoc)
  ultimately show ?case
    using Cons.IH [of "n + 1"] Cons.prems by (subst strlen_loop.simps) (simp add: ac_simps)
qed

section \<open>Copies\<close>

text \<open>What a copy of \<open>n\<close> bytes should leave: the old contents of the source at the destination.\<close>

definition copied :: "nat \<Rightarrow> uint16 \<Rightarrow> uint16 \<Rightarrow> memory \<Rightarrow> memory" where
  "copied n dst src m = (\<lambda>a. if unat (a - dst) < n then m (src + (a - dst)) else m a)"

lemma unat_dist_step:
  fixes a dst :: uint16
  assumes "a \<noteq> dst"
  shows "Suc (unat (a - (dst + 1))) = unat (a - dst)"
proof -
  have n: "a - dst \<noteq> 0" using assms by simp
  have e: "a - (dst + 1) = a - dst - 1" by simp
  have "unat (a - (dst + 1)) = unat (a - dst) - 1" unfolding e by (rule unat_minus_one [OF n])
  moreover have "unat (a - dst) \<noteq> 0" using n by (metis unat_eq_zero)
  ultimately show ?thesis by linarith
qed

lemma copied_first:
  assumes "n < 65536"
    and "\<And>d. 0 < d \<Longrightarrow> d \<le> n \<Longrightarrow> src + of_nat d \<noteq> dst"
  shows "copied n (dst + 1) (src + 1) (m(dst := m src)) = copied (Suc n) dst src m"
proof
  fix a :: uint16
  show "copied n (dst + 1) (src + 1) (m(dst := m src)) a = copied (Suc n) dst src m a"
  proof (cases "a = dst")
    case True
    have "unat (- 1 :: uint16) = 65535"
      by (simp add: unsigned_minus_1_eq_mask mask_eq_exp_minus_1)
    then show ?thesis using True assms(1) by (simp add: copied_def)
  next
    case False
    have e: "src + 1 + (a - (dst + 1)) = src + (a - dst)" by simp
    have "src + (a - dst) \<noteq> dst" if "unat (a - dst) < Suc n"
      using assms(2) [of "unat (a - dst)"] that False by (simp add: unat_gt_0)
    then show ?thesis unfolding copied_def e using unat_dist_step [OF False] False by auto
  qed
qed

lemma copy_up_effect:
  "n \<le> 65536 \<Longrightarrow> (\<And>d. 0 < d \<Longrightarrow> d < n \<Longrightarrow> src + of_nat d \<noteq> dst) \<Longrightarrow> copy_up n dst src m = copied n dst src m"
proof (induction n arbitrary: dst src m)
  case 0
  show ?case by (simp add: copied_def)
next
  case (Suc n)
  have "copy_up n (dst + 1) (src + 1) (m(dst := m src)) = copied n (dst + 1) (src + 1) (m(dst := m src))"
    using Suc.prems by (intro Suc.IH) (simp_all add: add.commute add.left_commute)
  also have "\<dots> = copied (Suc n) dst src m"
    using Suc.prems by (intro copied_first) simp_all
  finally show ?case by simp
qed

lemma copied_last:
  assumes "n < 65536"
    and "\<And>d. 0 < d \<Longrightarrow> d \<le> n \<Longrightarrow> dst + of_nat d \<noteq> src"
  shows "copied n dst src (m(dst + of_nat n := m (src + of_nat n))) = copied (Suc n) dst src m"
proof
  fix a :: uint16
  define d where "d = unat (a - dst)"
  have a: "a = dst + of_nat d" by (simp add: d_def)
  have u: "unat (a - dst) = d" by (simp add: d_def)
  have d: "d < 65536" using unsigned_less [of "a - dst", where ?'a = nat] by (simp add: d_def)
  show "copied n dst src (m(dst + of_nat n := m (src + of_nat n))) a = copied (Suc n) dst src m a"
  proof (cases "d < n")
    case True
    have "src + of_nat d \<noteq> dst + of_nat n"
    proof
      assume "src + of_nat d = dst + of_nat n"
      then have "src = dst + (of_nat n - of_nat d)" by (simp add: algebra_simps eq_diff_eq)
      then show False using assms(2) [of "n - d"] True by (simp add: of_nat_diff)
    qed
    then show ?thesis using True unfolding copied_def u by (simp add: a)
  next
    case False
    moreover have "(of_nat d :: uint16) \<noteq> of_nat n" if "d \<noteq> n"
      using that d assms(1) by (metis unat_of_nat_range(2))
    ultimately show ?thesis unfolding copied_def u by (cases "d = n") (auto simp: a)
  qed
qed

lemma copy_down_effect:
  "n \<le> 65536 \<Longrightarrow> (\<And>d. 0 < d \<Longrightarrow> d < n \<Longrightarrow> dst + of_nat d \<noteq> src) \<Longrightarrow>
     copy_down n (dst + of_nat n) (src + of_nat n) m = copied n dst src m"
proof (induction n arbitrary: m)
  case 0
  show ?case by (simp add: copied_def)
next
  case (Suc n)
  have "copy_down n (dst + of_nat n) (src + of_nat n) (m(dst + of_nat n := m (src + of_nat n))) =
      copied n dst src (m(dst + of_nat n := m (src + of_nat n)))"
    using Suc.prems by (intro Suc.IH) simp_all
  also have "\<dots> = copied (Suc n) dst src m"
    using Suc.prems by (intro copied_last) simp_all
  finally show ?case by (simp add: algebra_simps)
qed

text \<open>A source and a destination that do not run past the end of memory, however they overlap.\<close>

lemma memmove_copies:
  assumes "n < 0x8000" and "unat dst + unat n \<le> 65536" and "unat src + unat n \<le> 65536"
  shows "memmove dst src n m = (dst, copied (unat n) dst src m)"
proof -
  have n: "nat (sint n) = unat n"
    using assms(1) sint_low [of n] by (simp add: word_less_def)
  have ap: "x + of_nat d \<noteq> y" if "unat x + unat n \<le> 65536" "\<not> y > x" "0 < d" "d < unat n" for x y :: uint16 and d
  proof
    assume e: "x + of_nat d = y"
    have "unat y = unat x + d" unfolding e [symmetric] using that by (simp add: unat_word_ariths unat_of_nat)
    then show False using that by (simp add: word_less_nat_alt)
  qed
  show ?thesis
  proof (cases "src > dst")
    case True
    have "copy_up (unat n) dst src m = copied (unat n) dst src m"
      using assms True by (intro copy_up_effect ap [of src dst]) (simp_all add: not_less order_less_imp_le)
    then show ?thesis using True by (simp add: memmove_def n)
  next
    case False
    have "copy_down (unat n) (dst + of_nat (unat n)) (src + of_nat (unat n)) m = copied (unat n) dst src m"
      using assms False by (intro copy_down_effect ap [of dst src]) simp_all
    then show ?thesis using False by (simp add: memmove_def n)
  qed
qed

end
