(* ===== verification/Kernel_Text.thy ===== *)
theory Kernel_Text
  imports Kernel_Print Kernel_String
begin

text \<open>
  Numbers as text: what the decimal conversion of \<^verbatim>\<open>string.c\<close> makes of the digits \<^verbatim>\<open>printk.c\<close> prints.
\<close>

abbreviation is_digit :: "uint8 \<Rightarrow> bool" where
  "is_digit c \<equiv> 0x30 \<le> c \<and> c \<le> 0x39"

definition decimal_value :: "uint16 \<Rightarrow> uint8 list \<Rightarrow> uint16" where
  "decimal_value n cs = foldl (\<lambda>n c. n * 10 + ucast c - 0x30) n cs"

lemma atoi_loop_stored:
  "stored m s cs \<Longrightarrow> \<forall>c \<in> set cs. is_digit c \<Longrightarrow> \<not> is_digit (m (s + of_nat (length cs))) \<Longrightarrow>
     atoi_loop s n m = Some (decimal_value n cs)"
proof (induction cs arbitrary: s n)
  case Nil
  then show ?case by (subst atoi_loop.simps) (auto simp: decimal_value_def)
next
  case (Cons c cs)
  then show ?case by (subst atoi_loop.simps) (simp add: decimal_value_def add.assoc)
qed

lemma decimal_digit:
  assumes "d < 10"
  shows "is_digit (digits ! d)" and "(ucast (digits ! d) :: uint16) = of_nat d + 0x30"
proof -
  have "d \<in> {0, 1, 2, 3, 4, 5, 6, 7, 8, 9}" using assms by auto
  then show "is_digit (digits ! d)" "(ucast (digits ! d) :: uint16) = of_nat d + 0x30"
    by (auto simp: digits_def chars_def)
qed

lemma radix_digits: "\<forall>c \<in> set (radix 10 n). is_digit c"
proof (induction n rule: less_induct)
  case (less n)
  show ?case
  proof (cases "n < 10")
    case True
    then show ?thesis using decimal_digit(1) [of n] by (simp add: radix.simps)
  next
    case False
    then show ?thesis
      using less.IH [of "n div 10"] decimal_digit(1) [of "n mod 10"] by (subst radix.simps) auto
  qed
qed

lemma radix_decimal_value: "decimal_value 0 (radix 10 n) = of_nat n"
proof (induction n rule: less_induct)
  case (less n)
  show ?case
  proof (cases "n < 10")
    case True
    then show ?thesis using decimal_digit(2) [of n] by (simp add: radix.simps decimal_value_def)
  next
    case False
    have "decimal_value 0 (radix 10 n) = of_nat (n div 10) * 10 + of_nat (n mod 10)"
      using False less.IH [of "n div 10"] decimal_digit(2) [of "n mod 10"]
      by (subst radix.simps) (simp add: decimal_value_def)
    also have "\<dots> = of_nat (n div 10 * 10 + n mod 10)" by (simp only: of_nat_add of_nat_mult) simp
    finally show ?thesis by (simp only: div_mult_mod_eq)
  qed
qed

end
