(* ===== verification/Kernel_Properties.thy ===== *)
theory Kernel_Properties
  imports Kernel_Sbrk Kernel_Block Kernel_Text
begin

text \<open>
  The properties of the kernel. The witnesses use the state \<open>sample_kernel\<close>: a machine at power-on
  with the kernel's identity mapping and 512 processes with the records given.
\<close>

definition sample_symbols :: symbols where
  "sample_symbols = \<lparr>proc_addr = (\<lambda>i. 0x3000 + 6 * of_nat i), buffer_addr = (\<lambda>i. 0x3E00 + 14 * of_nat i),
     file_addr = (\<lambda>i. 0x4000 + 11 * of_nat i), ring_buffer_addr = 0x4800, systicks_addr = 0x4910,
     nmi_handler = 0xF080, irq_handler = 0xF000, kernel_vector_addr = 0xF100, init_code = 0xFA00, zp_sp = 0\<rparr>"

definition sample_kernel :: "frame_t list \<Rightarrow> nat option \<Rightarrow> Proc list \<Rightarrow> kernel" where
  "sample_kernel pool current procs =
     \<lparr>machine = power_on [] [], kernel_page_table = map of_nat [0..<16],
      user_page_table = replicate 16 0xff, user_context = replicate 8 0,
      free_frames = rev pool @ replicate (256 - length pool) 0, free_top = of_nat (length pool),
      proc_table = procs, init_process = Some 0, current_process = current, next_pid = 3,
      round_robin_index = 0,
      ring_buffer = \<lparr>rb_buffer = replicate 256 0, rb_head = 0, rb_tail = 0\<rparr>,
      systicks = 0, next_wakeup_call = 0xFFFFFFFF,
      disk_queue = \<lparr>dq_head = None, dq_tail = None, dq_sector = 0\<rparr>, buffer_cache = [],
      super_block = \<lparr>sb_magic = 0, sb_size = 0, sb_block_count = 0, sb_inode_count = 0,
        sb_inode_start = 0, sb_bitmap_start = 0\<rparr>,
      global_file_table = [], devsw_table = replicate 8 None, syscalls_table = (\<lambda>_. None), inode_frame = 0,
      first_entry = False, interrupts_on = False, sym = sample_symbols\<rparr>"

definition sample_proc :: "frame_t \<Rightarrow> Proc_State \<Rightarrow> Proc" where
  "sample_proc f s = \<lparr>proc_ksp = 0xff, kernel_low_memory = [f, 1, 2], proc_state = s\<rparr>"

lemma power_on_page_table:
  "page_table (mmu (power_on r d)) = map of_nat [0..<16]"
  by (simp add: power_on_def MMU_create_def)

lemma sample_kmap:
  assumes "length procs = 512" and "\<forall>q \<in> set procs. \<exists>f s. q = sample_proc f s"
    and "\<forall>p. current = Some p \<longrightarrow> p < 512"
  shows "kmap (sample_kernel pool current procs)"
proof -
  have "kernel_low_memory (procs ! p) ! w = of_nat w" if pw: "p < 512" "w \<in> {1, 2}" for p w
  proof -
    have "procs ! p \<in> set procs" using assms(1) pw(1) by simp
    then obtain f s where "procs ! p = sample_proc f s" using assms(2) by blast
    then show ?thesis using pw(2) by (auto simp: sample_proc_def)
  qed
  moreover have "length (kernel_low_memory q) = 3" if "q \<in> set procs" for q
    using assms(2) that by (auto simp: sample_proc_def)
  ultimately show ?thesis
    using assms by (auto simp: kmap_def sample_kernel_def power_on_page_table)
qed

lemma sample_kalloc_inv:
  assumes "distinct pool" and "\<forall>f \<in> set pool. 16 \<le> f" and "length pool \<le> 240"
  shows "kalloc_inv (sample_kernel pool current procs)" and "free_list (sample_kernel pool current procs) = pool"
proof -
  show f: "free_list (sample_kernel pool current procs) = pool"
    using assms(3) by (simp add: free_list_def sample_kernel_def)
  show "kalloc_inv (sample_kernel pool current procs)"
    using assms unfolding kalloc_inv_def f by (simp add: sample_kernel_def)
qed

lemma sample_fields [simp]:
  "proc_table (sample_kernel pool current procs) = procs"
  "current_process (sample_kernel pool current procs) = current"
  "machine (sample_kernel pool current procs) = power_on [] []"
  "round_robin_index (sample_kernel pool current procs) = 0"
  "kernel_page_table (sample_kernel pool current procs) = map of_nat [0..<16]"
  "ring_buffer (sample_kernel pool current procs) =
     \<lparr>rb_buffer = replicate 256 0, rb_head = 0, rb_tail = 0\<rparr>"
  by (simp_all only: sample_kernel_def kernel.select_convs)

lemma sample_proc_fields [simp]:
  "kernel_low_memory (sample_proc f s) = [f, 1, 2]" "proc_state (sample_proc f s) = s"
  "proc_ksp (sample_proc f s) = 0xff"
  by (simp_all add: sample_proc_def)

section \<open>Frames\<close>

fun kallocs :: "nat \<Rightarrow> kernel \<Rightarrow> frame_t list \<times> kernel" where
  "kallocs 0 k = ([], k)"
| "kallocs (Suc n) k = (let (f, k1) = kalloc k; (fs, k2) = kallocs n k1 in (f # fs, k2))"

lemma kallocs_allocs: "kallocs n k = kernel_frames.allocs n k"
  by (induction n arbitrary: k) simp_all

text \<open>
  C13: the frame allocator hands out each frame of its pool once. In a state that satisfies the memory
  invariant, \<open>n\<close> allocations in a row return the next \<open>n\<close> free frames in order, pairwise different,
  different from every frame still free and none of them a kernel frame; the invariant holds
  afterwards. With an empty pool \<^verbatim>\<open>kalloc\<close> returns \<^verbatim>\<open>FRAME_UNUSED\<close> and changes nothing. After
  \<^verbatim>\<open>kalloc_init\<close> the pool is the frames 16 to 255.
\<close>

theorem frames_handed_out_once:
  assumes "memory_inv k" and "n \<le> length (free_list k)"
  shows "fst (kallocs n k) = take n (free_list k) \<and> free_list (snd (kallocs n k)) = drop n (free_list k) \<and>
    distinct (fst (kallocs n k)) \<and> set (fst (kallocs n k)) \<inter> set (free_list (snd (kallocs n k))) = {} \<and>
    (\<forall>f \<in> set (fst (kallocs n k)). 16 \<le> f) \<and> memory_inv (snd (kallocs n k)) \<and>
    (free_list k = [] \<longrightarrow> kalloc k = (FRAME_UNUSED, k)) \<and>
    (\<forall>k0. length (free_frames k0) = 256 \<longrightarrow>
       kalloc_inv (kalloc_init k0) \<and> free_list (kalloc_init k0) = map of_nat [16..<256])"
proof -
  note p = kernel_frames.allocs_pool [OF assms] and d = kernel_frames.allocs_distinct [OF assms]
  have "\<forall>f \<in> set (take n (free_list k)). 16 \<le> f"
    using assms(1) by (auto simp: memory_inv_def kalloc_inv_def dest: in_set_takeD)
  then show ?thesis
    using p d kalloc_init_effect kernel_frames.alloc_empty [OF assms(1)] unfolding kallocs_allocs by metis
qed

lemma sample_memory_inv:
  "memory_inv (sample_kernel [30, 31, 32] None (replicate 512 (sample_proc 20 PROC_STATE_READY)))"
  unfolding memory_inv_def
proof
  show "kmap (sample_kernel [30, 31, 32] None (replicate 512 (sample_proc 20 PROC_STATE_READY)))"
    by (rule sample_kmap) (auto simp: sample_proc_def)
  show "kalloc_inv (sample_kernel [30, 31, 32] None (replicate 512 (sample_proc 20 PROC_STATE_READY)))"
    by (rule sample_kalloc_inv) (auto simp: word_le_nat_alt)
qed

lemma sample_free_list: "free_list (sample_kernel [30, 31, 32] current procs) = [30, 31, 32]"
  by (rule sample_kalloc_inv) (auto simp: word_le_nat_alt)

theorem frames_handed_out_once_witness:
  "fst (kallocs 2 (sample_kernel [30, 31, 32] None (replicate 512 (sample_proc 20 PROC_STATE_READY)))) = [30, 31]"
  using frames_handed_out_once [OF sample_memory_inv, of 2] by (simp add: sample_free_list)

text \<open>
  A freed frame is the next one allocated. Freeing a frame that is not free, not a kernel frame
  and not the reserved value puts it on top of the pool, fills it with the byte \<^verbatim>\<open>'F'\<close> and changes no
  other byte of memory, no device and no process record; the memory invariant is kept and the
  next \<^verbatim>\<open>kalloc\<close> returns this frame and restores the pool. Freeing a kernel frame or the reserved
  value changes nothing.
\<close>

theorem freed_frame_reused:
  assumes "memory_inv k" and "usable_frame f" and "f \<notin> set (free_list k)"
  shows "fst (kalloc (kfree f k)) = f \<and> free_list (snd (kalloc (kfree f k))) = free_list k \<and>
    memory_inv (kfree f k) \<and>
    (\<forall>g i. i < 4096 \<longrightarrow> frame_byte (kfree f k) g i = (if g = f then 0x46 else frame_byte k g i)) \<and>
    mmu (machine (kfree f k)) = mmu (machine k) \<and> proc_table (kfree f k) = proc_table k \<and>
    kernel_page_table (kfree f k) = kernel_page_table k \<and>
    (\<forall>g k0. \<not> usable_frame g \<longrightarrow> kfree g k0 = k0)"
proof -
  have "kmap k" using assms(1) by (simp add: memory_inv_def)
  note e = kfree_effect [OF this assms(2)]
  have b: "frame_byte (kfree f k) g i = (if g = f then 0x46 else frame_byte k g i)" if "i < 4096" for g i
    using that by (simp add: e frame_byte_def)
  have "kfree g k0 = k0" if "\<not> usable_frame g" for g k0
    using that by (auto simp: kfree_def usable_frame_def)
  then show ?thesis
    using kernel_frames.alloc_free [OF assms] kernel_frames.free_push [OF assms] b by (simp add: e)
qed

theorem freed_frame_reused_witness:
  "fst (kalloc (kfree 40 (sample_kernel [30, 31, 32] None (replicate 512 (sample_proc 20 PROC_STATE_READY))))) = 40"
  using freed_frame_reused [OF sample_memory_inv, of 40]
  by (simp add: sample_free_list usable_frame_def word_le_nat_alt)

section \<open>Process control blocks\<close>

text \<open>
  C27: the accessors of the process control block behave like a record field although every access
  goes through a memory window of the MMU. What \<^verbatim>\<open>proc_set_8\<close> or \<^verbatim>\<open>proc_set_16\<close> stores,
  \<^verbatim>\<open>proc_get_8\<close> and \<^verbatim>\<open>proc_get_16\<close> return; members at other offsets and the control blocks of
  processes in other frames keep their values; reading changes nothing, and the mapping of the
  windows is restored.
\<close>

theorem pcb_accessors:
  assumes "kmap k" and "pcb_ok k p" and "pcb_ok k q" and "offset < 256" and "other < 256"
  shows "fst (proc_get_8 p offset (proc_set_8 p offset v k)) = v \<and>
    fst (proc_get_16 p offset (proc_set_16 p offset w k)) = w \<and>
    snd (proc_get_8 p offset k) = k \<and> snd (proc_get_16 p offset k) = k \<and>
    (other \<noteq> offset \<or> pcb_frame k q \<noteq> pcb_frame k p \<longrightarrow>
       fst (proc_get_8 q other (proc_set_8 p offset v k)) = fst (proc_get_8 q other k)) \<and>
    (other \<notin> {offset, offset + 1} \<or> pcb_frame k q \<noteq> pcb_frame k p \<longrightarrow>
       fst (proc_get_8 q other (proc_set_16 p offset w k)) = fst (proc_get_8 q other k)) \<and>
    kmap (proc_set_16 p offset w k) \<and> mmu (machine (proc_set_16 p offset w k)) = mmu (machine k)"
proof -
  note s = pcb_access(2,4) [OF assms(1,2), of offset]
  have g: "proc_get_8 r off k' = (pcb_byte k' r off, k')" "proc_get_16 r off k' = (pcb_word k' r off, k')"
    if "kmap k'" "pcb_ok k' r" "off < 256" for r off k'
    using pcb_access(1,3) [OF that(1,2), of off] that(3) by simp_all
  show ?thesis
    using assms by (auto simp: s g pcb_word_def)
qed

lemma sample_procs_kmap: "kmap (sample_kernel [] None (replicate 512 (sample_proc 20 PROC_STATE_SLEEPING)))"
  by (rule sample_kmap) (auto simp: sample_proc_def)

theorem pcb_accessors_witness:
  "fst (proc_get_16 7 26 (proc_set_16 7 26 0x1234
     (sample_kernel [] None (replicate 512 (sample_proc 20 PROC_STATE_SLEEPING))))) = 0x1234"
  using pcb_accessors [OF sample_procs_kmap, where p = 7 and q = 7 and offset = 26 and other = 0 and v = 0 and w = "0x1234"] by (simp add: pcb_ok_def)

section \<open>Waking and scheduling\<close>

text \<open>
  C17: \<^verbatim>\<open>wakeup\<close> wakes exactly the processes that sleep on the channel. Every process whose state is
  \<^verbatim>\<open>SLEEPING\<close> and whose control block holds the channel becomes \<^verbatim>\<open>READY\<close>; no other process record
  changes, and nothing else of the kernel or the machine does, although the scan reads the
  control blocks through a window.
\<close>

theorem wakeup_wakes_exactly:
  assumes "kmap k" and "sleepers_ok k" and "p < MAX_PROC_COUNT"
  shows "proc_table (wakeup channel k) ! p =
      (if proc_state (proc_table k ! p) = PROC_STATE_SLEEPING \<and> pcb_word k p off_channel = channel
       then (proc_table k ! p)\<lparr>proc_state := PROC_STATE_READY\<rparr> else proc_table k ! p) \<and>
    wakeup channel k = k\<lparr>proc_table := proc_table (wakeup channel k)\<rparr> \<and>
    length (proc_table (wakeup channel k)) = MAX_PROC_COUNT"
  using assms wakeup_effect [OF assms(1,2), of channel]
  by (simp add: woken_nth sleeps_on_def kmap_def) (simp add: woken_def)

theorem wakeup_wakes_exactly_witness:
  "proc_state (proc_table (wakeup 0 (sample_kernel [] None
     (replicate 512 (sample_proc 20 PROC_STATE_SLEEPING)))) ! 5) = PROC_STATE_READY"
proof -
  let ?k = "sample_kernel [] None (replicate 512 (sample_proc 20 PROC_STATE_SLEEPING))"
  have "sleepers_ok ?k" by (simp add: sleepers_ok_def pcb_ok_def)
  from wakeup_wakes_exactly [OF sample_procs_kmap this, of 5 0] show ?thesis
    by (simp add: pcb_word_def pcb_byte_def frame_byte_def power_on_def RAM_create_def mk_word_def)
qed

text \<open>
  C8: the scheduler finds the next ready process in round-robin order in one scan of the table. If some
  process is ready or new, the scan returns the first one at or after the index, in cyclic order,
  and moves the index just behind it; the scheduler then marks exactly this process running, makes
  it the current process and gives it a fresh quantum, without waiting. If none is, the scan finds none.
\<close>

theorem scheduler_round_robin:
  assumes "rr_ok k"
  shows "((\<exists>p < MAX_PROC_COUNT. runnable k p) \<longrightarrow>
      (\<exists>d < MAX_PROC_COUNT. runnable k (rr k d) \<and> (\<forall>e < d. \<not> runnable k (rr k e)) \<and>
         scheduler idle k = Some (scheduler_dispatch (current_process k) (rr k d)
           (k\<lparr>round_robin_index := of_nat (rr k (Suc d))\<rparr>)))) \<and>
    ((\<forall>p < MAX_PROC_COUNT. \<not> runnable k p) \<longrightarrow> scheduler [] k = None) \<and>
    (\<forall>old p k'. kmap k' \<and> pcb_ok k' p \<and> windows_agree k' p \<longrightarrow>
       proc_state (proc_table (snd (scheduler_dispatch old p k')) ! p) = PROC_STATE_RUNING \<and>
       current_process (snd (scheduler_dispatch old p k')) = Some p \<and>
       pcb_byte (snd (scheduler_dispatch old p k')) p off_ticks = QUANTUM \<and>
       (\<forall>q < MAX_PROC_COUNT. q \<noteq> p \<longrightarrow>
          proc_table (snd (scheduler_dispatch old p k')) ! q = proc_table k' ! q))"
proof (intro conjI impI)
  assume "\<exists>p < MAX_PROC_COUNT. runnable k p"
  then obtain p where p: "p < MAX_PROC_COUNT" "runnable k p" by blast
  then have "rr_distance k p < MAX_PROC_COUNT" "runnable k (rr k (rr_distance k p))"
    using assms by (simp_all only: rr_distance_less rr_distance_reaches)
  with scan_result [OF assms, of MAX_PROC_COUNT] obtain d where d: "d < MAX_PROC_COUNT" "runnable k (rr k d)"
    "\<forall>e < d. \<not> runnable k (rr k e)"
    "scheduler_scan MAX_PROC_COUNT k = (Some (rr k d), k\<lparr>round_robin_index := of_nat (rr k (Suc d))\<rparr>)"
    by blast
  have "scheduler idle k = Some (scheduler_dispatch (current_process k) (rr k d)
      (k\<lparr>round_robin_index := of_nat (rr k (Suc d))\<rparr>))"
    unfolding scheduler_def scheduler_loop.simps [of _ idle k] d(4) by simp
  with d show "\<exists>d < MAX_PROC_COUNT. runnable k (rr k d) \<and> (\<forall>e < d. \<not> runnable k (rr k e)) \<and>
         scheduler idle k = Some (scheduler_dispatch (current_process k) (rr k d)
           (k\<lparr>round_robin_index := of_nat (rr k (Suc d))\<rparr>))" by blast
next
  assume "\<forall>p < MAX_PROC_COUNT. \<not> runnable k p"
  then have "\<not> runnable k (rr k d)" for d by simp
  with scan_result [OF assms, of MAX_PROC_COUNT] have "fst (scheduler_scan MAX_PROC_COUNT k) = None"
    by (metis fst_conv)
  then show "scheduler [] k = None"
    unfolding scheduler_def scheduler_loop.simps [of _ "[]" k] by (cases "scheduler_scan MAX_PROC_COUNT k") simp
qed (use dispatched in blast)

theorem scheduler_round_robin_witness:
  "scheduler [] (sample_kernel [] None (replicate 512 (sample_proc 20 PROC_STATE_ZOMBIE))) = None"
proof -
  let ?k = "sample_kernel [] None (replicate 512 (sample_proc 20 PROC_STATE_ZOMBIE))"
  have "rr_ok ?k" by (simp add: rr_ok_def)
  from scheduler_round_robin [OF this] show ?thesis by (simp add: runnable_def)
qed

text \<open>
  C25: no ready process starves. In every sequence of scheduler calls in which the process is ready at
  each call and only the scheduler moves its index, the process is chosen by one of the first 512
  calls, whatever the other processes do in between.
\<close>

theorem bounded_waiting:
  assumes "\<And>n. round_robin_index (ks (Suc n)) = round_robin_index (snd (scheduler_scan MAX_PROC_COUNT (ks n)))"
    and "\<And>n. runnable (ks n) p" and "p < MAX_PROC_COUNT" and "rr_ok (ks 0)"
  shows "\<exists>n < MAX_PROC_COUNT. fst (scheduler_scan MAX_PROC_COUNT (ks n)) = Some p"
  using bounded_waiting_from [of ks p] assms rr_distance_less [of "ks 0" p] by (meson order_le_less_trans)

theorem bounded_waiting_witness:
  "\<exists>n < 512. fst (scheduler_scan 512 (((\<lambda>k. snd (scheduler_scan 512 k)) ^^ n)
     (sample_kernel [] None (replicate 512 (sample_proc 20 PROC_STATE_READY))))) = Some 300"
proof -
  let ?k = "sample_kernel [] None (replicate 512 (sample_proc 20 PROC_STATE_READY))"
  define step where "step = (\<lambda>k. snd (scheduler_scan 512 k))"
  define ks where "ks = (\<lambda>n. (step ^^ n) ?k)"
  have s: "ks (Suc n) = snd (scheduler_scan 512 (ks n))" for n by (simp add: ks_def step_def)
  have t: "rr_ok (ks n) \<and> proc_table (ks n) = proc_table ?k" for n
  proof (induction n)
    case 0
    then show ?case by (simp add: rr_ok_def ks_def)
  next
    case (Suc n)
    then show ?case unfolding s using scan_frame [of "ks n" 512] by metis
  qed
  have "runnable (ks n) 300" for n using t [of n] by (simp add: runnable_def)
  then have "\<exists>n < 512. fst (scheduler_scan 512 (ks n)) = Some 300"
    using t [of 0] by (intro bounded_waiting) (simp_all add: s)
  then show ?thesis unfolding ks_def step_def .
qed

text \<open>
  C26: a context switch away from a process and back restores it. Whatever happens in between
  (the process may be put to sleep, woken and marked running by the scheduler), as long as no one writes
  the saved stack pointer and low frames of its record, switching back returns the stack pointer it had and maps the same three low frames (zero page and stack, and both windows) in the
  hardware table and in the kernel's copy of it; every other mapping is untouched.
\<close>

theorem context_switch_roundtrip:
  assumes "kmap k" and "kmap k2" and "old < MAX_PROC_COUNT" and "new \<noteq> old" and "w < 3"
    and "kernel_page_table k ! w = page_table (mmu (machine k)) ! w"
    and "context_switch old new ksp k = (ksp1, k1)"
    and "kernel_low_memory (proc_table k2 ! old) = kernel_low_memory (proc_table k1 ! old)"
    and "proc_ksp (proc_table k2 ! old) = proc_ksp (proc_table k1 ! old)"
    and "context_switch new old ksp2 k2 = (ksp3, k3)"
  shows "ksp3 = ksp \<and> page_table (mmu (machine k3)) ! w = page_table (mmu (machine k)) ! w \<and>
    kernel_page_table k3 ! w = kernel_page_table k ! w \<and>
    (\<forall>i. 3 \<le> i \<longrightarrow> page_table (mmu (machine k1)) ! i = page_table (mmu (machine k)) ! i \<and>
       kernel_page_table k1 ! i = kernel_page_table k ! i)"
proof -
  have l: "length (proc_table k) = 512" "length (kernel_low_memory (proc_table k ! old)) = 3"
    "length (page_table (mmu (machine k2))) = 16" "length (kernel_page_table k2) = 16"
    "length (proc_table k2) = 512"
    using assms(1-3) by (simp_all add: kmap_def all_set_conv_all_nth)
  have k1: "k1 = load_low (kernel_low_memory (saved_table old ksp k ! new)) (k\<lparr>proc_table := saved_table old ksp k\<rparr>)"
    using assms(7) by (simp add: context_switch_effect [OF assms(1)])
  have saved: "proc_ksp (proc_table k2 ! old) = ksp"
    "v < 3 \<Longrightarrow> kernel_low_memory (proc_table k2 ! old) ! v = kernel_page_table k ! v" for v
    using assms(3,8,9) l by (auto simp: k1 load_low_def saved_table_def less_Suc_eq numeral_3_eq_3 numeral_2_eq_2)
  have same: "saved_table new ksp2 k2 ! old = proc_table k2 ! old"
    using assms(4) by (simp add: saved_table_def)
  have k3: "ksp3 = ksp" "k3 = load_low (kernel_low_memory (proc_table k2 ! old)) (k2\<lparr>proc_table := saved_table new ksp2 k2\<rparr>)"
    using assms(10) saved(1) by (simp_all add: context_switch_effect [OF assms(2)] same)
  have "page_table (mmu (machine k3)) ! w = kernel_page_table k ! w \<and> kernel_page_table k3 ! w = kernel_page_table k ! w"
  proof -
    have v: "kernel_low_memory (proc_table k2 ! old) ! 0 = kernel_page_table k ! 0"
      "kernel_low_memory (proc_table k2 ! old) ! 1 = kernel_page_table k ! 1"
      "kernel_low_memory (proc_table k2 ! old) ! 2 = kernel_page_table k ! 2"
      using saved(2) by simp_all
    consider "w = 0" | "w = 1" | "w = 2" using assms(5) by linarith
    then show ?thesis using l(3,4) v by cases (simp_all add: k3(2) load_low_def)
  qed
  then show ?thesis using k3(1) assms(6) by (simp add: k1 load_low_def)
qed

theorem context_switch_roundtrip_witness:
  "fst (context_switch 4 3 0x80 (snd (scheduler_dispatch (Some 4) 3 (snd (context_switch 3 4 0xf0
     (sample_kernel [] None (replicate 512 (sample_proc 20 PROC_STATE_READY)))))))) = 0xf0"
proof -
  let ?k = "sample_kernel [] None (replicate 512 (sample_proc 20 PROC_STATE_READY))"
  have m: "kmap ?k" by (rule sample_kmap) (auto simp: sample_proc_def)
  obtain ksp1 k1 where s: "context_switch 3 4 0xf0 ?k = (ksp1, k1)" by fastforce
  have e: "k1 = load_low (kernel_low_memory (saved_table 3 0xf0 ?k ! 4)) (?k\<lparr>proc_table := saved_table 3 0xf0 ?k\<rparr>)"
    using s by (simp add: context_switch_effect [OF m])
  have k1: "kmap k1" "pcb_ok k1 3" "windows_agree k1 3"
    using m by (auto simp: e load_low_def saved_table_def kmap_def pcb_ok_def windows_agree_def sample_proc_def
        dest!: set_update_subset_insert [THEN subsetD])
  let ?k2 = "snd (scheduler_dispatch (Some 4) 3 k1)"
  have k2: "kmap ?k2" using dispatched(5) [OF k1] .
  have r: "kernel_low_memory (proc_table ?k2 ! 3) = kernel_low_memory (proc_table k1 ! 3)"
    "proc_ksp (proc_table ?k2 ! 3) = proc_ksp (proc_table k1 ! 3)"
    using k1(1) by (simp_all add: dispatch_effect [OF k1] set_state_nth kmap_def)
  obtain ksp3 k3 where t: "context_switch 4 3 0x80 ?k2 = (ksp3, k3)" by fastforce
  from context_switch_roundtrip [OF m k2 _ _ _ _ s r t, of 1] show ?thesis
    using s t by (simp add: power_on_page_table)
qed

section \<open>Copies between kernel and user memory\<close>

text \<open>
  C5: \<^verbatim>\<open>copy_to_user\<close> and \<^verbatim>\<open>copy_from_user\<close>, which copy frame by frame through a window, do what a copy does
  that translates every single byte through the page table of the process: the bytes before the
  first unmapped address are copied, then the result is -1; if all addresses are mapped, all bytes are
  copied and the result is 0. A start address at or above the top of the process is refused
  before anything is copied. Both return for every length, and the window mapping is as before.
\<close>

theorem user_copies_refine_bytewise:
  assumes "kmap k" and "pcb_ok k p" and "MMU_LAST_FRAME \<notin> set (pcb_bytes k p off_page_table 16)"
    and "unat n \<le> length src"
  shows "copy_to_user src va n p k =
      (if pcb_word k p off_top \<le> va then (- 1, k)
       else user_store (pcb_bytes k p off_page_table 16) va (take (unat n) src) k) \<and>
    copy_from_user va n p k =
      (if pcb_word k p off_top \<le> va then (- 1, [], k)
       else (let (r, bs) = user_load (pcb_bytes k p off_page_table 16) va (unat n) k in (r, bs, k)))"
  using copy_to_user_bytewise [OF assms] copy_from_user_bytewise [OF assms(1-3)] by simp

lemma zero_pcb: "pcb_byte (sample_kernel pool current procs) p off = 0"
  "pcb_word (sample_kernel pool current procs) p off = 0"
  by (simp_all add: pcb_byte_def pcb_word_def frame_byte_def power_on_def RAM_create_def mk_word_def)

theorem user_copies_refine_bytewise_witness:
  "fst (copy_to_user [1, 2, 3] 0x1000 3 5
     (sample_kernel [] None (replicate 512 (sample_proc 20 PROC_STATE_SLEEPING)))) = - 1"
proof -
  let ?k = "sample_kernel [] None (replicate 512 (sample_proc 20 PROC_STATE_SLEEPING))"
  have "pcb_ok ?k 5" by (simp add: pcb_ok_def)
  moreover have "MMU_LAST_FRAME \<notin> set (pcb_bytes ?k 5 off_page_table 16)" by (auto simp: pcb_bytes_def zero_pcb)
  ultimately show ?thesis
    using user_copies_refine_bytewise [OF sample_procs_kmap, of 5 3 "[1, 2, 3]" "0x1000"] by (simp add: zero_pcb)
qed

text \<open>
  A copy to user memory that succeeds is read back by the copy from user memory. When no two
  segments of the process share a frame and its control block lies in none of them, the
  bytes stored at an address come back from the same address, across frame boundaries and with the
  16-bit wrap-around of addresses.
\<close>

theorem user_copy_roundtrip:
  assumes "kmap k" and "pcb_ok k p" and "MMU_LAST_FRAME \<notin> set (pcb_bytes k p off_page_table 16)"
    and "user_frames_distinct (pcb_bytes k p off_page_table 16)"
    and "pcb_frame k p \<notin> set (pcb_bytes k p off_page_table 16)"
    and "unat n = length src" and "copy_to_user src va n p k = (0, k')"
  shows "copy_from_user va n p k' = (0, src, k')"
proof -
  let ?pt = "pcb_bytes k p off_page_table 16"
  have l: "length ?pt = 16" by (simp add: pcb_bytes_def)
  have u: "copy_to_user src va n p k =
      (if pcb_word k p off_top \<le> va then (- 1, k) else user_store ?pt va (take (unat n) src) k)"
    using copy_to_user_bytewise [OF assms(1-3), of n src va] assms(6) by simp
  then have t: "\<not> pcb_word k p off_top \<le> va" and s: "user_store ?pt va src k = (0, k')"
    using assms(6,7) by (simp_all split: if_splits)
  note pcb = user_store_pcb [OF s l assms(5)]
  have pt: "pcb_bytes k' p off_page_table 16 = ?pt" and top: "pcb_word k' p off_top = pcb_word k p off_top"
    using pcb by (auto simp: pcb_bytes_def pcb_word_def)
  obtain m where m: "k' = k\<lparr>machine := (machine k)\<lparr>ram := m\<rparr>\<rparr>" using user_store_keeps [OF s l] by blast
  then have k': "kmap k'" "pcb_ok k' p" using assms(1,2) by (simp_all add: kmap_def pcb_ok_def)
  have "length src < 65536" using unsigned_less [of n, where ?'a = nat] assms(6) by simp
  then have "user_load ?pt va (unat n) k' = (0, src)"
    using user_store_load [OF assms(4) _ s] assms(6) by simp
  then show ?thesis
    using copy_from_user_bytewise [OF k', of va n] assms(3) t by (simp add: pt top)
qed

lemma unat_numerals: "unat (3 :: uint16) = 3" "unat (0x10 :: uint16) = 16"
  by simp_all

definition user_sample :: kernel where
  "user_sample = pcb_write 5 off_top [0, 0x10] (pcb_write 5 off_page_table (40 # replicate 15 0xff)
     (sample_kernel [] None (replicate 512 (sample_proc 20 PROC_STATE_SLEEPING))))"

lemma user_sample_facts:
  "kmap user_sample" "pcb_ok user_sample 5" "pcb_frame user_sample 5 = 20"
  "pcb_word user_sample 5 off_top = 0x1000" "pcb_bytes user_sample 5 off_page_table 16 = 40 # replicate 15 0xff"
proof -
  show "kmap user_sample" "pcb_ok user_sample 5" "pcb_frame user_sample 5 = 20"
    by (simp_all add: user_sample_def sample_procs_kmap pcb_ok_def)
  show "pcb_word user_sample 5 off_top = 0x1000" by (simp add: user_sample_def pcb_word_def mk_word_def)
  show "pcb_bytes user_sample 5 off_page_table 16 = 40 # replicate 15 0xff"
    by (rule nth_equalityI) (auto simp: user_sample_def pcb_bytes_def nth_Cons')
qed

lemma user_sample_distinct: "user_frames_distinct (40 # replicate 15 0xff)"
  by (auto simp: user_frames_distinct_def nth_Cons')

theorem user_copy_roundtrip_witness:
  "\<exists>k'. copy_to_user [1, 2, 3] 0x10 3 5 user_sample = (0, k') \<and> copy_from_user 0x10 3 5 k' = (0, [1, 2, 3], k')"
proof -
  note f = user_sample_facts
  have d: "MMU_LAST_FRAME \<notin> set (pcb_bytes user_sample 5 off_page_table 16)"
    "pcb_frame user_sample 5 \<notin> set (pcb_bytes user_sample 5 off_page_table 16)"
    unfolding f(3,5) by auto
  have "segment_of 0x10 = 0" "segment_of 0x11 = 0" "segment_of 0x12 = 0"
    by (simp_all add: segment_of_def)
  then have "\<exists>k'. user_store (40 # replicate 15 0xff) 0x10 [1, 2, 3] user_sample = (0, k')"
    by (simp add: user_mapped_def)
  then obtain k' where c: "copy_to_user [1, 2, 3] 0x10 3 5 user_sample = (0, k')"
    using copy_to_user_bytewise [OF f(1,2) d(1), of 3 "[1, 2, 3]" "0x10"] f(4,5) by auto
  have "user_frames_distinct (pcb_bytes user_sample 5 off_page_table 16)"
    unfolding f(5) by (rule user_sample_distinct)
  from user_copy_roundtrip [OF f(1,2) d(1) this d(2) _ c] show ?thesis using c by simp
qed

section \<open>Serial input\<close>

fun ring_pushes :: "uint8 list \<Rightarrow> Ring_Buffer \<Rightarrow> Ring_Buffer option" where
  "ring_pushes [] rb = Some rb"
| "ring_pushes (x # xs) rb = Option.bind (ring_push x rb) (ring_pushes xs)"

fun ring_pops :: "nat \<Rightarrow> Ring_Buffer \<Rightarrow> int list \<times> Ring_Buffer" where
  "ring_pops 0 rb = ([], rb)"
| "ring_pops (Suc n) rb = (let (c, rb1) = ring_pop rb; (cs, rb2) = ring_pops n rb1 in (c # cs, rb2))"

lemma ring_pops_contents:
  "n \<le> length (ring_contents rb) \<Longrightarrow>
   fst (ring_pops n rb) = map (\<lambda>c. int (unat c)) (take n (ring_contents rb)) \<and>
   ring_contents (snd (ring_pops n rb)) = drop n (ring_contents rb)"
proof (induction n arbitrary: rb)
  case 0
  then show ?case by simp
next
  case (Suc n)
  then obtain c cs where c: "ring_contents rb = c # cs" by (cases "ring_contents rb") auto
  from ring_pop_contents(2) [OF c] obtain rb' where "ring_pop rb = (int (unat c), rb')" "ring_contents rb' = cs"
    by blast
  with Suc.IH [of rb'] Suc.prems c show ?case by (simp add: split_beta)
qed

lemma ring_pushes_puts: "ring_pushes xs rb = ring_fifo.puts xs rb"
proof (induction xs arbitrary: rb)
  case (Cons x xs)
  then have "ring_pushes xs = ring_fifo.puts xs" by (simp add: fun_eq_iff)
  then show ?case by simp
qed simp

text \<open>
  C29: the ring buffer of the serial driver is a first-in first-out queue of 255 characters. Up to 255
  characters put into an empty buffer come out in the same order, and the buffer is empty
  afterwards; an empty buffer yields -1. A character that arrives with 255 waiting is dropped, unless the
  oldest one is at index 0: there the comparison of \<^verbatim>\<open>head + 1\<close> with \<^verbatim>\<open>tail\<close>, made in
  integers, does not see that the buffer is full, and the store empties it.
\<close>

theorem serial_queue:
  assumes "ring_wf rb"
  shows "(ring_contents rb = [] \<and> length xs \<le> 255 \<longrightarrow>
      (\<exists>rb1 rb2. ring_pushes xs rb = Some rb1 \<and> ring_contents rb1 = xs \<and>
         ring_pops (length xs) rb1 = (map (\<lambda>c. int (unat c)) xs, rb2) \<and> ring_contents rb2 = [])) \<and>
    (ring_contents rb = [] \<longrightarrow> ring_pop rb = (- 1, rb)) \<and>
    (length (ring_contents rb) = 255 \<longrightarrow>
      (if rb_tail rb = 0 then \<exists>rb'. ring_push x rb = Some rb' \<and> ring_contents rb' = []
       else ring_push x rb = None))"
proof (intro conjI impI)
  assume e: "ring_contents rb = [] \<and> length xs \<le> 255"
  then obtain rb1 where rb1: "ring_pushes xs rb = Some rb1" "ring_contents rb1 = xs"
    using ring_fifo.puts_room [OF assms, of xs] by (auto simp: ring_pushes_puts)
  obtain cs rb2 where p: "ring_pops (length xs) rb1 = (cs, rb2)" by fastforce
  then show "\<exists>rb1 rb2. ring_pushes xs rb = Some rb1 \<and> ring_contents rb1 = xs \<and>
      ring_pops (length xs) rb1 = (map (\<lambda>c. int (unat c)) xs, rb2) \<and> ring_contents rb2 = []"
    using ring_pops_contents [of "length xs" rb1] rb1 by simp
next
  assume "length (ring_contents rb) = 255"
  then show "if rb_tail rb = 0 then \<exists>rb'. ring_push x rb = Some rb' \<and> ring_contents rb' = []
       else ring_push x rb = None"
    using ring_push_full [of rb x] ring_push_full_zero [of rb x] by auto
qed (rule ring_pop_contents)

theorem serial_queue_witness:
  "\<exists>rb1 rb2. ring_pushes [72, 105] \<lparr>rb_buffer = replicate 256 0, rb_head = 250, rb_tail = 250\<rparr> = Some rb1 \<and>
     ring_pops 2 rb1 = ([72, 105], rb2)"
proof -
  let ?rb = "\<lparr>rb_buffer = replicate 256 0, rb_head = 250, rb_tail = 250\<rparr>"
  have e: "ring_wf ?rb" "ring_contents ?rb = []" by (simp_all add: ring_wf_def ring_contents_def)
  have l: "length [72, 105 :: uint8] = 2" "map (\<lambda>c. int (unat c)) [72, 105 :: uint8] = [72, 105]" by simp_all
  have "length [72, 105 :: uint8] \<le> 255" by simp
  with serial_queue [OF e(1), of "[72, 105]"] e(2)
  have "\<exists>rb1 rb2. ring_pushes [72, 105] ?rb = Some rb1 \<and>
      ring_pops (length [72, 105 :: uint8]) rb1 = (map (\<lambda>c. int (unat c)) [72, 105 :: uint8], rb2)"
    by blast
  then show ?thesis unfolding l .
qed

text \<open>
  the receive interrupt stores the received character behind those already waiting and wakes the
  readers. With the receive flag set and a character other than the debug key, the handler
  appends it to the buffer if there is room, and every process that sleeps on the buffer is ready
  afterwards.
\<close>

theorem serial_interrupt:
  assumes "kmap k" and "sleepers_ok k" and "ring_wf (ring_buffer k)"
    and "bit (uart_status (uart (machine k))) 0" and "uart_rx (uart (machine k)) \<noteq> 4"
    and "length (ring_contents (ring_buffer k)) < 255"
  shows "\<exists>k'. uart_rx_interrupt ws k = Some (Inr ((), ws, k')) \<and>
    ring_contents (ring_buffer k') = ring_contents (ring_buffer k) @ [uart_rx (uart (machine k))] \<and>
    (\<forall>p < MAX_PROC_COUNT. sleeps_on k (ring_buffer_addr (sym k)) p \<longrightarrow>
       proc_state (proc_table k' ! p) = PROC_STATE_READY)"
proof -
  obtain rb where r: "ring_push (uart_rx (uart (machine k))) (ring_buffer k) = Some rb"
    "ring_contents rb = ring_contents (ring_buffer k) @ [uart_rx (uart (machine k))]"
    using ring_push_contents [OF assms(3,6)] by blast
  show ?thesis by (rule uart_rx_effect [OF assms(1,2,4,5) r(1), of ws]) (use r(2) in blast)
qed

theorem serial_interrupt_witness:
  "\<exists>k'. uart_rx_interrupt []
     ((sample_kernel [] None (replicate 512 (sample_proc 20 PROC_STATE_SLEEPING)))
        \<lparr>machine := (power_on [] [])\<lparr>uart := \<lparr>uart_tx = 0, uart_rx = 65, uart_status = 1\<rparr>\<rparr>\<rparr>) =
       Some (Inr ((), [], k')) \<and> ring_contents (ring_buffer k') = [65]"
proof -
  let ?k = "(sample_kernel [] None (replicate 512 (sample_proc 20 PROC_STATE_SLEEPING)))
        \<lparr>machine := (power_on [] [])\<lparr>uart := \<lparr>uart_tx = 0, uart_rx = 65, uart_status = 1\<rparr>\<rparr>\<rparr>"
  have "kmap ?k" using sample_procs_kmap by (simp add: kmap_machine)
  moreover have "sleepers_ok ?k" by (simp add: sleepers_ok_def pcb_ok_def)
  moreover have "ring_wf (ring_buffer ?k)" "ring_contents (ring_buffer ?k) = []"
    by (simp_all add: ring_wf_def ring_contents_def)
  ultimately show ?thesis using serial_interrupt [of ?k "[]"] by auto
qed

section \<open>Block device\<close>

text \<open>
  C11: the disk driver and the disk controller together read a block. When the buffer at the head of the
  queue is clean and its transfer is started, eight rounds of a controller command of 200 steps and its
  interrupt leave the 4096 bytes of its block of the image in its frame and no other frame changed; the
  buffer is then marked valid and clean, has left the queue, and every process that sleeps on it is ready.
\<close>

theorem block_read:
  assumes "head_buffer k b" and "\<not> dirty k b" and "dq_sector (disk_queue k) = 0"
    and "buf_queue (buffer_cache k ! b) = None"
    and "unat (buf_block_number (buffer_cache k ! b)) * 4096 + 4096 \<le> length (disk_file (disk (machine k)))"
    and "k' = (disk_round ^^ 8) (disk_start_operation k)"
  shows "(\<forall>g i. i < 4096 \<longrightarrow> frame_byte k' g i =
      (if g = buf_frame (buffer_cache k ! b)
       then disk_file (disk (machine k)) ! (unat (buf_block_number (buffer_cache k ! b)) * 4096 + i)
       else frame_byte k g i)) \<and>
    bit (buf_flags (buffer_cache k' ! b)) 1 \<and> \<not> bit (buf_flags (buffer_cache k' ! b)) 2 \<and>
    dq_head (disk_queue k') = None \<and>
    (\<forall>p < MAX_PROC_COUNT. sleeps_on k (buffer_addr (sym k) b) p \<and> pcb_frame k p \<noteq> buf_frame (buffer_cache k ! b) \<longrightarrow>
       proc_state (proc_table k' ! p) = PROC_STATE_READY)"
proof -
  note f = start_frame [OF assms(1)]
  let ?s = "disk_start_operation k"
  have r: "reading ?s b" by (rule start_reading [OF assms(1,2,5)])
  have q: "dq_sector (disk_queue ?s) = 0" "buf_queue (buffer_cache ?s ! b) = None"
    using assms(3,4) by (simp_all add: f)
  have "sleeps_on ?s (buffer_addr (sym ?s) b) p" if "sleeps_on k (buffer_addr (sym k) b) p" for p
    using that by (simp add: sleeps_on_def pcb_word_def pcb_byte_def frame_byte_def f)
  then show ?thesis
    using read_block [OF r q] unfolding assms(6) by (simp add: f image_block_def frame_byte_def)
qed

definition disk_sample :: "uint8 \<Rightarrow> kernel" where
  "disk_sample flags = (sample_kernel [] None (replicate 512 (sample_proc 20 PROC_STATE_SLEEPING)))
     \<lparr>machine := power_on [] (replicate 4096 7),
      buffer_cache := [\<lparr>buf_flags = flags, buf_drive = 1, buf_refcount = 1, buf_block_number = 0, buf_next = 0,
        buf_prev = 0, buf_queue = None, buf_frame = 50\<rparr>],
      disk_queue := \<lparr>dq_head = Some 0, dq_tail = Some 0, dq_sector = 0\<rparr>\<rparr>"

lemma disk_sample_facts:
  "head_buffer (disk_sample flags) 0" "dirty (disk_sample flags) 0 \<longleftrightarrow> flags AND 4 \<noteq> 0"
  "dq_sector (disk_queue (disk_sample flags)) = 0" "disk_file (disk (machine (disk_sample flags))) = replicate 4096 7"
  "buffer_cache (disk_sample flags) ! 0 = \<lparr>buf_flags = flags, buf_drive = 1, buf_refcount = 1,
     buf_block_number = 0, buf_next = 0, buf_prev = 0, buf_queue = None, buf_frame = 50\<rparr>"
proof -
  have "mmu (power_on [] (replicate 4096 7)) = mmu (power_on [] [])" by (simp add: power_on_def)
  then have "kmap (disk_sample flags)" using sample_procs_kmap by (simp add: disk_sample_def kmap_def)
  moreover have "sleepers_ok (disk_sample flags)" by (simp add: disk_sample_def sleepers_ok_def pcb_ok_def)
  moreover have "length (disk_buffer (disk (power_on [] (replicate 4096 7)))) = 512"
    using power_on_wf [of "[]" "replicate 4096 7"] by (simp add: machine_wf_def)
  ultimately show "head_buffer (disk_sample flags) 0" by (simp add: head_buffer_def disk_sample_def)
  show "disk_file (disk (machine (disk_sample flags))) = replicate 4096 7"
    by (simp add: disk_sample_def power_on_def Disk_create_def)
qed (simp_all add: disk_sample_def dirty_def)

theorem block_read_witness:
  "frame_byte ((disk_round ^^ 8) (disk_start_operation (disk_sample 1))) 50 100 = 7"
proof -
  note f = disk_sample_facts
  have "\<not> dirty (disk_sample 1) 0" by (simp add: f)
  from block_read [OF f(1) this f(3) _ _ refl] show ?thesis by (simp add: f)
qed

text \<open>
  C12: the disk driver and the disk controller together write a block. When the buffer at the head of the
  queue is dirty and its transfer is started, after eight rounds the image holds the 4096 bytes of the
  buffer's frame as the buffer's block and is otherwise unchanged, memory is unchanged, the buffer is valid
  and clean and has left the queue, and every process that sleeps on it is ready.
\<close>

theorem block_write:
  assumes "head_buffer k b" and "dirty k b" and "dq_sector (disk_queue k) = 0"
    and "buf_queue (buffer_cache k ! b) = None"
    and "unat (buf_block_number (buffer_cache k ! b)) * 4096 + 4096 \<le> length (disk_file (disk (machine k)))"
    and "k' = (disk_round ^^ 8) (disk_start_operation k)"
  shows "(\<forall>i < length (disk_file (disk (machine k))). disk_file (disk (machine k')) ! i =
      (if unat (buf_block_number (buffer_cache k ! b)) = i div 4096
       then frame_byte k (buf_frame (buffer_cache k ! b)) (i mod 4096) else disk_file (disk (machine k)) ! i)) \<and>
    length (disk_file (disk (machine k'))) = length (disk_file (disk (machine k))) \<and>
    ram (machine k') = ram (machine k) \<and>
    bit (buf_flags (buffer_cache k' ! b)) 1 \<and> \<not> bit (buf_flags (buffer_cache k' ! b)) 2 \<and>
    dq_head (disk_queue k') = None \<and>
    (\<forall>p < MAX_PROC_COUNT. sleeps_on k (buffer_addr (sym k) b) p \<longrightarrow>
       proc_state (proc_table k' ! p) = PROC_STATE_READY)"
proof -
  note f = start_frame [OF assms(1)]
  let ?s = "disk_start_operation k" and ?n = "unat (buf_block_number (buffer_cache k ! b))"
  let ?file = "disk_file (disk (machine k))"
  have r: "writing ?s b" by (rule start_writing [OF assms(1,2,5)])
  have q: "dq_sector (disk_queue ?s) = 0" "buf_queue (buffer_cache ?s ! b) = None"
    using assms(3,4) by (simp_all add: f)
  note w = write_block [OF r q, folded assms(6)]
  define bytes where "bytes = map (frame_byte k (buf_frame (buffer_cache k ! b))) [0..<4096]"
  have "frame_byte ?s = frame_byte k" by (simp add: frame_byte_def f fun_eq_iff)
  then have w1: "disk_file (disk (machine k')) = file_write (?n * 4096) bytes ?file"
    using w(1) by (simp add: f bytes_def)
  have b: "length bytes = 4096" "j < 4096 \<Longrightarrow> bytes ! j = frame_byte k (buf_frame (buffer_cache k ! b)) j" for j
    by (simp_all add: bytes_def)
  have "file_write (?n * 4096) bytes ?file ! i =
      (if ?n = i div 4096 then frame_byte k (buf_frame (buffer_cache k ! b)) (i mod 4096) else ?file ! i)"
    if i: "i < length ?file" for i
  proof -
    have c: "?n * 4096 \<le> i \<and> i < ?n * 4096 + 4096 \<longleftrightarrow> ?n = i div 4096" by (auto simp: div_nat_eqI)
    have "i - ?n * 4096 = i mod 4096" if "?n = i div 4096" by (simp add: that minus_div_mult_eq_mod)
    then show ?thesis using file_write_nth [OF i, of "?n * 4096" bytes] b c by auto
  qed
  moreover have "length (file_write (?n * 4096) bytes ?file) = length ?file"
    using assms(5) b(1) by (simp add: file_write_length)
  moreover have "sleeps_on ?s (buffer_addr (sym ?s) b) p" if "sleeps_on k (buffer_addr (sym k) b) p" for p
    using that by (simp add: sleeps_on_def pcb_word_def pcb_byte_def frame_byte_def f)
  ultimately show ?thesis using w(2-5) unfolding w1 by (simp add: f)
qed

theorem block_write_witness:
  "disk_file (disk (machine ((disk_round ^^ 8) (disk_start_operation (disk_sample 5))))) ! 100 = 0"
proof -
  note f = disk_sample_facts
  have "dirty (disk_sample 5) 0" by (simp add: f)
  moreover have "frame_byte (disk_sample 5) 50 100 = 0"
    by (simp add: frame_byte_def disk_sample_def power_on_def RAM_create_def)
  ultimately show ?thesis using block_write [OF f(1) _ f(3) _ _ refl, of 5] by (simp add: f)
qed

section \<open>The heap\<close>

text \<open>
  C28: \<^verbatim>\<open>sys_sbrk\<close> with a positive increment that stays within the address space and finds enough free frames
  returns the old top, sets the new one, and maps every address between them; segments outside the range
  and those already mapped keep their frames, the new frames are the next ones of the pool and
  leave it, no frame has two owners afterwards, and the memory invariant is kept.
\<close>

theorem sbrk_grows:
  assumes "memory_inv k" and "current_process k = Some p" and "pcb_ok k p"
    and "pt = pcb_bytes k p off_page_table 16" and "t = pcb_word k p off_top" and "inc = pcb_word k p off_ctx_a"
    and "0 < sint inc" and "unat t + unat inc < 65536" and "owned_once pt (free_list k)"
    and "m = missing (top_segment t) (top_segment (t + inc)) pt"
    and "m \<le> length (free_list k)" and "FRAME_UNUSED \<notin> set (take m (free_list k))"
    and "sys_sbrk k = (r, k')" and "pt' = pcb_bytes k' p off_page_table 16"
  shows "r = t \<and> pcb_word k' p off_top = t + inc \<and>
    (\<forall>va. unat t \<le> unat va \<and> unat va < unat t + unat inc \<longrightarrow> user_mapped pt' va) \<and>
    (\<forall>i < 16. pt ! i \<noteq> FRAME_UNUSED \<or> i < top_segment t \<or> top_segment (t + inc) < i \<longrightarrow> pt' ! i = pt ! i) \<and>
    (\<forall>i < 16. pt ! i = FRAME_UNUSED \<and> top_segment t \<le> i \<and> i \<le> top_segment (t + inc) \<longrightarrow>
       pt' ! i \<in> set (take m (free_list k))) \<and>
    free_list k' = drop m (free_list k) \<and> owned_once pt' (free_list k') \<and> memory_inv k'"
proof -
  obtain pt1 k1 where g: "grown (top_segment t) (top_segment (t + inc)) pt k pt1 k1"
    "sys_sbrk k = (t, pcb_write p off_top [lo_byte (t + inc), hi_byte (t + inc)] (pcb_write p off_page_table pt1 k1))"
    using sbrk_grow_call [OF assms(1-7) assms(9-12)] by blast
  have l: "length pt1 = 16" using g(1) by (simp add: grown_def)
  have k': "k' = pcb_write p off_top [lo_byte (t + inc), hi_byte (t + inc)] (pcb_write p off_page_table pt1 k1)"
    and r: "r = t" using assms(13) unfolding g(2) by auto
  have c: "pt' = pt1" "pcb_word k' p off_top = t + inc" using sbrk_committed [OF l k'] assms(14) by simp_all
  have f: "free_list k' = free_list k1" "memory_inv k' = memory_inv k1" by (simp_all add: k')
  have n: "pt' ! i \<in> set (take m (free_list k))"
    if "i < 16" "pt ! i = FRAME_UNUSED" "top_segment t \<le> i" "i \<le> top_segment (t + inc)" for i
    unfolding c(1) assms(10) by (rule grown_from_pool [OF g(1) _ that]) (simp add: assms(4) pcb_bytes_def)
  show ?thesis
    using g(1) r c n grown_heap_mapped [OF g(1) assms(8)] unfolding f by (auto simp: grown_def assms(10))
qed

definition sbrk_sample :: "uint8 \<Rightarrow> uint8 \<Rightarrow> kernel" where
  "sbrk_sample lo hi = pcb_write 5 off_top [0, 0x10] (pcb_write 5 off_ctx_a [lo, hi]
     (pcb_write 5 off_page_table (40 # replicate 15 0xff)
       (sample_kernel [30, 31, 32] (Some 5) (replicate 512 (sample_proc 20 PROC_STATE_RUNING)))))"

lemma sbrk_sample_facts:
  "memory_inv (sbrk_sample lo hi)" "current_process (sbrk_sample lo hi) = Some 5" "pcb_ok (sbrk_sample lo hi) 5"
  "pcb_word (sbrk_sample lo hi) 5 off_top = 0x1000" "pcb_word (sbrk_sample lo hi) 5 off_ctx_a = mk_word hi lo"
  "pcb_bytes (sbrk_sample lo hi) 5 off_page_table 16 = 40 # replicate 15 0xff"
  "free_list (sbrk_sample lo hi) = [30, 31, 32]" "kmap (sbrk_sample lo hi)"
proof -
  let ?k = "sample_kernel [30, 31, 32] (Some 5) (replicate 512 (sample_proc 20 PROC_STATE_RUNING))"
  have k: "kmap ?k" by (rule sample_kmap) (auto simp: sample_proc_def)
  moreover have "kalloc_inv ?k" by (rule sample_kalloc_inv) (auto simp: word_le_nat_alt)
  ultimately show "memory_inv (sbrk_sample lo hi)" by (simp add: sbrk_sample_def memory_inv_def [of ?k])
  show "current_process (sbrk_sample lo hi) = Some 5" "pcb_ok (sbrk_sample lo hi) 5"
    "free_list (sbrk_sample lo hi) = [30, 31, 32]" "kmap (sbrk_sample lo hi)"
    using k by (simp_all add: sbrk_sample_def pcb_ok_def sample_free_list)
  show "pcb_word (sbrk_sample lo hi) 5 off_top = 0x1000" by (simp add: sbrk_sample_def pcb_word_def mk_word_def)
  show "pcb_word (sbrk_sample lo hi) 5 off_ctx_a = mk_word hi lo" by (simp add: sbrk_sample_def pcb_word_def)
  show "pcb_bytes (sbrk_sample lo hi) 5 off_page_table 16 = 40 # replicate 15 0xff"
    by (rule nth_equalityI) (auto simp: sbrk_sample_def pcb_bytes_def nth_Cons')
qed

theorem sbrk_grows_witness: "fst (sys_sbrk (sbrk_sample 0x20 0)) = 0x1000"
proof -
  note f = sbrk_sample_facts [of "0x20" 0]
  obtain r k' where s: "sys_sbrk (sbrk_sample 0x20 0) = (r, k')" by fastforce
  have m: "missing (top_segment 0x1000) (top_segment (0x1000 + mk_word 0 0x20)) (40 # replicate 15 0xff) = 1"
    by (simp add: top_segment_unat mk_word_def missing_def)
  have "owned_once (40 # replicate 15 0xff) [30, 31, 32]"
    using user_sample_distinct by (auto simp: owned_once_def)
  then show ?thesis
    using sbrk_grows [OF f(1,2,3) refl refl refl _ _ _ refl _ _ s refl] s m unfolding f by (simp add: mk_word_def)
qed

text \<open>
  C38: \<^verbatim>\<open>sys_sbrk\<close> does not refuse a decrement below zero. The sum of the top and the increment is taken in 16 bits
  before it is compared with the limits, so the comparison never fails: the call returns the old top as for
  a success, keeps the page table and moves the top of the process to the wrapped sum, above the
  memory the process has.
\<close>

theorem sbrk_below_zero:
  assumes "kmap k" and "current_process k = Some p" and "pcb_ok k p"
    and "t = pcb_word k p off_top" and "inc = pcb_word k p off_ctx_a" and "int (unat t) + sint inc < 0"
    and "sys_sbrk k = (r, k')"
  shows "r = t \<and> int (unat (pcb_word k' p off_top)) = 65536 + int (unat t) + sint inc \<and>
    pcb_bytes k' p off_page_table 16 = pcb_bytes k p off_page_table 16 \<and>
    unat t < unat (pcb_word k' p off_top)"
proof -
  let ?pt = "pcb_bytes k p off_page_table 16"
  have n: "sint inc < 0" using assms(6) by linarith
  have lo: "- 32768 \<le> sint inc" using sint_greater_eq [of inc] by simp
  have "t + inc = of_int (int (unat t) + sint inc)" by simp
  then have s: "t + inc = of_int (65536 + int (unat t) + sint inc)"
    by (simp add: word_of_int_eq_iff)
  have "0 \<le> 65536 + int (unat t) + sint inc" "65536 + int (unat t) + sint inc < 65536"
    using lo assms(6) by linarith+
  then have "uint (of_int (65536 + int (unat t) + sint inc) :: uint16) = 65536 + int (unat t) + sint inc"
    by (simp only: unsigned_of_int) (simp add: take_bit_int_eq_self)
  then have "uint (t + inc) = 65536 + int (unat t) + sint inc" by (simp only: s)
  then have w: "int (unat (t + inc)) = 65536 + int (unat t) + sint inc" by simp
  then have gt: "unat t < unat (t + inc)" using lo by linarith
  then have "top_segment t \<le> top_segment (t + inc)" unfolding top_segment_unat by (intro div_le_mono) simp
  then have "sys_sbrk k = (t, sbrk_commit ?pt (t + inc) k)"
    using n assms(4,5) unfolding sbrk_reads [OF assms(1-3)] Let_def by (simp add: sbrk_shrink_none)
  then have r: "r = t" and k': "k' = pcb_write p off_top [lo_byte (t + inc), hi_byte (t + inc)] (pcb_write p off_page_table ?pt k)"
    using assms(7) sbrk_commit_effect [OF assms(1-3) pcb_limits(3) [OF assms(1,3)]] by auto
  then show ?thesis
    using w gt sbrk_committed [OF pcb_limits(3) [OF assms(1,3)] k'] by simp
qed

theorem sbrk_below_zero_witness: "fst (sys_sbrk (sbrk_sample 0 0xE0)) = 0x1000"
proof -
  note f = sbrk_sample_facts [of 0 "0xE0"]
  obtain r k' where s: "sys_sbrk (sbrk_sample 0 0xE0) = (r, k')" by fastforce
  have "sint (mk_word 0xE0 0) = - 8192" by (simp add: mk_word_def)
  then show ?thesis using sbrk_below_zero [OF f(8,2,3) refl refl _ s] s unfolding f by simp
qed

end
