(* ===== verification/Kernel_Console.thy ===== *)
theory Kernel_Console
  imports Kernel_Serial Kernel_Syscalls
begin

text \<open>
  The console driver (\<^verbatim>\<open>console.c\<close>), the file system calls that dispatch to a driver (\<^verbatim>\<open>file.c\<close>) and the
  unimplemented drivers, whose operations all panic (\<^verbatim>\<open>fs.c\<close>, \<^verbatim>\<open>pipe.c\<close>). An open file is an index into the
  global table; control blocks store its address.
\<close>

section \<open>Console\<close>

definition console_init :: "kernel \<Rightarrow> kernel" where
  "console_init k =
     (let k1 = k\<lparr>devsw_table := (devsw_table k)[DEVICE_MAJOR_CONSOLE := Some console_ops]\<rparr>
      in k1\<lparr>global_file_table := (global_file_table k1)[0 := (global_file_table k1 ! 0)
           \<lparr>file_offset := 0, file_inode := 0, file_readable := 1, file_writable := 1,
            file_fops := devsw_table k1 ! DEVICE_MAJOR_CONSOLE\<rparr>]\<rparr>)"

text \<open>
  The line editor: \<open>buffer\<close> holds the bytes read so far, and the result is the line. The loop ends with a line
  end or a full buffer; it need not end.
\<close>

definition console_echo :: "int \<Rightarrow> uint8 list \<Rightarrow> unit io" where
  "console_echo c buffer =
     (if c = 0x08 \<or> c = 0x7f
      then if buffer \<noteq> []
           then io_then (uart_putc_sync 0x08) (io_then (uart_putc_sync 0x20) (uart_putc_sync 0x08))
           else io_return ()
      else if c = 0x0D \<or> c = 0x0A then io_then (uart_putc_sync 0x0D) (uart_putc_sync 0x0A)
      else uart_putc_sync (of_int c))"

definition console_edit :: "int \<Rightarrow> uint8 list \<Rightarrow> uint8 list" where
  "console_edit c buffer =
     (if c = 0x08 \<or> c = 0x7f then butlast buffer
      else if c = 0x0D \<or> c = 0x0A then buffer @ [0x0A]
      else buffer @ [of_int c])"

partial_function (option) console_read_loop ::
  "nat \<Rightarrow> uint8 list \<Rightarrow> waits \<Rightarrow> kernel \<Rightarrow> (uint8 list \<times> waits \<times> kernel) kresult option" where
  "console_read_loop max_read buffer ws k =
     (if length buffer < max_read
      then io_then (io_do INTER_OFF) (io_bind (io_run uart_getc) (\<lambda>c.
             if c = - 1
             then io_then (io_wait (\<lambda>w k. sleep (ring_buffer_addr (sym k)) w k))
                    (io_then (io_do INTER_ON) (console_read_loop max_read buffer))
             else
               io_then (io_do INTER_ON) (io_then (console_echo c buffer)
                 (if c = 0x0D \<or> c = 0x0A then io_return (console_edit c buffer)
                  else console_read_loop max_read (console_edit c buffer))))) ws k
      else Some (Inr (buffer, ws, k)))"

definition console_read :: "uint16 \<Rightarrow> uint16 \<Rightarrow> uint16 io" where
  "console_read user_dst n =
     io_bind (console_read_loop (if n < 128 then unat n else 128) []) (\<lambda>buffer.
     io_bind (io_run (\<lambda>k. copy_to_user buffer user_dst (of_nat (length buffer)) (cur k) k)) (\<lambda>r.
       if r < 0 then io_return 0xFFFF else io_return (of_nat (length buffer))))"

definition put_char :: "uint8 \<Rightarrow> unit io" where
  "put_char c = (if c = 0x0A then io_then (uart_putc 0x0D) (uart_putc c) else uart_putc c)"

definition write_chunk :: "uint16 \<Rightarrow> uint16 \<Rightarrow> uint16" where
  "write_chunk n total_written = (if n - total_written < 128 then n - total_written else 128)"

lemma write_chunk_progress:
  assumes "total_written < n"
  shows "unat n - unat (total_written + write_chunk n total_written) < unat n - unat total_written"
proof -
  let ?d = "n - total_written"
  have d: "unat ?d = unat n - unat total_written" "0 < unat ?d"
    using assms by (simp_all add: unat_sub word_less_nat_alt word_le_nat_alt)
  have c: "unat (write_chunk n total_written) \<le> unat ?d" "0 < unat (write_chunk n total_written)"
    using d(2) by (auto simp: write_chunk_def word_less_nat_alt)
  have "unat (total_written + write_chunk n total_written) = unat total_written + unat (write_chunk n total_written)"
    using c(1) d unsigned_less [of n, where ?'a = nat] by (simp add: unat_word_ariths)
  then show ?thesis using c d by linarith
qed

function console_write_loop :: "uint16 \<Rightarrow> uint16 \<Rightarrow> uint16 \<Rightarrow> uint16 io" where
  "console_write_loop n total_written user_ptr =
     (if total_written < n
      then let chunk = write_chunk n total_written
           in io_bind (io_run (\<lambda>k. let (r, bytes, k1) = copy_from_user user_ptr chunk (cur k) k in ((r, bytes), k1)))
                (\<lambda>(r, bytes).
                   if r < 0
                   then io_return (if total_written = 0 then 0xFFFF else total_written)
                   else io_then (io_for bytes put_char)
                          (console_write_loop n (total_written + chunk) (user_ptr + chunk)))
      else io_return total_written)"
  by pat_completeness auto
termination
  by (relation "measure (\<lambda>(n, total_written, user_ptr). unat n - unat total_written)")
     (simp_all add: write_chunk_progress)

declare console_write_loop.simps [simp del]

definition console_write :: "uint16 \<Rightarrow> uint16 \<Rightarrow> uint16 io" where
  "console_write user_src n = console_write_loop n 0 user_src"

definition console_open :: "uint16 io" where
  "console_open = io_panic ''console_open''"

definition console_close :: "uint16 io" where
  "console_close = io_panic ''console_close''"

definition console_ioctl :: "uint16 io" where
  "console_ioctl = io_panic ''console_ioctl''"

section \<open>Drivers that are not there yet\<close>

definition pipe_init :: "kernel \<Rightarrow> kernel" where
  "pipe_init k = k\<lparr>devsw_table := (devsw_table k)[DEVICE_MAJOR_PIPE := Some pipe_ops]\<rparr>"

definition pipe_open :: "uint16 io" where "pipe_open = io_panic ''pipe_open''"
definition pipe_close :: "uint16 io" where "pipe_close = io_panic ''pipe_close''"
definition pipe_read :: "uint16 \<Rightarrow> uint16 \<Rightarrow> uint16 io" where "pipe_read buffer n = io_panic ''pipe_read''"
definition pipe_write :: "uint16 \<Rightarrow> uint16 \<Rightarrow> uint16 io" where "pipe_write buffer n = io_panic ''pipe_write''"
definition pipe_ioctl :: "uint16 io" where "pipe_ioctl = io_panic ''pipe_ioctl''"
definition fs_open :: "uint16 io" where "fs_open = io_panic ''fs_open''"
definition fs_close :: "uint16 io" where "fs_close = io_panic ''fs_close''"
definition fs_read :: "uint16 \<Rightarrow> uint16 \<Rightarrow> uint16 io" where "fs_read buffer n = io_panic ''fs_read''"
definition fs_write :: "uint16 \<Rightarrow> uint16 \<Rightarrow> uint16 io" where "fs_write buffer n = io_panic ''fs_write''"
definition fs_ioctl :: "uint16 io" where "fs_ioctl = io_panic ''fs_ioctl''"

section \<open>File system calls\<close>

definition file_init :: "kernel \<Rightarrow> kernel" where
  "file_init k = k"

definition fops_read :: "File_Operations \<Rightarrow> uint16 \<Rightarrow> uint16 \<Rightarrow> uint16 io" where
  "fops_read ops = (case ops of console_ops \<Rightarrow> console_read | fs_ops \<Rightarrow> fs_read | pipe_ops \<Rightarrow> pipe_read)"

definition fops_write :: "File_Operations \<Rightarrow> uint16 \<Rightarrow> uint16 \<Rightarrow> uint16 io" where
  "fops_write ops = (case ops of console_ops \<Rightarrow> console_write | fs_ops \<Rightarrow> fs_write | pipe_ops \<Rightarrow> pipe_write)"

text \<open>
  The members of the read and write arguments: a signed file descriptor, a user address and a size. The
  descriptor is checked against the 16 entries of the table of the process.
\<close>

definition argument_16 :: "uint8 list \<Rightarrow> nat \<Rightarrow> uint16" where
  "argument_16 bs i = mk_word (bs ! Suc i) (bs ! i)"

definition fd_ok :: "uint16 \<Rightarrow> bool" where
  "fd_ok fd \<longleftrightarrow> \<not> (sint fd < 0 \<or> sint fd \<ge> MAX_FILES_PER_PROC)"

definition proc_get_file :: "nat \<Rightarrow> uint16 \<Rightarrow> kernel \<Rightarrow> uint16 \<times> kernel" where
  "proc_get_file p fd k = (if fd_ok fd then proc_get_16 p (off_open_files + unat fd * 2) k else (0, k))"

text \<open>A pointer to a file that is not an element of the table, or a file without operations, is undefined.\<close>

definition file_at :: "uint16 \<Rightarrow> kernel \<Rightarrow> nat option" where
  "file_at ptr k = find (\<lambda>i. file_addr (sym k) i = ptr) [0..<MAX_GLOBAL_OPEN_FILES]"

definition with_file :: "uint16 \<Rightarrow> (File \<Rightarrow> uint16 io) \<Rightarrow> uint16 io" where
  "with_file ptr f =
     io_bind (io_get (file_at ptr)) (\<lambda>i.
       case i of
         None \<Rightarrow> (\<lambda>ws k. Some (Inl (Undefined ''file pointer'')))
       | Some j \<Rightarrow> io_bind (io_get (\<lambda>k. global_file_table k ! j)) f)"

definition call_fops :: "(File_Operations \<Rightarrow> uint16 io) \<Rightarrow> File \<Rightarrow> uint16 io" where
  "call_fops f file =
     (case file_fops file of None \<Rightarrow> (\<lambda>ws k. Some (Inl (Undefined ''fops''))) | Some ops \<Rightarrow> f ops)"

definition sys_read :: "uint16 io" where
  "sys_read =
     io_bind (io_run (\<lambda>k. let (ok, arg, k1) = syscall_populate_argument k in ((ok, arg), k1))) (\<lambda>(ok, arg).
       if \<not> ok then io_return 0xFFFF
       else if \<not> fd_ok (argument_16 arg 0) then io_return 0xFFFF
       else
         io_bind (io_run (\<lambda>k. proc_get_file (cur k) (argument_16 arg 0) k)) (\<lambda>ptr.
           if ptr = 0 then io_return 0xFFFF
           else
             with_file ptr (\<lambda>file.
               if file_readable file = 0 then io_return 0xFFFF
               else call_fops (\<lambda>ops. fops_read ops (argument_16 arg 2) (argument_16 arg 4)) file)))"

definition sys_write :: "uint16 io" where
  "sys_write =
     io_bind (io_run (\<lambda>k. let (ok, arg, k1) = syscall_populate_argument k in ((ok, arg), k1))) (\<lambda>(ok, arg).
       if \<not> ok then io_return 0xFFFF
       else if \<not> fd_ok (argument_16 arg 0) then io_return 0xFFFF
       else
         io_bind (io_run (\<lambda>k. proc_get_file (cur k) (argument_16 arg 0) k)) (\<lambda>ptr.
           if ptr = 0 then io_return 0xFFFF
           else
             with_file ptr (\<lambda>file.
               if file_writable file = 0 then io_return 0xFFFF
               else call_fops (\<lambda>ops. fops_write ops (argument_16 arg 2) (argument_16 arg 4)) file)))"

definition sys_close :: "uint16 io" where "sys_close = io_panic ''sys_close''"
definition sys_open :: "uint16 io" where "sys_open = io_panic ''sys_open''"
definition sys_ioctl :: "uint16 io" where "sys_ioctl = io_panic ''sys_ioctl''"
definition sys_fstat :: "uint16 io" where "sys_fstat = io_panic ''sys_stat''"
definition sys_fseek :: "uint16 io" where "sys_fseek = io_panic ''sys_fseek''"

end
