(* ===== verification/Kernel_Buffer.thy ===== *)
theory Kernel_Buffer
  imports Kernel_Block Kernel_Print
begin

text \<open>
  The block cache (\<^verbatim>\<open>buffer.c\<close>): sixteen buffers in a circular doubly linked list, most recently released
  first, whose head is the element \<open>CACHE_SIZE\<close> of the array. The lemmas read the list off the links and
  show what the operations do to it.
\<close>

section \<open>Finding a buffer\<close>

text \<open>The two searches of \<^verbatim>\<open>buffer_get\<close>; on a broken list they need not end.\<close>

abbreviation holds :: "uint8 \<Rightarrow> uint16 \<Rightarrow> Block_Buffer \<Rightarrow> bool" where
  "holds drive block_number x \<equiv> buf_block_number x = block_number \<and> buf_drive x = drive"

abbreviation busy :: "Block_Buffer \<Rightarrow> bool" where
  "busy x \<equiv> buf_flags x AND BUFFER_FLAGS_BUSY \<noteq> 0"

abbreviation idle :: "Block_Buffer \<Rightarrow> bool" where
  "idle x \<equiv> buf_refcount x = 0 \<and> buf_flags x AND BUFFER_FLAGS_BUSY = 0"

partial_function (option) search_next ::
  "(Block_Buffer \<Rightarrow> bool) \<Rightarrow> Block_Buffer list \<Rightarrow> nat \<Rightarrow> nat option option" where
  "search_next P cache b =
     (if b = CACHE_SIZE then Some None
      else if P (cache ! b) then Some (Some b)
      else search_next P cache (buf_next (cache ! b)))"

partial_function (option) search_prev ::
  "(Block_Buffer \<Rightarrow> bool) \<Rightarrow> Block_Buffer list \<Rightarrow> nat \<Rightarrow> nat option option" where
  "search_prev P cache b =
     (if b = CACHE_SIZE then Some None
      else if P (cache ! b) then Some (Some b)
      else search_prev P cache (buf_prev (cache ! b)))"

definition lock_hit :: "nat \<Rightarrow> kernel \<Rightarrow> kernel" where
  "lock_hit b k =
     upd_buffer b (\<lambda>x. x\<lparr>buf_flags := buf_flags x OR BUFFER_FLAGS_BUSY, buf_refcount := buf_refcount x + 1\<rparr>) k"

definition recycle :: "uint8 \<Rightarrow> uint16 \<Rightarrow> nat \<Rightarrow> kernel \<Rightarrow> kernel" where
  "recycle drive block_number b k =
     upd_buffer b (\<lambda>x. x\<lparr>buf_drive := drive, buf_block_number := block_number, buf_refcount := 1,
       buf_flags := BUFFER_FLAGS_BUSY\<rparr>) k"

definition buffer_recycle :: "uint8 \<Rightarrow> uint16 \<Rightarrow> nat io" where
  "buffer_recycle drive block_number ws k =
     Option.bind (search_prev idle (buffer_cache k) (buf_prev (buffer_cache k ! CACHE_SIZE))) (\<lambda>victim.
       case victim of
         Some b \<Rightarrow> Some (Inr (b, ws, INTER_ON (recycle drive block_number b k)))
       | None \<Rightarrow> Some (Inl (Panic ''full cache'')))"

fun buffer_get :: "uint8 \<Rightarrow> uint16 \<Rightarrow> nat io" where
  "buffer_get drive block_number ws k0 =
     (let k = INTER_OFF k0
      in case search_next (holds drive block_number) (buffer_cache k) (buf_next (buffer_cache k ! CACHE_SIZE)) of
           None \<Rightarrow> None
         | Some None \<Rightarrow> buffer_recycle drive block_number ws k
         | Some (Some b) \<Rightarrow>
             if busy (buffer_cache k ! b)
             then (case ws of
                     [] \<Rightarrow> None
                   | w # ws1 \<Rightarrow>
                       buffer_get drive block_number ws1 (INTER_ON (sleep (buffer_addr (sym k) b) w k)))
             else Some (Inr (b, ws, INTER_ON (lock_hit b k))))"

declare buffer_get.simps [simp del]

section \<open>Reading, writing and releasing\<close>

definition buffer_read :: "uint8 \<Rightarrow> uint16 \<Rightarrow> nat io" where
  "buffer_read drive block_number =
     io_bind (buffer_get drive block_number) (\<lambda>b.
     io_bind (io_get (\<lambda>k. buf_flags (buffer_cache k ! b))) (\<lambda>flags.
       if flags AND BUFFER_FLAGS_VALID = 0
       then io_then (io_wait (disk_block_read b))
              (io_then (io_do (upd_buffer b (\<lambda>x. x\<lparr>buf_flags := buf_flags x OR BUFFER_FLAGS_VALID\<rparr>)))
                (io_return b))
       else io_return b))"

definition buffer_write :: "nat \<Rightarrow> unit io" where
  "buffer_write b =
     io_bind (io_get (\<lambda>k. buf_flags (buffer_cache k ! b))) (\<lambda>flags.
       if flags AND BUFFER_FLAGS_BUSY = 0 then io_panic ''buffer_write''
       else io_wait (disk_block_write b))"

definition list_unlink :: "nat \<Rightarrow> Block_Buffer list \<Rightarrow> Block_Buffer list" where
  "list_unlink b c =
     (let n = buf_next (c ! b);
          c1 = c[n := (c ! n)\<lparr>buf_prev := buf_prev (c ! b)\<rparr>];
          p = buf_prev (c1 ! b)
      in c1[p := (c1 ! p)\<lparr>buf_next := buf_next (c1 ! b)\<rparr>])"

definition list_push :: "nat \<Rightarrow> Block_Buffer list \<Rightarrow> Block_Buffer list" where
  "list_push b c =
     (let c1 = c[b := (c ! b)\<lparr>buf_next := buf_next (c ! CACHE_SIZE), buf_prev := CACHE_SIZE\<rparr>];
          n = buf_next (c1 ! CACHE_SIZE);
          c2 = c1[n := (c1 ! n)\<lparr>buf_prev := b\<rparr>]
      in c2[CACHE_SIZE := (c2 ! CACHE_SIZE)\<lparr>buf_next := b\<rparr>])"

definition unlock :: "nat \<Rightarrow> kernel \<Rightarrow> kernel" where
  "unlock b k =
     upd_buffer b (\<lambda>x. x\<lparr>buf_flags := buf_flags x AND NOT BUFFER_FLAGS_BUSY, buf_refcount := buf_refcount x - 1\<rparr>) k"

definition buffer_release :: "nat \<Rightarrow> kernel \<Rightarrow> kernel kresult" where
  "buffer_release b k =
     (if buf_flags (buffer_cache k ! b) AND BUFFER_FLAGS_BUSY = 0 then Inl (Panic ''buffer_release'')
      else
        (let k1 = wakeup (buffer_addr (sym k) b) (INTER_OFF k);
             k2 = unlock b k1;
             k3 = (if buf_refcount (buffer_cache k2 ! b) = 0
                   then k2\<lparr>buffer_cache := list_push b (list_unlink b (buffer_cache k2))\<rparr> else k2)
         in Inr (INTER_ON k3)))"

section \<open>Initialisation\<close>

fun buffer_init_loop :: "nat list \<Rightarrow> kernel \<Rightarrow> kernel kresult" where
  "buffer_init_loop [] k = Inr k"
| "buffer_init_loop (b # bs) k =
     (let k1 = k\<lparr>buffer_cache := list_push b (buffer_cache k)\<rparr>;
          (frame, k2) = kalloc k1;
          k3 = upd_buffer b (\<lambda>x. x\<lparr>buf_frame := frame\<rparr>) k2
      in if frame = FRAME_UNUSED then Inl (Panic ''buffer_init'') else buffer_init_loop bs k3)"

definition buffer_init :: "kernel \<Rightarrow> kernel kresult" where
  "buffer_init k =
     buffer_init_loop [0..<CACHE_SIZE]
       (upd_buffer CACHE_SIZE (\<lambda>x. x\<lparr>buf_prev := CACHE_SIZE, buf_next := CACHE_SIZE\<rparr>) k)"

section \<open>The list behind the links\<close>

fun chain :: "Block_Buffer list \<Rightarrow> nat list \<Rightarrow> bool" where
  "chain c (x # y # zs) \<longleftrightarrow> buf_next (c ! x) = y \<and> buf_prev (c ! y) = x \<and> chain c (y # zs)"
| "chain c zs \<longleftrightarrow> True"

lemma chain_join:
  "xs \<noteq> [] \<Longrightarrow> ys \<noteq> [] \<Longrightarrow> chain c (xs @ ys) \<longleftrightarrow>
     chain c xs \<and> buf_next (c ! last xs) = hd ys \<and> buf_prev (c ! hd ys) = last xs \<and> chain c ys"
proof (induction xs rule: induct_list012)
  case (2 x)
  then show ?case by (cases ys) auto
qed auto

lemma chain_cong:
  "\<forall>x \<in> set (butlast xs). buf_next (c' ! x) = buf_next (c ! x) \<Longrightarrow>
   \<forall>x \<in> set (tl xs). buf_prev (c' ! x) = buf_prev (c ! x) \<Longrightarrow> chain c' xs = chain c xs"
proof (induction xs rule: induct_list012)
  case (3 x y zs)
  have "set (tl (y # zs)) \<subseteq> set (tl (x # y # zs))" by auto
  then show ?case using 3 by auto
qed simp_all

definition lru :: "Block_Buffer list \<Rightarrow> nat list \<Rightarrow> bool" where
  "lru c xs \<longleftrightarrow> length c = Suc CACHE_SIZE \<and> distinct xs \<and> set xs \<subseteq> {..<CACHE_SIZE} \<and>
     chain c (CACHE_SIZE # xs @ [CACHE_SIZE])"

lemma lru_cong:
  assumes "length c' = length c" and "\<And>i. i \<le> CACHE_SIZE \<Longrightarrow> buf_next (c' ! i) = buf_next (c ! i)"
    and "\<And>i. i \<le> CACHE_SIZE \<Longrightarrow> buf_prev (c' ! i) = buf_prev (c ! i)"
  shows "lru c' xs = lru c xs"
proof (cases "set xs \<subseteq> {..<CACHE_SIZE}")
  case True
  then have "chain c' (CACHE_SIZE # xs @ [CACHE_SIZE]) = chain c (CACHE_SIZE # xs @ [CACHE_SIZE])"
    by (intro chain_cong ballI) (auto intro!: assms(2,3) dest: in_set_butlastD)
  then show ?thesis by (simp add: lru_def assms(1))
qed (simp add: lru_def)

lemma lru_ends:
  assumes "lru c xs"
  shows "buf_next (c ! CACHE_SIZE) = hd (xs @ [CACHE_SIZE])" and "buf_prev (c ! CACHE_SIZE) = last (CACHE_SIZE # xs)"
    and "chain c (xs @ [CACHE_SIZE])" and "chain c (CACHE_SIZE # xs)"
  using assms chain_join [of "[CACHE_SIZE]" "xs @ [CACHE_SIZE]" c] chain_join [of "CACHE_SIZE # xs" "[CACHE_SIZE]" c]
  by (simp_all add: lru_def)

text \<open>Both searches end on such a list and find the first match in their direction.\<close>

lemma search_next_chain:
  "chain c (xs @ [CACHE_SIZE]) \<Longrightarrow> set xs \<subseteq> {..<CACHE_SIZE} \<Longrightarrow>
     search_next P c (hd (xs @ [CACHE_SIZE])) = Some (find (\<lambda>b. P (c ! b)) xs)"
proof (induction xs)
  case Nil
  show ?case by (subst search_next.simps) simp
next
  case (Cons x xs)
  have j: "buf_next (c ! x) = hd (xs @ [CACHE_SIZE])" "chain c (xs @ [CACHE_SIZE])"
    using Cons.prems(1) chain_join [of "[x]" "xs @ [CACHE_SIZE]" c] by simp_all
  have "x \<noteq> CACHE_SIZE" using Cons.prems(2) by auto
  then have "search_next P c x = (if P (c ! x) then Some (Some x) else search_next P c (hd (xs @ [CACHE_SIZE])))"
    by (subst search_next.simps) (simp add: j(1))
  then show ?case using Cons.IH [OF j(2)] Cons.prems(2) by simp
qed

lemma search_prev_chain:
  "chain c (CACHE_SIZE # xs) \<Longrightarrow> set xs \<subseteq> {..<CACHE_SIZE} \<Longrightarrow>
     search_prev P c (last (CACHE_SIZE # xs)) = Some (find (\<lambda>b. P (c ! b)) (rev xs))"
proof (induction xs rule: rev_induct)
  case Nil
  show ?case by (subst search_prev.simps) simp
next
  case (snoc x xs)
  have j: "buf_prev (c ! x) = last (CACHE_SIZE # xs)" "chain c (CACHE_SIZE # xs)"
    using snoc.prems(1) chain_join [of "CACHE_SIZE # xs" "[x]" c] by simp_all
  have "x \<noteq> CACHE_SIZE" using snoc.prems(2) by auto
  then have "search_prev P c x = (if P (c ! x) then Some (Some x) else search_prev P c (last (CACHE_SIZE # xs)))"
    by (subst search_prev.simps) (simp add: j(1))
  then show ?case using snoc.IH [OF j(2)] snoc.prems(2) by simp
qed

lemma searches:
  assumes "lru c xs"
  shows "search_next P c (buf_next (c ! CACHE_SIZE)) = Some (find (\<lambda>b. P (c ! b)) xs)"
    and "search_prev P c (buf_prev (c ! CACHE_SIZE)) = Some (find (\<lambda>b. P (c ! b)) (rev xs))"
proof -
  have "set xs \<subseteq> {..<CACHE_SIZE}" using assms by (simp add: lru_def)
  then show "search_next P c (buf_next (c ! CACHE_SIZE)) = Some (find (\<lambda>b. P (c ! b)) xs)"
    and "search_prev P c (buf_prev (c ! CACHE_SIZE)) = Some (find (\<lambda>b. P (c ! b)) (rev xs))"
    unfolding lru_ends(1,2) [OF assms]
    by (intro search_next_chain search_prev_chain lru_ends(3,4) [OF assms]; assumption)+
qed

text \<open>Moving a buffer to the front.\<close>

lemma list_push_lru:
  assumes "lru c xs" and "b < CACHE_SIZE" and "b \<notin> set xs"
  shows "lru (list_push b c) (b # xs)"
proof -
  let ?h = CACHE_SIZE and ?n = "hd (xs @ [CACHE_SIZE])"
  let ?c = "list_push b c"
  have l: "length c = Suc ?h" "distinct xs" "set xs \<subseteq> {..<?h}" using assms(1) by (simp_all add: lru_def)
  have n: "?n \<noteq> b" "?n \<le> ?h" using assms(2,3) l(3) by (cases xs; auto)+
  have nx: "buf_next (?c ! i) = (if i = b then ?n else if i = ?h then b else buf_next (c ! i))"
    and pv: "buf_prev (?c ! i) = (if i = b then ?h else if i = ?n then b else buf_prev (c ! i))" if "i \<le> ?h" for i
    using that assms(2) n l(1) lru_ends(1) [OF assms(1)]
    by (auto simp: list_push_def Let_def nth_list_update)
  have "chain ?c (xs @ [?h]) = chain c (xs @ [?h])"
  proof (intro chain_cong ballI)
    fix x assume "x \<in> set (butlast (xs @ [?h]))"
    then have "x \<in> set xs" by simp
    then show "buf_next (?c ! x) = buf_next (c ! x)" using nx [of x] l(3) assms(3) by auto
  next
    fix x assume x: "x \<in> set (tl (xs @ [?h]))"
    then have "x \<noteq> ?n" using l(2,3) by (cases xs) auto
    moreover have "x \<noteq> b" "x \<le> ?h" using x assms(2,3) l(3) by (cases xs; auto)+
    ultimately show "buf_prev (?c ! x) = buf_prev (c ! x)" using pv [of x] by simp
  qed
  moreover have "chain ?c ([?h, b] @ xs @ [?h]) \<longleftrightarrow> chain ?c (xs @ [?h])"
    using chain_join [of "[?h, b]" "xs @ [?h]" ?c] nx [of ?h] nx [of b] pv [of b] pv [of ?n] assms(2) n by simp
  moreover have "length ?c = Suc ?h" using l(1) by (simp add: list_push_def Let_def)
  ultimately show ?thesis using lru_ends(3) [OF assms(1)] assms(2,3) l by (simp add: lru_def)
qed

lemma list_unlink_lru:
  assumes "lru c (as @ b # bs)"
  shows "lru (list_unlink b c) (as @ bs)"
proof -
  let ?h = CACHE_SIZE and ?n = "hd (bs @ [CACHE_SIZE])" and ?p = "last (CACHE_SIZE # as)"
  let ?c = "list_unlink b c"
  have l: "length c = Suc ?h" "distinct (as @ b # bs)" "set (as @ b # bs) \<subseteq> {..<?h}"
    using assms by (simp_all add: lru_def)
  have ch: "chain c (?h # as)" "buf_prev (c ! b) = ?p" "buf_next (c ! b) = ?n" "chain c (bs @ [?h])"
    using assms chain_join [of "?h # as" "b # bs @ [?h]" c] chain_join [of "[b]" "bs @ [?h]" c]
    by (simp_all add: lru_def)
  have np: "?n \<noteq> b" "?n \<le> ?h" "?p \<noteq> b" "?p \<le> ?h" using l(2,3) by (cases bs; cases as rule: rev_cases; auto)+
  have nx: "buf_next (?c ! i) = (if i = ?p then ?n else buf_next (c ! i))"
    and pv: "buf_prev (?c ! i) = (if i = ?n then ?p else buf_prev (c ! i))" if "i \<le> ?h" for i
    using that np l(1) ch(2,3) by (auto simp: list_unlink_def Let_def nth_list_update)
  have "chain ?c (?h # as) = chain c (?h # as)"
  proof (intro chain_cong ballI)
    fix x assume x: "x \<in> set (butlast (?h # as))"
    then have "x \<noteq> ?p" using l(2,3) by (cases as rule: rev_cases) (auto split: if_splits)
    moreover have "x \<le> ?h" using in_set_butlastD [OF x] l(3) by auto
    ultimately show "buf_next (?c ! x) = buf_next (c ! x)" using nx [of x] by simp
  next
    fix x assume x: "x \<in> set (tl (?h # as))"
    then have "x \<noteq> ?n" using l(2,3) by (cases bs) auto
    then show "buf_prev (?c ! x) = buf_prev (c ! x)" using pv [of x] x l(3) by auto
  qed
  moreover have "chain ?c (bs @ [?h]) = chain c (bs @ [?h])"
  proof (intro chain_cong ballI)
    fix x assume x: "x \<in> set (butlast (bs @ [?h]))"
    then have "x \<noteq> ?p" using l(2,3) by (cases as rule: rev_cases) auto
    then show "buf_next (?c ! x) = buf_next (c ! x)" using nx [of x] x l(3) by auto
  next
    fix x assume x: "x \<in> set (tl (bs @ [?h]))"
    then have "x \<noteq> ?n" using l(2,3) by (cases bs) auto
    moreover have "x \<le> ?h" using x l(3) by (cases bs) auto
    ultimately show "buf_prev (?c ! x) = buf_prev (c ! x)" using pv [of x] by simp
  qed
  moreover have "chain ?c ((?h # as) @ (bs @ [?h])) \<longleftrightarrow> chain ?c (?h # as) \<and> chain ?c (bs @ [?h])"
    using chain_join [of "?h # as" "bs @ [?h]" ?c] nx [of ?p] pv [of ?n] np by simp
  moreover have "length ?c = Suc ?h" using l(1) by (simp add: list_unlink_def Let_def)
  ultimately show ?thesis using ch(1,4) l by (simp add: lru_def)
qed

section \<open>Frame conditions\<close>

lemma cache_bus [simp]:
  "buffer_cache (snd (MMIO8_read a k)) = buffer_cache k" "buffer_cache (MMIO8_write a v k) = buffer_cache k"
  "buffer_cache (INTER_ON k) = buffer_cache k" "buffer_cache (INTER_OFF k) = buffer_cache k"
  "buffer_cache (set_state p s k) = buffer_cache k" "buffer_cache (install_window w f k) = buffer_cache k"
  by (simp_all add: MMIO8_read_def MMIO8_write_def INTER_ON_def INTER_OFF_def set_state_def install_window_def
      set_low_memory_def Let_def split_beta split: option.split)

lemma cache_accessors [simp]:
  "buffer_cache (snd (proc_get_16 p off k)) = buffer_cache k" "buffer_cache (proc_set_16 p off v k) = buffer_cache k"
  by (simp_all add: proc_get_16_def proc_set_16_def MAP_PCB_def UNMAP_PCB_def map_window_def unmap_window_def
      MMIO16_read_def MMIO16_write_def Let_def split_beta)

lemma cache_wakeup [simp]: "buffer_cache (wakeup ch k) = buffer_cache k"
proof -
  have "buffer_cache (fold (wakeup_at ch) is k) = buffer_cache k" for "is"
    by (induction "is" arbitrary: k) (simp_all add: wakeup_at_def Let_def split_beta)
  then show ?thesis by (simp add: wakeup_def)
qed

lemma cache_sleep: "buffer_cache (sleep ch w k) =
    buffer_cache (w (set_state (the (current_process k)) PROC_STATE_SLEEPING
      (proc_set_16 (the (current_process k)) off_channel ch k)))"
proof -
  have "current_process (proc_set_16 p off v k) = current_process k" for p off v
    by (simp add: proc_set_16_def MAP_PCB_def UNMAP_PCB_def map_window_def unmap_window_def install_window_def
        set_low_memory_def MMIO16_write_def MMIO8_write_def Let_def split_beta split: option.split)
  then show ?thesis by (simp add: sleep_def Let_def)
qed

lemma upd_buffer_cache: "buffer_cache (upd_buffer b f k) = (buffer_cache k)[b := f (buffer_cache k ! b)]"
  by (simp add: upd_buffer_def)

lemma nth_update_same: "f x = f (xs ! n) \<Longrightarrow> f (xs[n := x] ! i) = f (xs ! i)"
  by (cases "n < length xs"; cases "i = n") (simp_all add: list_update_beyond)

text \<open>The list operations only change links.\<close>

definition data :: "Block_Buffer \<Rightarrow> uint8 \<times> uint8 \<times> uint8 \<times> uint16 \<times> nat option \<times> frame_t" where
  "data x = (buf_flags x, buf_drive x, buf_refcount x, buf_block_number x, buf_queue x, buf_frame x)"

lemma list_data [simp]: "data (list_push b c ! i) = data (c ! i)" "data (list_unlink b c ! i) = data (c ! i)"
  by (simp_all add: list_push_def list_unlink_def Let_def data_def nth_update_same [where f = data, unfolded data_def])

lemma data_fields:
  "data x = data y \<Longrightarrow> buf_flags x = buf_flags y \<and> buf_drive x = buf_drive y \<and> buf_refcount x = buf_refcount y \<and>
     buf_block_number x = buf_block_number y \<and> buf_queue x = buf_queue y \<and> buf_frame x = buf_frame y"
  by (simp add: data_def)

section \<open>The invariant of the cache\<close>

text \<open>
  A buffer is counted exactly while it is locked, and no two buffers hold the same block of a drive
  (drive 0, which does not exist, stands for no block).
\<close>

definition cache_data :: "Block_Buffer list \<Rightarrow> bool" where
  "cache_data c \<longleftrightarrow> (\<forall>b < CACHE_SIZE. buf_refcount (c ! b) = (if busy (c ! b) then 1 else 0)) \<and>
     (\<forall>a < CACHE_SIZE. \<forall>b < CACHE_SIZE. buf_drive (c ! a) \<noteq> 0 \<and>
        holds (buf_drive (c ! a)) (buf_block_number (c ! a)) (c ! b) \<longrightarrow> a = b)"

definition cache_order :: "kernel \<Rightarrow> nat list \<Rightarrow> bool" where
  "cache_order k xs \<longleftrightarrow> lru (buffer_cache k) xs \<and> set xs = {..<CACHE_SIZE}"

definition cache_inv :: "kernel \<Rightarrow> bool" where
  "cache_inv k \<longleftrightarrow> (\<exists>xs. cache_order k xs) \<and> cache_data (buffer_cache k)"

lemma cache_data_cong:
  assumes "\<And>i. i < CACHE_SIZE \<Longrightarrow> data (c' ! i) = data (c ! i)"
  shows "cache_data c' = cache_data c"
proof -
  have "buf_flags (c' ! i) = buf_flags (c ! i)" "buf_drive (c' ! i) = buf_drive (c ! i)"
    "buf_refcount (c' ! i) = buf_refcount (c ! i)" "buf_block_number (c' ! i) = buf_block_number (c ! i)"
    if "i < CACHE_SIZE" for i using data_fields [OF assms [OF that]] by simp_all
  then show ?thesis by (simp add: cache_data_def)
qed

lemma cache_data_update:
  assumes "cache_data c" and "length c = 17" and "b < CACHE_SIZE"
    and "buf_refcount x = (if busy x then 1 else 0)"
    and "\<And>a. a < CACHE_SIZE \<Longrightarrow> a \<noteq> b \<Longrightarrow> buf_drive x \<noteq> 0 \<Longrightarrow>
      \<not> holds (buf_drive x) (buf_block_number x) (c ! a)"
  shows "cache_data (c[b := x])"
proof -
  have n: "c[b := x] ! i = (if i = b then x else c ! i)" if "i < CACHE_SIZE" for i
    using that assms(2) by (simp add: nth_list_update)
  have "i = j" if "i < CACHE_SIZE" "j < CACHE_SIZE" "buf_drive (c[b := x] ! i) \<noteq> 0"
    "holds (buf_drive (c[b := x] ! i)) (buf_block_number (c[b := x] ! i)) (c[b := x] ! j)" for i j
    using that assms(1,5) unfolding cache_data_def by (auto simp: n split: if_splits)
  then show ?thesis using assms(1,4) unfolding cache_data_def by (auto simp: n)
qed

lemma cache_order_update:
  assumes "cache_order k xs" and "\<And>x. buf_next (f x) = buf_next x" and "\<And>x. buf_prev (f x) = buf_prev x"
  shows "cache_order (upd_buffer b f k) xs"
proof -
  have "lru ((buffer_cache k)[b := f (buffer_cache k ! b)]) xs = lru (buffer_cache k) xs"
    by (intro lru_cong nth_update_same length_list_update) (simp_all add: assms(2,3))
  then show ?thesis using assms(1) by (simp add: cache_order_def upd_buffer_cache)
qed

lemma cache_length: "cache_order k xs \<Longrightarrow> length (buffer_cache k) = 17"
  by (simp add: cache_order_def lru_def)

section \<open>What buffer_get does\<close>

lemma buffer_get_unfold:
  assumes "cache_order k xs"
  shows "buffer_get drive blk ws k =
    (case find (\<lambda>b. holds drive blk (buffer_cache k ! b)) xs of
       Some b \<Rightarrow>
         if busy (buffer_cache k ! b)
         then (case ws of
                 [] \<Rightarrow> None
               | w # ws1 \<Rightarrow> buffer_get drive blk ws1 (INTER_ON (sleep (buffer_addr (sym k) b) w (INTER_OFF k))))
         else Some (Inr (b, ws, INTER_ON (lock_hit b (INTER_OFF k))))
     | None \<Rightarrow>
         (case find (\<lambda>b. idle (buffer_cache k ! b)) (rev xs) of
            Some b \<Rightarrow> Some (Inr (b, ws, INTER_ON (recycle drive blk b (INTER_OFF k))))
          | None \<Rightarrow> Some (Inl (Panic ''full cache''))))"
proof -
  have l: "lru (buffer_cache k) xs" using assms by (simp add: cache_order_def)
  have "sym (INTER_OFF k) = sym k" by (simp add: INTER_OFF_def)
  then show ?thesis
    by (subst buffer_get.simps)
       (simp add: buffer_recycle_def searches [OF l] Let_def split: option.split list.split)
qed

lemma find_bound: "cache_order k xs \<Longrightarrow> find P xs = Some b \<or> find P (rev xs) = Some b \<Longrightarrow> b < CACHE_SIZE \<and> P b"
  using find_SomeD [of P xs b] find_SomeD [of P "rev xs" b] by (auto simp: cache_order_def)

lemma cache_inv_INTER [simp]: "cache_inv (INTER_ON k) = cache_inv k" "cache_inv (INTER_OFF k) = cache_inv k"
  by (simp_all add: cache_inv_def cache_order_def)

lemma cache_inv_update:
  assumes "cache_inv k" and "b < CACHE_SIZE" and "\<And>x. buf_next (f x) = buf_next x" and "\<And>x. buf_prev (f x) = buf_prev x"
    and "buf_refcount (f (buffer_cache k ! b)) = (if busy (f (buffer_cache k ! b)) then 1 else 0)"
    and "\<And>a. a < CACHE_SIZE \<Longrightarrow> a \<noteq> b \<Longrightarrow> buf_drive (f (buffer_cache k ! b)) \<noteq> 0 \<Longrightarrow>
      \<not> holds (buf_drive (f (buffer_cache k ! b))) (buf_block_number (f (buffer_cache k ! b))) (buffer_cache k ! a)"
  shows "cache_inv (upd_buffer b f k)" and "buffer_cache (upd_buffer b f k) ! b = f (buffer_cache k ! b)"
proof -
  obtain xs where o: "cache_order k xs" using assms(1) by (auto simp: cache_inv_def)
  have l: "length (buffer_cache k) = 17" by (rule cache_length [OF o])
  have "cache_data (buffer_cache (upd_buffer b f k))"
    using assms(1,2,5,6) l unfolding upd_buffer_cache cache_inv_def by (intro cache_data_update) auto
  then show "cache_inv (upd_buffer b f k)"
    using cache_order_update [OF o assms(3,4)] by (auto simp: cache_inv_def)
  show "buffer_cache (upd_buffer b f k) ! b = f (buffer_cache k ! b)"
    using l assms(2) by (simp add: upd_buffer_cache)
qed

lemma cache_inv_data:
  assumes "cache_inv k" and "b < CACHE_SIZE"
  shows "buf_refcount (buffer_cache k ! b) = (if busy (buffer_cache k ! b) then 1 else 0)"
    and "a < CACHE_SIZE \<Longrightarrow> a \<noteq> b \<Longrightarrow> buf_drive (buffer_cache k ! b) \<noteq> 0 \<Longrightarrow>
      \<not> holds (buf_drive (buffer_cache k ! b)) (buf_block_number (buffer_cache k ! b)) (buffer_cache k ! a)"
  using assms unfolding cache_inv_def cache_data_def by blast+

lemma lock_hit_inv:
  assumes "cache_inv k" and "b < CACHE_SIZE" and "\<not> busy (buffer_cache k ! b)"
  shows "cache_inv (lock_hit b k)" and "busy (buffer_cache (lock_hit b k) ! b)"
    and "holds d n (buffer_cache (lock_hit b k) ! b) = holds d n (buffer_cache k ! b)"
  using cache_inv_update [of k b "\<lambda>x. x\<lparr>buf_flags := buf_flags x OR BUFFER_FLAGS_BUSY, buf_refcount := buf_refcount x + 1\<rparr>"]
    assms cache_inv_data [OF assms(1,2)]
  by (simp_all add: lock_hit_def byte_bits bit_or_iff)

lemma recycle_inv:
  assumes "cache_inv k" and "b < CACHE_SIZE"
    and "\<And>a. a < CACHE_SIZE \<Longrightarrow> \<not> holds drive blk (buffer_cache k ! a)"
  shows "cache_inv (recycle drive blk b k)" and "busy (buffer_cache (recycle drive blk b k) ! b)"
    and "holds drive blk (buffer_cache (recycle drive blk b k) ! b)"
  using cache_inv_update [of k b "\<lambda>x. x\<lparr>buf_drive := drive, buf_block_number := blk, buf_refcount := 1,
      buf_flags := BUFFER_FLAGS_BUSY\<rparr>"] assms
  by (auto simp: recycle_def)

lemma find_none: "cache_order k xs \<Longrightarrow> find P xs = None \<Longrightarrow> a < CACHE_SIZE \<Longrightarrow> \<not> P a"
  by (auto simp: cache_order_def find_None_iff)

definition waits_for :: "uint8 \<Rightarrow> uint16 \<Rightarrow> kernel \<Rightarrow> bool" where
  "waits_for drive blk k \<longleftrightarrow> (\<exists>b < CACHE_SIZE. holds drive blk (buffer_cache k ! b) \<and> busy (buffer_cache k ! b))"

text \<open>The outcome when no buffer that holds the block is locked.\<close>

lemma buffer_get_now:
  assumes "cache_inv k" and "buffer_get drive blk ws k = Some (Inr (b, ws1, k1))" and "\<not> waits_for drive blk k"
  shows "b < CACHE_SIZE \<and> cache_inv k1 \<and> busy (buffer_cache k1 ! b) \<and> holds drive blk (buffer_cache k1 ! b)"
proof -
  obtain xs where o: "cache_order k xs" using assms(1) by (auto simp: cache_inv_def)
  note fb = find_bound [OF o] and fn = find_none [OF o]
  have i: "cache_inv (INTER_OFF k)" using assms(1) by simp
  show ?thesis
  proof (cases "find (\<lambda>b. holds drive blk (buffer_cache k ! b)) xs")
    case None
    note no = fn [OF None]
    obtain v where v: "find (\<lambda>b. idle (buffer_cache k ! b)) (rev xs) = Some v"
      using assms(2) None unfolding buffer_get_unfold [OF o] by (auto split: option.splits)
    have r: "b = v" "k1 = INTER_ON (recycle drive blk v (INTER_OFF k))"
      using assms(2) unfolding buffer_get_unfold [OF o] None v by auto
    have "v < CACHE_SIZE" using fb [of "\<lambda>b. idle (buffer_cache k ! b)"] v by blast
    then show ?thesis unfolding r using recycle_inv [OF i, of v blk drive] no by simp
  next
    case (Some h)
    then have h: "h < CACHE_SIZE" "holds drive blk (buffer_cache k ! h)"
      using fb [of "\<lambda>b. holds drive blk (buffer_cache k ! b)" h] by blast+
    then have nb: "\<not> busy (buffer_cache k ! h)" using assms(3) by (auto simp: waits_for_def)
    have r: "b = h" "k1 = INTER_ON (lock_hit h (INTER_OFF k))"
      using assms(2) nb unfolding buffer_get_unfold [OF o] Some by auto
    show ?thesis unfolding r using lock_hit_inv [OF i h(1)] nb h by simp
  qed
qed

lemma buffer_get_waits:
  assumes "cache_inv k" and "waits_for drive blk k" and "drive \<noteq> 0"
  obtains h where "h < CACHE_SIZE" and "buffer_get drive blk ws k =
      (case ws of
         [] \<Rightarrow> None
       | w # ws1 \<Rightarrow> buffer_get drive blk ws1 (INTER_ON (sleep (buffer_addr (sym k) h) w (INTER_OFF k))))"
proof -
  obtain xs where o: "cache_order k xs" using assms(1) by (auto simp: cache_inv_def)
  obtain a where a: "a < CACHE_SIZE" "holds drive blk (buffer_cache k ! a)" "busy (buffer_cache k ! a)"
    using assms(2) by (auto simp: waits_for_def)
  obtain h where f: "find (\<lambda>b. holds drive blk (buffer_cache k ! b)) xs = Some h"
    using find_none [OF o, of "\<lambda>b. holds drive blk (buffer_cache k ! b)" a] a by fastforce
  then have h: "h < CACHE_SIZE" "holds drive blk (buffer_cache k ! h)"
    using find_bound [OF o, of "\<lambda>b. holds drive blk (buffer_cache k ! b)" h] by blast+
  then have "h = a" using cache_inv_data(2) [OF assms(1) a(1), of h] a(2) assms(3) by auto
  then have "busy (buffer_cache k ! h)" using a(3) by simp
  then show ?thesis by (intro that [OF h(1)]) (simp add: buffer_get_unfold [OF o] f)
qed

text \<open>Whatever happens while the function waits, as long as it keeps the invariant.\<close>

lemma buffer_get_inv:
  assumes "\<And>w k. w \<in> set ws \<Longrightarrow> cache_inv k \<Longrightarrow> cache_inv (w k)" and "drive \<noteq> 0"
  shows "cache_inv k \<Longrightarrow> buffer_get drive blk ws k = Some (Inr (b, ws1, k1)) \<Longrightarrow>
    b < CACHE_SIZE \<and> cache_inv k1 \<and> busy (buffer_cache k1 ! b) \<and> holds drive blk (buffer_cache k1 ! b)"
  using assms(1)
proof (induction ws arbitrary: k)
  case Nil
  then have "\<not> waits_for drive blk k"
    using buffer_get_waits [OF Nil.prems(1) _ assms(2), where ws = "[]"] by fastforce
  then show ?case by (rule buffer_get_now [OF Nil.prems(1,2)])
next
  case (Cons w ws)
  show ?case
  proof (cases "waits_for drive blk k")
    case True
    obtain h where g: "buffer_get drive blk (w # ws) k =
        buffer_get drive blk ws (INTER_ON (sleep (buffer_addr (sym k) h) w (INTER_OFF k)))"
      using buffer_get_waits [OF Cons.prems(1) True assms(2), where ws = "w # ws"] by auto
    have "cache_inv (sleep ch w (INTER_OFF k))" for ch
      unfolding cache_inv_def cache_order_def cache_sleep
      using Cons.prems(1) Cons.prems(3) [of w] unfolding cache_inv_def cache_order_def by simp
    then show ?thesis using Cons.IH [OF _ Cons.prems(2) [unfolded g]] Cons.prems(3) by simp
  next
    case False
    then show ?thesis by (rule buffer_get_now [OF Cons.prems(1,2)])
  qed
qed

text \<open>Release puts the buffer in front.\<close>

lemma unlock_inv:
  assumes "cache_inv k" and "b < CACHE_SIZE" and "busy (buffer_cache k ! b)"
  shows "cache_inv (unlock b k)" and "\<not> busy (buffer_cache (unlock b k) ! b)"
    and "buf_refcount (buffer_cache (unlock b k) ! b) = 0"
    and "holds d n (buffer_cache (unlock b k) ! b) = holds d n (buffer_cache k ! b)"
  using cache_inv_update [of k b "\<lambda>x. x\<lparr>buf_flags := buf_flags x AND NOT BUFFER_FLAGS_BUSY, buf_refcount := buf_refcount x - 1\<rparr>"]
    assms cache_inv_data [OF assms(1,2)]
  by (simp_all add: unlock_def and.assoc)

lemma unlock_order: "cache_order k xs \<Longrightarrow> cache_order (unlock b k) xs"
  by (simp add: unlock_def cache_order_update)

lemma buffer_release_effect:
  assumes "cache_inv k" and "cache_order k xs" and "b < CACHE_SIZE" and "busy (buffer_cache k ! b)"
  obtains k1 where "buffer_release b k = Inr k1" and "cache_inv k1" and "cache_order k1 (b # remove1 b xs)"
    and "\<not> busy (buffer_cache k1 ! b)"
    and "\<And>d n. holds d n (buffer_cache k1 ! b) = holds d n (buffer_cache k ! b)"
proof -
  let ?k0 = "wakeup (buffer_addr (sym k) b) (INTER_OFF k)"
  let ?k2 = "unlock b ?k0"
  let ?k3 = "?k2\<lparr>buffer_cache := list_push b (list_unlink b (buffer_cache ?k2))\<rparr>"
  have i0: "cache_inv ?k0" "busy (buffer_cache ?k0 ! b)" "cache_order ?k0 xs"
    using assms unfolding cache_inv_def cache_order_def by simp_all
  note u = unlock_inv [OF i0(1) assms(3) i0(2)]
  have o2: "cache_order ?k2 xs" by (rule unlock_order [OF i0(3)])
  have "b \<in> set xs" using assms(2,3) by (auto simp: cache_order_def)
  then obtain as bs where x: "xs = as @ b # bs" "b \<notin> set as" by (metis split_list_first)
  have "lru (list_unlink b (buffer_cache ?k2)) (as @ bs)"
    using o2 unfolding x(1) cache_order_def by (intro list_unlink_lru) simp
  moreover have "b \<notin> set (as @ bs)" using o2 unfolding x(1) cache_order_def lru_def by auto
  ultimately have "lru (buffer_cache ?k3) (b # as @ bs)" using assms(3) by (simp add: list_push_lru)
  then have o3: "cache_order ?k3 (b # remove1 b xs)"
    using o2 x by (auto simp: cache_order_def remove1_append)
  have d: "data (buffer_cache ?k3 ! i) = data (buffer_cache ?k2 ! i)" for i by simp
  then have "cache_inv ?k3" using u(1) o3 cache_data_cong [of "buffer_cache ?k3"] unfolding cache_inv_def by blast
  moreover have "buffer_release b k = Inr (INTER_ON ?k3)"
    using assms(4) u(3) by (simp add: buffer_release_def Let_def)
  ultimately show ?thesis
    using o3 u(2,4) data_fields [OF d [of b]] by (intro that [of "INTER_ON ?k3"]) (simp_all add: cache_order_def)
qed

section \<open>Initialisation\<close>

lemma buffer_init_loop_order:
  assumes "lru (buffer_cache k) (rev [0..<i])" and "i + n = CACHE_SIZE"
    and "buffer_init_loop [i..<i + n] k = Inr k1"
  shows "lru (buffer_cache k1) (rev [0..<CACHE_SIZE]) \<and>
    (\<forall>b \<le> CACHE_SIZE. buf_flags (buffer_cache k1 ! b) = buf_flags (buffer_cache k ! b) \<and>
      buf_drive (buffer_cache k1 ! b) = buf_drive (buffer_cache k ! b) \<and>
      buf_refcount (buffer_cache k1 ! b) = buf_refcount (buffer_cache k ! b))"
  using assms
proof (induction n arbitrary: i k)
  case 0
  then show ?case by simp
next
  case (Suc n)
  let ?k1 = "k\<lparr>buffer_cache := list_push i (buffer_cache k)\<rparr>"
  obtain frame k2 where f: "kalloc ?k1 = (frame, k2)" by fastforce
  let ?k3 = "upd_buffer i (\<lambda>x. x\<lparr>buf_frame := frame\<rparr>) k2"
  have c2: "buffer_cache k2 = list_push i (buffer_cache k)" using f by (auto simp: kalloc_def Let_def split: if_splits)
  have u: "[i..<i + Suc n] = i # [Suc i..<Suc i + n]" by (simp add: upt_conv_Cons)
  have r: "buffer_init_loop [Suc i..<Suc i + n] ?k3 = Inr k1"
    using Suc.prems(3) unfolding u by (simp add: f split: if_splits)
  have "lru (buffer_cache k2) (i # rev [0..<i])"
    unfolding c2 using Suc.prems(1,2) by (intro list_push_lru) auto
  then have "lru (buffer_cache ?k3) (rev [0..<Suc i])"
    unfolding upd_buffer_cache
    using lru_cong [of "(buffer_cache k2)[i := (buffer_cache k2 ! i)\<lparr>buf_frame := frame\<rparr>]" "buffer_cache k2"]
    by (simp add: nth_update_same)
  note ih = Suc.IH [OF this _ r]
  have "buf_flags (buffer_cache ?k3 ! b) = buf_flags (buffer_cache k ! b) \<and>
      buf_drive (buffer_cache ?k3 ! b) = buf_drive (buffer_cache k ! b) \<and>
      buf_refcount (buffer_cache ?k3 ! b) = buf_refcount (buffer_cache k ! b)" for b
    using data_fields [OF list_data(1) [of i "buffer_cache k" b]]
    by (simp add: upd_buffer_cache nth_update_same c2)
  then show ?case using ih Suc.prems(2) by simp
qed

lemma buffer_init_inv:
  assumes "length (buffer_cache k) = Suc CACHE_SIZE"
    and "\<forall>b < CACHE_SIZE. buf_flags (buffer_cache k ! b) = 0 \<and> buf_drive (buffer_cache k ! b) = 0 \<and> buf_refcount (buffer_cache k ! b) = 0"
    and "buffer_init k = Inr k1"
  shows "cache_inv k1" and "cache_order k1 (rev [0..<CACHE_SIZE])"
proof -
  let ?k = "upd_buffer CACHE_SIZE (\<lambda>x. x\<lparr>buf_prev := CACHE_SIZE, buf_next := CACHE_SIZE\<rparr>) k"
  have "lru (buffer_cache ?k) (rev [0..<0])" using assms(1) by (simp add: lru_def upd_buffer_cache)
  note l = buffer_init_loop_order [OF this, of CACHE_SIZE k1]
  have "buffer_init_loop [0..<0 + CACHE_SIZE] ?k = Inr k1" using assms(3) by (simp add: buffer_init_def)
  note l = l [OF _ this]
  have "buffer_cache ?k ! b = buffer_cache k ! b" if "b < CACHE_SIZE" for b using that by (simp add: upd_buffer_cache)
  then have "cache_data (buffer_cache k1)" using l assms(2) by (simp add: cache_data_def)
  moreover show o: "cache_order k1 (rev [0..<CACHE_SIZE])" using l unfolding cache_order_def by (simp add: atLeast0LessThan)
  ultimately show "cache_inv k1" by (auto simp: cache_inv_def)
qed

text \<open>Enough frames for all buffers: the initialisation ends without a panic.\<close>

lemma buffer_init_loop_ends:
  "kalloc_inv k \<Longrightarrow> length bs \<le> frames_ready k \<Longrightarrow> \<exists>k1. buffer_init_loop bs k = Inr k1"
proof (induction bs arbitrary: k)
  case (Cons b bs)
  let ?k1 = "k\<lparr>buffer_cache := list_push b (buffer_cache k)\<rparr>"
  obtain f k2 where a: "kalloc ?k1 = (f, k2)" by fastforce
  have e: "free_list ?k1 = free_list k" by (simp add: free_list_def)
  have "frames_ready ?k1 = frames_ready k" by (simp add: frames_ready_def e)
  then have "kalloc_inv ?k1" "0 < frames_ready ?k1" using Cons.prems e by (simp_all add: kalloc_inv_def)
  note r = kalloc_ready [OF this a]
  let ?k3 = "upd_buffer b (\<lambda>x. x\<lparr>buf_frame := f\<rparr>) k2"
  have u: "free_list ?k3 = free_list k2" by (simp add: upd_buffer_def free_list_def)
  have "\<exists>k1. buffer_init_loop bs ?k3 = Inr k1"
    using Cons.prems r(3,4) u \<open>frames_ready ?k1 = frames_ready k\<close>
    by (intro Cons.IH) (simp_all add: kalloc_inv_def frames_ready_def upd_buffer_def)
  then show ?case using a r(1) by simp
qed simp

lemma buffer_init_ends:
  assumes "kalloc_inv k" and "CACHE_SIZE \<le> frames_ready k"
  shows "\<exists>k1. buffer_init k = Inr k1"
proof -
  have "free_list (k\<lparr>buffer_cache := c\<rparr>) = free_list k" for c by (simp add: free_list_def)
  then show ?thesis
    unfolding buffer_init_def using assms
    by (intro buffer_init_loop_ends) (simp_all add: upd_buffer_def kalloc_inv_def frames_ready_def)
qed

end
