(* ===== verification/Kernel_Wait.thy ===== *)
theory Kernel_Wait
  imports Kernel_Block
begin

text \<open>
  The scheduler while a process waits for the disk: no process is ready, so \<^verbatim>\<open>scheduler\<close> (\<^verbatim>\<open>proc.c\<close>) scans the table
  and waits with interrupts enabled, until the interrupt at the end of the transfer wakes the process and the next scan
  finds it.
\<close>

section \<open>What the driver does not look at\<close>

text \<open>The interrupt flag and the scheduler's index play no part in an interrupt of the disk and are kept by it.\<close>

definition clocked :: "bool \<Rightarrow> uint16 \<Rightarrow> kernel \<Rightarrow> kernel" where
  "clocked v r k = k\<lparr>interrupts_on := v, round_robin_index := r\<rparr>"

lemma clocked_frame [simp]:
  "machine (clocked v r k) = machine k" "proc_table (clocked v r k) = proc_table k" "buffer_cache (clocked v r k) = buffer_cache k"
  "disk_queue (clocked v r k) = disk_queue k" "current_process (clocked v r k) = current_process k" "sym (clocked v r k) = sym k"
  "kernel_page_table (clocked v r k) = kernel_page_table k" "round_robin_index (clocked v r k) = r" "kmap (clocked v r k) = kmap k"
  "clocked v r (clocked v' r' k) = clocked v r k" "runnable (clocked v r k) q = runnable k q"
  by (simp_all add: clocked_def kmap_def runnable_def)

lemma clocked_update:
  "(clocked v r k)\<lparr>machine := m\<rparr> = clocked v r (k\<lparr>machine := m\<rparr>)"
  "(clocked v r k)\<lparr>proc_table := t\<rparr> = clocked v r (k\<lparr>proc_table := t\<rparr>)"
  "(clocked v r k)\<lparr>buffer_cache := c\<rparr> = clocked v r (k\<lparr>buffer_cache := c\<rparr>)"
  "(clocked v r k)\<lparr>disk_queue := q\<rparr> = clocked v r (k\<lparr>disk_queue := q\<rparr>)"
  "(clocked v r k)\<lparr>kernel_page_table := t'\<rparr> = clocked v r (k\<lparr>kernel_page_table := t'\<rparr>)"
  by (cases k; simp add: clocked_def)+

lemma clocked_bus [simp]:
  "MMIO8_read a (clocked v r k) = (fst (MMIO8_read a k), clocked v r (snd (MMIO8_read a k)))"
  "MMIO8_write a x (clocked v r k) = clocked v r (MMIO8_write a x k)"
  "set_low_memory w f (clocked v r k) = clocked v r (set_low_memory w f k)"
  "set_state p s (clocked v r k) = clocked v r (set_state p s k)"
  "upd_buffer b g (clocked v r k) = clocked v r (upd_buffer b g k)"
  by (simp_all add: MMIO8_read_def MMIO8_write_def set_low_memory_def set_state_def upd_buffer_def clocked_update Let_def split_beta split: option.split)

lemma clocked_words [simp]:
  "MMIO16_read a (clocked v r k) = (fst (MMIO16_read a k), clocked v r (snd (MMIO16_read a k)))"
  "MMIO16_write a x (clocked v r k) = clocked v r (MMIO16_write a x k)"
  by (simp_all add: MMIO16_read_def MMIO16_write_def Let_def split_beta)

lemma clocked_loops [simp]:
  "write_bytes a vs (clocked v r k) = clocked v r (write_bytes a vs k)"
  "read_bytes a n (clocked v r k) = (fst (read_bytes a n k), clocked v r (snd (read_bytes a n k)))"
  by (induction vs arbitrary: a k, simp_all) (induction n arbitrary: a k, simp_all add: Let_def split_beta)

lemma clocked_windows [simp]:
  "install_window w f (clocked v r k) = clocked v r (install_window w f k)"
  "map_window w f (clocked v r k) = (fst (map_window w f k), fst (snd (map_window w f k)), clocked v r (snd (snd (map_window w f k))))"
  "unmap_window w f (clocked v r k) = clocked v r (unmap_window w f k)"
  by (simp_all add: install_window_def map_window_def unmap_window_def clocked_update Let_def split_beta split: option.split)

lemma clocked_copy [simp]: "memcpy_bus d s n (clocked v r k) = clocked v r (memcpy_bus d s n k)"
  by (simp add: memcpy_bus_def Let_def split_beta)

lemma clocked_wakeup [simp]: "wakeup ch (clocked v r k) = clocked v r (wakeup ch k)"
proof -
  have "wakeup_at ch i (clocked v r k) = clocked v r (wakeup_at ch i k)" for i k
    by (simp add: wakeup_at_def proc_get_16_def MAP_PCB_def UNMAP_PCB_def Let_def split_beta)
  then have "fold (wakeup_at ch) is (clocked v r k) = clocked v r (fold (wakeup_at ch) is k)" for "is" k
    by (induction "is" arbitrary: k) simp_all
  then show ?thesis by (simp only: wakeup_def)
qed

lemma clocked_disk [simp]:
  "disk_start_operation (clocked v r k) = clocked v r (disk_start_operation k)"
  "disk_fetch b (clocked v r k) = clocked v r (disk_fetch b k)" "block_done b (clocked v r k) = clocked v r (block_done b k)"
proof -
  show "disk_start_operation (clocked v r k) = clocked v r (disk_start_operation k)"
    by (simp add: disk_start_operation_def Let_def split_beta split: option.split)
  show "disk_fetch b (clocked v r k) = clocked v r (disk_fetch b k)"
    by (simp add: disk_fetch_def Let_def split_beta)
  show "block_done b (clocked v r k) = clocked v r (block_done b k)"
    by (simp add: block_done_def clocked_update Let_def)
qed

lemma clocked_self: "clocked (interrupts_on k) (round_robin_index k) k = k"
  by (simp add: clocked_def)

lemma start_index: "round_robin_index (disk_start_operation k) = round_robin_index k"
  by (metis clocked_disk(1) clocked_frame(8) clocked_self)

lemma clocked_round [simp]: "disk_round (clocked v r k) = clocked v r (disk_round k)"
proof -
  have a: "disk_advance b (clocked v r k) = clocked v r (disk_advance b k)" for b k
    by (simp add: disk_advance_def clocked_update Let_def)
  have p: "plic_acknowledge i (clocked v r k) = clocked v r (plic_acknowledge i k)" for i k
    by (simp add: plic_acknowledge_def Let_def split_beta)
  have "disk_interrupt (clocked v r k) = clocked v r (disk_interrupt k)" for k
    by (simp add: disk_interrupt_def a p clocked_update Let_def split_beta split: option.split)
  then show ?thesis by (simp add: disk_round_def clocked_update)
qed

section \<open>A scan with one process, or none\<close>

lemma scan_idle:
  assumes "rr_ok k" and "\<And>q. q < MAX_PROC_COUNT \<Longrightarrow> \<not> runnable k q"
  shows "scheduler_scan MAX_PROC_COUNT k = (None, k)"
proof -
  have "scheduler_scan MAX_PROC_COUNT k = (None, k\<lparr>round_robin_index := of_nat (rr k MAX_PROC_COUNT)\<rparr>)"
    using scan_result [OF assms(1), of MAX_PROC_COUNT] assms(2) by auto
  moreover have "rr k MAX_PROC_COUNT = unat (round_robin_index k)" using assms(1) by (simp add: rr_ok_def)
  ultimately show ?thesis by simp
qed

lemma scan_only:
  assumes "rr_ok k" and "p < MAX_PROC_COUNT" and "runnable k p" and "\<And>q. q < MAX_PROC_COUNT \<Longrightarrow> q \<noteq> p \<Longrightarrow> \<not> runnable k q"
  shows "\<exists>r. scheduler_scan MAX_PROC_COUNT k = (Some p, k\<lparr>round_robin_index := r\<rparr>)"
  using scan_result [OF assms(1), of MAX_PROC_COUNT]
proof (elim disjE exE conjE)
  fix d
  assume d: "runnable k (rr k d)"
    "scheduler_scan MAX_PROC_COUNT k = (Some (rr k d), k\<lparr>round_robin_index := of_nat (rr k (Suc d))\<rparr>)"
  have "rr k d < MAX_PROC_COUNT" by simp
  then have "rr k d = p" using assms(4) d(1) by blast
  then show ?thesis using d(2) by auto
next
  assume n: "\<forall>d < MAX_PROC_COUNT. \<not> runnable k (rr k d)"
  have "rr_distance k p < MAX_PROC_COUNT" "rr k (rr_distance k p) = p"
    using rr_distance_less [of k p] rr_distance_reaches [OF assms(1,2)] by simp_all
  then show ?thesis using n assms(3) by metis
qed

section \<open>Waiting for the disk\<close>

text \<open>As long as no process is ready, each element of the list is one wait with interrupts enabled.\<close>

lemma scheduler_idles:
  assumes "unat r < MAX_PROC_COUNT" and "\<And>m q. m < n \<Longrightarrow> q < MAX_PROC_COUNT \<Longrightarrow> \<not> runnable ((disk_round ^^ m) k) q"
  shows "scheduler_loop old (replicate n disk_round @ fs) (clocked v r k) =
    scheduler_loop old fs (clocked (v \<and> n = 0) r ((disk_round ^^ n) k))"
  using assms
proof (induction n arbitrary: k v)
  case (Suc n)
  have "scheduler_scan MAX_PROC_COUNT (clocked v r k) = (None, clocked v r k)"
    using Suc.prems(1) Suc.prems(2) [of 0] by (intro scan_idle) (simp_all add: rr_ok_def)
  then have "scheduler_loop old (replicate (Suc n) disk_round @ fs) (clocked v r k) =
      scheduler_loop old (replicate n disk_round @ fs) (INTER_OFF (disk_round (INTER_ON (clocked v r k))))"
    by (subst scheduler_loop.simps) simp
  also have "INTER_OFF (disk_round (INTER_ON (clocked v r k))) = clocked False r (disk_round k)"
  proof -
    have "INTER_ON (clocked v r k) = clocked True r k" by (simp add: INTER_ON_def clocked_def)
    then show ?thesis by simp (simp add: INTER_OFF_def clocked_def)
  qed
  also have "scheduler_loop old (replicate n disk_round @ fs) (clocked False r (disk_round k)) =
      scheduler_loop old fs (clocked False r ((disk_round ^^ n) (disk_round k)))"
    using Suc.IH [of "disk_round k" False] Suc.prems(1) Suc.prems(2) [of "Suc m" for m]
    by (simp add: funpow_swap1)
  finally show ?case by (simp add: funpow_swap1)
qed simp

text \<open>
  Nobody but \<open>p\<close> can become ready: no other process is, and none of those that sleep waits for the buffer or has
  its control block in a frame the transfer or the sleeping process writes.
\<close>

definition alone :: "kernel \<Rightarrow> nat \<Rightarrow> nat \<Rightarrow> bool" where
  "alone k p b \<longleftrightarrow> rr_ok k \<and> (\<forall>q < MAX_PROC_COUNT. q \<noteq> p \<longrightarrow> \<not> runnable k q \<and>
     (proc_state (proc_table k ! q) = PROC_STATE_SLEEPING \<longrightarrow> pcb_word k q off_channel \<noteq> buffer_addr (sym k) b \<and>
        pcb_frame k q \<notin> {pcb_frame k p, buf_frame (buffer_cache k ! b)}))"

text \<open>The scheduler has switched to \<open>p\<close>, by its own dispatch, in a state that is \<open>k\<close> but for the scheduler's variables.\<close>

definition resumed :: "nat \<Rightarrow> kernel \<Rightarrow> kernel \<Rightarrow> bool" where
  "resumed p k k' \<longleftrightarrow> runnable k p \<and> (\<exists>v r. k' = snd (scheduler_dispatch (Some p) p (clocked v r k)))"

lemma scheduler_resumes:
  assumes "reading k b" and "dq_sector (disk_queue k) = 0" and "buf_queue (buffer_cache k ! b) = None"
    and "current_process k = Some p" and "p < MAX_PROC_COUNT" and "sleeps_on k (buffer_addr (sym k) b) p"
    and "pcb_frame k p \<noteq> buf_frame (buffer_cache k ! b)" and "alone k p b"
  shows "\<exists>s k'. scheduler (replicate 8 disk_round) k = Some (s, k') \<and> resumed p ((disk_round ^^ 8) k) k'"
proof -
  let ?k8 = "(disk_round ^^ 8) k" and ?r = "round_robin_index k" and ?v = "interrupts_on k"
  note a = assms(8) [unfolded alone_def]
  have others: "\<not> runnable k q" if "q < MAX_PROC_COUNT" for q
    using a assms(6) that by (cases "q = p") (auto simp: runnable_def sleeps_on_def)
  have quiet: "\<not> runnable ((disk_round ^^ m) k) q" if "m < 8" "q < MAX_PROC_COUNT" for m q
  proof -
    have "proc_table ((disk_round ^^ m) k) = proc_table k" using read_rounds [OF assms(1,2), of m] that(1) by simp
    then show ?thesis using others [OF that(2)] by (simp add: runnable_def)
  qed
  have ready: "runnable ?k8 p" using read_block(4) [OF assms(1-3,5-7)] by (simp add: runnable_def)
  have rest: "\<not> runnable ?k8 q" if "q < MAX_PROC_COUNT" "q \<noteq> p" for q
  proof -
    have "proc_state (proc_table ?k8 ! q) = proc_state (proc_table k ! q)"
      using read_block(8) [OF assms(1-3) that(1)] a that by (simp add: sleeps_on_def)
    then show ?thesis using others [OF that(1)] by (simp add: runnable_def)
  qed
  have rr: "unat ?r < MAX_PROC_COUNT" using a by (simp add: rr_ok_def)
  have "scheduler_loop (Some p) (replicate 8 disk_round @ []) (clocked ?v ?r k) =
      scheduler_loop (Some p) [] (clocked (?v \<and> (8 :: nat) = 0) ?r ?k8)"
    by (rule scheduler_idles [OF rr quiet])
  moreover have "clocked ?v ?r k = k" by (rule clocked_self)
  ultimately have loop: "scheduler (replicate 8 disk_round) k = scheduler_loop (Some p) [] (clocked False ?r ?k8)"
    by (simp add: scheduler_def assms(4))
  have "\<exists>r. scheduler_scan MAX_PROC_COUNT (clocked False ?r ?k8) = (Some p, (clocked False ?r ?k8)\<lparr>round_robin_index := r\<rparr>)"
    using rr ready rest assms(5) by (intro scan_only) (simp_all add: rr_ok_def)
  then obtain r where "scheduler_scan MAX_PROC_COUNT (clocked False ?r ?k8) = (Some p, clocked False r ?k8)"
    by (auto simp: clocked_def)
  then have "scheduler (replicate 8 disk_round) k = Some (scheduler_dispatch (Some p) p (clocked False r ?k8))"
    unfolding loop by (subst scheduler_loop.simps) simp
  then show ?thesis using ready unfolding resumed_def by (metis prod.collapse)
qed

end
