(* ===== verification/Kernel_Fetch.thy ===== *)
theory Kernel_Fetch
  imports Kernel_Buffer Kernel_Wait
begin

text \<open>
  The block cache on top of the driver, the controller and the scheduler: a process that reads a block that
  is not cached sleeps, the transfer runs to its end, the interrupt wakes the process and the scheduler
  switches back to it.
\<close>

section \<open>The running process\<close>

lemma current_bus [simp]:
  "current_process (snd (MMIO8_read a k)) = current_process k" "current_process (MMIO8_write a v k) = current_process k"
  "current_process (INTER_ON k) = current_process k" "current_process (INTER_OFF k) = current_process k"
  "current_process (install_window w f k) = current_process k" "current_process (upd_buffer b g k) = current_process k"
  by (simp_all add: MMIO8_read_def MMIO8_write_def INTER_ON_def INTER_OFF_def install_window_def upd_buffer_def
      set_low_memory_def Let_def split_beta split: option.split)

lemma current_loops [simp]:
  "current_process (write_bytes a vs k) = current_process k"
  "current_process (snd (read_bytes a n k)) = current_process k"
  by (induction vs arbitrary: a k, simp_all) (induction n arbitrary: a k, simp_all add: Let_def split_beta)

lemma current_accessors [simp]:
  "current_process (snd (proc_get_16 p off k)) = current_process k" "current_process (proc_set_16 p off v k) = current_process k"
  by (simp_all add: proc_get_16_def proc_set_16_def MAP_PCB_def UNMAP_PCB_def map_window_def unmap_window_def
      MMIO16_read_def MMIO16_write_def Let_def split_beta)

lemma current_wakeup [simp]: "current_process (wakeup ch k) = current_process k"
proof -
  have "current_process (fold (wakeup_at ch) is k) = current_process k" for "is"
    by (induction "is" arbitrary: k) (simp_all add: wakeup_at_def Let_def split_beta)
  then show ?thesis by (simp add: wakeup_def)
qed

lemma current_disk [simp]:
  "current_process (disk_start_operation k) = current_process k" "current_process (disk_fetch b k) = current_process k"
  "current_process (block_done b k) = current_process k" "current_process (disk_advance b k) = current_process k"
proof -
  show s: "current_process (disk_start_operation k) = current_process k" for k
    by (simp add: disk_start_operation_def map_window_def unmap_window_def memcpy_bus_def MMIO16_write_def Let_def
        split_beta split: option.split)
  show "current_process (disk_fetch b k) = current_process k"
    by (simp add: disk_fetch_def map_window_def unmap_window_def memcpy_bus_def Let_def split_beta)
  show d: "current_process (block_done b k) = current_process k" for k
    by (simp add: block_done_def Let_def)
  show "current_process (disk_advance b k) = current_process k"
    by (simp add: disk_advance_def s d Let_def)
qed

lemma current_round [simp]: "current_process ((disk_round ^^ n) k) = current_process k"
proof -
  have "current_process (disk_interrupt k) = current_process k" for k
    by (simp add: disk_interrupt_def plic_acknowledge_def Let_def split_beta split: option.split)
  then have "current_process (disk_round k) = current_process k" for k by (simp add: disk_round_def)
  then show ?thesis by (induction n) simp_all
qed

section \<open>A sleeping process and its transfer\<close>

text \<open>What \<^verbatim>\<open>sleep\<close> does before it calls the scheduler, and what happens until it returns.\<close>

definition asleep :: "uint16 \<Rightarrow> nat \<Rightarrow> kernel \<Rightarrow> kernel" where
  "asleep ch p k = set_state p PROC_STATE_SLEEPING (pcb_write p off_channel [lo_byte ch, hi_byte ch] k)"

text \<open>
  Two ways a sleeping process comes back after the eight interrupts of a transfer. In the first the scheduler dispatches \<open>p\<close>
  if it is ready or new by then, whatever the other processes are; in the second it is the whole \<^verbatim>\<open>scheduler\<close>, which
  waits while no process is ready and dispatches the first ready one. A process that does not become ready never
  comes back: the state stays the one in which it fell asleep.
\<close>

definition served :: "nat \<Rightarrow> kernel \<Rightarrow> kernel" where
  "served p k =
     (let k1 = (disk_round ^^ 8) k
      in if runnable k1 p then snd (scheduler_dispatch (Some p) p k1) else k)"

definition scheduled :: "kernel \<Rightarrow> kernel" where
  "scheduled k = (case scheduler (replicate 8 disk_round) k of Some (s, k1) \<Rightarrow> k1 | None \<Rightarrow> k)"

lemma served_resumed: "runnable ((disk_round ^^ 8) k) p \<Longrightarrow> resumed p ((disk_round ^^ 8) k) (served p k)"
proof -
  let ?k = "(disk_round ^^ 8) k"
  assume r: "runnable ?k p"
  then show ?thesis using clocked_self [of ?k] unfolding resumed_def served_def Let_def by metis
qed

definition process_ok :: "kernel \<Rightarrow> nat \<Rightarrow> bool" where
  "process_ok k p \<longleftrightarrow> kmap k \<and> sleepers_ok k \<and> current_process k = Some p \<and> pcb_ok k p"

lemma process_ok_windows: "process_ok k p \<Longrightarrow> windows_agree k p"
  by (simp add: process_ok_def kmap_def windows_agree_def)

lemma asleep_frame:
  "buffer_cache (asleep ch p k) = buffer_cache k" "disk_queue (asleep ch p k) = disk_queue k"
  "sym (asleep ch p k) = sym k" "current_process (asleep ch p k) = current_process k"
  "machine (asleep ch p k) = (machine k)\<lparr>ram := ram_write (pcb_frame k p) (0x200 + off_channel) [lo_byte ch, hi_byte ch] (ram (machine k))\<rparr>"
  by (simp_all add: asleep_def set_state_def pcb_write_def)

lemma asleep_ok:
  assumes "process_ok k p"
  shows "process_ok (asleep ch p k) p" and "q < MAX_PROC_COUNT \<Longrightarrow> pcb_frame (asleep ch p k) q = pcb_frame k q"
    and "sleeps_on (asleep ch p k) ch p"
proof -
  have k: "kmap k" "sleepers_ok k" "pcb_ok k p" "p < MAX_PROC_COUNT" "length (proc_table k) = MAX_PROC_COUNT"
    using assms by (simp_all add: process_ok_def pcb_ok_def kmap_def)
  let ?k = "pcb_write p off_channel [lo_byte ch, hi_byte ch] k"
  have "sleepers_ok (set_state p PROC_STATE_SLEEPING ?k)"
    using k by (auto simp: sleepers_ok_def set_state_nth pcb_ok_def)
  then show "process_ok (asleep ch p k) p"
    using assms k by (simp add: process_ok_def asleep_def set_state_kmap set_state_pcb)
  show "q < MAX_PROC_COUNT \<Longrightarrow> pcb_frame (asleep ch p k) q = pcb_frame k q"
    using k by (simp add: asleep_def)
  show "sleeps_on (asleep ch p k) ch p"
    using k set_state_pcb(2) [of ?k p p PROC_STATE_SLEEPING off_channel]
      mk_word_bytes [of ch] by (simp add: sleeps_on_def asleep_def set_state_nth) (simp add: pcb_word_def)
qed

lemma sleep_asleep:
  assumes "process_ok k p"
  shows "sleep ch w k = proc_set_16 (the (current_process (w (asleep ch p k)))) off_channel 0 (w (asleep ch p k))"
  using assms pcb_access(4) [of k p off_channel ch] by (simp add: sleep_def asleep_def process_ok_def Let_def)

lemma reading_asleep:
  assumes "reading k b" and "process_ok k p"
  shows "reading (asleep ch p k) b"
proof -
  obtain m where m: "machine k = issued DISK_CMD_READ (head_lba k b) m" "length (disk_buffer (disk m)) = 512"
    using assms(1) by (auto simp: reading_def)
  have i: "(issued cmd lba m)\<lparr>ram := r\<rparr> = issued cmd lba (m\<lparr>ram := r\<rparr>)" for cmd lba r by (simp add: issued_def)
  have "\<exists>m. machine (asleep ch p k) = issued DISK_CMD_READ (head_lba k b) m \<and> length (disk_buffer (disk m)) = 512"
    unfolding asleep_frame(5) m(1) i using m(2)
    by (intro exI [of _ "m\<lparr>ram := r\<rparr>" for r]) simp
  then show ?thesis
    using assms(1) asleep_ok(1) [OF assms(2), of ch]
    by (simp add: reading_def head_buffer_def process_ok_def dirty_def head_lba_def asleep_frame)
qed

text \<open>The bytes and the links of the process after its wait.\<close>

lemma served_effect:
  assumes "process_ok k p" and "kmap k'" and "current_process k' = Some p"
    and "map kernel_low_memory (proc_table k') = map kernel_low_memory (proc_table k)"
  defines "k1 \<equiv> proc_set_16 p off_channel 0 (snd (scheduler_dispatch (Some p) p k'))"
  shows "g \<noteq> pcb_frame k p \<Longrightarrow> i < 4096 \<Longrightarrow> frame_byte k1 g i = frame_byte k' g i"
    and "buffer_cache k1 = buffer_cache k'" and "disk_queue k1 = disk_queue k'" and "kmap k1"
    and "current_process k1 = Some p" and "disk (machine k1) = disk (machine k')"
    and "proc_state (proc_table k1 ! p) = PROC_STATE_RUNING"
proof -
  have p: "p < MAX_PROC_COUNT" "length (proc_table k) = MAX_PROC_COUNT" "length (proc_table k') = MAX_PROC_COUNT"
    using assms(1,2) by (simp_all add: process_ok_def pcb_ok_def kmap_def)
  have f: "pcb_frame k' p = pcb_frame k p" using assms(4) p by (metis nth_map)
  have ok: "pcb_ok k' p" using assms(1) by (simp add: process_ok_def pcb_ok_def f)
  have w: "windows_agree k' p" using assms(2,3) by (simp add: kmap_def windows_agree_def)
  let ?k2 = "(set_state p PROC_STATE_RUNING k')\<lparr>current_process := Some p\<rparr>"
  note e = dispatch_effect [OF assms(2) ok w, of "Some p"]
  have k2: "pcb_frame ?k2 p = pcb_frame k p" using p by (simp add: f)
  have ok2: "pcb_ok ?k2 p" using ok p by (simp add: pcb_ok_def f)
  have km: "kmap ?k2" using dispatched(5) [OF assms(2) ok w, of "Some p"] unfolding e by simp
  have k1: "k1 = pcb_write p off_channel [lo_byte 0, hi_byte 0] (pcb_write p off_ticks [QUANTUM] ?k2)"
    unfolding k1_def e using km ok2 pcb_access(4) [of "pcb_write p off_ticks [QUANTUM] ?k2" p off_channel 0] by simp
  show "g \<noteq> pcb_frame k p \<Longrightarrow> i < 4096 \<Longrightarrow> frame_byte k1 g i = frame_byte k' g i"
    unfolding k1 using k2 by (simp add: frame_byte_def pcb_write_def)
  show "buffer_cache k1 = buffer_cache k'" "disk_queue k1 = disk_queue k'" "current_process k1 = Some p"
    "disk (machine k1) = disk (machine k')"
    unfolding k1 by (simp_all add: pcb_write_def set_state_def)
  show "kmap k1" unfolding k1 using km by simp
  show "proc_state (proc_table k1 ! p) = PROC_STATE_RUNING" unfolding k1 using p by (simp add: set_state_nth)
qed

section \<open>Reading a block\<close>

definition disk_idle :: "kernel \<Rightarrow> nat \<Rightarrow> bool" where
  "disk_idle k b \<longleftrightarrow> dq_head (disk_queue k) = None \<and> b < length (buffer_cache k) \<and>
     buf_frame (buffer_cache k ! b) \<notin> {MMU_FRAME_INVALID, MMU_LAST_FRAME} \<and>
     unat (buf_block_number (buffer_cache k ! b)) < 8192 \<and> length (disk_buffer (disk (machine k))) = 512 \<and>
     unat (buf_block_number (buffer_cache k ! b)) * 4096 + 4096 \<le> length (disk_file (disk (machine k)))"

lemma clean_flags:
  "((w AND NOT BUFFER_FLAGS_DIRTY) OR BUFFER_FLAGS_VALID) AND NOT BUFFER_FLAGS_DIRTY =
     (w OR BUFFER_FLAGS_VALID) AND NOT BUFFER_FLAGS_DIRTY"
  by (rule bit_word_eqI) (auto simp: bit_simps)

text \<open>The request at the head of the empty queue, and the state in which the scheduler is called.\<close>

definition submitted :: "nat \<Rightarrow> kernel \<Rightarrow> kernel" where
  "submitted b k = k\<lparr>interrupts_on := False, buffer_cache := (buffer_cache k)[b := (buffer_cache k ! b)
      \<lparr>buf_flags := buf_flags (buffer_cache k ! b) AND NOT BUFFER_FLAGS_DIRTY, buf_queue := None\<rparr>],
    disk_queue := (disk_queue k)\<lparr>dq_head := Some b, dq_tail := Some b, dq_sector := 0\<rparr>\<rparr>"

definition waiting :: "nat \<Rightarrow> nat \<Rightarrow> kernel \<Rightarrow> kernel" where
  "waiting b p k = asleep (buffer_addr (sym k) b) p (disk_start_operation (submitted b k))"

lemma submitted_frame:
  "proc_table (submitted b k) = proc_table k" "sym (submitted b k) = sym k" "current_process (submitted b k) = current_process k"
  "buffer_cache (submitted b k) = (buffer_cache k)[b := (buffer_cache k ! b)
      \<lparr>buf_flags := buf_flags (buffer_cache k ! b) AND NOT BUFFER_FLAGS_DIRTY, buf_queue := None\<rparr>]"
  "dq_sector (disk_queue (submitted b k)) = 0" "machine (submitted b k) = machine k"
  "round_robin_index (submitted b k) = round_robin_index k"
  by (simp_all add: submitted_def)

lemma submitted_started:
  assumes "process_ok k p" and "disk_idle k b"
  shows "head_buffer (submitted b k) b" and "reading (disk_start_operation (submitted b k)) b"
    and "process_ok (disk_start_operation (submitted b k)) p"
proof -
  have b: "b < length (buffer_cache k)" "dq_head (disk_queue k) = None"
    using assms(2) unfolding disk_idle_def by blast+
  have h: "head_buffer (submitted b k) b" "\<not> dirty (submitted b k) b"
    using assms(1,2) b unfolding head_buffer_def submitted_def
    by (auto simp: disk_idle_def process_ok_def kmap_def sleepers_ok_def pcb_ok_def dirty_def and.assoc)
  show "head_buffer (submitted b k) b" by (rule h)
  note f = start_frame [OF h(1)]
  show r: "reading (disk_start_operation (submitted b k)) b"
    using assms(2) b by (intro start_reading h) (simp add: disk_idle_def submitted_frame)
  show "process_ok (disk_start_operation (submitted b k)) p"
    using assms(1) r sleepers_ok_cong [of k "disk_start_operation (submitted b k)"]
    by (simp add: process_ok_def reading_def head_buffer_def pcb_ok_def f submitted_frame)
qed

lemma waiting_facts:
  assumes "process_ok k p" and "disk_idle k b" and "pcb_frame k p \<noteq> buf_frame (buffer_cache k ! b)"
  shows "reading (waiting b p k) b" and "dq_sector (disk_queue (waiting b p k)) = 0"
    and "buf_queue (buffer_cache (waiting b p k) ! b) = None" and "current_process (waiting b p k) = Some p"
    and "p < MAX_PROC_COUNT" and "sleeps_on (waiting b p k) (buffer_addr (sym (waiting b p k)) b) p"
    and "pcb_frame (waiting b p k) p \<noteq> buf_frame (buffer_cache (waiting b p k) ! b)"
    and "process_ok (waiting b p k) p" and "sym (waiting b p k) = sym k"
    and "buffer_cache (waiting b p k) = (buffer_cache k)[b := (buffer_cache k ! b)
      \<lparr>buf_flags := buf_flags (buffer_cache k ! b) AND NOT BUFFER_FLAGS_DIRTY, buf_queue := None\<rparr>]"
    and "proc_table (waiting b p k) = (proc_table k)[p := (proc_table k ! p)\<lparr>proc_state := PROC_STATE_SLEEPING\<rparr>]"
    and "g \<noteq> pcb_frame k p \<Longrightarrow> i < 4096 \<Longrightarrow> frame_byte (waiting b p k) g i = frame_byte k g i"
    and "disk_file (disk (machine (waiting b p k))) = disk_file (disk (machine k))"
proof -
  note s = submitted_started [OF assms(1,2)]
  note f = start_frame [OF s(1)]
  let ?k5 = "disk_start_operation (submitted b k)"
  have b: "b < length (buffer_cache k)" using assms(2) by (simp add: disk_idle_def)
  have p: "p < MAX_PROC_COUNT" "length (proc_table k) = MAX_PROC_COUNT"
    using assms(1) by (simp_all add: process_ok_def pcb_ok_def kmap_def)
  show "p < MAX_PROC_COUNT" by (rule p)
  show "reading (waiting b p k) b" unfolding waiting_def by (rule reading_asleep [OF s(2,3)])
  show ok: "process_ok (waiting b p k) p" unfolding waiting_def by (rule asleep_ok(1) [OF s(3)])
  show "dq_sector (disk_queue (waiting b p k)) = 0" "buf_queue (buffer_cache (waiting b p k) ! b) = None"
    "current_process (waiting b p k) = Some p" and y: "sym (waiting b p k) = sym k"
    and c: "buffer_cache (waiting b p k) = (buffer_cache k)[b := (buffer_cache k ! b)
      \<lparr>buf_flags := buf_flags (buffer_cache k ! b) AND NOT BUFFER_FLAGS_DIRTY, buf_queue := None\<rparr>]"
    and "disk_file (disk (machine (waiting b p k))) = disk_file (disk (machine k))"
    using b assms(1) by (simp_all add: waiting_def asleep_frame f submitted_frame process_ok_def)
  show t: "proc_table (waiting b p k) = (proc_table k)[p := (proc_table k ! p)\<lparr>proc_state := PROC_STATE_SLEEPING\<rparr>]"
    by (simp add: waiting_def asleep_def set_state_def f submitted_frame pcb_write_def)
  show "sleeps_on (waiting b p k) (buffer_addr (sym (waiting b p k)) b) p"
    unfolding y unfolding waiting_def by (rule asleep_ok(3) [OF s(3)])
  show "pcb_frame (waiting b p k) p \<noteq> buf_frame (buffer_cache (waiting b p k) ! b)"
    using assms(3) p b by (simp add: t c)
  show "frame_byte (waiting b p k) g i = frame_byte k g i" if "g \<noteq> pcb_frame k p" "i < 4096"
    using that by (simp add: waiting_def asleep_frame frame_byte_def f submitted_frame)
qed

lemma alone_waiting:
  assumes "process_ok k p" and "disk_idle k b" and "pcb_frame k p \<noteq> buf_frame (buffer_cache k ! b)" and "alone k p b"
  shows "alone (waiting b p k) p b"
proof -
  note w = waiting_facts [OF assms(1-3)]
  have b: "b < length (buffer_cache k)" using assms(2) by (simp add: disk_idle_def)
  have l: "p < length (proc_table k)" using assms(1) by (simp add: process_ok_def pcb_ok_def kmap_def)
  have q: "proc_table (waiting b p k) ! q = proc_table k ! q" if "q \<noteq> p" for q using that by (simp add: w(11))
  have c: "pcb_word (waiting b p k) q off_channel = pcb_word k q off_channel" if "q \<noteq> p" "pcb_frame k q \<noteq> pcb_frame k p" for q
    using that by (simp add: pcb_word_def pcb_byte_def q w(12))
  have "pcb_frame (waiting b p k) p = pcb_frame k p" "buf_frame (buffer_cache (waiting b p k) ! b) = buf_frame (buffer_cache k ! b)"
    using b l by (simp_all add: w(10,11))
  moreover have "rr_ok (waiting b p k) = rr_ok k"
    by (simp add: rr_ok_def waiting_def asleep_def set_state_def pcb_write_def start_index submitted_frame)
  ultimately show ?thesis using assms(4) q c by (simp add: alone_def w(9) runnable_def)
qed

lemma scheduled_resumed:
  assumes "process_ok k p" and "disk_idle k b" and "pcb_frame k p \<noteq> buf_frame (buffer_cache k ! b)" and "alone k p b"
  shows "resumed p ((disk_round ^^ 8) (waiting b p k)) (scheduled (waiting b p k))"
proof -
  note w = waiting_facts [OF assms(1-3)]
  obtain s k' where "scheduler (replicate 8 disk_round) (waiting b p k) = Some (s, k')" "resumed p ((disk_round ^^ 8) (waiting b p k)) k'"
    using scheduler_resumes [OF w(1-7) alone_waiting [OF assms]] by blast
  then show ?thesis by (simp add: scheduled_def)
qed

lemma waiting_served:
  assumes "process_ok k p" and "disk_idle k b" and "pcb_frame k p \<noteq> buf_frame (buffer_cache k ! b)"
  shows "resumed p ((disk_round ^^ 8) (waiting b p k)) (served p (waiting b p k))"
proof -
  note w = waiting_facts [OF assms]
  have "runnable ((disk_round ^^ 8) (waiting b p k)) p" using read_block(4) [OF w(1-3,5-7)] by (simp add: runnable_def)
  then show ?thesis by (rule served_resumed)
qed

text \<open>The wait \<open>w\<close> is any that comes back as the scheduler does once the process is ready.\<close>

lemma disk_block_read_effect:
  assumes "process_ok k p" and "disk_idle k b" and "pcb_frame k p \<noteq> buf_frame (buffer_cache k ! b)"
    and "resumed p ((disk_round ^^ 8) (waiting b p k)) (w (waiting b p k))"
  defines "k1 \<equiv> disk_block_read b w k"
  shows "i < 4096 \<Longrightarrow> frame_byte k1 (buf_frame (buffer_cache k ! b)) i = image_block k b i"
    and "buffer_cache k1 = (buffer_cache k)[b := (buffer_cache k ! b)\<lparr>buf_queue := None, buf_flags :=
      (buf_flags (buffer_cache k ! b) OR BUFFER_FLAGS_VALID) AND NOT BUFFER_FLAGS_DIRTY\<rparr>]"
    and "dq_head (disk_queue k1) = None" and "kmap k1" and "current_process k1 = Some p"
    and "proc_state (proc_table k1 ! p) = PROC_STATE_RUNING"
proof -
  let ?k6 = "waiting b p k" and ?k7 = "(disk_round ^^ 8) (waiting b p k)"
  note s = submitted_started [OF assms(1,2)] and f6 = waiting_facts [OF assms(1-3)]
  note f = start_frame [OF s(1)]
  have b: "b < length (buffer_cache k)" "dq_head (disk_queue k) = None" using assms(2) by (simp_all add: disk_idle_def)
  note R = read_block [OF f6(1-3)]
  obtain v r where w: "w ?k6 = snd (scheduler_dispatch (Some p) p (clocked v r ?k7))"
    using assms(4) by (auto simp: resumed_def)
  have k7: "kmap (clocked v r ?k7)" "current_process (clocked v r ?k7) = Some p"
    "map kernel_low_memory (proc_table (clocked v r ?k7)) = map kernel_low_memory (proc_table ?k6)"
    using R(6,7) f6(4) by simp_all
  note S = served_effect [OF f6(8) k7]
  have cp: "current_process (w ?k6) = Some p"
    unfolding w by (simp add: scheduler_dispatch_def proc_set_8_def MAP_PCB_def UNMAP_PCB_def map_window_def
        unmap_window_def Let_def split_beta)
  have "sym (disk_start_operation (submitted b k)) = sym k" by (simp add: f submitted_frame)
  then have "k1 = INTER_ON (sleep (buffer_addr (sym k) b) w (disk_start_operation (submitted b k)))"
    using b unfolding k1_def disk_block_read_def disk_submit_def submitted_def
    by (simp add: upd_buffer_def INTER_OFF_def Let_def)
  then have k1: "k1 = INTER_ON (proc_set_16 p off_channel 0 (snd (scheduler_dispatch (Some p) p (clocked v r ?k7))))"
    using sleep_asleep [OF s(3), of "buffer_addr (sym k) b" w] cp w by (simp add: waiting_def [symmetric])
  have pf: "pcb_frame ?k6 p \<noteq> buf_frame (buffer_cache k ! b)" using f6(7) b(1) by (simp add: f6(10))
  show "frame_byte k1 (buf_frame (buffer_cache k ! b)) i = image_block k b i" if "i < 4096"
    using S(1) [OF pf [symmetric] that] R(1) [OF that, of "buf_frame (buffer_cache k ! b)"] b(1)
    unfolding k1 by (simp add: frame_byte_def INTER_ON_def image_block_def f6(10,13))
  show "buffer_cache k1 = (buffer_cache k)[b := (buffer_cache k ! b)\<lparr>buf_queue := None, buf_flags :=
      (buf_flags (buffer_cache k ! b) OR BUFFER_FLAGS_VALID) AND NOT BUFFER_FLAGS_DIRTY\<rparr>]"
    using S(2) R(5) b(1) unfolding k1 by (simp add: clean_flags [simplified] f6(10))
  show "dq_head (disk_queue k1) = None" "kmap k1" "current_process k1 = Some p" "proc_state (proc_table k1 ! p) = PROC_STATE_RUNING"
    using S(3,4,5,7) R(3) unfolding k1 by (simp_all add: INTER_ON_def kmap_def)
qed

text \<open>
  A miss: the buffer at the end of the list is recycled, and the process sleeps once, until the block is in
  its frame.
\<close>

lemma buffer_get_miss:
  assumes "cache_order k xs" and "\<forall>a < CACHE_SIZE. \<not> holds drive blk (buffer_cache k ! a)"
    and "find (\<lambda>b. idle (buffer_cache k ! b)) (rev xs) = Some b"
  shows "buffer_get drive blk ws k = Some (Inr (b, ws, INTER_ON (recycle drive blk b (INTER_OFF k))))"
proof -
  have "find (\<lambda>b. holds drive blk (buffer_cache k ! b)) xs = None"
    using assms(1,2) by (auto simp: find_None_iff cache_order_def)
  then show ?thesis using assms(3) by (simp add: buffer_get_unfold [OF assms(1)])
qed

lemma buffer_read_miss:
  assumes "process_ok k p" and "cache_order k xs" and "\<forall>a < CACHE_SIZE. \<not> holds drive blk (buffer_cache k ! a)"
    and "find (\<lambda>b. idle (buffer_cache k ! b)) (rev xs) = Some b"
    and "dq_head (disk_queue k) = None" and "length (disk_buffer (disk (machine k))) = 512"
    and "buf_frame (buffer_cache k ! b) \<notin> {MMU_FRAME_INVALID, MMU_LAST_FRAME, pcb_frame k p}"
    and "unat blk < 8192" and "unat blk * 4096 + 4096 \<le> length (disk_file (disk (machine k)))"
    and "w = served p \<or> w = scheduled \<and> alone k p b"
  obtains k1 where "buffer_read drive blk (w # ws) k = Some (Inr (b, ws, k1))"
    and "\<And>i. i < 4096 \<Longrightarrow> frame_byte k1 (buf_frame (buffer_cache k1 ! b)) i = disk_file (disk (machine k)) ! (unat blk * 4096 + i)"
    and "holds drive blk (buffer_cache k1 ! b)" and "busy (buffer_cache k1 ! b)"
    and "buf_flags (buffer_cache k1 ! b) AND BUFFER_FLAGS_VALID \<noteq> 0" and "kmap k1"
    and "buf_frame (buffer_cache k1 ! b) = buf_frame (buffer_cache k ! b)"
    and "current_process k1 = Some p" and "proc_state (proc_table k1 ! p) = PROC_STATE_RUNING"
proof -
  define k0 where "k0 = INTER_ON (recycle drive blk b (INTER_OFF k))"
  have b: "b < CACHE_SIZE" using find_bound [OF assms(2)] assms(4) by blast
  have l: "length (buffer_cache k) = 17" by (rule cache_length [OF assms(2)])
  have c0: "buffer_cache k0 = (buffer_cache k)[b := (buffer_cache k ! b)\<lparr>buf_drive := drive,
      buf_block_number := blk, buf_refcount := 1, buf_flags := BUFFER_FLAGS_BUSY\<rparr>]"
    by (simp add: k0_def recycle_def upd_buffer_cache)
  have s0: "machine k0 = machine k" "proc_table k0 = proc_table k" "disk_queue k0 = disk_queue k"
    "current_process k0 = current_process k" "kmap k0 = kmap k" "sleepers_ok k0 = sleepers_ok k"
    "sym k0 = sym k" "round_robin_index k0 = round_robin_index k"
    by (simp_all add: k0_def recycle_def upd_buffer_def INTER_ON_def INTER_OFF_def kmap_def sleepers_ok_def pcb_ok_def)
  have p0: "process_ok k0 p" using assms(1) by (simp add: process_ok_def s0 pcb_ok_def)
  have i0: "disk_idle k0 b" using assms(5-9) b l by (simp add: disk_idle_def s0 c0)
  have f0: "pcb_frame k0 p \<noteq> buf_frame (buffer_cache k0 ! b)" using assms(7) b l by (auto simp: s0 c0)
  have w: "resumed p ((disk_round ^^ 8) (waiting b p k0)) (w (waiting b p k0))"
    using assms(10)
  proof
    assume "w = served p"
    then show ?thesis using waiting_served [OF p0 i0 f0] by simp
  next
    assume a: "w = scheduled \<and> alone k p b"
    have "alone k0 p b"
      using a b l by (simp add: alone_def s0 c0 runnable_def rr_ok_def pcb_word_def pcb_byte_def frame_byte_def)
    then show ?thesis using scheduled_resumed [OF p0 i0 f0] a by simp
  qed
  let ?k2 = "disk_block_read b w k0"
  let ?k1 = "upd_buffer b (\<lambda>x. x\<lparr>buf_flags := buf_flags x OR BUFFER_FLAGS_VALID\<rparr>) ?k2"
  note d = disk_block_read_effect [where w = w, OF p0 i0 f0 w]
  have v: "buf_flags (buffer_cache k0 ! b) AND BUFFER_FLAGS_VALID = 0" using b l by (simp add: c0)
  have r: "buffer_read drive blk (w # ws) k = Some (Inr (b, ws, ?k1))"
    using v by (simp add: buffer_read_def io_bind_result [where act = "buffer_get drive blk" and k = k, OF buffer_get_miss [OF assms(2-4)]] k0_def [symmetric]
        io_then_result io_wait_def) (simp add: io_return_def)
  have c1: "buffer_cache ?k1 ! b = (buffer_cache k0 ! b)\<lparr>buf_queue := None, buf_flags :=
      ((buf_flags (buffer_cache k0 ! b) OR BUFFER_FLAGS_VALID) AND NOT BUFFER_FLAGS_DIRTY) OR BUFFER_FLAGS_VALID\<rparr>"
    using b l unfolding upd_buffer_cache d(2) by (simp add: c0)
  have "frame_byte ?k1 g i = frame_byte ?k2 g i" for g i by (simp add: frame_byte_def upd_buffer_def)
  then have "frame_byte ?k1 (buf_frame (buffer_cache ?k1 ! b)) i = disk_file (disk (machine k)) ! (unat blk * 4096 + i)"
    if "i < 4096" for i using d(1) [OF that] b l by (simp add: c1 image_block_def s0 c0)
  moreover have "kmap ?k1" using d(4) by (simp add: kmap_def upd_buffer_def)
  moreover have "current_process ?k1 = Some p" "proc_state (proc_table ?k1 ! p) = PROC_STATE_RUNING"
    using d(5,6) by (simp_all add: upd_buffer_def)
  moreover have "holds drive blk (buffer_cache ?k1 ! b)" "busy (buffer_cache ?k1 ! b)"
    "buf_flags (buffer_cache ?k1 ! b) AND BUFFER_FLAGS_VALID \<noteq> 0"
    "buf_frame (buffer_cache ?k1 ! b) = buf_frame (buffer_cache k ! b)"
    using b l unfolding c1 by (simp_all add: c0)
  ultimately show ?thesis using that [OF r] by blast
qed

text \<open>A hit: the buffer is locked and nothing else happens.\<close>

lemma buffer_get_hit:
  assumes "cache_inv k" and "drive \<noteq> 0" and "b < CACHE_SIZE" and "holds drive blk (buffer_cache k ! b)"
    and "\<not> busy (buffer_cache k ! b)"
  shows "buffer_get drive blk ws k = Some (Inr (b, ws, INTER_ON (lock_hit b (INTER_OFF k))))"
proof -
  obtain xs where o: "cache_order k xs" using assms(1) by (auto simp: cache_inv_def)
  let ?P = "\<lambda>b. holds drive blk (buffer_cache k ! b)"
  obtain h where f: "find ?P xs = Some h" using find_none [OF o, of ?P b] assms(3,4) by fastforce
  have h: "h < CACHE_SIZE" "?P h" using find_bound [OF o, of ?P h] f by blast+
  have "h = b" using cache_inv_data(2) [OF assms(1,3), of h] h assms(2,4) by auto
  then show ?thesis using assms(5) f by (simp add: buffer_get_unfold [OF o])
qed

lemma buffer_read_hit:
  assumes "cache_inv k" and "drive \<noteq> 0" and "b < CACHE_SIZE" and "holds drive blk (buffer_cache k ! b)"
    and "\<not> busy (buffer_cache k ! b)" and "buf_flags (buffer_cache k ! b) AND BUFFER_FLAGS_VALID \<noteq> 0"
  shows "buffer_read drive blk ws k = Some (Inr (b, ws, INTER_ON (lock_hit b (INTER_OFF k))))"
proof -
  note g = buffer_get_hit [OF assms(1-5), of ws]
  have "length (buffer_cache k) = 17" using assms(1) by (auto simp: cache_inv_def dest: cache_length)
  then have "buf_flags (buffer_cache (INTER_ON (lock_hit b (INTER_OFF k))) ! b) AND BUFFER_FLAGS_VALID \<noteq> 0"
    using assms(3,6) by (simp add: lock_hit_def upd_buffer_cache byte_bits bit_or_iff)
  then show ?thesis by (simp add: buffer_read_def io_bind_result [where act = "buffer_get drive blk" and k = k, OF g]) (simp add: io_return_def)
qed

section \<open>The cache as its clients see it\<close>

text \<open>
  Interface of a block cache: a request gives a locked slot that holds the block, a release unlocks the slot and
  leaves the block in it, and a request for a block in an unlocked slot gives that slot.
\<close>

locale block_cache =
  fixes get :: "'b \<Rightarrow> 's \<Rightarrow> (nat \<times> 's) option"
    and release :: "nat \<Rightarrow> 's \<Rightarrow> 's option"
    and inv :: "'s \<Rightarrow> bool"
    and locked :: "'s \<Rightarrow> nat \<Rightarrow> bool"
    and slot :: "nat \<Rightarrow> bool"
    and content :: "'s \<Rightarrow> nat \<Rightarrow> 'b"
    and block_ok :: "'b \<Rightarrow> bool"
  assumes get_locks: "inv s \<Longrightarrow> block_ok n \<Longrightarrow> get n s = Some (b, s') \<Longrightarrow>
      inv s' \<and> slot b \<and> locked s' b \<and> content s' b = n"
    and release_unlocks: "inv s \<Longrightarrow> slot b \<Longrightarrow> locked s b \<Longrightarrow>
      \<exists>s'. release b s = Some s' \<and> inv s' \<and> \<not> locked s' b \<and> content s' b = content s b"
    and get_hit: "inv s \<Longrightarrow> slot b \<Longrightarrow> block_ok (content s b) \<Longrightarrow> \<not> locked s b \<Longrightarrow>
      \<exists>s'. get (content s b) s = Some (b, s')"
begin

lemma get_again:
  assumes "inv s" and "block_ok n" and "get n s = Some (b, s1)"
  obtains s2 s3 where "release b s1 = Some s2" and "inv s2" and "get n s2 = Some (b, s3)" and "inv s3" and "locked s3 b"
proof -
  have g: "inv s1" "slot b" "locked s1 b" "content s1 b = n" using get_locks [OF assms] by blast+
  obtain s2 where r: "release b s1 = Some s2" "inv s2" "\<not> locked s2 b" "content s2 b = n"
    using release_unlocks [OF g(1-3)] g(4) by auto
  then obtain s3 where h: "get n s2 = Some (b, s3)" using get_hit [OF r(2) g(2) _ r(3)] assms(2) by auto
  show ?thesis using that [OF r(1,2) h] get_locks [OF r(2) assms(2) h] by blast
qed

end

text \<open>The kernel's cache for requests that need not wait.\<close>

definition get_now :: "uint8 \<times> uint16 \<Rightarrow> kernel \<Rightarrow> (nat \<times> kernel) option" where
  "get_now n k = (case buffer_get (fst n) (snd n) [] k of Some (Inr (b, ws, k1)) \<Rightarrow> Some (b, k1) | _ \<Rightarrow> None)"

definition release_now :: "nat \<Rightarrow> kernel \<Rightarrow> kernel option" where
  "release_now b k = (case buffer_release b k of Inr k1 \<Rightarrow> Some k1 | Inl e \<Rightarrow> None)"

definition cached_block :: "kernel \<Rightarrow> nat \<Rightarrow> uint8 \<times> uint16" where
  "cached_block k b = (buf_drive (buffer_cache k ! b), buf_block_number (buffer_cache k ! b))"

lemma cached_block_holds: "cached_block k b = n \<longleftrightarrow> holds (fst n) (snd n) (buffer_cache k ! b)"
  by (cases n) (auto simp: cached_block_def)

lemma get_now_get:
  assumes "get_now n k = Some (b, k1)"
  obtains ws where "buffer_get (fst n) (snd n) [] k = Some (Inr (b, ws, k1))"
  using assms that by (auto simp: get_now_def split: option.splits sum.splits)

interpretation kernel_cache: block_cache get_now release_now cache_inv
  "\<lambda>k b. busy (buffer_cache k ! b)" "\<lambda>b. b < CACHE_SIZE" cached_block "\<lambda>n. fst n \<noteq> 0"
proof
  fix k b k1 and n :: "uint8 \<times> uint16"
  assume a: "cache_inv k" "fst n \<noteq> 0" "get_now n k = Some (b, k1)"
  obtain ws where g: "buffer_get (fst n) (snd n) [] k = Some (Inr (b, ws, k1))" by (rule get_now_get [OF a(3)])
  show "cache_inv k1 \<and> b < CACHE_SIZE \<and> busy (buffer_cache k1 ! b) \<and> cached_block k1 b = n"
    unfolding cached_block_holds using buffer_get_inv [OF _ a(2,1) g] by simp
next
  fix k b
  assume a: "cache_inv k" "b < CACHE_SIZE" "busy (buffer_cache k ! b)"
  obtain xs where o: "cache_order k xs" using a(1) by (auto simp: cache_inv_def)
  show "\<exists>k1. release_now b k = Some k1 \<and> cache_inv k1 \<and> \<not> busy (buffer_cache k1 ! b) \<and> cached_block k1 b = cached_block k b"
    unfolding cached_block_holds
    by (rule buffer_release_effect [OF a(1) o a(2,3)]) (auto simp: release_now_def cached_block_def)
next
  fix k b
  assume a: "cache_inv k" "b < CACHE_SIZE" "fst (cached_block k b) \<noteq> 0" "\<not> busy (buffer_cache k ! b)"
  let ?d = "buf_drive (buffer_cache k ! b)" and ?n = "buf_block_number (buffer_cache k ! b)"
  have d: "?d \<noteq> 0" using a(3) by (simp add: cached_block_def)
  have "buffer_get ?d ?n [] k = Some (Inr (b, [], INTER_ON (lock_hit b (INTER_OFF k))))"
    by (rule buffer_get_hit [OF a(1) d a(2) _ a(4)]) simp
  then show "\<exists>k1. get_now (cached_block k b) k = Some (b, k1)" by (simp add: get_now_def cached_block_def)
qed

end
