(* ===== verification/Kernel_Bitmap.thy ===== *)
theory Kernel_Bitmap
  imports Kernel_Fetch
begin

text \<open>
  Allocation of disk blocks (the second half of \<^verbatim>\<open>buffer.c\<close>): the bitmap of used blocks is read through the
  cache, scanned through window 2 and written back. The loops over the bytes of a bitmap block and the bits of
  a byte count the iterations left; the loop over the bitmap blocks advances a 16-bit block number by 32768
  and need not end.
\<close>

section \<open>The bitmap\<close>

definition BIT_B_BLOCK :: "uint16 \<Rightarrow> Super_Block \<Rightarrow> uint16" where
  "BIT_B_BLOCK b sb = b div BITS_PER_BLOCK + sb_bitmap_start sb"

fun alloc_bit :: "nat \<Rightarrow> nat \<Rightarrow> nat \<Rightarrow> uint16 \<Rightarrow> kernel \<Rightarrow> uint16 option \<times> kernel" where
  "alloc_bit 0 bt byte block k = (None, k)"
| "alloc_bit (Suc n) bt byte block k =
     (let mask = push_bit bt 1 :: uint8;
          (v, k1) = MMIO8_read (WINDOW2 + of_nat byte) k
      in if v AND mask = 0
         then (let found = block + of_nat byte * 8 + of_nat bt
               in if found \<ge> sb_size (super_block k1) then (None, k1)
                  else (let (u, k2) = MMIO8_read (WINDOW2 + of_nat byte) k1
                        in (Some found, MMIO8_write (WINDOW2 + of_nat byte) (u OR mask) k2)))
         else alloc_bit n (Suc bt) byte block k1)"

fun alloc_byte :: "nat \<Rightarrow> nat \<Rightarrow> uint16 \<Rightarrow> kernel \<Rightarrow> uint16 option \<times> kernel" where
  "alloc_byte 0 byte block k = (None, k)"
| "alloc_byte (Suc n) byte block k =
     (let (v, k1) = MMIO8_read (WINDOW2 + of_nat byte) k
      in if v = 0xFF then alloc_byte n (Suc byte) block k1
         else (case alloc_bit 8 0 byte block k1 of
                 (Some found, k2) \<Rightarrow> (Some found, k2)
               | (None, k2) \<Rightarrow> alloc_byte n (Suc byte) block k2))"

definition alloc_scan :: "nat \<Rightarrow> uint16 \<Rightarrow> kernel \<Rightarrow> uint16 option \<times> kernel" where
  "alloc_scan b block k =
     (let (_, old_frame, k1) = map_window 2 (buf_frame (buffer_cache k ! b)) k;
          (found, k2) = alloc_byte BLOCK_SIZE 0 block k1
      in (found, unmap_window 2 old_frame k2))"

definition zero_frame :: "nat \<Rightarrow> kernel \<Rightarrow> kernel" where
  "zero_frame b k =
     (let (_, old_frame, k1) = map_window 2 (buf_frame (buffer_cache k ! b)) k
      in unmap_window 2 old_frame (write_bytes WINDOW2 (replicate BLOCK_SIZE 0) k1))"

definition block_zero :: "uint8 \<Rightarrow> uint16 \<Rightarrow> unit io" where
  "block_zero drive block =
     io_bind (buffer_read drive block) (\<lambda>b.
       io_then (io_do (zero_frame b)) (io_then (buffer_write b) (io_try (buffer_release b))))"

partial_function (option) block_alloc_loop ::
  "uint8 \<Rightarrow> uint16 \<Rightarrow> waits \<Rightarrow> kernel \<Rightarrow> (uint16 \<times> waits \<times> kernel) kresult option" where
  "block_alloc_loop drive block ws k =
     (if block < sb_size (super_block k)
      then io_bind (buffer_read drive (BIT_B_BLOCK block (super_block k))) (\<lambda>b.
           io_bind (io_run (alloc_scan b block)) (\<lambda>r.
             case r of
               Some found \<Rightarrow>
                 io_then (buffer_write b)
                   (io_then (io_try (buffer_release b))
                     (io_then (block_zero drive found) (io_return found)))
             | None \<Rightarrow>
                 io_then (io_try (buffer_release b)) (block_alloc_loop drive (block + BITS_PER_BLOCK)))) ws k
      else io_then (LOG ''kernel/buffer.c'' 176 [] []) (io_return 0) ws k)"

definition block_alloc :: "uint8 \<Rightarrow> uint16 io" where
  "block_alloc drive = block_alloc_loop drive 0"

definition free_bit :: "nat \<Rightarrow> uint16 \<Rightarrow> kernel \<Rightarrow> kernel kresult" where
  "free_bit b block k =
     (let bit_offset = block mod BITS_PER_BLOCK;
          byte = drop_bit 3 bit_offset;
          bt = unat (ucast bit_offset AND 7 :: uint8);
          mask = push_bit bt 1 :: uint8;
          (_, old_frame, k1) = map_window 2 (buf_frame (buffer_cache k ! b)) k;
          (v, k2) = MMIO8_read (WINDOW2 + byte) k1
      in if v AND mask = 0 then Inl (Panic ''block_free'')
         else
           (let (u, k3) = MMIO8_read (WINDOW2 + byte) k2
            in Inr (unmap_window 2 old_frame (MMIO8_write (WINDOW2 + byte) (u AND NOT mask) k3))))"

definition block_free :: "uint8 \<Rightarrow> uint16 \<Rightarrow> unit io" where
  "block_free drive block =
     io_bind (io_get (\<lambda>k. BIT_B_BLOCK block (super_block k))) (\<lambda>n.
     io_bind (buffer_read drive n) (\<lambda>b.
       io_then (io_try (free_bit b block)) (io_then (buffer_write b) (io_try (buffer_release b)))))"

section \<open>What a scan finds\<close>

text \<open>Bit \<open>n\<close> of the bitmap in a frame, and the frame with a bit changed.\<close>

definition used :: "kernel \<Rightarrow> frame_t \<Rightarrow> nat \<Rightarrow> bool" where
  "used k f n = bit (frame_byte k f (n div 8)) (n mod 8)"

definition with_bit :: "frame_t \<Rightarrow> nat \<Rightarrow> bool \<Rightarrow> kernel \<Rightarrow> kernel" where
  "with_bit f n v k = k\<lparr>machine := (machine k)\<lparr>ram := ram_write f (n div 8)
     [if v then set_bit (n mod 8) (frame_byte k f (n div 8)) else unset_bit (n mod 8) (frame_byte k f (n div 8))]
     (ram (machine k))\<rparr>\<rparr>"

lemma frame_byte_with_bit:
  assumes "n < 32768" and "j < 4096"
  shows "frame_byte (with_bit f n v k) g j =
    (if g = f \<and> j = n div 8 then
       if v then set_bit (n mod 8) (frame_byte k f j) else unset_bit (n mod 8) (frame_byte k f j)
     else frame_byte k g j)"
proof -
  have "n div 8 \<le> j \<and> j < n div 8 + 1 \<longleftrightarrow> j = n div 8" by linarith
  then show ?thesis using assms by (auto simp: with_bit_def frame_byte_def)
qed

lemma used_with_bit:
  assumes "n < 32768" and "m < 32768"
  shows "used (with_bit f n v k) g m = (if g = f \<and> m = n then v else used k g m)"
proof -
  have "m div 8 = n div 8 \<Longrightarrow> m mod 8 = n mod 8 \<Longrightarrow> m = n" by (metis div_mult_mod_eq)
  then show ?thesis
    using assms by (auto simp: used_def frame_byte_with_bit bit_set_bit_iff bit_unset_bit_iff)
qed

text \<open>Whether a block is free, for a bitmap block that starts at block number \<open>base\<close>.\<close>

definition free_block :: "kernel \<Rightarrow> frame_t \<Rightarrow> uint16 \<Rightarrow> nat \<Rightarrow> bool" where
  "free_block k f base n \<longleftrightarrow> \<not> used k f n \<and> unat base + n < unat (sb_size (super_block k))"

text \<open>A window on a bitmap.\<close>

definition on_bitmap :: "frame_t \<Rightarrow> kernel \<Rightarrow> bool" where
  "on_bitmap f k \<longleftrightarrow> window 2 f (machine k)"

lemma bitmap_access:
  assumes "on_bitmap f k" and "i < 4096"
  shows "MMIO8_read (WINDOW2 + of_nat i) k = (frame_byte k f i, k)"
    and "MMIO8_write (WINDOW2 + of_nat i) v k = k\<lparr>machine := (machine k)\<lparr>ram := ram_write f i [v] (ram (machine k))\<rparr>\<rparr>"
proof -
  have w: "WINDOW2 + of_nat i = of_nat (4096 * 2 + i)" by simp
  note a = window_access [of 2 i f "machine k", unfolded w [symmetric]]
  show "MMIO8_read (WINDOW2 + of_nat i) k = (frame_byte k f i, k)"
    using a(1) assms by (simp add: MMIO8_read_def frame_byte_def on_bitmap_def)
  show "MMIO8_write (WINDOW2 + of_nat i) v k = k\<lparr>machine := (machine k)\<lparr>ram := ram_write f i [v] (ram (machine k))\<rparr>\<rparr>"
    using window_write_bytes [of 2 i "[v]" f k, unfolded w [symmetric]] assms by (simp add: on_bitmap_def)
qed

lemma and_mask_bit: "(v :: uint8) AND push_bit j 1 = 0 \<longleftrightarrow> \<not> bit v j" if "j < 8"
  using that by (auto simp: push_bit_of_1 and_exp_eq_0_iff_not_bit)

lemma found_number:
  fixes base :: uint16
  assumes "unat base + n < 65536" and "n = byte * 8 + bt"
  shows "base + of_nat byte * 8 + of_nat bt = of_nat (unat base + n)"
    and "base + of_nat byte * 8 + of_nat bt \<ge> size16 \<longleftrightarrow> unat size16 \<le> unat base + n"
proof -
  show e: "base + of_nat byte * 8 + of_nat bt = of_nat (unat base + n)" by (simp add: assms(2) ac_simps)
  show "base + of_nat byte * 8 + of_nat bt \<ge> size16 \<longleftrightarrow> unat size16 \<le> unat base + n"
    unfolding e word_le_nat_alt unat_of_nat_range(2) [OF assms(1)] ..
qed

lemma alloc_bit_result:
  assumes "on_bitmap f k" and "i < 4096" and "unat base + 32768 \<le> 65536"
  shows "bt + n = 8 \<Longrightarrow> alloc_bit n bt i base k =
    (case find (free_block k f base) [i * 8 + bt..<i * 8 + 8] of
       None \<Rightarrow> (None, k)
     | Some m \<Rightarrow> (Some (of_nat (unat base + m)), with_bit f m True k))"
proof (induction n arbitrary: bt)
  case 0
  then show ?case by simp
next
  case (Suc n)
  let ?m = "i * 8 + bt"
  have m: "?m div 8 = i" "?m mod 8 = bt" "?m < 32768" using Suc.prems assms(2) by auto
  have b: "bt < 8" "unat base + ?m < 65536" using Suc.prems m(3) assms(3) by linarith+
  have u: "[?m..<i * 8 + 8] = ?m # [i * 8 + Suc bt..<i * 8 + 8]" using b(1) by (simp add: upt_conv_Cons)
  note r = bitmap_access [OF assms(1,2)]
  note fn = found_number(1) [OF b(2) refl] found_number(2) [OF b(2) refl, of "sb_size (super_block k)"]
  show ?case
  proof (cases "used k f ?m")
    case True
    then have "bit (frame_byte k f i) bt" by (simp only: used_def m)
    then show ?thesis
      using Suc.IH [of "Suc bt"] Suc.prems True and_mask_bit [OF b(1)] unfolding u
      by (simp add: r Let_def free_block_def)
  next
    case False
    then have nb: "\<not> bit (frame_byte k f i) bt" by (simp only: used_def m) simp
    show ?thesis
    proof (cases "unat base + ?m < unat (sb_size (super_block k))")
      case True
      have "frame_byte k f i OR push_bit bt 1 = set_bit bt (frame_byte k f i)" by (simp add: set_bit_eq_or)
      then have w: "with_bit f ?m True k = MMIO8_write (WINDOW2 + of_nat i) (frame_byte k f i OR push_bit bt 1) k"
        unfolding with_bit_def m r(2) by simp
      show ?thesis
        using True False nb and_mask_bit [OF b(1)] fn unfolding u
        by (simp add: r(1) Let_def free_block_def w not_le)
    next
      case beyond: False
      then have "find (free_block k f base) [?m..<i * 8 + 8] = None"
        by (auto simp: find_None_iff free_block_def)
      then show ?thesis
        using nb and_mask_bit [OF b(1)] fn(2) beyond by (simp add: r(1) Let_def)
    qed
  qed
qed

lemma find_append: "find P (xs @ ys) = (case find P xs of None \<Rightarrow> find P ys | Some x \<Rightarrow> Some x)"
  by (induction xs) auto

lemma full_byte: "v = (0xFF :: uint8) \<longleftrightarrow> (\<forall>j < 8. bit v j)"
proof -
  have "bit v n = bit (0xFF :: uint8) n" if "\<forall>j < 8. bit v j" for n
    using that by (cases "n < 8") (auto simp: mask8 bit_simps dest: bit_imp_le_length)
  moreover have "bit (0xFF :: uint8) j" if "j < 8" for j using that by (simp add: mask8 bit_simps)
  ultimately show ?thesis by (metis bit_word_eqI)
qed

lemma alloc_byte_result:
  assumes "on_bitmap f k" and "unat base + 32768 \<le> 65536"
  shows "i + n = 4096 \<Longrightarrow> alloc_byte n i base k =
    (case find (free_block k f base) [i * 8..<32768] of
       None \<Rightarrow> (None, k)
     | Some m \<Rightarrow> (Some (of_nat (unat base + m)), with_bit f m True k))"
proof (induction n arbitrary: i)
  case 0
  then show ?case by simp
next
  case (Suc n)
  have i: "i < 4096" using Suc.prems by simp
  note r = bitmap_access(1) [OF assms(1) i]
  have b: "alloc_bit 8 0 i base k =
    (case find (free_block k f base) [i * 8..<i * 8 + 8] of
       None \<Rightarrow> (None, k) | Some m \<Rightarrow> (Some (of_nat (unat base + m)), with_bit f m True k))"
    using alloc_bit_result [OF assms(1) i assms(2), of 0 8] by simp
  have u: "[i * 8..<32768] = [i * 8..<i * 8 + 8] @ [Suc i * 8..<32768]"
    using i upt_add_eq_append [of "i * 8" "i * 8 + 8" "32768 - (i * 8 + 8)"] by (simp add: add.commute)
  have "find (free_block k f base) [i * 8..<i * 8 + 8] = None" if v: "frame_byte k f i = 0xFF"
  proof -
    have "used k f m" if "i * 8 \<le> m" "m < i * 8 + 8" for m
    proof -
      have "m div 8 = i" using that by linarith
      then show ?thesis using v full_byte [of "frame_byte k f i"] by (simp add: used_def)
    qed
    then show ?thesis by (auto simp: find_None_iff free_block_def)
  qed
  then show ?case
    using Suc.IH [of "Suc i"] Suc.prems b r unfolding u find_append
    by (auto simp: Let_def split: option.split)
qed

lemma alloc_scan_effect:
  assumes "kmap k" and "f = buf_frame (buffer_cache k ! b)" and "f \<notin> {MMU_FRAME_INVALID, MMU_LAST_FRAME}"
    and "unat base + 32768 \<le> 65536"
  shows "alloc_scan b base k =
    (case find (free_block k f base) [0..<32768] of
       None \<Rightarrow> (None, k)
     | Some m \<Rightarrow> (Some (of_nat (unat base + m)), with_bit f m True k))"
proof -
  obtain w old k1 where m: "map_window 2 f k = (w, old, k1)" by (metis prod_cases3)
  note mw = map_window_window [OF assms(1) _ assms(3) m]
  have on: "on_bitmap f k1" using mw(1) by (simp add: on_bitmap_def)
  have sb: "super_block k1 = super_block k"
    using m by (auto simp: map_window_def install_window_def set_low_memory_def MMIO8_write_def Let_def split: option.splits)
  have fb: "frame_byte k1 = frame_byte k" using mw(3) by (simp add: frame_byte_def fun_eq_iff)
  have fr: "free_block k1 f base = free_block k f base" by (simp add: free_block_def used_def fb sb fun_eq_iff)
  note a = alloc_byte_result [OF on assms(4), of 0 4096, unfolded fr]
  have "unmap_window 2 old (with_bit f n True k1) = with_bit f n True k" if "n < 32768" for n
    using unmap_map [OF assms(1) _ m] mw(3) by (simp add: with_bit_def fb)
  moreover have "n < 32768" if "find (free_block k f base) [0..<32768] = Some n" for n
    using find_SomeD [OF that] by simp
  moreover have "unmap_window 2 old k1 = k" by (rule window_bytes_read(2) [OF assms(1) _ assms(3) m, of 0 0]) simp_all
  ultimately show ?thesis
    using a m by (auto simp: alloc_scan_def assms(2) [symmetric] Let_def split: option.split)
qed

lemma bit_position:
  "drop_bit 3 (block mod 0x8000 :: uint16) = of_nat (unat block mod 32768 div 8)"
  "unat (ucast (block mod 0x8000 :: uint16) AND 7 :: uint8) = unat block mod 32768 mod 8"
proof -
  have m: "unat (block mod 0x8000) = unat block mod 32768" by (simp add: unat_mod)
  show "drop_bit 3 (block mod 0x8000 :: uint16) = of_nat (unat block mod 32768 div 8)"
    by (simp add: word_unat_eq_iff unat_drop_bit m)
  have s: "(7 :: uint8) = mask 3" by (simp add: mask_eq_exp_minus_1)
  have "unat (ucast (block mod 0x8000) AND 7 :: uint8) = unat (ucast (block mod 0x8000) :: uint8) mod 8"
    unfolding s take_bit_eq_mask [symmetric] unsigned_take_bit_eq take_bit_eq_mod by (simp add: unat_mod)
  also have "\<dots> = unat block mod 32768 mod 256 mod 8"
    by (simp add: unsigned_ucast_eq m take_bit_eq_mod)
  also have "\<dots> = unat block mod 32768 mod 8" by (simp add: mod_mod_cancel)
  finally show "unat (ucast (block mod 0x8000 :: uint16) AND 7 :: uint8) = unat block mod 32768 mod 8" .
qed

lemma free_bit_effect:
  assumes "kmap k" and "f = buf_frame (buffer_cache k ! b)" and "f \<notin> {MMU_FRAME_INVALID, MMU_LAST_FRAME}"
  shows "free_bit b block k =
    (let n = unat block mod 32768 in if used k f n then Inr (with_bit f n False k) else Inl (Panic ''block_free''))"
proof -
  let ?n = "unat block mod 32768"
  obtain w old k1 where m: "map_window 2 f k = (w, old, k1)" by (metis prod_cases3)
  note mw = map_window_window [OF assms(1) _ assms(3) m]
  have on: "on_bitmap f k1" using mw(1) by (simp add: on_bitmap_def)
  have fb: "frame_byte k1 = frame_byte k" using mw(3) by (simp add: frame_byte_def fun_eq_iff)
  have n: "?n div 8 < 4096" "?n < 32768" by auto
  have byte: "drop_bit 3 (block mod 0x8000) = of_nat (?n div 8)" and
    bt: "unat (ucast (block mod 0x8000) AND 7 :: uint8) = ?n mod 8"
    using bit_position [of block] by simp_all
  note r = bitmap_access [OF on n(1)]
  have nb: "u AND NOT (2 ^ (?n mod 8)) = unset_bit (?n mod 8) u" for u :: uint8
    by (simp add: unset_bit_eq_and_not)
  have "unmap_window 2 old (with_bit f ?n False k1) = with_bit f ?n False k"
    using unmap_map [OF assms(1) _ m] mw(3) by (simp add: with_bit_def fb)
  then have "unmap_window 2 old (MMIO8_write (WINDOW2 + of_nat (?n div 8)) (unset_bit (?n mod 8) (frame_byte k f (?n div 8))) k1) =
      with_bit f ?n False k"
    unfolding r(2) by (simp add: with_bit_def fb)
  then show ?thesis
    using m r(1) and_mask_bit [of "?n mod 8" "frame_byte k f (?n div 8)"] unfolding free_bit_def Let_def byte bt
    by (simp add: assms(2) [symmetric] nb used_def fb)
qed

end
