(* ===== verification/Kernel_Trap.thy ===== *)
theory Kernel_Trap
  imports Kernel_Console Kernel_Bitmap Kernel_Sbrk
begin

text \<open>
  Mounting the file system (\<^verbatim>\<open>fs.c\<close>), the system call table (\<^verbatim>\<open>syscall.c\<close>), the trap handlers (\<^verbatim>\<open>trap.c\<close>) and the
  start of the kernel (\<^verbatim>\<open>main.c\<close>). The handlers run between the trampoline's entry, which has saved the user's
  registers and page table in the life raft (\<open>user_context\<close>, \<open>user_page_table\<close>), and its return to the user.
\<close>

section \<open>Mounting\<close>

text \<open>The super block is copied byte by byte; its members are little endian, without padding.\<close>

definition word_at :: "uint8 list \<Rightarrow> nat \<Rightarrow> uint16" where
  "word_at bs i = mk_word (bs ! Suc i) (bs ! i)"

definition super_block_of :: "uint8 list \<Rightarrow> Super_Block" where
  "super_block_of bs =
     \<lparr>sb_magic = argument_32 bs, sb_size = word_at bs 4, sb_block_count = word_at bs 6,
      sb_inode_count = word_at bs 8, sb_inode_start = word_at bs 10, sb_bitmap_start = word_at bs 12\<rparr>"

definition load_super_block :: "nat \<Rightarrow> kernel \<Rightarrow> kernel" where
  "load_super_block b k =
     (let (_, old_frame, k1) = map_window 2 (buf_frame (buffer_cache k ! b)) k;
          (bytes, k2) = read_bytes WINDOW2 14 k1;
          k3 = k2\<lparr>super_block := super_block_of bytes\<rparr>
      in unmap_window 2 old_frame k3)"

definition store_message :: "uint8 list \<Rightarrow> nat \<Rightarrow> kernel \<Rightarrow> kernel" where
  "store_message s b k =
     (let (_, old_frame, k1) = map_window 2 (buf_frame (buffer_cache k ! b)) k
      in unmap_window 2 old_frame (write_bytes WINDOW2 s k1))"

definition message_block :: "uint8 \<Rightarrow> uint8 list \<Rightarrow> unit io" where
  "message_block drive s =
     io_bind (block_alloc drive) (\<lambda>block.
     io_bind (buffer_read drive block) (\<lambda>b.
       io_then (io_do (store_message s b)) (io_then (buffer_write b) (io_try (buffer_release b)))))"

definition fs_init :: "uint8 \<Rightarrow> unit io" where
  "fs_init drive =
     io_then (io_do (\<lambda>k. k\<lparr>devsw_table := (devsw_table k)[DEVICE_MAJOR_DISK := Some fs_ops]\<rparr>))
       (io_bind (buffer_read drive SUPER_BLOCK_BLOCK) (\<lambda>b.
         io_then (io_do (load_super_block b))
           (io_then (io_try (buffer_release b))
             (io_bind (io_get (\<lambda>k. sb_magic (super_block k))) (\<lambda>magic.
                if magic \<noteq> FS_MAGIC then io_panic ''fs_init''
                else
                  io_then (message_block drive (chars ''Hello from the kernel to disk!'' @ [0x0A]))
                    (message_block drive (chars ''and i wrote this to disk to!!!'' @ [0x0A])))))))"

section \<open>The system call table\<close>

abbreviation SYS_FORK :: uint8 where "SYS_FORK \<equiv> 0x46"
abbreviation SYS_EXIT :: uint8 where "SYS_EXIT \<equiv> 0x45"
abbreviation SYS_WAIT :: uint8 where "SYS_WAIT \<equiv> 0x57"
abbreviation SYS_KILL :: uint8 where "SYS_KILL \<equiv> 0x4B"
abbreviation SYS_SBRK :: uint8 where "SYS_SBRK \<equiv> 0x42"
abbreviation SYS_SLEEP :: uint8 where "SYS_SLEEP \<equiv> 0x53"
abbreviation SYS_GETPID :: uint8 where "SYS_GETPID \<equiv> 0x47"
abbreviation SYS_OPEN :: uint8 where "SYS_OPEN \<equiv> 0x6F"
abbreviation SYS_CLOSE :: uint8 where "SYS_CLOSE \<equiv> 0x63"
abbreviation SYS_READ :: uint8 where "SYS_READ \<equiv> 0x72"
abbreviation SYS_WRITE :: uint8 where "SYS_WRITE \<equiv> 0x77"
abbreviation SYS_IOCTL :: uint8 where "SYS_IOCTL \<equiv> 0x69"

definition syscall_init :: "kernel \<Rightarrow> kernel" where
  "syscall_init k =
     k\<lparr>syscalls_table := (syscalls_table k)
        (SYS_FORK := Some SysFork, SYS_EXIT := Some SysExit, SYS_WAIT := Some SysWait, SYS_KILL := Some SysKill,
         SYS_SBRK := Some SysSbrk, SYS_SLEEP := Some SysSleep, SYS_GETPID := Some SysGetpid,
         SYS_CLOSE := Some SysClose, SYS_OPEN := Some SysOpen, SYS_WRITE := Some SysWrite,
         SYS_READ := Some SysRead, SYS_IOCTL := Some SysIoctl)\<rparr>"

section \<open>Entry and exit\<close>

text \<open>
  A handler returns to the user, or the process has exited in it: \<^verbatim>\<open>sys_exit\<close> ends with a call of the scheduler, which
  never picks a zombie and so does not return to it (the panic behind that call is not reached). In that case the
  result is the state in which the scheduler is called.
\<close>

datatype outcome = Returns | Exits

definition exit_process :: "outcome io" where
  "exit_process = io_then (io_try sys_exit) (io_return Exits)"

text \<open>The test for a pending kill: the pid is only read when the flag is set; process 1 is never killed.\<close>

definition killed_now :: "kernel \<Rightarrow> bool \<times> kernel" where
  "killed_now k =
     (let (v, k1) = proc_get_16 (cur k) off_killed k
      in if v \<noteq> 0 then (let (pid, k2) = proc_get_16 (cur k1) off_pid k1 in (pid \<noteq> 1, k2)) else (False, k1))"

definition die :: "uint16 \<Rightarrow> outcome io" where
  "die line =
     io_then (LOG ''kernel/trap.c'' line [] [])
       (io_then (io_do (\<lambda>k. proc_set_8 (cur k) off_ctx_a 1 k)) exit_process)"

definition save_trap_frame :: "kernel \<Rightarrow> kernel" where
  "save_trap_frame k =
     (let k1 = proc_write_bytes (cur k) off_ctx (user_context k) k;
          k2 = proc_write_bytes (cur k1) off_page_table (user_page_table k1) k1
      in k2\<lparr>proc_table := (proc_table k2)[cur k2 := (proc_table k2 ! cur k2)
           \<lparr>kernel_low_memory := take 3 (kernel_page_table k2)\<rparr>]\<rparr>)"

definition kernel_prologue :: "outcome io" where
  "kernel_prologue =
     io_bind (io_run killed_now) (\<lambda>killed.
       if killed then die 202
       else
         io_then (io_do save_trap_frame)
           (io_bind (io_get first_entry) (\<lambda>first.
              if first
              then io_then (io_do (\<lambda>k. k\<lparr>first_entry := False\<rparr>)) (io_then (fs_init ROOT_DRIVE) (io_return Returns))
              else io_return Returns)))"

definition load_trap_frame :: "kernel \<Rightarrow> kernel" where
  "load_trap_frame k =
     (let (ctx, k1) = proc_read_bytes (cur k) off_ctx 8 k;
          k2 = k1\<lparr>user_context := ctx\<rparr>;
          (pt, k3) = proc_read_bytes (cur k2) off_page_table PAGE_TABLE_SIZE k2;
          k4 = k3\<lparr>user_page_table := pt\<rparr>
      in k4\<lparr>kernel_page_table := take 3 (kernel_low_memory (proc_table k4 ! cur k4)) @ drop 3 (kernel_page_table k4)\<rparr>)"

definition kernel_epilogue :: "outcome io" where
  "kernel_epilogue =
     io_then (io_do INTER_OFF)
       (io_bind (io_run killed_now) (\<lambda>killed.
          if killed then die 232 else io_then (io_do load_trap_frame) (io_return Returns)))"

section \<open>Handlers\<close>

definition device_interrupt :: "uint8 io" where
  "device_interrupt =
     io_bind (io_run (MMIO8_read 0xfe60)) (\<lambda>which_device.
       io_then (if which_device AND PLIC_PIN_TIMER \<noteq> 0 then io_try timer_interrupt else io_return ())
         (io_then (if which_device AND PLIC_PIN_UART_RX \<noteq> 0 then uart_rx_interrupt else io_return ())
           (io_then (if which_device AND PLIC_PIN_DISK \<noteq> 0 then io_do disk_interrupt else io_return ())
             (io_return which_device))))"

text \<open>
  The quantum: \<^verbatim>\<open>ticks\<close> is a local copy that is written back after the process has been switched to again, so
  after a yield it overwrites the fresh quantum with zero.
\<close>

definition timer_slice :: "unit io" where
  "timer_slice =
     io_bind (io_run (\<lambda>k. proc_get_8 (cur k) off_ticks k)) (\<lambda>ticks.
       io_then (if ticks - 1 = 0 then io_wait yield else io_return ())
         (io_do (\<lambda>k. proc_set_8 (cur k) off_ticks (ticks - 1) k)))"

definition kernel_irq :: "outcome io" where
  "kernel_irq =
     io_bind (io_get current_process) (\<lambda>p.
       if p = None then io_panic ''kernel_irq''
       else
         io_bind kernel_prologue (\<lambda>oc.
           if oc = Exits then io_return Exits
           else
             io_bind device_interrupt (\<lambda>which_device.
               io_then (io_do INTER_ON)
                 (io_then (if which_device AND PLIC_PIN_TIMER \<noteq> 0 then timer_slice else io_return ())
                   kernel_epilogue))))"

text \<open>A system call ends with its return value, or with the exit of the process.\<close>

definition returning :: "uint16 io \<Rightarrow> uint16 option io" where
  "returning act = io_bind act (\<lambda>r. io_return (Some r))"

definition call_syscall :: "Syscall \<Rightarrow> uint16 option io" where
  "call_syscall s =
     (case s of
        SysFork \<Rightarrow> returning sys_fork
      | SysExit \<Rightarrow> io_then (io_try sys_exit) (io_return None)
      | SysWait \<Rightarrow> returning sys_wait
      | SysKill \<Rightarrow> returning (io_run sys_kill)
      | SysSbrk \<Rightarrow> returning (io_run sys_sbrk)
      | SysSleep \<Rightarrow> returning sys_sleep
      | SysGetpid \<Rightarrow> returning (io_run sys_getpid)
      | SysClose \<Rightarrow> returning sys_close
      | SysOpen \<Rightarrow> returning sys_open
      | SysWrite \<Rightarrow> returning sys_write
      | SysRead \<Rightarrow> returning sys_read
      | SysIoctl \<Rightarrow> returning sys_ioctl)"

definition kernel_brk :: "outcome io" where
  "kernel_brk =
     io_bind kernel_prologue (\<lambda>oc.
       if oc = Exits then io_return Exits
       else
         io_then (io_do INTER_ON)
           (io_bind (io_run (\<lambda>k. proc_get_8 (cur k) off_ctx_y k)) (\<lambda>sys_number.
            io_bind (io_get (\<lambda>k. syscalls_table k sys_number)) (\<lambda>syscall.
              case syscall of
                None \<Rightarrow>
                  io_then (LOG ''kernel/trap.c'' 31 [] [])
                    (io_then (io_do (\<lambda>k. proc_set_16 (cur k) off_ctx_a 1 k)) exit_process)
              | Some s \<Rightarrow>
                  io_bind (call_syscall s) (\<lambda>r.
                    case r of
                      None \<Rightarrow> io_return Exits
                    | Some return_value \<Rightarrow>
                        io_then (io_do (\<lambda>k. proc_set_16 (cur k) off_ctx_a return_value k)) kernel_epilogue)))))"

text \<open>
  The handler of the non-maskable interrupt reads the cause, clears it, reports it and ends the process. The
  program counter it reports is the one in the life raft.
\<close>

abbreviation MMU_CAUSE_X :: uint8 where "MMU_CAUSE_X \<equiv> 0x02"
abbreviation MMU_CAUSE_R :: uint8 where "MMU_CAUSE_R \<equiv> 0x04"
abbreviation MMU_CAUSE_W :: uint8 where "MMU_CAUSE_W \<equiv> 0x08"

definition privileged_mnemonic :: "uint8 \<Rightarrow> string option" where
  "privileged_mnemonic watchdog =
     (if watchdog = 0x78 then Some ''SEI'' else if watchdog = 0x28 then Some ''PLP''
      else if watchdog = 0x40 then Some ''RTI'' else None)"

definition report_cause :: "uint8 \<Rightarrow> uint8 \<Rightarrow> uint16 \<Rightarrow> uint16 \<Rightarrow> unit io" where
  "report_cause cause watchdog bad_va pc =
     (if cause AND MMU_CAUSE_V \<noteq> 0 then
        io_bind (io_run (\<lambda>k. proc_get_16 (cur k) off_pid k)) (\<lambda>pid.
          LOG ''kernel/trap.c'' 72 (chars ''(%d, %p, %p)'') [Va16 pid, Va16 bad_va, Va16 pc])
      else if cause AND MMU_CAUSE_X \<noteq> 0 then io_panic ''X''
      else if cause AND MMU_CAUSE_W \<noteq> 0 then io_panic ''W''
      else if cause AND MMU_CAUSE_R \<noteq> 0 then io_panic ''R''
      else if cause AND MMU_CAUSE_PRIVILEGE \<noteq> 0 then
        (case privileged_mnemonic watchdog of
           None \<Rightarrow> io_panic ''privilege''
         | Some mn \<Rightarrow>
             io_bind (io_run (\<lambda>k. proc_get_16 (cur k) off_pid k)) (\<lambda>pid.
               LOG ''kernel/trap.c'' 100 (chars ''(%d, \"%s\", %p)'')
                 [Va16 pid, VaStr (Some (chars mn)), Va16 pc]))
      else if cause AND MMU_CAUSE_INVALID_OPCODE \<noteq> 0 then
        io_bind (io_run (\<lambda>k. proc_get_16 (cur k) off_pid k)) (\<lambda>pid.
          LOG ''kernel/trap.c'' 104 (chars ''(%d, 0x%x, %p)'') [Va16 pid, Va16 (ucast watchdog), Va16 pc])
      else io_panic ''unknown NMI'')"

definition kernel_nmi :: "outcome io" where
  "kernel_nmi =
     io_bind kernel_prologue (\<lambda>oc.
       if oc = Exits then io_return Exits
       else
         io_bind (io_run (MMIO8_read 0xfe42)) (\<lambda>cause.
         io_bind (io_run (MMIO8_read 0xfe41)) (\<lambda>watchdog.
         io_bind (io_run (MMIO16_read 0xfe43)) (\<lambda>bad_va.
           io_then (io_do (MMIO8_write 0xfe42 0))
             (io_bind (io_get (\<lambda>k. mk_word (user_context k ! 3) (user_context k ! 2))) (\<lambda>pc.
                io_then (report_cause cause watchdog bad_va pc)
                  (io_then (io_do (\<lambda>k. proc_set_16 (cur k) off_ctx_a (ucast cause) k)) exit_process)))))))"

definition kernel_debugger :: "unit io" where
  "kernel_debugger = io_panic ''break point''"

section \<open>Boot\<close>

definition inode_init :: "kernel \<Rightarrow> kernel kresult" where
  "inode_init k =
     (let (frame, k1) = kalloc k; k2 = k1\<lparr>inode_frame := frame\<rparr>
      in if frame = FRAME_UNUSED then Inl (Panic ''inode_init'') else Inr k2)"

text \<open>
  The first process. Its code is the linker's \<^verbatim>\<open>INITCODE\<close> segment, the argument \<open>code\<close>.
\<close>

definition init_pcb :: "nat \<Rightarrow> uint16 \<Rightarrow> kernel \<Rightarrow> kernel kresult" where
  "init_pcb p code_size k =
     (let (pcb, old_frame, k1) = MAP_PCB p k;
          (frame, k2) = kalloc k1;
          k3 = MMIO8_write (pcb + of_nat off_page_table) frame k2;
          (again, k4) = MMIO8_read (pcb + of_nat off_page_table) k3
      in if again = FRAME_UNUSED then Inl (Panic ''kalloc'')
         else
           (let f = file_addr (sym k) 0;
                k5 = MMIO16_write (pcb + of_nat off_open_files) f k4;
                k6 = MMIO16_write (pcb + of_nat (off_open_files + 2)) f k5;
                k7 = MMIO16_write (pcb + of_nat (off_open_files + 4)) f k6;
                k8 = MMIO16_write (pcb + of_nat off_ctx_pc) (init_code (sym k)) k7;
                k9 = MMIO16_write (pcb + of_nat off_top) (init_code (sym k) + code_size) k8;
                k10 = write_bytes (pcb + of_nat off_name) (chars ''init'') k9
            in Inr (UNMAP_PCB old_frame k10)))"

definition run_init_process :: "uint8 list \<Rightarrow> kernel \<Rightarrow> kernel kresult" where
  "run_init_process code k =
     (case proc_alloc k of
        Inl e \<Rightarrow> Inl e
      | Inr (None, k1) \<Rightarrow> Inl (Panic ''proc_alloc'')
      | Inr (Some p, k1) \<Rightarrow>
          (case init_pcb p (of_nat (length code)) (k1\<lparr>init_process := Some p\<rparr>) of
             Inl e \<Rightarrow> Inl e
           | Inr k2 \<Rightarrow>
               (let (r, k3) = copy_to_user code (init_code (sym k2)) (of_nat (length code)) p k2
                in if r < 0 then Inl (Panic ''copy_to_user'') else Inr (set_state p PROC_STATE_NEW k3))))"

text \<open>Everything before the call of the scheduler, which does not return.\<close>

definition main :: "uint8 list \<Rightarrow> unit io" where
  "main code =
     io_then (io_do mmu_init) (io_then (io_do timer_init) (io_then (io_do uart_init) (io_then (io_do disk_init)
      (io_then (printk (chars ''kernel: version %d.%d.%d is booting...'' @ [0x0A]) [Va16 1, Va16 0, Va16 0])
      (io_then (io_do kalloc_init) (io_then (io_do proc_init) (io_then (io_do syscall_init)
      (io_then (io_try buffer_init) (io_then (io_try inode_init) (io_then (io_do file_init)
      (io_then (io_do console_init) (io_then (io_do pipe_init)
      (io_then (printk (chars ''kernel: starting init process...'' @ [0x0A]) [])
        (io_try (run_init_process code)))))))))))))))"

end
