(* ===== verification/Mkfs_Image.thy ===== *)
theory Mkfs_Image
  imports Kernel_Trap
begin

text \<open>
  The file system image builder (\<^verbatim>\<open>mkfs.c\<close>), a program for the host. An image file is the list of its bytes. The
  buffers are allocated without being cleared and filled from the kernel file as far as that goes; what
  \<^verbatim>\<open>malloc\<close> left in them is an argument. Opening the files is not modelled.
\<close>

section \<open>Constants and structures\<close>

abbreviation DISK_SIZE :: nat where "DISK_SIZE \<equiv> 33554432"
abbreviation (input) BOOT_SRC_OFFSET :: nat where "BOOT_SRC_OFFSET \<equiv> 0x200"
abbreviation (input) BOOT_DST_OFFSET :: nat where "BOOT_DST_OFFSET \<equiv> 0"
abbreviation (input) BOOT_SIZE :: nat where "BOOT_SIZE \<equiv> 0x200"
abbreviation (input) KERNEL_SRC_OFFSET :: nat where "KERNEL_SRC_OFFSET \<equiv> 0x3000"
abbreviation (input) KERNEL_DST_OFFSET :: nat where "KERNEL_DST_OFFSET \<equiv> 0x3000"
abbreviation (input) KERNEL_SIZE :: nat where "KERNEL_SIZE \<equiv> 0xFC00 - 0x3000"
abbreviation (input) MAX_INODE_IN_DISK :: nat where "MAX_INODE_IN_DISK \<equiv> 1024"
abbreviation (input) ROOT_INODE :: nat where "ROOT_INODE \<equiv> 1"
abbreviation (input) INODE_TYPE_DIR :: uint8 where "INODE_TYPE_DIR \<equiv> 2"
abbreviation (input) DINODE_SIZE :: nat where "DINODE_SIZE \<equiv> 64"
abbreviation (input) DIR_ENTRY_SIZE :: nat where "DIR_ENTRY_SIZE \<equiv> 32"
abbreviation (input) MAX_FILE_NAME :: nat where "MAX_FILE_NAME \<equiv> 30"

record Dinode =
  di_type :: uint8
  di_mode :: uint16
  di_uid :: uint8
  di_gid :: uint8
  di_major :: uint8
  di_minor :: uint8
  di_nlink :: uint8
  di_size :: uint32
  di_data :: "uint16 list"
  di_ctime :: uint32
  di_mtime :: uint32

record Dir_Entry =
  de_name :: "uint8 list"
  de_inode_number :: uint16

definition le16 :: "uint16 \<Rightarrow> uint8 list" where
  "le16 w = [lo_byte w, hi_byte w]"

definition le32 :: "uint32 \<Rightarrow> uint8 list" where
  "le32 w = [ucast w, ucast (drop_bit 8 w), ucast (drop_bit 16 w), ucast (drop_bit 24 w)]"

text \<open>The host pads the super block to 16 bytes; the inode is packed to 64.\<close>

definition sb_bytes :: "Super_Block \<Rightarrow> uint8 list" where
  "sb_bytes sb = le32 (sb_magic sb) @ le16 (sb_size sb) @ le16 (sb_block_count sb) @ le16 (sb_inode_count sb) @
     le16 (sb_inode_start sb) @ le16 (sb_bitmap_start sb) @ [0, 0]"

definition dinode_bytes :: "Dinode \<Rightarrow> uint8 list" where
  "dinode_bytes d = [di_type d] @ le16 (di_mode d) @ [di_uid d, di_gid d, di_major d, di_minor d, di_nlink d] @
     le32 (di_size d) @ concat (map le16 (di_data d)) @ le32 (di_ctime d) @ le32 (di_mtime d) @ replicate 18 0"

definition dir_entry_bytes :: "Dir_Entry \<Rightarrow> uint8 list" where
  "dir_entry_bytes e = de_name e @ replicate (MAX_FILE_NAME - length (de_name e)) 0 @ le16 (de_inode_number e)"

section \<open>The layout\<close>

definition total_blocks :: uint16 where
  "total_blocks = of_nat (DISK_SIZE div BLOCK_SIZE)"

definition inode_blocks :: uint16 where
  "inode_blocks = of_nat (MAX_INODE_IN_DISK div (BLOCK_SIZE div DINODE_SIZE))"

definition bitmap_blocks :: uint16 where
  "bitmap_blocks = of_nat ((unat total_blocks + BLOCK_SIZE * 8 - 1) div (BLOCK_SIZE * 8))"

definition image_super_block :: Super_Block where
  "image_super_block =
     (let inode_start = SUPER_BLOCK_BLOCK + 1;
          bitmap_start = inode_start + inode_blocks
      in \<lparr>sb_magic = FS_MAGIC, sb_size = total_blocks, sb_block_count = total_blocks - (bitmap_start + bitmap_blocks),
          sb_inode_count = of_nat MAX_INODE_IN_DISK, sb_inode_start = inode_start, sb_bitmap_start = bitmap_start\<rparr>)"

definition root_data_block :: uint16 where
  "root_data_block = sb_bitmap_start image_super_block + bitmap_blocks"

definition root_inode :: Dinode where
  "root_inode =
     \<lparr>di_type = INODE_TYPE_DIR, di_mode = 0x01FF, di_uid = 0, di_gid = 0, di_major = 0, di_minor = 0, di_nlink = 1,
      di_size = of_nat (2 * DIR_ENTRY_SIZE), di_data = (replicate 13 0)[0 := root_data_block], di_ctime = 0, di_mtime = 0\<rparr>"

definition root_entries :: "Dir_Entry list" where
  "root_entries =
     [\<lparr>de_name = chars ''.'', de_inode_number = of_nat ROOT_INODE\<rparr>,
      \<lparr>de_name = chars ''..'', de_inode_number = of_nat ROOT_INODE\<rparr>]"

section \<open>The bitmap\<close>

definition SET_BIT :: "nat \<Rightarrow> uint8 list \<Rightarrow> uint8 list" where
  "SET_BIT b bitmap = bitmap[b div 8 := bitmap ! (b div 8) OR push_bit (b mod 8) 1]"

definition image_bitmap :: "Super_Block \<Rightarrow> uint16 \<Rightarrow> uint16 \<Rightarrow> uint8 list" where
  "image_bitmap sb root n =
     (let size_bytes = unat n * BLOCK_SIZE;
          used_blocks = fold SET_BIT [0..<Suc (unat root)] (replicate size_bytes 0)
      in fold SET_BIT [unat (sb_size sb)..<size_bytes * 8] used_blocks)"

definition write_bitmap :: "Super_Block \<Rightarrow> uint16 \<Rightarrow> uint16 \<Rightarrow> uint8 list \<Rightarrow> uint8 list" where
  "write_bitmap sb root n dst =
     file_write (unat (sb_bitmap_start sb) * BLOCK_SIZE) (image_bitmap sb root n) dst"

section \<open>The image\<close>

definition fread_into :: "uint8 list \<Rightarrow> nat \<Rightarrow> nat \<Rightarrow> uint8 list \<Rightarrow> uint8 list" where
  "fread_into junk off n src = (let got = file_read off n src in got @ drop (length got) (take n (junk @ replicate n 0)))"

definition mkfs :: "uint8 list \<Rightarrow> uint8 list \<Rightarrow> uint8 list \<Rightarrow> uint8 list" where
  "mkfs junk1 junk2 src =
     (let dst0 = file_write (DISK_SIZE - 1) [0] [];
          dst1 = file_write BOOT_DST_OFFSET (fread_into junk1 BOOT_SRC_OFFSET BOOT_SIZE src) dst0;
          dst2 = file_write KERNEL_DST_OFFSET (fread_into junk2 KERNEL_SRC_OFFSET KERNEL_SIZE src) dst1;
          dst3 = file_write (unat SUPER_BLOCK_BLOCK * BLOCK_SIZE) (sb_bytes image_super_block) dst2;
          dst4 = file_write (unat (sb_inode_start image_super_block) * BLOCK_SIZE + ROOT_INODE * DINODE_SIZE)
                   (dinode_bytes root_inode) dst3;
          dst5 = file_write (unat root_data_block * BLOCK_SIZE) (concat (map dir_entry_bytes root_entries)) dst4
      in write_bitmap image_super_block root_data_block bitmap_blocks dst5)"

section \<open>What the layout is\<close>

lemma layout:
  "total_blocks = 8192" "inode_blocks = 16" "bitmap_blocks = 1" "root_data_block = 34"
  "image_super_block = \<lparr>sb_magic = FS_MAGIC, sb_size = 8192, sb_block_count = 8158, sb_inode_count = 1024,
     sb_inode_start = 17, sb_bitmap_start = 33\<rparr>"
proof -
  show t: "total_blocks = 8192" "inode_blocks = 16" by (simp_all add: total_blocks_def inode_blocks_def)
  show b: "bitmap_blocks = 1" unfolding bitmap_blocks_def t by simp
  show i: "image_super_block = \<lparr>sb_magic = FS_MAGIC, sb_size = 8192, sb_block_count = 8158, sb_inode_count = 1024,
     sb_inode_start = 17, sb_bitmap_start = 33\<rparr>" by (simp add: image_super_block_def t b)
  show "root_data_block = 34" by (simp add: root_data_block_def i b)
qed

lemma structure_sizes:
  "length (sb_bytes sb) = 16" "length (dinode_bytes root_inode) = DINODE_SIZE"
  "length (concat (map dir_entry_bytes root_entries)) = 2 * DIR_ENTRY_SIZE"
  by (simp_all add: sb_bytes_def dinode_bytes_def dir_entry_bytes_def root_inode_def root_entries_def le16_def le32_def chars_def
      numeral_eq_Suc)

section \<open>The bitmap\<close>

lemma SET_BIT_length [simp]: "length (fold SET_BIT bs bitmap) = length bitmap"
  by (induction bs arbitrary: bitmap) (simp_all add: SET_BIT_def)

lemma SET_BIT_bit:
  assumes "n < length bitmap * 8"
  shows "bit (SET_BIT b bitmap ! (n div 8)) (n mod 8) \<longleftrightarrow> n = b \<or> bit (bitmap ! (n div 8)) (n mod 8)"
proof -
  have l: "n div 8 < length bitmap" using assms by (simp add: less_mult_imp_div_less)
  have "n div 8 = b div 8 \<Longrightarrow> n mod 8 = b mod 8 \<Longrightarrow> n = b" by (metis div_mult_mod_eq)
  then show ?thesis
    using l by (cases "b div 8 = n div 8") (auto simp: SET_BIT_def bit_or_iff bit_exp_iff)
qed

lemma SET_BIT_bits:
  "n < length bitmap * 8 \<Longrightarrow>
     bit (fold SET_BIT bs bitmap ! (n div 8)) (n mod 8) \<longleftrightarrow> n \<in> set bs \<or> bit (bitmap ! (n div 8)) (n mod 8)"
proof (induction bs arbitrary: bitmap)
  case (Cons b bs)
  have "length (SET_BIT b bitmap) = length bitmap" by (simp add: SET_BIT_def)
  then show ?case using Cons.IH [of "SET_BIT b bitmap"] Cons.prems SET_BIT_bit [OF Cons.prems, of b] by auto
qed simp

lemma image_bitmap_bits:
  assumes "n < unat c * 32768"
  shows "bit (image_bitmap sb root c ! (n div 8)) (n mod 8) \<longleftrightarrow> n \<le> unat root \<or> unat (sb_size sb) \<le> n"
proof -
  have "n < unat c * 4096 * 8" using assms by simp
  moreover have "n div 8 < unat c * 4096" using assms by (simp add: less_mult_imp_div_less)
  moreover have "set [0..<Suc (unat root)] = {..unat root}" by auto
  moreover have "n \<in> set [unat (sb_size sb)..<unat c * 4096 * 8] \<longleftrightarrow> unat (sb_size sb) \<le> n" using assms by auto
  ultimately show ?thesis
    unfolding image_bitmap_def Let_def by (simp only: SET_BIT_bits SET_BIT_length length_replicate) auto
qed

section \<open>What is where in the image\<close>

text \<open>A block of the image, as the disk driver reads it.\<close>

definition image_bytes :: "nat \<Rightarrow> uint8 list \<Rightarrow> nat \<Rightarrow> uint8" where
  "image_bytes blk file i = file ! (blk * BLOCK_SIZE + i)"

lemma fread_into_length [simp]: "length (fread_into junk off n src) = n"
  by (auto simp: fread_into_def file_read_def Let_def min_def)

lemma mkfs_image:
  fixes junk1 junk2 src
  defines "img \<equiv> mkfs junk1 junk2 src"
  shows "length img = DISK_SIZE"
    and "i < 4096 \<Longrightarrow> image_bytes 33 img i = image_bitmap image_super_block 34 1 ! i"
    and "i < 16 \<Longrightarrow> image_bytes 16 img i = sb_bytes image_super_block ! i"
    and "i < DINODE_SIZE \<Longrightarrow> image_bytes 17 img (DINODE_SIZE + i) = dinode_bytes root_inode ! i"
    and "i < 2 * DIR_ENTRY_SIZE \<Longrightarrow> image_bytes 34 img i = concat (map dir_entry_bytes root_entries) ! i"
proof -
  define dst0 where "dst0 = file_write (DISK_SIZE - 1) [0] []"
  define dst1 where "dst1 = file_write 0 (fread_into junk1 0x200 0x200 src) dst0"
  define dst2 where "dst2 = file_write 0x3000 (fread_into junk2 0x3000 (0xFC00 - 0x3000) src) dst1"
  define dst3 where "dst3 = file_write 65536 (sb_bytes image_super_block) dst2"
  define dst4 where "dst4 = file_write 69696 (dinode_bytes root_inode) dst3"
  define dst5 where "dst5 = file_write 139264 (concat (map dir_entry_bytes root_entries)) dst4"
  have img: "img = file_write 135168 (image_bitmap image_super_block 34 1) dst5"
    by (simp add: img_def mkfs_def dst5_def dst4_def dst3_def dst2_def dst1_def dst0_def write_bitmap_def layout Let_def)
  note z = structure_sizes
  have lb: "length (image_bitmap image_super_block 34 1) = 4096" by (simp add: image_bitmap_def Let_def)
  have l: "length dst0 = DISK_SIZE" "length dst1 = DISK_SIZE" "length dst2 = DISK_SIZE" "length dst3 = DISK_SIZE"
    "length dst4 = DISK_SIZE" "length dst5 = DISK_SIZE"
    by (simp_all add: dst0_def dst1_def dst2_def dst3_def dst4_def dst5_def file_write_length z)
  show "length img = DISK_SIZE" using l(6) lb by (simp add: img file_write_length)
  have n5: "img ! j = (if 135168 \<le> j \<and> j < 139264 then image_bitmap image_super_block 34 1 ! (j - 135168) else dst5 ! j)"
    if "j < DISK_SIZE" for j using that l(6) lb unfolding img by (subst file_write_nth) simp_all
  have n4: "dst5 ! j = (if 139264 \<le> j \<and> j < 139328 then concat (map dir_entry_bytes root_entries) ! (j - 139264) else dst4 ! j)"
    if "j < DISK_SIZE" for j using that l(5) z(3) unfolding dst5_def by (subst file_write_nth) simp_all
  have n3: "dst4 ! j = (if 69696 \<le> j \<and> j < 69760 then dinode_bytes root_inode ! (j - 69696) else dst3 ! j)"
    if "j < DISK_SIZE" for j using that l(4) z(2) unfolding dst4_def by (subst file_write_nth) simp_all
  have n2: "dst3 ! j = (if 65536 \<le> j \<and> j < 65552 then sb_bytes image_super_block ! (j - 65536) else dst2 ! j)"
    if "j < DISK_SIZE" for j using that l(3) z(1) unfolding dst3_def by (subst file_write_nth) simp_all
  show "i < 4096 \<Longrightarrow> image_bytes 33 img i = image_bitmap image_super_block 34 1 ! i"
    by (simp add: image_bytes_def n5)
  show "i < 16 \<Longrightarrow> image_bytes 16 img i = sb_bytes image_super_block ! i"
    by (simp add: image_bytes_def n5 n4 n3 n2)
  show "i < DINODE_SIZE \<Longrightarrow> image_bytes 17 img (DINODE_SIZE + i) = dinode_bytes root_inode ! i"
    by (simp add: image_bytes_def n5 n4 n3)
  show "i < 2 * DIR_ENTRY_SIZE \<Longrightarrow> image_bytes 34 img i = concat (map dir_entry_bytes root_entries) ! i"
    by (simp add: image_bytes_def n5 n4)
qed

text \<open>The kernel reads back the super block the builder wrote.\<close>

lemma four_bytes:
  fixes x :: nat
  assumes "x < 4294967296"
  shows "x mod 256 + 256 * (x div 256 mod 256) + 65536 * (x div 65536 mod 256) + 16777216 * (x div 16777216 mod 256) = x"
proof -
  let ?a = "x div 256" and ?b = "x div 256 div 256" and ?c = "x div 256 div 256 div 256"
  have e: "x div 65536 = ?b" "x div 16777216 = ?c" by (simp_all add: div_mult2_eq [symmetric])
  have "?c < 256" using assms by (simp add: div_mult2_eq [symmetric] less_mult_imp_div_less)
  then have "?c mod 256 = ?c" by simp
  then show ?thesis
    unfolding e using div_mult_mod_eq [of x 256] div_mult_mod_eq [of ?a 256] div_mult_mod_eq [of ?b 256] by linarith
qed

lemma unat_le32: "unat (ucast (drop_bit n (w :: uint32)) :: uint8) = unat w div 2 ^ n mod 256"
  by (simp add: unsigned_ucast_eq unat_drop_bit take_bit_eq_mod)

lemma argument_32_le32: "argument_32 (le32 w @ rest) = w"
proof -
  have "unat (ucast w :: uint8) = unat w mod 256" using unat_le32 [of 0 w] by simp
  moreover have "unat w < 4294967296" using unsigned_less [of w, where ?'a = nat] by simp
  ultimately have "argument_32 (le32 w @ rest) = of_nat (unat w)"
    unfolding argument_32_def le32_def using four_bytes [of "unat w"] by (simp only: append_Cons nth_Cons_0 unat_le32) (simp add: unat_le32)
  then show ?thesis by simp
qed

lemma super_block_roundtrip: "super_block_of (sb_bytes sb) = sb"
  by (simp add: super_block_of_def sb_bytes_def argument_32_le32 word_at_def) (simp add: le32_def le16_def)

end
