(* ===== verification/Kernel_Entry.thy ===== *)
theory Kernel_Entry
  imports Kernel_Trap
begin

text \<open>
  What the trap handlers do to the process they run for: the life raft is saved into its control block on entry
  and restored on exit, with the result of the system call in the registers; and how the timer counts its
  quantum.
\<close>

section \<open>The trap frame\<close>

text \<open>
  The kernel runs for process \<open>p\<close>: its windows are consistent and segment 0 shows its kernel stack frame.
\<close>

definition in_kernel :: "kernel \<Rightarrow> nat \<Rightarrow> bool" where
  "in_kernel k p \<longleftrightarrow> kmap k \<and> current_process k = Some p \<and> pcb_ok k p \<and> kernel_page_table k ! 0 = pcb_frame k p"

definition life_raft :: "kernel \<Rightarrow> bool" where
  "life_raft k \<longleftrightarrow> length (user_context k) = 8 \<and> length (user_page_table k) = PAGE_TABLE_SIZE"

definition must_die :: "kernel \<Rightarrow> nat \<Rightarrow> bool" where
  "must_die k p \<longleftrightarrow> pcb_word k p off_killed \<noteq> 0 \<and> pcb_word k p off_pid \<noteq> 1"

lemma low_memory_agrees:
  assumes "in_kernel k p"
  shows "take 3 (kernel_page_table k) = kernel_low_memory (proc_table k ! p)"
proof (rule nth_equalityI)
  have p: "p < length (proc_table k)" "length (kernel_page_table k) = 16"
    using assms by (simp_all add: in_kernel_def pcb_ok_def kmap_def)
  have l: "length (kernel_low_memory (proc_table k ! p)) = 3"
    using assms p(1) nth_mem [OF p(1)] by (simp add: in_kernel_def kmap_def)
  then show "length (take 3 (kernel_page_table k)) = length (kernel_low_memory (proc_table k ! p))"
    using p by simp
  fix i assume "i < length (take 3 (kernel_page_table k))"
  then have "i \<in> {0, 1, 2}" using p(2) by auto
  then show "take 3 (kernel_page_table k) ! i = kernel_low_memory (proc_table k ! p) ! i"
    using assms by (auto simp: in_kernel_def kmap_def)
qed

lemma in_kernel_write [simp]: "in_kernel (pcb_write q off bs k) p = in_kernel k p"
  by (simp add: in_kernel_def)

lemma in_kernel_flags [simp]:
  "in_kernel (INTER_ON k) p = in_kernel k p" "in_kernel (INTER_OFF k) p = in_kernel k p"
  by (simp_all add: in_kernel_def INTER_ON_def INTER_OFF_def kmap_def pcb_ok_def)

lemma pcb_flags [simp]:
  "pcb_byte (INTER_ON k) p off = pcb_byte k p off" "pcb_byte (INTER_OFF k) p off = pcb_byte k p off"
  "pcb_word (INTER_ON k) p off = pcb_word k p off" "pcb_word (INTER_OFF k) p off = pcb_word k p off"
  "pcb_bytes (INTER_ON k) p off n = pcb_bytes k p off n" "pcb_bytes (INTER_OFF k) p off n = pcb_bytes k p off n"
  "must_die (INTER_ON k) p = must_die k p" "must_die (INTER_OFF k) p = must_die k p"
  by (simp_all add: pcb_byte_def pcb_word_def pcb_bytes_def must_die_def frame_byte_def INTER_ON_def INTER_OFF_def)

lemma pcb_write_user [simp]:
  "user_context (pcb_write p off bs k) = user_context k" "user_page_table (pcb_write p off bs k) = user_page_table k"
  "first_entry (pcb_write p off bs k) = first_entry k" "syscalls_table (pcb_write p off bs k) = syscalls_table k"
  by (simp_all add: pcb_write_def)

lemma pcb_bytes_nth: "i < n \<Longrightarrow> pcb_bytes k p off n ! i = pcb_byte k p (off + i)"
  by (simp add: pcb_bytes_def)

lemma pcb_bytes_same:
  "length bs = n \<Longrightarrow> off + n \<le> 3584 \<Longrightarrow> pcb_bytes (pcb_write p off bs k) p off n = bs"
  by (rule nth_equalityI) (auto simp: pcb_bytes_def)

lemma pcb_bytes_apart:
  "off + n \<le> 3584 \<Longrightarrow> off + n \<le> o1 \<or> o1 + length bs \<le> off \<Longrightarrow>
     pcb_bytes (pcb_write p o1 bs k) p off n = pcb_bytes k p off n"
  by (rule nth_equalityI) (auto simp: pcb_bytes_def)

lemma killed_now_effect:
  assumes "in_kernel k p"
  shows "killed_now k = (must_die k p, k)"
  using assms pcb_access(3) [of k p] by (simp add: killed_now_def must_die_def in_kernel_def)

lemma save_trap_frame_effect:
  assumes "in_kernel k p" and "life_raft k"
  shows "save_trap_frame k = pcb_write p off_page_table (user_page_table k) (pcb_write p off_ctx (user_context k) k)"
proof -
  let ?k1 = "pcb_write p off_ctx (user_context k) k"
  let ?k2 = "pcb_write p off_page_table (user_page_table k) ?k1"
  have "proc_write_bytes p off_ctx (user_context k) k = ?k1" "proc_write_bytes p off_page_table (user_page_table k) ?k1 = ?k2"
    using assms by (simp_all add: pcb_written in_kernel_def life_raft_def)
  moreover have "current_process k = Some p" "p < length (proc_table k)"
    using assms(1) by (simp_all add: in_kernel_def pcb_ok_def kmap_def)
  moreover have "?k2\<lparr>proc_table := (proc_table ?k2)[p := (proc_table ?k2 ! p)\<lparr>kernel_low_memory := take 3 (kernel_page_table ?k2)\<rparr>]\<rparr> = ?k2"
  proof -
    have "take 3 (kernel_page_table ?k2) = kernel_low_memory (proc_table ?k2 ! p)"
      using assms(1) by (intro low_memory_agrees) simp
    then show ?thesis by simp
  qed
  ultimately show ?thesis by (simp add: save_trap_frame_def)
qed

lemma load_trap_frame_effect:
  assumes "in_kernel k p"
  shows "load_trap_frame k = k\<lparr>user_context := pcb_bytes k p off_ctx 8, user_page_table := pcb_bytes k p off_page_table PAGE_TABLE_SIZE\<rparr>"
proof -
  let ?k1 = "k\<lparr>user_context := pcb_bytes k p off_ctx 8\<rparr>"
  have r: "proc_read_bytes p off_ctx 8 k = (pcb_bytes k p off_ctx 8, k)"
    using assms by (simp add: pcb_read in_kernel_def)
  have b: "pcb_bytes ?k1 p o1 n = pcb_bytes k p o1 n" for o1 n by (simp add: pcb_bytes_def pcb_byte_def frame_byte_def)
  have "kmap ?k1" "pcb_ok ?k1 p" using assms by (simp_all add: in_kernel_def kmap_def pcb_ok_def)
  then have r1: "proc_read_bytes p off_page_table PAGE_TABLE_SIZE ?k1 = (pcb_bytes k p off_page_table PAGE_TABLE_SIZE, ?k1)"
    by (simp add: pcb_read b)
  have "length (kernel_low_memory (proc_table k ! p)) \<le> 3" using low_memory_agrees [OF assms] by (metis length_take min.cobounded2)
  then have "take 3 (kernel_low_memory (proc_table k ! p)) @ drop 3 (kernel_page_table k) = kernel_page_table k"
    using low_memory_agrees [OF assms] append_take_drop_id [of 3 "kernel_page_table k"] by simp
  moreover have "current_process k = Some p" using assms by (simp add: in_kernel_def)
  ultimately show ?thesis using r r1 by (simp add: load_trap_frame_def Let_def)
qed

section \<open>A system call\<close>

lemma kernel_prologue_effect:
  assumes "in_kernel k p" and "life_raft k" and "\<not> must_die k p" and "\<not> first_entry k"
  shows "kernel_prologue ws k = Some (Inr (Returns, ws, save_trap_frame k))"
proof -
  have "\<not> first_entry (save_trap_frame k)" using save_trap_frame_effect [OF assms(1,2)] assms(4) by simp
  then show ?thesis
    using assms killed_now_effect [OF assms(1)] by (simp add: kernel_prologue_def io_return_def)
qed

lemma kernel_epilogue_effect:
  assumes "in_kernel k p" and "\<not> must_die k p"
  shows "kernel_epilogue ws k = Some (Inr (Returns, ws, load_trap_frame (INTER_OFF k)))"
  using killed_now_effect [of "INTER_OFF k" p] assms by (simp add: kernel_epilogue_def io_return_def)

lemma saved_context:
  assumes "in_kernel k p" and "life_raft k"
  shows "pcb_byte (save_trap_frame k) p off_ctx_y = user_context k ! 6"
    and "pcb_bytes (save_trap_frame k) p off_ctx 8 = user_context k"
    and "pcb_bytes (save_trap_frame k) p off_page_table PAGE_TABLE_SIZE = user_page_table k"
    and "pcb_word (save_trap_frame k) p off_pid = pcb_word k p off_pid"
    and "pcb_word (save_trap_frame k) p off_killed = pcb_word k p off_killed"
    and "in_kernel (save_trap_frame k) p"
proof -
  have l: "length (user_context k) = 8" "length (user_page_table k) = PAGE_TABLE_SIZE"
    using assms(2) by (simp_all add: life_raft_def)
  note e = save_trap_frame_effect [OF assms]
  show "pcb_byte (save_trap_frame k) p off_ctx_y = user_context k ! 6"
    "pcb_word (save_trap_frame k) p off_pid = pcb_word k p off_pid"
    "pcb_word (save_trap_frame k) p off_killed = pcb_word k p off_killed" "in_kernel (save_trap_frame k) p"
    using l assms(1) by (simp_all add: e pcb_word_def)
  show "pcb_bytes (save_trap_frame k) p off_ctx 8 = user_context k"
    unfolding e using l by (subst pcb_bytes_apart) (simp_all add: pcb_bytes_same)
  show "pcb_bytes (save_trap_frame k) p off_page_table PAGE_TABLE_SIZE = user_page_table k"
    unfolding e using l by (intro pcb_bytes_same) simp_all
qed

text \<open>The registers a program finds after a call that returned \<open>r\<close>.\<close>

lemma return_registers:
  assumes "pcb_bytes k p off_ctx 8 = uc" and "length uc = 8"
  shows "pcb_bytes (pcb_write p off_ctx_a [lo_byte r, hi_byte r] k) p off_ctx 8 = uc[4 := lo_byte r, 5 := hi_byte r]"
proof (rule nth_equalityI)
  fix i assume "i < length (pcb_bytes (pcb_write p off_ctx_a [lo_byte r, hi_byte r] k) p off_ctx 8)"
  then have i: "i < 8" by (simp add: pcb_bytes_def)
  have "uc ! i = pcb_byte k p (16 + i)" using i unfolding assms(1) [symmetric] by (rule pcb_bytes_nth)
  moreover have "16 + i - 20 = i - 4" by simp
  ultimately show "pcb_bytes (pcb_write p off_ctx_a [lo_byte r, hi_byte r] k) p off_ctx 8 ! i =
      uc[4 := lo_byte r, 5 := hi_byte r] ! i"
    using i assms(2) by (auto simp: pcb_bytes_nth nth_list_update nth_Cons' le_Suc_eq)
qed (simp add: pcb_bytes_def assms(2))

lemma kernel_brk_effect:
  assumes "in_kernel k p" and "life_raft k" and "\<not> must_die k p" and "\<not> first_entry k"
    and "syscalls_table k (user_context k ! 6) = Some s"
    and "call_syscall s ws (INTER_ON (save_trap_frame k)) = Some (Inr (Some r, ws1, k2))"
    and "in_kernel k2 p" and "\<not> must_die k2 p"
  shows "kernel_brk ws k = Some (Inr (Returns, ws1,
    load_trap_frame (INTER_OFF (pcb_write p off_ctx_a [lo_byte r, hi_byte r] k2))))"
proof -
  let ?k1 = "INTER_ON (save_trap_frame k)"
  let ?k3 = "pcb_write p off_ctx_a [lo_byte r, hi_byte r] k2"
  note sv = saved_context [OF assms(1,2)]
  have i1: "in_kernel ?k1 p" using sv(6) by simp
  have c: "current_process ?k1 = Some p" "current_process k2 = Some p"
    using i1 assms(7) unfolding in_kernel_def by blast+
  have "proc_get_8 p off_ctx_y ?k1 = (user_context k ! 6, ?k1)"
    using pcb_access(1) [of ?k1 p off_ctx_y] i1 sv(1) by (simp add: in_kernel_def)
  moreover have "syscalls_table ?k1 (user_context k ! 6) = Some s"
    using assms(5) save_trap_frame_effect [OF assms(1,2)] by (simp add: INTER_ON_def)
  moreover have "proc_set_16 p off_ctx_a r k2 = ?k3"
    using pcb_access(4) [of k2 p off_ctx_a r] assms(7) by (simp add: in_kernel_def)
  moreover have "kernel_epilogue ws1 ?k3 = Some (Inr (Returns, ws1, load_trap_frame (INTER_OFF ?k3)))"
    using assms(7,8) by (intro kernel_epilogue_effect [of _ p]) (simp_all add: must_die_def pcb_word_def)
  ultimately show ?thesis
    using c by (simp add: kernel_brk_def
        io_bind_result [where act = kernel_prologue and k = k, OF kernel_prologue_effect [OF assms(1-4)]]
        io_bind_result [where act = "call_syscall s" and k = ?k1, OF assms(6)])
qed

text \<open>The state in which the handler of a system call returns to the trampoline.\<close>

lemma kernel_brk_result:
  assumes "in_kernel k p" and "life_raft k" and "\<not> must_die k p" and "\<not> first_entry k"
    and "syscalls_table k (user_context k ! 6) = Some s"
    and "call_syscall s ws (INTER_ON (save_trap_frame k)) = Some (Inr (Some r, ws1, k2))"
    and "in_kernel k2 p" and "\<not> must_die k2 p" and "pcb_bytes k2 p off_ctx 8 = user_context k"
  shows "kernel_brk ws k = Some (Inr (Returns, ws1, (INTER_OFF (pcb_write p off_ctx_a [lo_byte r, hi_byte r] k2))
    \<lparr>user_context := (user_context k)[4 := lo_byte r, 5 := hi_byte r],
     user_page_table := pcb_bytes k2 p off_page_table PAGE_TABLE_SIZE\<rparr>))"
proof -
  let ?k = "pcb_write p off_ctx_a [lo_byte r, hi_byte r] k2"
  have l: "length (user_context k) = 8" using assms(2) by (simp add: life_raft_def)
  have i: "in_kernel (INTER_OFF ?k) p" using assms(7) by simp
  have pt: "pcb_bytes ?k p off_page_table PAGE_TABLE_SIZE = pcb_bytes k2 p off_page_table PAGE_TABLE_SIZE"
    by (rule pcb_bytes_apart) simp_all
  show ?thesis
    using kernel_brk_effect [OF assms(1-8)] load_trap_frame_effect [OF i] return_registers [OF assms(9) l, of r] pt by simp
qed

section \<open>A device interrupt\<close>

text \<open>What the handler of an interrupt does between its prologue and its epilogue.\<close>

definition interrupt_service :: "unit io" where
  "interrupt_service =
     io_bind device_interrupt (\<lambda>which_device.
       io_then (io_do INTER_ON) (if which_device AND PLIC_PIN_TIMER \<noteq> 0 then timer_slice else io_return ()))"

lemma io_bind_assoc: "io_bind (io_bind act f) g = io_bind act (\<lambda>x. io_bind (f x) g)"
proof (intro ext)
  fix ws k
  show "io_bind (io_bind act f) g ws k = io_bind act (\<lambda>x. io_bind (f x) g) ws k"
    by (cases "act ws k") (auto simp: io_bind_def split: sum.splits)
qed

lemma kernel_irq_result:
  assumes "in_kernel k p" and "life_raft k" and "\<not> must_die k p" and "\<not> first_entry k"
    and "interrupt_service ws (save_trap_frame k) = Some (Inr ((), ws1, k2))"
    and "in_kernel k2 p" and "\<not> must_die k2 p"
  shows "kernel_irq ws k = Some (Inr (Returns, ws1, (INTER_OFF k2)
    \<lparr>user_context := pcb_bytes k2 p off_ctx 8, user_page_table := pcb_bytes k2 p off_page_table PAGE_TABLE_SIZE\<rparr>))"
proof -
  have "current_process k = Some p" using assms(1) by (simp add: in_kernel_def)
  then have "kernel_irq ws k = io_then interrupt_service kernel_epilogue ws (save_trap_frame k)"
    by (simp add: kernel_irq_def interrupt_service_def io_bind_assoc io_then_def
        io_bind_result [where act = kernel_prologue, OF kernel_prologue_effect [OF assms(1-4)]])
  then show ?thesis
    using io_then_result [where act = interrupt_service and f = kernel_epilogue, OF assms(5)] kernel_epilogue_effect [OF assms(6,7)]
      load_trap_frame_effect [of "INTER_OFF k2" p] assms(6) by simp
qed

section \<open>The quantum\<close>

text \<open>The timer interrupts of a process that is never switched away from, one after the other.\<close>

fun slices :: "nat \<Rightarrow> unit io" where
  "slices 0 = io_return ()"
| "slices (Suc n) = io_then timer_slice (slices n)"

lemma timer_slice_effect:
  assumes "in_kernel k p"
  shows "pcb_byte k p off_ticks \<noteq> 1 \<Longrightarrow>
      timer_slice ws k = Some (Inr ((), ws, pcb_write p off_ticks [pcb_byte k p off_ticks - 1] k))"
    and "pcb_byte k p off_ticks = 1 \<Longrightarrow> timer_slice [] k = None"
    and "pcb_byte k p off_ticks = 1 \<Longrightarrow> in_kernel (yield w k) p \<Longrightarrow>
      timer_slice (w # ws) k = Some (Inr ((), ws, pcb_write p off_ticks [0] (yield w k)))"
proof -
  have c: "current_process k = Some p" "proc_get_8 p off_ticks k = (pcb_byte k p off_ticks, k)"
    using assms pcb_access(1) [of k p off_ticks] by (simp_all add: in_kernel_def)
  have s: "proc_set_8 p off_ticks v k1 = pcb_write p off_ticks [v] k1" if "in_kernel k1 p" for v k1
    using that pcb_access(2) [of k1 p off_ticks v] by (simp add: in_kernel_def)
  show "pcb_byte k p off_ticks \<noteq> 1 \<Longrightarrow>
      timer_slice ws k = Some (Inr ((), ws, pcb_write p off_ticks [pcb_byte k p off_ticks - 1] k))"
    using c s [OF assms] by (simp add: timer_slice_def io_do_def)
  show "pcb_byte k p off_ticks = 1 \<Longrightarrow> timer_slice [] k = None"
    using c by (simp add: timer_slice_def)
  assume y: "pcb_byte k p off_ticks = 1" "in_kernel (yield w k) p"
  then have "current_process (yield w k) = Some p" by (simp add: in_kernel_def)
  then show "timer_slice (w # ws) k = Some (Inr ((), ws, pcb_write p off_ticks [0] (yield w k)))"
    using c y s [OF y(2), of 0] by (simp add: timer_slice_def io_do_def)
qed

text \<open>The ticks until a process has to yield: its counter, but 256 when the counter is zero.\<close>

definition slice_length :: "kernel \<Rightarrow> nat \<Rightarrow> nat" where
  "slice_length k p = (if pcb_byte k p off_ticks = 0 then 256 else unat (pcb_byte k p off_ticks))"

lemma slices_end:
  "in_kernel k p \<Longrightarrow> slices n [] k = None \<longleftrightarrow> slice_length k p \<le> n"
proof (induction n arbitrary: k)
  case 0
  have "0 < slice_length k p" by (simp add: slice_length_def unat_gt_0)
  then show ?case by (simp add: io_return_def)
next
  case (Suc n)
  let ?t = "pcb_byte k p off_ticks"
  show ?case
  proof (cases "?t = 1")
    case True
    then show ?thesis
      using timer_slice_effect(2) [OF Suc.prems] by (simp add: slice_length_def io_then_def io_bind_def)
  next
    case False
    let ?k = "pcb_write p off_ticks [?t - 1] k"
    have "slices (Suc n) [] k = slices n [] ?k"
      using timer_slice_effect(1) [OF Suc.prems False] by (simp add: io_then_result)
    moreover have "slices n [] ?k = None \<longleftrightarrow> slice_length ?k p \<le> n" using Suc by simp
    moreover have "Suc (slice_length ?k p) = slice_length k p"
    proof (cases "?t = 0")
      case True
      then show ?thesis by (simp add: slice_length_def unsigned_minus_1_eq_mask mask_eq_exp_minus_1)
    next
      case t: False
      have "?t - 1 \<noteq> 0" using False by simp
      then show ?thesis using unat_minus_one [OF t] t by (simp add: slice_length_def unat_gt_0)
    qed
    ultimately show ?thesis by auto
  qed
qed

end
