(* ===== verification/Kernel_Storage_Properties.thy ===== *)
theory Kernel_Storage_Properties
  imports Kernel_Properties Mkfs_Image Kernel_Entry
begin

text \<open>
  Properties of the block cache, of disk block allocation and of the file system image, with witnesses on a
  concrete cache.
\<close>

section \<open>A concrete cache\<close>

text \<open>Sixteen buffers in the order of \<^verbatim>\<open>buffer_init\<close>; the frames are 40 to 55.\<close>

definition sample_buffer :: "nat \<Rightarrow> Block_Buffer" where
  "sample_buffer i = \<lparr>buf_flags = 0, buf_drive = 0, buf_refcount = 0, buf_block_number = 0,
     buf_next = (i + 16) mod 17, buf_prev = (i + 1) mod 17, buf_queue = None, buf_frame = of_nat (40 + i)\<rparr>"

definition cache_sample :: "uint8 list \<Rightarrow> kernel" where
  "cache_sample file = (sample_kernel [] (Some 3) (replicate 512 (sample_proc 20 PROC_STATE_RUNING)))
     \<lparr>machine := power_on [] file, buffer_cache := map sample_buffer [0..<17]\<rparr>"

lemma sample_cache_nth: "i < 17 \<Longrightarrow> buffer_cache (cache_sample file) ! i = sample_buffer i"
  by (simp add: cache_sample_def del: upt_conv_Cons_Cons)

lemma sample_cache_order: "cache_order (cache_sample file) (rev [0..<16])"
proof -
  have c: "chain (buffer_cache (cache_sample file)) (rev [0..<n] @ [16])" if "n \<le> 16" for n
    using that
  proof (induction n)
    case (Suc n)
    have "buf_next (sample_buffer n) = hd (rev [0..<n] @ [16])" "buf_prev (sample_buffer (hd (rev [0..<n] @ [16]))) = n"
      using Suc.prems by (cases n; simp add: sample_buffer_def)+
    moreover have "hd (rev [0..<n] @ [16]) < 17" using Suc.prems by (cases n) auto
    ultimately show ?case
      using chain_join [of "[n]" "rev [0..<n] @ [16]" "buffer_cache (cache_sample file)"] Suc
      by (simp add: sample_cache_nth)
  qed simp
  have h: "hd (rev [0..<16] @ [16]) = (15 :: nat)" by (simp add: hd_rev last_upt)
  have "chain (buffer_cache (cache_sample file)) (16 # rev [0..<16] @ [16])"
    using c [of 16] chain_join [of "[16]" "rev [0..<16] @ [16]" "buffer_cache (cache_sample file)"]
    unfolding h by (simp add: sample_buffer_def sample_cache_nth del: upt_conv_Cons_Cons)
  then show ?thesis
    by (simp add: cache_order_def lru_def cache_sample_def atLeast0LessThan del: upt_conv_Cons_Cons)
qed

lemma sample_cache_inv: "cache_inv (cache_sample file)"
proof -
  have "cache_data (buffer_cache (cache_sample file))"
    unfolding cache_data_def by (simp add: sample_cache_nth) (simp add: sample_buffer_def)
  then show ?thesis using sample_cache_order by (auto simp: cache_inv_def)
qed

text \<open>What a cache with least recently used replacement does with a request, given the order of its buffers.\<close>

datatype lookup = Hit nat | Wait nat | Evict nat | Full

definition lru_lookup :: "Block_Buffer list \<Rightarrow> nat list \<Rightarrow> uint8 \<Rightarrow> uint16 \<Rightarrow> lookup" where
  "lru_lookup c xs drive blk =
     (case find (\<lambda>b. holds drive blk (c ! b)) xs of
        Some b \<Rightarrow> if busy (c ! b) then Wait b else Hit b
      | None \<Rightarrow> (case find (\<lambda>b. idle (c ! b)) (rev xs) of Some b \<Rightarrow> Evict b | None \<Rightarrow> Full))"

lemma cache_sample_facts:
  "process_ok (cache_sample file) 3" "dq_head (disk_queue (cache_sample file)) = None"
  "length (disk_buffer (disk (machine (cache_sample file)))) = 512"
  "disk_file (disk (machine (cache_sample file))) = file" "pcb_frame (cache_sample file) 3 = 20"
proof -
  have "kmap (sample_kernel [] (Some 3) (replicate 512 (sample_proc 20 PROC_STATE_RUNING)))"
    by (rule sample_kmap) auto
  moreover have "mmu (power_on [] file) = mmu (power_on [] [])" by (simp add: power_on_def)
  ultimately have "kmap (cache_sample file)" by (simp add: cache_sample_def kmap_def)
  moreover have "sleepers_ok (cache_sample file)" by (simp add: cache_sample_def sleepers_ok_def pcb_ok_def)
  ultimately show "process_ok (cache_sample file) 3" by (simp add: process_ok_def cache_sample_def pcb_ok_def)
  show "length (disk_buffer (disk (machine (cache_sample file)))) = 512"
    using power_on_wf [of "[]" "file"] by (simp add: machine_wf_def cache_sample_def)
qed (simp_all add: cache_sample_def power_on_def Disk_create_def sample_kernel_def)

lemma sample_frames:
  "\<forall>b < CACHE_SIZE. buf_frame (buffer_cache (cache_sample file) ! b) \<notin> {MMU_FRAME_INVALID, MMU_LAST_FRAME, pcb_frame (cache_sample file) 3}"
proof (intro allI impI)
  fix b :: nat assume b: "b < CACHE_SIZE"
  then have "unat (of_nat (40 + b) :: uint8) = 40 + b" by (intro unat_of_nat_range) simp
  then show "buf_frame (buffer_cache (cache_sample file) ! b) \<notin> {MMU_FRAME_INVALID, MMU_LAST_FRAME, pcb_frame (cache_sample file) 3}"
    using b unfolding cache_sample_facts(5) by (auto simp: sample_cache_nth sample_buffer_def word_unat_eq_iff simp del: of_nat_add)
qed

lemma sample_lookup: "drive \<noteq> 0 \<Longrightarrow> lru_lookup (buffer_cache (cache_sample file)) (rev [0..<16]) drive blk = Evict 0"
proof -
  assume d: "drive \<noteq> 0"
  have h: "find (\<lambda>b. holds drive blk (buffer_cache (cache_sample file) ! b)) (rev [0..<16]) = None"
    using d sample_cache_nth [of _ "file"] by (auto simp: find_None_iff sample_buffer_def simp del: upt_conv_Cons_Cons)
  have "buffer_cache (cache_sample file) ! 0 = sample_buffer 0" by (rule sample_cache_nth) simp
  then have "idle (buffer_cache (cache_sample file) ! 0)" by (simp add: sample_buffer_def)
  then have "find (\<lambda>b. idle (buffer_cache (cache_sample file) ! b)) (rev (rev [0..<16])) = Some 0"
    by (simp add: upt_conv_Cons)
  then show ?thesis unfolding lru_lookup_def h by simp
qed

lemma sample_get: "\<exists>k1. buffer_get 1 5 ws (cache_sample file) = Some (Inr (0, ws, k1))"
proof -
  have d: "(1 :: uint8) \<noteq> 0" by simp
  have l: "find (\<lambda>b. holds 1 5 (buffer_cache (cache_sample file) ! b)) (rev [0..<16]) = None"
    "find (\<lambda>b. idle (buffer_cache (cache_sample file) ! b)) (rev (rev [0..<16])) = Some 0"
    using sample_lookup [OF d, of "file" 5] unfolding lru_lookup_def by (auto split: option.splits if_splits)
  have "\<forall>a < CACHE_SIZE. \<not> holds 1 5 (buffer_cache (cache_sample file) ! a)"
    using find_none [OF sample_cache_order l(1)] by blast
  from buffer_get_miss [OF sample_cache_order this l(2)] show ?thesis by blast
qed

section \<open>The block cache\<close>

text \<open>
  C10: the block cache keeps its invariant: the sixteen buffers form one circular doubly linked list, a buffer
  is counted exactly while it is locked, and no two buffers hold the same block. \<^verbatim>\<open>buffer_init\<close> establishes it
  (and does not panic when sixteen allocations succeed, as they do after \<^verbatim>\<open>kalloc_init\<close>), \<^verbatim>\<open>buffer_get\<close> returns a locked buffer for the block asked
  for and keeps it, whatever runs while it waits as long as that keeps the invariant too, and so does
  \<^verbatim>\<open>buffer_release\<close>.
\<close>

theorem cache_invariant:
  assumes "length (buffer_cache k0) = Suc CACHE_SIZE"
    and "\<forall>b < CACHE_SIZE. buf_flags (buffer_cache k0 ! b) = 0 \<and> buf_drive (buffer_cache k0 ! b) = 0 \<and> buf_refcount (buffer_cache k0 ! b) = 0"
    and "kalloc_inv k0" and "CACHE_SIZE \<le> frames_ready k0"
    and "cache_inv k" and "\<forall>w \<in> set ws. \<forall>k. cache_inv k \<longrightarrow> cache_inv (w k)" and "drive \<noteq> 0"
  shows "(\<exists>k1. buffer_init k0 = Inr k1 \<and> cache_inv k1) \<and>
    (\<forall>b ws1 k1. buffer_get drive blk ws k = Some (Inr (b, ws1, k1)) \<longrightarrow>
       b < CACHE_SIZE \<and> busy (buffer_cache k1 ! b) \<and> holds drive blk (buffer_cache k1 ! b) \<and> cache_inv k1) \<and>
    (\<forall>b < CACHE_SIZE. \<forall>k1. buffer_release b k = Inr k1 \<longrightarrow> cache_inv k1)"
proof -
  obtain k1 where "buffer_init k0 = Inr k1" using buffer_init_ends [OF assms(3,4)] by blast
  then have "\<exists>k1. buffer_init k0 = Inr k1 \<and> cache_inv k1" using buffer_init_inv(1) [OF assms(1,2)] by blast
  moreover have "b < CACHE_SIZE \<and> cache_inv k1 \<and> busy (buffer_cache k1 ! b) \<and> holds drive blk (buffer_cache k1 ! b)"
    if "buffer_get drive blk ws k = Some (Inr (b, ws1, k1))" for b ws1 k1
    using buffer_get_inv [OF _ assms(7,5) that] assms(6) by blast
  moreover have "cache_inv k1" if b: "b < CACHE_SIZE" and r: "buffer_release b k = Inr k1" for b k1
  proof -
    obtain xs where o: "cache_order k xs" using assms(5) by (auto simp: cache_inv_def)
    have "busy (buffer_cache k ! b)" using r by (auto simp: buffer_release_def split: if_splits)
    from buffer_release_effect [OF assms(5) o b this] show ?thesis using r by (metis sum.inject(2))
  qed
  ultimately show ?thesis by blast
qed

text \<open>The state in which \<^verbatim>\<open>main\<close> calls \<^verbatim>\<open>buffer_init\<close>: \<^verbatim>\<open>kalloc_init\<close> has filled the pool, and the buffers are as the C startup leaves them.\<close>

definition boot_sample :: kernel where
  "boot_sample = kalloc_init ((sample_kernel [] None [])\<lparr>buffer_cache := replicate 17 (sample_buffer 0)\<rparr>)"

lemma kalloc_init_loop_buffers: "buffer_cache (kalloc_init_loop n i k) = buffer_cache k"
  by (induction n i k rule: kalloc_init_loop.induct) simp_all

theorem cache_invariant_witness:
  "(\<exists>k1. buffer_init boot_sample = Inr k1 \<and> cache_inv k1) \<and>
   (\<exists>k1. buffer_get 1 5 [INTER_ON] (cache_sample []) = Some (Inr (0, [INTER_ON], k1)) \<and> cache_inv k1)"
proof -
  have c: "buffer_cache boot_sample = replicate 17 (sample_buffer 0)"
    by (simp add: boot_sample_def kalloc_init_def kalloc_init_loop_buffers)
  have l: "length (buffer_cache boot_sample) = Suc CACHE_SIZE" by (simp add: c)
  have z: "\<forall>b < CACHE_SIZE. buf_flags (buffer_cache boot_sample ! b) = 0 \<and> buf_drive (buffer_cache boot_sample ! b) = 0 \<and> buf_refcount (buffer_cache boot_sample ! b) = 0"
    by (simp add: c sample_buffer_def)
  have a: "length (free_frames ((sample_kernel [] None [])\<lparr>buffer_cache := replicate 17 (sample_buffer 0)\<rparr>)) = 256"
    by (simp add: sample_kernel_def)
  have p: "kalloc_inv boot_sample" "CACHE_SIZE \<le> frames_ready boot_sample"
    unfolding boot_sample_def by (rule kalloc_init_effect(2) [OF a]) (simp add: kalloc_init_ready [OF a])
  have w: "\<forall>w \<in> set [INTER_ON]. \<forall>k. cache_inv k \<longrightarrow> cache_inv (w k)" by simp
  have d: "(1 :: uint8) \<noteq> 0" by simp
  obtain k1 where g: "buffer_get 1 5 [INTER_ON] (cache_sample []) = Some (Inr (0, [INTER_ON], k1))"
    using sample_get by blast
  show ?thesis using cache_invariant [OF l z p sample_cache_inv w d] g by blast
qed

text \<open>
  C18: replacement is least recently used. Against the list of the buffers in the order of their release, a request
  finds the buffer of the block when there is one, waits when that is locked, takes over the idle buffer at the
  far end otherwise, and panics when every buffer is in use; a release moves the buffer to the front and leaves
  the order of the others; releasing an unlocked buffer panics.
\<close>

theorem cache_lru:
  assumes "cache_inv k" and "cache_order k xs"
  shows "buffer_get drive blk ws k =
      (case lru_lookup (buffer_cache k) xs drive blk of
         Hit b \<Rightarrow> Some (Inr (b, ws, INTER_ON (lock_hit b (INTER_OFF k))))
       | Evict b \<Rightarrow> Some (Inr (b, ws, INTER_ON (recycle drive blk b (INTER_OFF k))))
       | Full \<Rightarrow> Some (Inl (Panic ''full cache''))
       | Wait b \<Rightarrow>
           (case ws of
              [] \<Rightarrow> None
            | w # ws1 \<Rightarrow> buffer_get drive blk ws1 (INTER_ON (sleep (buffer_addr (sym k) b) w (INTER_OFF k))))) \<and>
    (\<forall>b < CACHE_SIZE.
       if busy (buffer_cache k ! b)
       then \<exists>k1. buffer_release b k = Inr k1 \<and> cache_order k1 (b # remove1 b xs) \<and> \<not> busy (buffer_cache k1 ! b)
       else buffer_release b k = Inl (Panic ''buffer_release''))"
proof (intro conjI allI impI)
  show "buffer_get drive blk ws k =
      (case lru_lookup (buffer_cache k) xs drive blk of
         Hit b \<Rightarrow> Some (Inr (b, ws, INTER_ON (lock_hit b (INTER_OFF k))))
       | Evict b \<Rightarrow> Some (Inr (b, ws, INTER_ON (recycle drive blk b (INTER_OFF k))))
       | Full \<Rightarrow> Some (Inl (Panic ''full cache''))
       | Wait b \<Rightarrow>
           (case ws of
              [] \<Rightarrow> None
            | w # ws1 \<Rightarrow> buffer_get drive blk ws1 (INTER_ON (sleep (buffer_addr (sym k) b) w (INTER_OFF k)))))"
    unfolding buffer_get_unfold [OF assms(2)] lru_lookup_def by (simp split: option.split)
next
  fix b assume b: "b < CACHE_SIZE"
  show "if busy (buffer_cache k ! b)
       then \<exists>k1. buffer_release b k = Inr k1 \<and> cache_order k1 (b # remove1 b xs) \<and> \<not> busy (buffer_cache k1 ! b)
       else buffer_release b k = Inl (Panic ''buffer_release'')"
  proof (cases "busy (buffer_cache k ! b)")
    case True
    show ?thesis by (rule buffer_release_effect [OF assms b True]) (use True in auto)
  qed (simp add: buffer_release_def)
qed

theorem cache_lru_witness:
  "(\<exists>k1. buffer_get 1 5 [] (cache_sample []) = Some (Inr (0, [], k1))) \<and>
   buffer_release 3 (cache_sample []) = Inl (Panic ''buffer_release'')"
proof -
  have "buffer_cache (cache_sample []) ! 3 = sample_buffer 3" by (rule sample_cache_nth) simp
  then have b: "\<not> busy (buffer_cache (cache_sample []) ! 3)" by (simp add: sample_buffer_def)
  have d: "(1 :: uint8) \<noteq> 0" by simp
  show ?thesis
    using cache_lru [OF sample_cache_inv sample_cache_order, of 1 5 "[]" "[]"] b
    unfolding sample_lookup [OF d] by simp
qed

text \<open>
  C19: a block stays in the cache when it is released. After a request and the release of its buffer, the next request for
  the same block gives the same buffer, locked, and does not wait.
\<close>

theorem block_stays_cached:
  assumes "cache_inv k" and "drive \<noteq> 0" and "buffer_get drive blk [] k = Some (Inr (b, ws1, k1))"
  shows "\<exists>k2 ws3 k3. buffer_release b k1 = Inr k2 \<and> buffer_get drive blk [] k2 = Some (Inr (b, ws3, k3)) \<and>
    busy (buffer_cache k3 ! b) \<and> cache_inv k3"
proof -
  have g: "get_now (drive, blk) k = Some (b, k1)" using assms(3) by (simp add: get_now_def)
  have d: "fst (drive, blk) \<noteq> 0" using assms(2) by simp
  obtain k2 k3 where r: "release_now b k1 = Some k2" "get_now (drive, blk) k2 = Some (b, k3)" "cache_inv k3" "busy (buffer_cache k3 ! b)"
    by (rule kernel_cache.get_again [OF assms(1) d g]) blast
  obtain ws3 where "buffer_get drive blk [] k2 = Some (Inr (b, ws3, k3))" using get_now_get [OF r(2)] by auto
  moreover have "buffer_release b k1 = Inr k2" using r(1) by (auto simp: release_now_def split: sum.splits)
  ultimately show ?thesis using r(3,4) by blast
qed

theorem block_stays_cached_witness:
  "\<exists>k1 k2 ws3 k3. buffer_get 1 5 [] (cache_sample []) = Some (Inr (0, [], k1)) \<and> buffer_release 0 k1 = Inr k2 \<and>
     buffer_get 1 5 [] k2 = Some (Inr (0, ws3, k3))"
proof -
  have d: "(1 :: uint8) \<noteq> 0" by simp
  obtain k1 where g: "buffer_get 1 5 [] (cache_sample []) = Some (Inr (0, [], k1))" using sample_get by blast
  from block_stays_cached [OF sample_cache_inv d g] show ?thesis using g by blast
qed

text \<open>
  C33: the searches of \<^verbatim>\<open>buffer_get\<close> end. On a well-formed cache both walks over the links return whatever they look
  for, and \<^verbatim>\<open>buffer_get\<close> returns a buffer or panics unless another process holds the block; only then does it
  wait.
\<close>

theorem cache_search_ends:
  assumes "cache_inv k" and "drive \<noteq> 0"
  shows "(\<forall>P. \<exists>r. search_next P (buffer_cache k) (buf_next (buffer_cache k ! CACHE_SIZE)) = Some r) \<and>
    (\<forall>P. \<exists>r. search_prev P (buffer_cache k) (buf_prev (buffer_cache k ! CACHE_SIZE)) = Some r) \<and>
    ((\<exists>r. buffer_get drive blk [] k = Some r) \<longleftrightarrow> \<not> waits_for drive blk k) \<and>
    (\<not> waits_for drive blk k \<longrightarrow> (\<forall>ws. \<exists>r. buffer_get drive blk ws k = Some r))"
proof -
  obtain xs where o: "cache_order k xs" using assms(1) by (auto simp: cache_inv_def)
  then have l: "lru (buffer_cache k) xs" by (simp add: cache_order_def)
  have nw: "\<not> busy (buffer_cache k ! b)"
    if "find (\<lambda>b. holds drive blk (buffer_cache k ! b)) xs = Some b" "\<not> waits_for drive blk k" for b
    using find_bound [OF o, of "\<lambda>b. holds drive blk (buffer_cache k ! b)" b] that by (auto simp: waits_for_def)
  have "buffer_get drive blk [] k = None" if "waits_for drive blk k"
    using buffer_get_waits [OF assms(1) that assms(2), where ws = "[]"] by auto
  moreover have "\<exists>r. buffer_get drive blk ws k = Some r" if "\<not> waits_for drive blk k" for ws
    unfolding buffer_get_unfold [OF o] using nw [OF _ that] by (auto split: option.split)
  ultimately show ?thesis using searches [OF l] by (metis option.distinct(1))
qed

theorem cache_search_ends_witness: "\<exists>r. buffer_get 1 5 [] (cache_sample []) = Some r"
proof -
  have "\<not> waits_for 1 5 (cache_sample [])" by (auto simp: waits_for_def sample_cache_nth sample_buffer_def)
  then show ?thesis using cache_search_ends [OF sample_cache_inv [of "[]"], of 1 5] by simp
qed

section \<open>Reading blocks\<close>

text \<open>
  C9: a read that misses the cache is served by the disk. The least recently released idle buffer is taken over, and the
  process sleeps once, through eight sector transfers with their interrupts. The last interrupt wakes it: if no other process
  is ready and none that sleeps waits for the same buffer, the scheduler, which scans the process table between the interrupts, finds
  no one until then and switches back to the process; whatever the others do, the process is ready and a scheduler that takes
  it next resumes it. It comes back running, with the block of the image in the frame of the buffer, which is locked and valid. When the block is in the cache and valid, the read
  locks its buffer and returns without waiting, without a transfer and without touching memory.
\<close>

theorem cached_read:
  assumes "process_ok k p" and "cache_inv k" and "cache_order k xs" and "drive \<noteq> 0"
    and "dq_head (disk_queue k) = None" and "length (disk_buffer (disk (machine k))) = 512"
    and "\<forall>b < CACHE_SIZE. buf_frame (buffer_cache k ! b) \<notin> {MMU_FRAME_INVALID, MMU_LAST_FRAME, pcb_frame k p}"
    and "unat blk < 8192" and "unat blk * 4096 + 4096 \<le> length (disk_file (disk (machine k)))"
  shows "case lru_lookup (buffer_cache k) xs drive blk of
      Evict b \<Rightarrow> \<forall>w. w = served p \<or> w = scheduled \<and> alone k p b \<longrightarrow>
        (\<exists>k1. buffer_read drive blk (w # ws) k = Some (Inr (b, ws, k1)) \<and>
        current_process k1 = Some p \<and> proc_state (proc_table k1 ! p) = PROC_STATE_RUNING \<and> (\<forall>i < 4096. frame_byte k1 (buf_frame (buffer_cache k1 ! b)) i =
           disk_file (disk (machine k)) ! (unat blk * 4096 + i)) \<and>
        holds drive blk (buffer_cache k1 ! b) \<and> busy (buffer_cache k1 ! b) \<and>
        buf_flags (buffer_cache k1 ! b) AND BUFFER_FLAGS_VALID \<noteq> 0)
    | Hit b \<Rightarrow> buf_flags (buffer_cache k ! b) AND BUFFER_FLAGS_VALID \<noteq> 0 \<longrightarrow>
        (\<exists>k1. buffer_read drive blk ws k = Some (Inr (b, ws, k1)) \<and> machine k1 = machine k \<and>
           disk_queue k1 = disk_queue k \<and> holds drive blk (buffer_cache k1 ! b) \<and> busy (buffer_cache k1 ! b))
    | Wait b \<Rightarrow> buffer_read drive blk [] k = None
    | Full \<Rightarrow> buffer_read drive blk ws k = Some (Inl (Panic ''full cache''))"
proof (cases "find (\<lambda>b. holds drive blk (buffer_cache k ! b)) xs")
  case None
  note no = find_none [OF assms(3) None]
  show ?thesis
  proof (cases "find (\<lambda>b. idle (buffer_cache k ! b)) (rev xs)")
    case full: None
    then show ?thesis
      using None by (simp add: lru_lookup_def buffer_read_def io_bind_def buffer_get_unfold [OF assms(3)])
  next
    case (Some b)
    have "b < CACHE_SIZE" using find_bound [OF assms(3), of "\<lambda>b. idle (buffer_cache k ! b)" b] Some by blast
    then have f: "buf_frame (buffer_cache k ! b) \<notin> {MMU_FRAME_INVALID, MMU_LAST_FRAME, pcb_frame k p}"
      using assms(7) by blast
    have "\<forall>a < CACHE_SIZE. \<not> holds drive blk (buffer_cache k ! a)" using no by blast
    note m = buffer_read_miss [OF assms(1,3) this Some assms(5,6) f assms(8,9)]
    show ?thesis unfolding lru_lookup_def None Some option.case lookup.case
    proof (intro allI impI)
      fix w
      assume w: "w = served p \<or> w = scheduled \<and> alone k p b"
      show "\<exists>k1. buffer_read drive blk (w # ws) k = Some (Inr (b, ws, k1)) \<and>
        current_process k1 = Some p \<and> proc_state (proc_table k1 ! p) = PROC_STATE_RUNING \<and>
        (\<forall>i < 4096. frame_byte k1 (buf_frame (buffer_cache k1 ! b)) i = disk_file (disk (machine k)) ! (unat blk * 4096 + i)) \<and>
        holds drive blk (buffer_cache k1 ! b) \<and> busy (buffer_cache k1 ! b) \<and>
        buf_flags (buffer_cache k1 ! b) AND BUFFER_FLAGS_VALID \<noteq> 0"
        by (rule m [OF w, of ws]) blast
    qed
  qed
next
  case (Some b)
  then have b: "b < CACHE_SIZE" "holds drive blk (buffer_cache k ! b)"
    using find_bound [OF assms(3), of "\<lambda>b. holds drive blk (buffer_cache k ! b)" b] by blast+
  show ?thesis
  proof (cases "busy (buffer_cache k ! b)")
    case True
    then show ?thesis
      using Some by (simp add: lru_lookup_def buffer_read_def io_bind_def buffer_get_unfold [OF assms(3)])
  next
    case False
    have c: "machine (INTER_ON (lock_hit b (INTER_OFF k))) = machine k" "disk_queue (INTER_ON (lock_hit b (INTER_OFF k))) = disk_queue k"
      by (simp_all add: lock_hit_def upd_buffer_def INTER_ON_def INTER_OFF_def)
    have "cache_inv (INTER_OFF k)" "\<not> busy (buffer_cache (INTER_OFF k) ! b)" using assms(2) False by simp_all
    note l = lock_hit_inv [OF this(1) b(1) this(2)]
    show ?thesis
      using False Some c l(2) l(3) [where d = drive and n = blk] b buffer_read_hit [OF assms(2,4) b False] by (simp add: lru_lookup_def)
  qed
qed

theorem cached_read_witness:
  "\<exists>k1. buffer_read 1 5 [scheduled] (cache_sample (replicate 24576 9)) = Some (Inr (0, [], k1)) \<and>
     current_process k1 = Some 3 \<and> proc_state (proc_table k1 ! 3) = PROC_STATE_RUNING \<and>
     frame_byte k1 (buf_frame (buffer_cache k1 ! 0)) 100 = 9"
proof -
  note f = cache_sample_facts [of "replicate 24576 9"]
  have d: "(1 :: uint8) \<noteq> 0" and b: "unat (5 :: uint16) < 8192"
    and l: "unat (5 :: uint16) * 4096 + 4096 \<le> length (disk_file (disk (machine (cache_sample (replicate 24576 9)))))"
    by (simp_all add: f(4))
  have a: "alone (cache_sample (replicate 24576 9)) 3 0"
    by (simp add: alone_def rr_ok_def runnable_def cache_sample_def)
  show ?thesis
    using cached_read [OF f(1) sample_cache_inv sample_cache_order d f(2,3) sample_frames b l, of "[]"] a
    unfolding sample_lookup [OF d] f(4) lookup.case by auto
qed

section \<open>Allocating blocks\<close>

text \<open>
  C21: block allocation on the bitmap. A scan of a bitmap block that covers the 32768 blocks from \<open>base\<close> finds the first
  free one below the size of the file system, marks it used and changes no other bit and no other frame; when
  there is none it changes nothing. Freeing the block found restores every bit; freeing a block that is not in use
  panics.
\<close>

theorem block_alloc_free:
  assumes "kmap k" and "f = buf_frame (buffer_cache k ! b)" and "f \<notin> {MMU_FRAME_INVALID, MMU_LAST_FRAME}"
    and "base \<in> {0, 0x8000}"
  shows "(case alloc_scan b base k of
      (None, k1) \<Rightarrow> k1 = k \<and> (\<forall>n < 32768. \<not> free_block k f base n)
    | (Some found, k1) \<Rightarrow> (\<exists>m < 32768. unat found = unat base + m \<and> free_block k f base m \<and>
        (\<forall>n < m. \<not> free_block k f base n) \<and> (\<forall>n < 32768. used k1 f n \<longleftrightarrow> n = m \<or> used k f n) \<and>
        (\<forall>g i. i < 4096 \<longrightarrow> g \<noteq> f \<longrightarrow> frame_byte k1 g i = frame_byte k g i) \<and>
        (\<exists>k2. free_bit b found k1 = Inr k2 \<and> (\<forall>n < 32768. used k2 f n = used k f n)))) \<and>
    (\<forall>block. \<not> used k f (unat block mod 32768) \<longrightarrow> free_bit b block k = Inl (Panic ''block_free''))"
proof -
  have base: "unat base + 32768 \<le> 65536" "unat base mod 32768 = 0" using assms(4) by auto
  note a = alloc_scan_effect [OF assms(1-3) base(1)]
  have p: "\<forall>block. \<not> used k f (unat block mod 32768) \<longrightarrow> free_bit b block k = Inl (Panic ''block_free'')"
    using free_bit_effect [OF assms(1-3)] by (simp add: Let_def)
  show ?thesis
  proof (cases "find (free_block k f base) [0..<32768]")
    case None
    then have "\<forall>n < 32768. \<not> free_block k f base n" by (auto simp: find_None_iff)
    then show ?thesis using p unfolding a None option.case prod.case by blast
  next
    case (Some m)
    have m: "m < 32768" "free_block k f base m" "\<forall>n < m. \<not> free_block k f base n"
      using Some by (auto simp: find_Some_iff simp del: upt_conv_Cons_Cons)
    let ?k1 = "with_bit f m True k"
    have u: "unat (of_nat (unat base + m) :: uint16) = unat base + m" using m(1) base(1) by (intro unat_of_nat_range) simp
    have k1: "kmap ?k1" "f = buf_frame (buffer_cache ?k1 ! b)" using assms(1,2) by (simp_all add: with_bit_def kmap_def)
    have n: "(unat base + m) mod 32768 = m" using base(2) m(1) by (simp add: mod_add_eq [symmetric, of "unat base"])
    have "free_bit b (of_nat (unat base + m)) ?k1 = Inr (with_bit f m False ?k1)"
      using free_bit_effect [OF k1 assms(3), of "of_nat (unat base + m)"] used_with_bit [OF m(1,1), of f True k f]
      unfolding u n by (simp add: Let_def)
    moreover have "\<forall>n < 32768. used (with_bit f m False ?k1) f n = used k f n"
      using m(1,2) by (simp add: used_with_bit free_block_def)
    moreover have "\<forall>n < 32768. used ?k1 f n \<longleftrightarrow> n = m \<or> used k f n" using m(1) by (simp add: used_with_bit)
    moreover have "\<forall>g i. i < 4096 \<longrightarrow> g \<noteq> f \<longrightarrow> frame_byte ?k1 g i = frame_byte k g i"
      using m(1) by (simp add: frame_byte_with_bit)
    ultimately show ?thesis using m u p unfolding a Some option.case prod.case by blast
  qed
qed

lemma sample_frame_0: "buf_frame (buffer_cache (cache_sample file) ! 0) = 40"
  using sample_cache_nth [of 0 "file"] by (simp add: sample_buffer_def)

lemma sample_kmap_cache: "kmap (cache_sample file)"
  using cache_sample_facts(1) by (simp add: process_ok_def)

definition bitmap_sample :: kernel where
  "bitmap_sample = (cache_sample [])\<lparr>super_block := image_super_block\<rparr>"

theorem block_alloc_free_witness: "fst (alloc_scan 0 0 bitmap_sample) = Some 0"
proof -
  have f: "40 = buf_frame (buffer_cache bitmap_sample ! 0)" by (simp add: bitmap_sample_def sample_frame_0)
  have k: "kmap bitmap_sample" using sample_kmap_cache [of "[]"] by (simp add: bitmap_sample_def kmap_def)
  have "free_block bitmap_sample 40 0 0"
    by (simp add: free_block_def used_def frame_byte_def bitmap_sample_def cache_sample_def power_on_def RAM_create_def layout)
  then show ?thesis
    using block_alloc_free [OF k f, of 0] by (auto simp: word_unat_eq_iff split: prod.splits option.splits)
qed

section \<open>The file system image\<close>

lemma super_block_of_bytes:
  assumes "\<forall>i < 14. bs ! i = sb_bytes sb ! i"
  shows "super_block_of bs = sb"
proof -
  have "super_block_of bs = super_block_of (sb_bytes sb)"
    using assms by (simp add: super_block_of_def word_at_def argument_32_def)
  then show ?thesis by (simp only: super_block_roundtrip)
qed

lemma load_super_block_effect:
  assumes "kmap k" and "buf_frame (buffer_cache k ! b) \<notin> {MMU_FRAME_INVALID, MMU_LAST_FRAME}"
  shows "super_block (load_super_block b k) =
    super_block_of (map (frame_byte k (buf_frame (buffer_cache k ! b))) [0..<14])"
proof -
  let ?f = "buf_frame (buffer_cache k ! b)"
  obtain w old k1 where m: "map_window 2 ?f k = (w, old, k1)" by (metis prod_cases3)
  have "w = WINDOW2" using m by (auto simp: map_window_def Let_def split: if_splits)
  then have "read_bytes WINDOW2 14 k1 = (map (frame_byte k ?f) [0..<14], k1)"
    using window_bytes_read(1) [OF assms(1) _ assms(2) m, of 0 14] by simp
  then show ?thesis
    using m by (simp add: load_super_block_def unmap_window_def install_window_def set_low_memory_def MMIO8_write_def
        Let_def split: option.split)
qed

text \<open>
  C20: the kernel mounts what the image builder writes. On a disk that holds an image of \<^verbatim>\<open>mkfs\<close>, whatever the kernel file
  and the contents of fresh memory were, reading the super block through the cache gives a block from which the
  kernel takes exactly the super block of the builder, with the magic number \<^verbatim>\<open>fs_init\<close> asks for and a size that
  is the size of the image.
\<close>

theorem image_mounts:
  assumes "process_ok k p" and "cache_inv k" and "cache_order k xs" and "drive \<noteq> 0"
    and "dq_head (disk_queue k) = None" and "length (disk_buffer (disk (machine k))) = 512"
    and "\<forall>b < CACHE_SIZE. buf_frame (buffer_cache k ! b) \<notin> {MMU_FRAME_INVALID, MMU_LAST_FRAME, pcb_frame k p}"
    and "lru_lookup (buffer_cache k) xs drive SUPER_BLOCK_BLOCK = Evict b"
    and "disk_file (disk (machine k)) = mkfs junk1 junk2 src"
  shows "\<exists>k1. buffer_read drive SUPER_BLOCK_BLOCK (served p # ws) k = Some (Inr (b, ws, k1)) \<and>
    current_process k1 = Some p \<and> proc_state (proc_table k1 ! p) = PROC_STATE_RUNING \<and>
    super_block (load_super_block b k1) = image_super_block \<and> sb_magic image_super_block = FS_MAGIC \<and>
    unat (sb_size image_super_block) * BLOCK_SIZE = length (disk_file (disk (machine k)))"
proof -
  let ?img = "mkfs junk1 junk2 src"
  note i = mkfs_image [where ?junk1.0 = junk1 and ?junk2.0 = junk2 and src = src]
  have l: "find (\<lambda>b. holds drive SUPER_BLOCK_BLOCK (buffer_cache k ! b)) xs = None"
    "find (\<lambda>b. idle (buffer_cache k ! b)) (rev xs) = Some b"
    using assms(8) by (auto simp: lru_lookup_def split: option.splits if_splits)
  have b: "b < CACHE_SIZE" using find_bound [OF assms(3), of "\<lambda>b. idle (buffer_cache k ! b)" b] l(2) by blast
  then have f: "buf_frame (buffer_cache k ! b) \<notin> {MMU_FRAME_INVALID, MMU_LAST_FRAME, pcb_frame k p}"
    using assms(7) by blast
  have no: "\<forall>a < CACHE_SIZE. \<not> holds drive SUPER_BLOCK_BLOCK (buffer_cache k ! a)"
    using find_none [OF assms(3) l(1)] by blast
  have sz: "unat SUPER_BLOCK_BLOCK < 8192"
    "unat SUPER_BLOCK_BLOCK * 4096 + 4096 \<le> length (disk_file (disk (machine k)))"
    unfolding assms(9) i(1) by simp_all
  obtain k1 where r: "buffer_read drive SUPER_BLOCK_BLOCK (served p # ws) k = Some (Inr (b, ws, k1))"
    and cont: "\<And>i. i < 4096 \<Longrightarrow> frame_byte k1 (buf_frame (buffer_cache k1 ! b)) i =
        disk_file (disk (machine k)) ! (unat SUPER_BLOCK_BLOCK * 4096 + i)"
    and k1: "kmap k1" "buf_frame (buffer_cache k1 ! b) = buf_frame (buffer_cache k ! b)"
    and run: "current_process k1 = Some p" "proc_state (proc_table k1 ! p) = PROC_STATE_RUNING"
    by (rule buffer_read_miss [OF assms(1,3) no l(2) assms(5,6) f sz disjI1 [OF refl], of ws]) blast
  have "frame_byte k1 (buf_frame (buffer_cache k1 ! b)) j = sb_bytes image_super_block ! j" if "j < 14" for j
    using cont [of j] i(3) [of j] that unfolding assms(9) by (simp add: image_bytes_def)
  then have "super_block_of (map (frame_byte k1 (buf_frame (buffer_cache k1 ! b))) [0..<14]) = image_super_block"
    by (intro super_block_of_bytes) simp
  moreover have "buf_frame (buffer_cache k1 ! b) \<notin> {MMU_FRAME_INVALID, MMU_LAST_FRAME}" using f k1(2) by simp
  ultimately have "super_block (load_super_block b k1) = image_super_block"
    using load_super_block_effect [OF k1(1)] by simp
  moreover have "sb_magic image_super_block = FS_MAGIC" "unat (sb_size image_super_block) * BLOCK_SIZE = length ?img"
    unfolding i(1) by (simp_all add: layout)
  ultimately show ?thesis using r run assms(9) by auto
qed

theorem image_mounts_witness:
  "\<exists>k1. buffer_read 1 SUPER_BLOCK_BLOCK [served 3] (cache_sample (mkfs [] [] [])) = Some (Inr (0, [], k1)) \<and>
     super_block (load_super_block 0 k1) = image_super_block"
proof -
  note f = cache_sample_facts [of "mkfs [] [] []"]
  have d: "(1 :: uint8) \<noteq> 0" by simp
  from image_mounts [OF f(1) sample_cache_inv sample_cache_order d f(2,3) sample_frames sample_lookup [OF d] f(4), of "[]"]
  show ?thesis by blast
qed

text \<open>
  C34: the bitmap of a fresh image is right: it marks as used exactly the boot blocks, the super block, the inodes, the
  bitmap, the root directory and the blocks past the end of the disk, so that the first allocation on a mounted
  fresh image returns block 35, the first block behind the root directory.
\<close>

theorem fresh_image_allocation:
  assumes "kmap k" and "buf_frame (buffer_cache k ! b) \<notin> {MMU_FRAME_INVALID, MMU_LAST_FRAME}"
    and "super_block k = image_super_block"
    and "\<forall>i < 4096. frame_byte k (buf_frame (buffer_cache k ! b)) i =
      image_bytes (unat (BIT_B_BLOCK 0 image_super_block)) (mkfs junk1 junk2 src) i"
  shows "(\<forall>n < 32768. used k (buf_frame (buffer_cache k ! b)) n \<longleftrightarrow> n \<le> unat root_data_block \<or> 8192 \<le> n) \<and>
    fst (alloc_scan b 0 k) = Some (root_data_block + 1)"
proof -
  let ?f = "buf_frame (buffer_cache k ! b)"
  have bb: "unat (BIT_B_BLOCK 0 image_super_block) = 33" by (simp add: BIT_B_BLOCK_def layout)
  have u: "used k ?f n \<longleftrightarrow> n \<le> unat root_data_block \<or> 8192 \<le> n" if "n < 32768" for n
  proof -
    have "n div 8 < 4096" using that by (simp add: less_mult_imp_div_less)
    then have "frame_byte k ?f (n div 8) = image_bitmap image_super_block 34 1 ! (n div 8)"
      using assms(4) mkfs_image(2) [of "n div 8" junk1 junk2 src] unfolding bb by simp
    then show ?thesis
      using image_bitmap_bits [of n 1 image_super_block 34] that by (simp add: used_def layout)
  qed
  have fr: "free_block k ?f 0 n \<longleftrightarrow> 34 < n \<and> n < 8192" if "n < 32768" for n
    using u [OF that] by (auto simp: free_block_def assms(3) layout)
  have "find (free_block k ?f 0) [0..<32768] = Some 35"
    unfolding find_Some_iff using fr by (intro exI [of _ 35]) (simp del: upt_conv_Cons_Cons)
  then show ?thesis
    using u alloc_scan_effect [OF assms(1) refl assms(2), of 0] by (simp add: layout)
qed

definition image_sample :: kernel where
  "image_sample = (cache_sample [])\<lparr>super_block := image_super_block,
     machine := (power_on [] [])\<lparr>ram := ram_write 40 0 (map (image_bytes 33 (mkfs [] [] [])) [0..<4096]) RAM_create\<rparr>\<rparr>"

theorem fresh_image_allocation_witness: "fst (alloc_scan 0 0 image_sample) = Some 35"
proof -
  have f: "buf_frame (buffer_cache image_sample ! 0) = 40" by (simp add: image_sample_def sample_frame_0)
  have k: "kmap image_sample" using sample_kmap_cache [of "[]"] by (simp add: image_sample_def cache_sample_def kmap_def)
  have s: "super_block image_sample = image_super_block" by (simp add: image_sample_def)
  have b: "unat (BIT_B_BLOCK 0 image_super_block) = 33" by (simp add: BIT_B_BLOCK_def layout)
  have "frame_byte image_sample 40 i = image_bytes 33 (mkfs [] [] []) i" if "i < 4096" for i
    using that by (simp add: image_sample_def frame_byte_def del: upt_conv_Cons_Cons)
  then have c: "\<forall>i < 4096. frame_byte image_sample (buf_frame (buffer_cache image_sample ! 0)) i =
      image_bytes (unat (BIT_B_BLOCK 0 image_super_block)) (mkfs [] [] []) i" unfolding f b by blast
  have v: "buf_frame (buffer_cache image_sample ! 0) \<notin> {MMU_FRAME_INVALID, MMU_LAST_FRAME}" unfolding f by simp
  show ?thesis using fresh_image_allocation [OF k v s c] by (simp add: layout)
qed

end
