(* ===== verification/Kernel_Exit.thy ===== *)
theory Kernel_Exit
  imports Kernel_Entry
begin

text \<open>
  How a process ends in a trap handler (\<^verbatim>\<open>trap.c\<close>): the handler reports on the serial line, one character at a time, and calls
  \<^verbatim>\<open>sys_exit\<close> (\<^verbatim>\<open>proc.c\<close>), which leaves the process a zombie.
\<close>

section \<open>Output\<close>

text \<open>
  The kernel runs for \<open>p\<close>, which is not the first process. While it polls the serial port the rest of the system may do
  anything that leaves this so and ends with the transmitter ready.
\<close>

definition serving :: "nat \<Rightarrow> kernel \<Rightarrow> bool" where
  "serving p k \<longleftrightarrow> in_kernel k p \<and> init_process k \<noteq> Some p"

definition transmits :: "nat \<Rightarrow> (kernel \<Rightarrow> kernel) \<Rightarrow> bool" where
  "transmits p w \<longleftrightarrow>
     (\<forall>k. serving p k \<longrightarrow> serving p (w k) \<and> uart_status (uart (machine (w k))) AND UART_STATUS_TX_READY \<noteq> 0)"

text \<open>The action ends after at most \<open>n\<close> waits.\<close>

definition outputs :: "nat \<Rightarrow> nat \<Rightarrow> unit io \<Rightarrow> bool" where
  "outputs p n act \<longleftrightarrow> (\<forall>ws k. serving p k \<longrightarrow> (\<forall>w \<in> set ws. transmits p w) \<longrightarrow> n \<le> length ws \<longrightarrow>
     (\<exists>ws1 k1. act ws k = Some (Inr ((), ws1, k1)) \<and> serving p k1 \<and> set ws1 \<subseteq> set ws \<and> length ws \<le> length ws1 + n))"

lemma outputsE:
  assumes "outputs p n act" and "serving p k" and "\<forall>w \<in> set ws. transmits p w" and "n \<le> length ws"
  obtains ws1 k1 where "act ws k = Some (Inr ((), ws1, k1))" and "serving p k1" and "\<forall>w \<in> set ws1. transmits p w"
    and "length ws \<le> length ws1 + n"
proof -
  have "\<exists>ws1 k1. act ws k = Some (Inr ((), ws1, k1)) \<and> serving p k1 \<and> set ws1 \<subseteq> set ws \<and> length ws \<le> length ws1 + n"
    using assms unfolding outputs_def by simp
  then show ?thesis using that assms(3) by blast
qed

lemma outputs_mono: "outputs p n act \<Longrightarrow> n \<le> m \<Longrightarrow> outputs p m act"
  unfolding outputs_def by (meson le_trans add_le_mono order_refl)

lemma outputs_return: "outputs p 0 (io_return ())"
  by (simp add: outputs_def io_return_def)

lemma outputs_then:
  assumes "outputs p n a" and "outputs p m b"
  shows "outputs p (n + m) (io_then a b)"
  unfolding outputs_def
proof (intro allI impI)
  fix ws k
  assume s: "serving p k" "\<forall>w \<in> set ws. transmits p w" "n + m \<le> length ws"
  obtain ws1 k1 where 1: "a ws k = Some (Inr ((), ws1, k1))" "serving p k1" "set ws1 \<subseteq> set ws" "length ws \<le> length ws1 + n"
    using assms(1) s unfolding outputs_def by (meson add_leD1)
  have "\<forall>w \<in> set ws1. transmits p w" "m \<le> length ws1" using 1 s by auto
  then obtain ws2 k2 where 2: "b ws1 k1 = Some (Inr ((), ws2, k2))" "serving p k2" "set ws2 \<subseteq> set ws1" "length ws1 \<le> length ws2 + m"
    using assms(2) 1(2) unfolding outputs_def by meson
  have "io_then a b ws k = Some (Inr ((), ws2, k2))" using io_then_result [where act = a and k = k and f = b, OF 1(1)] 2(1) by simp
  then show "\<exists>ws1 k1. io_then a b ws k = Some (Inr ((), ws1, k1)) \<and> serving p k1 \<and> set ws1 \<subseteq> set ws \<and>
      length ws \<le> length ws1 + (n + m)"
    using 1 2 by auto
qed

text \<open>One character: the status is read until the transmitter is ready, at most twice.\<close>

lemma serving_machine:
  "serving p k \<Longrightarrow> mmu m = mmu (machine k) \<Longrightarrow> serving p (k\<lparr>machine := m\<rparr>)"
  by (simp add: serving_def in_kernel_def pcb_ok_def kmap_machine)

lemma serving_mapped: "serving p k \<Longrightarrow> kernel_mapped (machine k)"
  by (simp add: serving_def in_kernel_def kmap_mapped)

lemma status_poll: "serving p k \<Longrightarrow> MMIO8_read 0xfe12 k = (uart_status (uart (machine k)), k)"
  using status_read(1) [OF serving_mapped, of p k] by (simp add: MMIO8_read_def)

lemma outputs_putc: "outputs p 1 (uart_putc_sync c)"
  unfolding outputs_def
proof (intro allI impI)
  fix ws k
  assume s: "serving p k" "\<forall>w \<in> set ws. transmits p w" "1 \<le> length ws"
  obtain w ws1 where ws: "ws = w # ws1" using s(3) by (cases ws) auto
  have w: "serving p (w k)" "uart_status (uart (machine (w k))) AND UART_STATUS_TX_READY \<noteq> 0"
    using s ws by (simp_all add: transmits_def)
  have send: "serving p (MMIO8_write 0xfe10 c k1)" if "serving p k1" for k1
    unfolding MMIO8_write_def using that
    by (intro serving_machine) (simp_all add: Machine_write_def kernel_translate(2) [OF serving_mapped [OF that]] Let_def)
  have "\<exists>ws2 k2. uart_poll UART_STATUS_TX_READY (\<lambda>w k. w k) ws k = Some (Inr ((), ws2, k2)) \<and> serving p k2 \<and>
      set ws2 \<subseteq> set ws \<and> length ws \<le> length ws2 + 1"
  proof (cases "uart_status (uart (machine k)) AND UART_STATUS_TX_READY = 0")
    case True
    have "uart_poll UART_STATUS_TX_READY (\<lambda>w k. w k) ws1 (w k) = Some (Inr ((), ws1, w k))"
      using w status_poll [OF w(1)] by (subst uart_poll.simps) simp
    then have "uart_poll UART_STATUS_TX_READY (\<lambda>w k. w k) ws k = Some (Inr ((), ws1, w k))"
      using True status_poll [OF s(1)] ws by (subst uart_poll.simps) simp
    then show ?thesis using w(1) ws by auto
  next
    case False
    then have "uart_poll UART_STATUS_TX_READY (\<lambda>w k. w k) ws k = Some (Inr ((), ws, k))"
      using status_poll [OF s(1)] by (subst uart_poll.simps) simp
    then show ?thesis using s(1) by auto
  qed
  then obtain ws2 k2 where r: "uart_poll UART_STATUS_TX_READY (\<lambda>w k. w k) ws k = Some (Inr ((), ws2, k2))" "serving p k2"
      "set ws2 \<subseteq> set ws" "length ws \<le> length ws2 + 1" by blast
  have "uart_putc_sync c ws k = Some (Inr ((), ws2, MMIO8_write 0xfe10 c k2))"
    unfolding uart_putc_sync_def
    by (subst io_then_result [where act = "uart_poll UART_STATUS_TX_READY (\<lambda>w k. w k)" and k = k, OF r(1)]) (simp add: io_do_def)
  then show "\<exists>ws1 k1. uart_putc_sync c ws k = Some (Inr ((), ws1, k1)) \<and> serving p k1 \<and> set ws1 \<subseteq> set ws \<and> length ws \<le> length ws1 + 1"
    using send [OF r(2)] r(3,4) by blast
qed

lemma outputs_for: "outputs p (length cs) (io_for cs uart_putc_sync)"
proof (induction cs)
  case Nil
  then show ?case using outputs_return by simp
next
  case (Cons c cs)
  then show ?case using outputs_then [OF outputs_putc Cons.IH, of c] by simp
qed

lemma int_digits_length: "int_digits room n base = Some cs \<Longrightarrow> length cs \<le> room"
proof (induction room arbitrary: n cs)
  case (Suc room)
  then show ?case by (auto split: option.splits if_splits)
qed simp

lemma int_chars_length: "int_chars number base sign = Some cs \<Longrightarrow> length cs \<le> 20"
  using int_digits_length [of 20]
  by (auto simp: int_chars_def Let_def bind_eq_Some_conv split: if_splits)

lemma outputs_int: "int_chars number base sign \<noteq> None \<Longrightarrow> outputs p 20 (print_int number base sign)"
  using outputs_mono [OF outputs_for int_chars_length] by (auto simp: print_int_def)

lemma outputs_ptr: "outputs p 6 (print_ptr v)"
proof -
  have "length (ptr_digits n v) = n" for n v by (induction n arbitrary: v) simp_all
  then have "length ([0x30, 0x78] @ ptr_digits 4 v) = 6" by simp
  then show ?thesis using outputs_for [of p "[0x30, 0x78] @ ptr_digits 4 v"] unfolding print_ptr_def by (simp only:)
qed

lemma outputs_str: "outputs p (length s) (print_str (Some s))"
  unfolding print_str_def by (rule outputs_mono [OF outputs_for]) (simp add: length_takeWhile_le)

text \<open>The steps of \<^verbatim>\<open>vprintk\<close> on the directives of the reports.\<close>

lemma vprintk_steps:
  "vprintk_loop False [] ap = io_return ()"
  "c \<noteq> 0 \<Longrightarrow> c \<noteq> 0x25 \<Longrightarrow> vprintk_loop False (c # fmt) ap = io_then (uart_putc_sync c) (vprintk_loop False fmt ap)"
  "vprintk_loop False (0x25 # 0x64 # fmt) (Va16 v # ap) = io_then (print_int (scast v) 10 True) (vprintk_loop False fmt ap)"
  "vprintk_loop False (0x25 # 0x78 # fmt) (Va16 v # ap) = io_then (print_int (ucast v) 16 False) (vprintk_loop False fmt ap)"
  "vprintk_loop False (0x25 # 0x70 # fmt) (Va16 v # ap) = io_then (print_ptr v) (vprintk_loop False fmt ap)"
  "vprintk_loop False (0x25 # 0x73 # fmt) (VaStr s # ap) = io_then (print_str s) (vprintk_loop False fmt ap)"
  by (simp_all add: vprintk_loop.simps with16_def with_str_def)

lemma int_chars_16:
  fixes v :: uint16
  shows "int_chars (scast v) 10 True \<noteq> None" and "int_chars (ucast v) 16 False \<noteq> None"
proof -
  have s: "sint (scast v :: uint32) = sint v" by (rule sint_up_scast) (simp add: is_up)
  have "- (2 ^ 15) \<le> sint v" using sint_greater_eq [of v] by simp
  then have n: "sint (scast v :: uint32) \<noteq> - (2 ^ 31)" unfolding s by simp
  show "int_chars (scast v) 10 True \<noteq> None"
  proof (cases "0 \<le> sint (scast v :: uint32)")
    case True
    then show ?thesis by (simp add: int_chars_nonnegative)
  next
    case False
    then have "sint (scast v :: uint32) < 0" by simp
    from int_chars_negative(1) [OF this] n show ?thesis by simp
  qed
  have "0 \<le> uint v" "uint v < 2 ^ 31" using unsigned_less [of v, where ?'a = int] by simp_all
  then have "- (2 ^ 31) \<le> uint v" "uint v < 2 ^ 31" by linarith+
  then have "sint (ucast v :: uint32) = uint v" by (simp add: signed_ucast_eq signed_take_bit_int_eq_self)
  then show "int_chars (ucast v) 16 False \<noteq> None" by (simp add: int_chars_nonnegative)
qed

lemmas outputs_steps = outputs_then outputs_putc outputs_int [OF int_chars_16(1)] outputs_int [OF int_chars_16(2)]
  outputs_ptr outputs_str outputs_return

lemma outputs_log:
  assumes "outputs p n (printk fmt ap)"
  shows "outputs p (n + 39) (LOG ''kernel/trap.c'' line fmt ap)"
proof -
  have "outputs p 38 (printk (0x09 # chars ''[%s:%d] '') [VaStr (Some (chars ''kernel/trap.c'')), Va16 line])"
    unfolding printk_def vprintk_def
    by (simp add: chars_def vprintk_steps) (rule outputs_mono, (rule outputs_steps)+, simp)
  then show ?thesis
    unfolding LOG_def using outputs_then [OF _ outputs_then [OF assms outputs_putc, of "0x0A"]] outputs_mono by fastforce
qed

section \<open>The states of the processes\<close>

definition proc_states :: "kernel \<Rightarrow> Proc_State list" where
  "proc_states k = map proc_state (proc_table k)"

lemma states_low_memory: "proc_states (k\<lparr>proc_table := (proc_table k)[q := (proc_table k ! q)\<lparr>kernel_low_memory := l\<rparr>]\<rparr>) = proc_states k"
  unfolding proc_states_def by (cases "q < length (proc_table k)") (auto intro!: nth_equalityI simp: nth_list_update)

lemma states_bus [simp]:
  "proc_states (snd (MMIO8_read a k)) = proc_states k" "proc_states (MMIO8_write a v k) = proc_states k"
  "proc_states (INTER_ON k) = proc_states k" "proc_states (INTER_OFF k) = proc_states k"
  "proc_states (set_low_memory w f k) = proc_states k"
  by (simp_all add: MMIO8_read_def MMIO8_write_def INTER_ON_def INTER_OFF_def set_low_memory_def split_beta
      states_low_memory Let_def split: option.split) (simp_all add: proc_states_def)

lemma states_windows [simp]:
  "proc_states (install_window w f k) = proc_states k" "proc_states (snd (snd (map_window w f k))) = proc_states k"
  "proc_states (unmap_window w f k) = proc_states k"
proof -
  have "proc_states (k\<lparr>kernel_page_table := t\<rparr>) = proc_states k" for t k by (simp add: proc_states_def)
  then show i: "proc_states (install_window w f k) = proc_states k" for w f k by (simp add: install_window_def Let_def)
  show "proc_states (snd (snd (map_window w f k))) = proc_states k" "proc_states (unmap_window w f k) = proc_states k"
    by (simp_all add: map_window_def unmap_window_def i Let_def)
qed

lemma states_accessors [simp]:
  "proc_states (snd (proc_get_16 q off k)) = proc_states k" "proc_states (proc_set_16 q off v k) = proc_states k"
  by (simp_all add: proc_get_16_def proc_set_16_def MAP_PCB_def UNMAP_PCB_def MMIO16_read_def MMIO16_write_def Let_def split_beta)

text \<open>The running process is a zombie. Nothing that is done after its state is set wakes it: only sleepers are woken.\<close>

definition gone :: "nat \<Rightarrow> kernel \<Rightarrow> bool" where
  "gone p k \<longleftrightarrow> current_process k = Some p \<and> p < length (proc_states k) \<and> proc_states k ! p = PROC_STATE_ZOMBIE"

lemma gone_state: "gone p k \<Longrightarrow> proc_state (proc_table k ! p) = PROC_STATE_ZOMBIE \<and> \<not> runnable k p"
  by (auto simp: gone_def proc_states_def runnable_def)

lemma gone_accessors [simp]:
  "gone p (snd (proc_get_16 q off k)) = gone p k" "gone p (proc_set_16 q off v k) = gone p k"
  by (simp_all add: gone_def)

lemma gone_wakeup: "gone p k \<Longrightarrow> gone p (wakeup ch k)"
proof -
  have "gone p (wakeup_at ch i k)" if g: "gone p k" for i k
  proof -
    define k1 where "k1 = snd (proc_get_16 i off_channel k)"
    have k1: "gone p k1" "proc_states k1 = proc_states k" using g by (simp_all add: k1_def)
    have "gone p (set_state i PROC_STATE_READY k1)" if i: "proc_state (proc_table k ! i) = PROC_STATE_SLEEPING"
    proof -
      have "i \<noteq> p" using gone_state [OF g] i by auto
      then show ?thesis using k1(1) by (auto simp: gone_def proc_states_def set_state_def)
    qed
    then show ?thesis using g k1(1) by (simp add: wakeup_at_def k1_def Let_def split_beta)
  qed
  then have "gone p k \<Longrightarrow> gone p (fold (wakeup_at ch) is k)" for "is" by (induction "is" arbitrary: k) simp_all
  then show "gone p k \<Longrightarrow> gone p (wakeup ch k)" by (simp only: wakeup_def)
qed

lemma gone_reparent: "gone p k \<Longrightarrow> gone p (reparent_loop is k)"
proof (induction "is" arbitrary: k)
  case (Cons i "is")
  define k1 where "k1 = snd (proc_get_16 i off_parent k)"
  define k2 where "k2 = proc_set_16 i off_parent (proc_addr (sym k1) (the (init_process k1))) k1"
  have "gone p k1" "gone p k2" "gone p (wakeup ch k2)" for ch using Cons.prems gone_wakeup by (simp_all add: k1_def k2_def)
  then show ?case using Cons by (simp add: k1_def [symmetric] k2_def [symmetric] Let_def split_beta)
qed simp

lemma kfree_process: "current_process (kfree f k) = current_process k" "length (proc_states (kfree f k)) = length (proc_states k)"
proof -
  have w: "proc_states (write_bytes a vs k) = proc_states k" for a vs k by (induction vs arbitrary: a k) simp_all
  have p: "proc_states (k\<lparr>free_frames := x, free_top := y\<rparr>) = proc_states k" for k x y by (simp add: proc_states_def)
  show "current_process (kfree f k) = current_process k" "length (proc_states (kfree f k)) = length (proc_states k)"
    by (simp_all add: kfree_def map_window_def unmap_window_def w p Let_def split_beta)
qed

lemma exit_free_process:
  "current_process (exit_free_loop n s pcb k) = current_process k"
  "length (proc_states (exit_free_loop n s pcb k)) = length (proc_states k)"
  by (induction n arbitrary: s k) (simp_all add: kfree_process Let_def split_beta)

lemma sys_exit_gone:
  assumes "current_process k = Some p" and "init_process k \<noteq> Some p" and "p < length (proc_table k)"
  shows "\<exists>k'. sys_exit k = Inr k' \<and> gone p k'"
proof -
  have l: "length (proc_states (wakeup ch k)) = length (proc_states k)" for ch k
  proof -
    have "length (proc_states (wakeup_at ch i k)) = length (proc_states k)" for i k
    proof -
      have "length (proc_states (set_state i s k1)) = length (proc_states k1)" for s k1 by (simp add: set_state_def proc_states_def)
      then show ?thesis by (simp add: wakeup_at_def Let_def split_beta)
    qed
    then have "length (proc_states (fold (wakeup_at ch) is k)) = length (proc_states k)" for "is" by (induction "is" arbitrary: k) simp_all
    then show ?thesis by (simp only: wakeup_def)
  qed
  have z: "gone p (set_state p PROC_STATE_ZOMBIE k1)" if "current_process k1 = Some p" "length (proc_states k1) = length (proc_states k)" for k1
    using that assms(3) by (simp add: gone_def proc_states_def set_state_def)
  show ?thesis
    using assms(1,2)
    by (simp add: sys_exit_def MAP_PCB_def UNMAP_PCB_def map_window_def unmap_window_def MMIO16_read_def exit_free_process l Let_def split_beta
        gone_reparent [OF z])
qed

section \<open>The end of a process in a handler\<close>

lemma serving_write [simp]: "serving p (pcb_write q off bs k) = serving p k"
  by (simp add: serving_def) (simp add: pcb_write_def)

lemma serving_flags [simp]: "serving p (INTER_ON k) = serving p k" "serving p (INTER_OFF k) = serving p k"
  by (simp_all add: serving_def) (simp_all add: INTER_ON_def INTER_OFF_def)

lemma exit_process_gone:
  assumes "serving p k"
  shows "\<exists>k1. exit_process ws k = Some (Inr (Exits, ws, k1)) \<and> gone p k1"
proof -
  have "\<exists>k1. sys_exit k = Inr k1 \<and> gone p k1"
    using assms by (intro sys_exit_gone) (simp_all add: serving_def in_kernel_def pcb_ok_def kmap_def)
  then show ?thesis by (auto simp: exit_process_def io_then_def io_bind_def io_try_def io_return_def)
qed

lemma log_then_exit:
  assumes "serving p k" and "\<forall>w \<in> set ws. transmits p w" and "outputs p n out" and "n \<le> length ws"
    and "\<And>k. serving p k \<Longrightarrow> serving p (note_result k)"
  shows "\<exists>ws1 k1. io_then out (io_then (io_do note_result) exit_process) ws k = Some (Inr (Exits, ws1, k1)) \<and> gone p k1"
proof -
  obtain ws1 k1 where r: "out ws k = Some (Inr ((), ws1, k1))" "serving p k1"
    using outputsE [OF assms(3,1,2,4)] by metis
  show ?thesis
    using io_then_result [where act = out and k = k, OF r(1), of "io_then (io_do note_result) exit_process"]
      exit_process_gone [OF assms(5) [OF r(2)], of ws1] by auto
qed

lemma die_gone:
  assumes "serving p k" and "\<forall>w \<in> set ws. transmits p w" and "39 \<le> length ws"
  shows "\<exists>ws1 k1. die line ws k = Some (Inr (Exits, ws1, k1)) \<and> gone p k1"
  unfolding die_def
proof (rule log_then_exit [OF assms(1,2) _ assms(3)])
  have "outputs p 0 (printk [] [])" by (simp add: printk_def vprintk_def vprintk_steps outputs_return)
  from outputs_log [OF this, of line] show "outputs p 39 (LOG ''kernel/trap.c'' line [] [])" by simp
  show "serving p (proc_set_8 (cur k) off_ctx_a 1 k)" if "serving p k" for k
    using that pcb_access(2) [of k p off_ctx_a 1] by (simp add: serving_def [of p k] in_kernel_def)
qed

lemma kernel_epilogue_gone:
  assumes "serving p k" and "must_die k p" and "\<forall>w \<in> set ws. transmits p w" and "39 \<le> length ws"
  shows "\<exists>ws1 k1. kernel_epilogue ws k = Some (Inr (Exits, ws1, k1)) \<and> gone p k1"
proof -
  have i: "in_kernel (INTER_OFF k) p" "serving p (INTER_OFF k)" using assms(1) by (simp_all add: serving_def [of p k])
  have "kernel_epilogue ws k = die 232 ws (INTER_OFF k)"
    using killed_now_effect [OF i(1)] assms(2) by (simp add: kernel_epilogue_def)
  then show ?thesis using die_gone [OF i(2) assms(3,4)] by simp
qed

lemma kernel_brk_gone:
  assumes "in_kernel k p" and "life_raft k" and "\<not> must_die k p" and "\<not> first_entry k"
    and "syscalls_table k (user_context k ! 6) = Some s"
    and "call_syscall s ws (INTER_ON (save_trap_frame k)) = Some (Inr (Some r, ws1, k2))"
    and "serving p k2" and "must_die k2 p" and "\<forall>w \<in> set ws1. transmits p w" and "39 \<le> length ws1"
  shows "\<exists>ws2 k3. kernel_brk ws k = Some (Inr (Exits, ws2, k3)) \<and> gone p k3"
proof -
  let ?k1 = "INTER_ON (save_trap_frame k)"
  let ?k3 = "pcb_write p off_ctx_a [lo_byte r, hi_byte r] k2"
  note sv = saved_context [OF assms(1,2)]
  have i1: "in_kernel ?k1 p" using sv(6) by simp
  have i2: "in_kernel k2 p" using assms(7) by (simp add: serving_def)
  have c: "current_process ?k1 = Some p" "current_process k2 = Some p"
    using i1 i2 unfolding in_kernel_def by blast+
  have "proc_get_8 p off_ctx_y ?k1 = (user_context k ! 6, ?k1)"
    using pcb_access(1) [of ?k1 p off_ctx_y] i1 sv(1) by (simp add: in_kernel_def)
  moreover have "syscalls_table ?k1 (user_context k ! 6) = Some s"
    using assms(5) save_trap_frame_effect [OF assms(1,2)] by (simp add: INTER_ON_def)
  moreover have "proc_set_16 p off_ctx_a r k2 = ?k3"
    using pcb_access(4) [of k2 p off_ctx_a r] i2 by (simp add: in_kernel_def)
  moreover have "\<exists>ws2 k3. kernel_epilogue ws1 ?k3 = Some (Inr (Exits, ws2, k3)) \<and> gone p k3"
    using assms(7-10) by (intro kernel_epilogue_gone) (simp_all add: must_die_def pcb_word_def)
  ultimately show ?thesis
    using c by (simp add: kernel_brk_def
        io_bind_result [where act = kernel_prologue and k = k, OF kernel_prologue_effect [OF assms(1-4)]]
        io_bind_result [where act = "call_syscall s" and k = ?k1, OF assms(6)])
qed

lemma kernel_irq_gone:
  assumes "in_kernel k p" and "life_raft k" and "\<not> must_die k p" and "\<not> first_entry k"
    and "interrupt_service ws (save_trap_frame k) = Some (Inr ((), ws1, k2))"
    and "serving p k2" and "must_die k2 p" and "\<forall>w \<in> set ws1. transmits p w" and "39 \<le> length ws1"
  shows "\<exists>ws2 k3. kernel_irq ws k = Some (Inr (Exits, ws2, k3)) \<and> gone p k3"
proof -
  have "current_process k = Some p" using assms(1) by (simp add: in_kernel_def)
  then have "kernel_irq ws k = io_then interrupt_service kernel_epilogue ws (save_trap_frame k)"
    by (simp add: kernel_irq_def interrupt_service_def io_bind_assoc io_then_def
        io_bind_result [where act = kernel_prologue, OF kernel_prologue_effect [OF assms(1-4)]])
  then show ?thesis
    using io_then_result [where act = interrupt_service and f = kernel_epilogue, OF assms(5)]
      kernel_epilogue_gone [OF assms(6-9)] by simp
qed

section \<open>Faults\<close>

text \<open>The causes that end with a report: an invalid address, a privileged instruction, an invalid opcode. The others panic.\<close>

definition reported :: "uint8 \<Rightarrow> uint8 \<Rightarrow> bool" where
  "reported cause watchdog \<longleftrightarrow> cause AND MMU_CAUSE_V \<noteq> 0 \<or>
     cause AND MMU_CAUSE_X = 0 \<and> cause AND MMU_CAUSE_W = 0 \<and> cause AND MMU_CAUSE_R = 0 \<and>
     (if cause AND MMU_CAUSE_PRIVILEGE \<noteq> 0 then privileged_mnemonic watchdog \<noteq> None
      else cause AND MMU_CAUSE_INVALID_OPCODE \<noteq> 0)"

lemma outputs_pid:
  assumes "\<And>pid. outputs p n (f pid)"
  shows "outputs p n (io_bind (io_run (\<lambda>k. proc_get_16 (cur k) off_pid k)) f)"
proof -
  have "proc_get_16 (cur k) off_pid k = (pcb_word k p off_pid, k)" if "serving p k" for k
    using that pcb_access(3) [of k p off_pid] by (simp add: serving_def in_kernel_def)
  then show ?thesis using assms unfolding outputs_def by simp
qed

lemma outputs_report:
  assumes "reported cause watchdog"
  shows "outputs p 100 (report_cause cause watchdog bad_va pc)"
proof -
  have v: "outputs p 38 (printk (chars ''(%d, %p, %p)'') [Va16 pid, Va16 bad_va, Va16 pc])" for pid
    unfolding printk_def vprintk_def
    by (simp add: chars_def vprintk_steps) (rule outputs_mono, (rule outputs_steps)+, simp)
  have m: "outputs p (34 + length mn) (printk (chars ''(%d, \"%s\", %p)'') [Va16 pid, VaStr (Some (chars mn)), Va16 pc])" for pid mn
    unfolding printk_def vprintk_def
    by (simp add: chars_def [of "''(%d, \"%s\", %p)''"] vprintk_steps) (rule outputs_mono, (rule outputs_steps)+, simp add: chars_def)
  have o: "outputs p 54 (printk (chars ''(%d, 0x%x, %p)'') [Va16 pid, Va16 (ucast watchdog), Va16 pc])" for pid
    unfolding printk_def vprintk_def
    by (simp add: chars_def vprintk_steps) (rule outputs_mono, (rule outputs_steps)+, simp)
  have l: "outputs p 100 (LOG ''kernel/trap.c'' line fmt ap)" if "outputs p n (printk fmt ap)" "n \<le> 61" for line fmt ap n
    by (rule outputs_mono [OF outputs_log [OF that(1)]]) (use that(2) in simp)
  have "length mn = 3" if "privileged_mnemonic watchdog = Some mn" for mn
    using that by (auto simp: privileged_mnemonic_def split: if_splits)
  then have l3: "outputs p 100 (LOG ''kernel/trap.c'' line (chars ''(%d, \"%s\", %p)'') [Va16 pid, VaStr (Some (chars mn)), Va16 pc])"
    if "privileged_mnemonic watchdog = Some mn" for line pid mn
    using l [OF m] that by simp
  show ?thesis
    unfolding report_cause_def using assms l [OF v] l [OF o] l3
    by (auto simp: reported_def intro!: outputs_pid split: option.split)
qed

lemma fault_registers:
  assumes "serving p k"
  shows "MMIO8_read 0xfe42 k = (mmu_cause (mmu (machine k)), k)" and "MMIO8_read 0xfe41 k = (mmu_watchdog (mmu (machine k)), k)"
    and "\<exists>v. MMIO16_read 0xfe43 k = (v, k)" and "serving p (MMIO8_write 0xfe42 0 k)"
proof -
  have m: "page_table (mmu (machine k)) ! 15 = 15" using assms by (simp add: serving_def in_kernel_def kmap_def)
  have t: "MMU_translate 0xfe42 (mmu (machine k)) = (MMU_CAUSE_REGISTER, mmu (machine k))"
    "MMU_translate 0xfe41 (mmu (machine k)) = (MMU_WATCHDOG_REGISTER, mmu (machine k))"
    "MMU_translate 0xfe43 (mmu (machine k)) = (MMU_VA_REGISTER_LOW, mmu (machine k))"
    "MMU_translate 0xfe44 (mmu (machine k)) = (MMU_VA_REGISTER_HIGH, mmu (machine k))"
    using m by (simp_all add: translate_cases segment_of_def phys_def)
  show "MMIO8_read 0xfe42 k = (mmu_cause (mmu (machine k)), k)" "MMIO8_read 0xfe41 k = (mmu_watchdog (mmu (machine k)), k)"
    "\<exists>v. MMIO16_read 0xfe43 k = (v, k)"
    using t by (simp_all add: MMIO16_read_def MMIO8_read_def Machine_read_def Let_def)
  have "MMIO8_write 0xfe42 0 k = k\<lparr>machine := (machine k)\<lparr>mmu := (mmu (machine k))\<lparr>mmu_cause := 0\<rparr>\<rparr>\<rparr>"
    using t by (simp add: MMIO8_write_def Machine_write_def Let_def)
  then show "serving p (MMIO8_write 0xfe42 0 k)" using assms by (simp add: serving_def in_kernel_def kmap_def pcb_ok_def)
qed

lemma kernel_nmi_gone:
  assumes "in_kernel k p" and "life_raft k" and "\<not> must_die k p" and "\<not> first_entry k" and "init_process k \<noteq> Some p"
    and "reported (mmu_cause (mmu (machine k))) (mmu_watchdog (mmu (machine k)))"
    and "\<forall>w \<in> set ws. transmits p w" and "100 \<le> length ws"
  shows "\<exists>ws1 k1. kernel_nmi ws k = Some (Inr (Exits, ws1, k1)) \<and> gone p k1"
proof -
  define k1 where "k1 = save_trap_frame k"
  note e = save_trap_frame_effect [OF assms(1,2), folded k1_def]
  have s: "serving p k1" using assms(1,5) by (simp add: e serving_def [of p k])
  have m: "mmu (machine k1) = mmu (machine k)" by (simp add: e pcb_write_def)
  obtain v where v: "MMIO16_read 0xfe43 k1 = (v, k1)" using fault_registers(3) [OF s] by blast
  let ?c = "mmu_cause (mmu (machine k))" and ?d = "mmu_watchdog (mmu (machine k))"
  let ?k2 = "MMIO8_write 0xfe42 0 k1"
  let ?pc = "mk_word (user_context ?k2 ! 3) (user_context ?k2 ! 2)"
  have n: "serving p (proc_set_16 (cur k) off_ctx_a (ucast ?c) k)" if "serving p k" for k
    using that pcb_access(4) [of k p off_ctx_a "ucast ?c"] by (simp add: serving_def [of p k] in_kernel_def)
  have "kernel_nmi ws k =
      io_then (report_cause ?c ?d v ?pc) (io_then (io_do (\<lambda>k. proc_set_16 (cur k) off_ctx_a (ucast ?c) k)) exit_process) ws ?k2"
    by (simp add: kernel_nmi_def io_bind_result [where act = kernel_prologue and k = k, OF kernel_prologue_effect [OF assms(1-4)]]
        k1_def [symmetric] fault_registers(1,2) [OF s] v m)
  moreover have "\<exists>ws1 k1. io_then (report_cause ?c ?d v ?pc) (io_then (io_do (\<lambda>k. proc_set_16 (cur k) off_ctx_a (ucast ?c) k)) exit_process) ws ?k2 =
      Some (Inr (Exits, ws1, k1)) \<and> gone p k1"
    by (rule log_then_exit [OF fault_registers(4) [OF s] assms(7) outputs_report [OF assms(6)] assms(8) n])
  ultimately show ?thesis by simp
qed

text \<open>The machine between two polls: the terminal takes the character, and the transmitter is ready again.\<close>

definition uart_idle :: "kernel \<Rightarrow> kernel" where
  "uart_idle k = k\<lparr>machine := snd (snd (Uart_step None (machine k)))\<rparr>"

lemma uart_idle_transmits: "transmits p uart_idle"
  unfolding transmits_def
proof (intro allI impI)
  fix k
  assume s: "serving p k"
  have "mmu (snd (snd (Uart_step None (machine k)))) = mmu (machine k)" by (simp add: Uart_step_def Let_def)
  then have "serving p (uart_idle k)" unfolding uart_idle_def by (rule serving_machine [OF s])
  moreover have "uart_status (uart (machine (uart_idle k))) AND UART_STATUS_TX_READY \<noteq> 0"
    by (simp add: uart_idle_def Uart_step_def byte_bits bit_or_iff Let_def)
  ultimately show "serving p (uart_idle k) \<and> uart_status (uart (machine (uart_idle k))) AND UART_STATUS_TX_READY \<noteq> 0" by blast
qed

end
