(* ===== verification/Kernel_Trap_Properties.thy ===== *)
theory Kernel_Trap_Properties
  imports Kernel_Properties Kernel_Exit Kernel_Text
begin

text \<open>
  Properties of the trap handlers, of formatted output and of the string routines.
\<close>

section \<open>A process in the kernel\<close>

definition trap_base :: kernel where
  "trap_base = syscall_init ((sample_kernel [] (Some 3) (replicate 512 (sample_proc 20 PROC_STATE_RUNING)))
     \<lparr>kernel_page_table := 20 # map of_nat [1..<16], user_context := [0x34, 0x12, 0x20, 0xFD, 1, 2, SYS_GETPID, 4]\<rparr>)"

definition trap_sample :: kernel where
  "trap_sample = pcb_write 3 off_ticks [1] (pcb_write 3 off_pid [7, 0] trap_base)"

lemma trap_sample_kernel: "in_kernel trap_sample 3"
proof -
  have "kmap (sample_kernel [] (Some 3) (replicate 512 (sample_proc 20 PROC_STATE_RUNING)))"
    by (rule sample_kmap) auto
  then have "kmap trap_base" by (simp add: kmap_def syscall_init_def trap_base_def)
  then show ?thesis by (simp add: in_kernel_def trap_sample_def) (simp add: trap_base_def pcb_ok_def syscall_init_def)
qed

lemma trap_sample_fields:
  "user_context trap_sample = [0x34, 0x12, 0x20, 0xFD, 1, 2, SYS_GETPID, 4]" "life_raft trap_sample"
  "\<not> first_entry trap_sample" "syscalls_table trap_sample SYS_GETPID = Some SysGetpid"
  "pcb_byte trap_sample 3 off_ticks = 1" "pcb_word trap_sample 3 off_pid = 7" "\<not> must_die trap_sample 3"
proof -
  show "user_context trap_sample = [0x34, 0x12, 0x20, 0xFD, 1, 2, SYS_GETPID, 4]" "life_raft trap_sample"
    "\<not> first_entry trap_sample" "syscalls_table trap_sample SYS_GETPID = Some SysGetpid"
    by (simp_all add: trap_sample_def life_raft_def) (simp_all add: trap_base_def syscall_init_def sample_kernel_def)
  have z: "pcb_byte trap_base 3 off = 0" for off
    by (simp add: pcb_byte_def frame_byte_def trap_base_def syscall_init_def power_on_def RAM_create_def)
  show "pcb_byte trap_sample 3 off_ticks = 1" "pcb_word trap_sample 3 off_pid = 7" "\<not> must_die trap_sample 3"
    by (simp_all add: trap_sample_def must_die_def pcb_word_def z mk_word_def)
qed

section \<open>System calls\<close>

text \<open>
  A system call returns to its caller. When the function of the call returns the word \<open>r\<close> and leaves the saved
  registers of the process alone, the handler ends with interrupts off, the page table of the process as its
  control block has it, and in the context that is restored the accumulator and the X register hold the low and
  the high byte of \<open>r\<close> while program counter, status, stack pointer and Y are the ones of the call. The page table
  saved on entry is the one the user ran with.
\<close>

theorem system_call_return:
  assumes "in_kernel k p" and "life_raft k" and "\<not> must_die k p" and "\<not> first_entry k"
    and "syscalls_table k (user_context k ! 6) = Some s"
    and "call_syscall s ws (INTER_ON (save_trap_frame k)) = Some (Inr (Some r, ws1, k2))"
    and "in_kernel k2 p" and "\<not> must_die k2 p" and "pcb_bytes k2 p off_ctx 8 = user_context k"
  shows "\<exists>k3. kernel_brk ws k = Some (Inr (Returns, ws1, k3)) \<and>
    user_context k3 = (user_context k)[4 := lo_byte r, 5 := hi_byte r] \<and>
    user_page_table k3 = pcb_bytes k2 p off_page_table PAGE_TABLE_SIZE \<and> \<not> interrupts_on k3 \<and>
    pcb_bytes (save_trap_frame k) p off_page_table PAGE_TABLE_SIZE = user_page_table k"
  using kernel_brk_result [OF assms] saved_context(3) [OF assms(1,2)] by (simp add: INTER_OFF_def)

theorem system_call_return_witness:
  "\<exists>k3. kernel_brk [] trap_sample = Some (Inr (Returns, [], k3)) \<and>
     user_context k3 = [0x34, 0x12, 0x20, 0xFD, 7, 0, SYS_GETPID, 4]"
proof -
  note f = trap_sample_fields and i = trap_sample_kernel
  let ?k = "INTER_ON (save_trap_frame trap_sample)"
  note sv = saved_context [OF i f(2)]
  have k: "in_kernel ?k 3" using sv(6) by simp
  have "must_die ?k 3 = must_die trap_sample 3" using sv(4,5) by (simp add: must_die_def)
  then have d: "\<not> must_die ?k 3" using f(7) by simp
  have pid: "pcb_word ?k 3 off_pid = 7" using sv(4) f(6) by simp
  have "kmap ?k" "pcb_ok ?k 3" "current_process ?k = Some 3" using k unfolding in_kernel_def by blast+
  then have g: "sys_getpid ?k = (7, ?k)" using pcb_access(3) [of ?k 3 off_pid] pid by (simp add: sys_getpid_def)
  have c: "call_syscall SysGetpid [] ?k = Some (Inr (Some 7, [], ?k))"
    by (simp add: call_syscall_def returning_def g io_return_def)
  have s: "syscalls_table trap_sample (user_context trap_sample ! 6) = Some SysGetpid" using f(1,4) by simp
  have b: "pcb_bytes ?k 3 off_ctx 8 = user_context trap_sample" using sv(2) by simp
  from system_call_return [OF i f(2) f(7) f(3) s c k d b] show ?thesis by (auto simp: f(1) lo_byte_def hi_byte_def)
qed

section \<open>Kill\<close>

definition live :: "kernel \<Rightarrow> nat \<Rightarrow> bool" where
  "live k i \<longleftrightarrow> proc_state (proc_table k ! i) \<notin> {PROC_STATE_UNUSED, PROC_STATE_ZOMBIE}"

definition victim :: "kernel \<Rightarrow> nat \<Rightarrow> uint16 \<Rightarrow> nat \<Rightarrow> bool" where
  "victim k p pid i \<longleftrightarrow> live k i \<and> pcb_word k i off_pid = pid \<and> pcb_byte k i off_uid = pcb_byte k p off_uid"

text \<open>The state after \<open>p\<close> has killed \<open>i\<close>.\<close>

definition killed_by :: "nat \<Rightarrow> nat \<Rightarrow> kernel \<Rightarrow> kernel" where
  "killed_by p i k =
     (let me = pcb_word k p off_pid;
          k1 = pcb_write i off_killed [lo_byte me, hi_byte me] k
      in if proc_state (proc_table k ! i) = PROC_STATE_SLEEPING then set_state i PROC_STATE_READY k1 else k1)"

lemma kill_match_effect:
  assumes "in_kernel k p" and "live k i \<longrightarrow> pcb_ok k i"
  shows "kill_match pid i k = (victim k p pid i, k)"
proof (cases "live k i")
  case True
  have k: "kmap k" "pcb_ok k i" "pcb_ok k p" "current_process k = Some p" using assms True by (simp_all add: in_kernel_def)
  show ?thesis
    using True pcb_access(3) [OF k(1,2), of off_pid] pcb_access(1) [OF k(1,2), of off_uid] pcb_access(1) [OF k(1,3), of off_uid] k(4)
    by (auto simp: kill_match_def live_def victim_def)
qed (auto simp: kill_match_def live_def victim_def)

lemma sys_kill_loop_effect:
  assumes "in_kernel k p" and "\<forall>i \<in> set is. live k i \<longrightarrow> pcb_ok k i"
  shows "sys_kill_loop pid is k =
    (case find (victim k p pid) is of None \<Rightarrow> (0xFFFF, INTER_ON k) | Some i \<Rightarrow> (0, INTER_ON (killed_by p i k)))"
  using assms(2)
proof (induction "is")
  case (Cons i "is")
  have m: "kill_match pid i k = (victim k p pid i, k)" using Cons.prems by (intro kill_match_effect [OF assms(1)]) simp
  show ?case
  proof (cases "victim k p pid i")
    case True
    have k: "kmap k" "pcb_ok k p" "current_process k = Some p" using assms(1) by (simp_all add: in_kernel_def)
    have "pcb_ok k i" using True Cons.prems by (simp add: victim_def)
    note w = pcb_access(4) [OF k(1) this, of off_killed]
    show ?thesis
      using True m w pcb_access(3) [OF k(1,2), of off_pid] k(3) by (simp add: killed_by_def Let_def)
  next
    case False
    then show ?thesis using m Cons by simp
  qed
qed simp

lemma sys_kill_effect:
  assumes "in_kernel k p" and "\<forall>i < MAX_PROC_COUNT. live k i \<longrightarrow> pcb_ok k i" and "pid = pcb_word k p off_ctx_a"
  shows "sys_kill k =
      (if pid \<le> 1 then (0xFFFF, k)
       else case find (victim k p pid) [0..<MAX_PROC_COUNT] of
              None \<Rightarrow> (0xFFFF, INTER_ON k)
            | Some i \<Rightarrow> (0, INTER_ON (killed_by p i k)))"
proof -
  have k: "kmap k" "pcb_ok k p" "current_process k = Some p" using assms(1) by (simp_all add: in_kernel_def)
  have v: "victim (INTER_OFF k) p = victim k p" "live (INTER_OFF k) = live k" "pcb_ok (INTER_OFF k) = pcb_ok k"
    by (simp_all add: victim_def live_def fun_eq_iff INTER_OFF_def pcb_word_def pcb_byte_def frame_byte_def pcb_ok_def)
  have kb: "INTER_ON (killed_by p i (INTER_OFF k)) = INTER_ON (killed_by p i k)" "INTER_ON (INTER_OFF k) = INTER_ON k" for i
    by (simp_all add: killed_by_def INTER_ON_def INTER_OFF_def pcb_write_def set_state_def pcb_word_def pcb_byte_def frame_byte_def Let_def)
  have i0: "in_kernel (INTER_OFF k) p" using assms(1) by simp
  have "\<forall>i \<in> set [0..<MAX_PROC_COUNT]. live (INTER_OFF k) i \<longrightarrow> pcb_ok (INTER_OFF k) i" using assms(2) v by auto
  note l = sys_kill_loop_effect [OF i0 this, of pid, unfolded v kb]
  show ?thesis
    using l pcb_access(3) [OF k(1,2), of off_ctx_a] k(3) unfolding sys_kill_def by (simp add: assms(3))
qed

text \<open>
  C22: \<^verbatim>\<open>kill\<close> marks one process of the same user. The processes 0 and 1 cannot be named, and when no live process of the
  caller's user has the pid, the call fails and changes nothing but the interrupt flag. Otherwise the first such
  process in the table gets the caller's pid as its kill mark and becomes ready if it slept; the states of all other
  processes and every byte of memory outside the mark stay the same.
\<close>

theorem kill_marks_one:
  assumes "in_kernel k p" and "\<forall>i < MAX_PROC_COUNT. live k i \<longrightarrow> pcb_ok k i" and "pid = pcb_word k p off_ctx_a"
  shows "sys_kill k =
      (if pid \<le> 1 then (0xFFFF, k)
       else case find (victim k p pid) [0..<MAX_PROC_COUNT] of
              None \<Rightarrow> (0xFFFF, INTER_ON k)
            | Some i \<Rightarrow> (0, INTER_ON (killed_by p i k))) \<and>
    (\<forall>i < MAX_PROC_COUNT.
       pcb_word (killed_by p i k) i off_killed = pcb_word k p off_pid \<and>
       (\<forall>g j. j < 4096 \<longrightarrow> \<not> (g = pcb_frame k i \<and> j \<in> {0x200 + off_killed, 0x201 + off_killed}) \<longrightarrow>
          frame_byte (killed_by p i k) g j = frame_byte k g j) \<and>
       (\<forall>q < MAX_PROC_COUNT. proc_state (proc_table (killed_by p i k) ! q) =
          (if q = i \<and> proc_state (proc_table k ! i) = PROC_STATE_SLEEPING then PROC_STATE_READY
           else proc_state (proc_table k ! q))))"
proof -
  have k: "length (proc_table k) = MAX_PROC_COUNT" using assms(1) by (simp add: in_kernel_def kmap_def)
  note sys_kill_effect [OF assms]
  moreover have "pcb_word (killed_by p i k) i off_killed = pcb_word k p off_pid" if "i < MAX_PROC_COUNT" for i
    using that k mk_word_bytes [of "pcb_word k p off_pid"]
    by (simp add: killed_by_def Let_def pcb_word_def pcb_byte_def frame_byte_def pcb_write_def)
  moreover have "frame_byte (killed_by p i k) g j = frame_byte k g j"
    if "j < 4096" "\<not> (g = pcb_frame k i \<and> j \<in> {0x200 + off_killed, 0x201 + off_killed})" for i g j
    using that by (auto simp: killed_by_def Let_def frame_byte_def pcb_write_def)
  moreover have "proc_state (proc_table (killed_by p i k) ! q) =
      (if q = i \<and> proc_state (proc_table k ! i) = PROC_STATE_SLEEPING then PROC_STATE_READY
       else proc_state (proc_table k ! q))" if "i < MAX_PROC_COUNT" "q < MAX_PROC_COUNT" for i q
    using that k by (auto simp: killed_by_def Let_def set_state_nth)
  ultimately show ?thesis by blast
qed

theorem kill_marks_one_witness: "fst (sys_kill (pcb_write 3 off_ctx_a [7, 0] trap_sample)) = 0"
proof -
  let ?k = "pcb_write 3 off_ctx_a [7, 0] trap_sample"
  have i: "in_kernel ?k 3" using trap_sample_kernel by simp
  have t: "proc_table ?k = replicate 512 (sample_proc 20 PROC_STATE_RUNING)"
    by (simp add: trap_sample_def trap_base_def syscall_init_def)
  have ok: "\<forall>i < MAX_PROC_COUNT. live ?k i \<longrightarrow> pcb_ok ?k i" unfolding pcb_ok_def t by simp
  have a: "7 = pcb_word ?k 3 off_ctx_a" by (simp add: pcb_word_def mk_word_def)
  have f: "pcb_frame ?k 0 = pcb_frame ?k 3" unfolding t by simp
  have "pcb_word ?k 3 off_pid = 7" using trap_sample_fields(6) by (simp add: pcb_word_def)
  moreover have "live ?k 0" unfolding live_def t by simp
  ultimately have "victim ?k 3 7 0" using f by (simp add: victim_def pcb_word_def pcb_byte_def)
  moreover have "[0..<512] = 0 # [Suc 0..<512]" by (rule upt_conv_Cons) simp
  ultimately have "find (victim ?k 3 7) [0..<512] = Some 0" by (simp only: find.simps if_True)
  moreover have "\<not> (7 :: uint16) \<le> 1" by (simp add: word_le_nat_alt)
  ultimately show ?thesis
    using kill_marks_one [OF i ok a, THEN conjunct1] by (simp only: if_False option.case fst_conv)
qed

section \<open>Processes that do not come back\<close>

text \<open>
  C16: a process that is killed or faults while it is in the kernel does not run again. If a process, not the first one and not
  number 1, carries a kill mark when the function of its system call returns, or when the service of a device interrupt ends (the
  mark is set from inside the kernel: by the call itself, or by another process while this one waited), the test at the end
  of the handler ends the process instead of returning to the user; and a fault that the handler of the non-maskable interrupt
  reports always does. The report needs at most 39, or 100, waits for the transmitter, whatever else happens in them as long as
  the kernel keeps running for the process and the transmitter gets ready; then the process is a zombie, which the scheduler never
  picks.
\<close>

theorem dead_processes_stay_dead:
  assumes "in_kernel k p" and "life_raft k" and "\<not> must_die k p" and "\<not> first_entry k"
  shows "(\<forall>s r ws1 k2. syscalls_table k (user_context k ! 6) = Some s \<and>
        call_syscall s ws (INTER_ON (save_trap_frame k)) = Some (Inr (Some r, ws1, k2)) \<and>
        in_kernel k2 p \<and> init_process k2 \<noteq> Some p \<and> must_die k2 p \<and> (\<forall>w \<in> set ws1. transmits p w) \<and> 39 \<le> length ws1 \<longrightarrow>
        (\<exists>ws2 k3. kernel_brk ws k = Some (Inr (Exits, ws2, k3)) \<and> current_process k3 = Some p \<and>
           proc_state (proc_table k3 ! p) = PROC_STATE_ZOMBIE \<and> \<not> runnable k3 p)) \<and>
    (\<forall>ws1 k2. interrupt_service ws (save_trap_frame k) = Some (Inr ((), ws1, k2)) \<and>
        in_kernel k2 p \<and> init_process k2 \<noteq> Some p \<and> must_die k2 p \<and> (\<forall>w \<in> set ws1. transmits p w) \<and> 39 \<le> length ws1 \<longrightarrow>
        (\<exists>ws2 k3. kernel_irq ws k = Some (Inr (Exits, ws2, k3)) \<and> current_process k3 = Some p \<and>
           proc_state (proc_table k3 ! p) = PROC_STATE_ZOMBIE \<and> \<not> runnable k3 p)) \<and>
    (init_process k \<noteq> Some p \<and> reported (mmu_cause (mmu (machine k))) (mmu_watchdog (mmu (machine k))) \<and>
        (\<forall>w \<in> set ws. transmits p w) \<and> 100 \<le> length ws \<longrightarrow>
        (\<exists>ws1 k1. kernel_nmi ws k = Some (Inr (Exits, ws1, k1)) \<and> current_process k1 = Some p \<and>
           proc_state (proc_table k1 ! p) = PROC_STATE_ZOMBIE \<and> \<not> runnable k1 p))"
proof -
  have g: "current_process k3 = Some p \<and> proc_state (proc_table k3 ! p) = PROC_STATE_ZOMBIE \<and> \<not> runnable k3 p" if "gone p k3" for k3
    using that gone_state [OF that] by (simp add: gone_def)
  show ?thesis
  proof (intro conjI allI impI; elim conjE)
    fix s r ws1 k2
    assume "syscalls_table k (user_context k ! 6) = Some s"
      "call_syscall s ws (INTER_ON (save_trap_frame k)) = Some (Inr (Some r, ws1, k2))" and d: "in_kernel k2 p" "init_process k2 \<noteq> Some p"
      and m: "must_die k2 p" "\<forall>w \<in> set ws1. transmits p w" "39 \<le> length ws1"
    moreover have "serving p k2" using d by (simp add: serving_def)
    ultimately show "\<exists>ws2 k3. kernel_brk ws k = Some (Inr (Exits, ws2, k3)) \<and> current_process k3 = Some p \<and>
           proc_state (proc_table k3 ! p) = PROC_STATE_ZOMBIE \<and> \<not> runnable k3 p"
      using kernel_brk_gone [OF assms] g by blast
  next
    fix ws1 k2
    assume "interrupt_service ws (save_trap_frame k) = Some (Inr ((), ws1, k2))" and d: "in_kernel k2 p" "init_process k2 \<noteq> Some p"
      and "must_die k2 p" "\<forall>w \<in> set ws1. transmits p w" "39 \<le> length ws1"
    moreover have "serving p k2" using d by (simp add: serving_def)
    ultimately show "\<exists>ws2 k3. kernel_irq ws k = Some (Inr (Exits, ws2, k3)) \<and> current_process k3 = Some p \<and>
           proc_state (proc_table k3 ! p) = PROC_STATE_ZOMBIE \<and> \<not> runnable k3 p"
      using kernel_irq_gone [OF assms] g by blast
  next
    assume "init_process k \<noteq> Some p" "reported (mmu_cause (mmu (machine k))) (mmu_watchdog (mmu (machine k)))"
      "\<forall>w \<in> set ws. transmits p w" "100 \<le> length ws"
    then show "\<exists>ws1 k1. kernel_nmi ws k = Some (Inr (Exits, ws1, k1)) \<and> current_process k1 = Some p \<and>
           proc_state (proc_table k1 ! p) = PROC_STATE_ZOMBIE \<and> \<not> runnable k1 p"
      using kernel_nmi_gone [OF assms] g by blast
  qed
qed

text \<open>Process 3, with number 7, is the only one and kills itself.\<close>

definition kill_sample :: kernel where
  "kill_sample = pcb_write 3 off_pid [7, 0] (syscall_init
     ((sample_kernel [] (Some 3) ((replicate 512 (sample_proc 0 PROC_STATE_UNUSED))[3 := sample_proc 20 PROC_STATE_RUNING]))
     \<lparr>kernel_page_table := 20 # map of_nat [1..<16], user_context := [0x34, 0x12, 0x20, 0xFD, 7, 0, SYS_KILL, 4]\<rparr>))"

lemma kill_sample_kernel:
  "in_kernel kill_sample 3" "life_raft kill_sample" "\<not> first_entry kill_sample" "\<not> must_die kill_sample 3"
  "syscalls_table kill_sample (user_context kill_sample ! 6) = Some SysKill" "init_process kill_sample = Some 0"
  "user_context kill_sample = [0x34, 0x12, 0x20, 0xFD, 7, 0, SYS_KILL, 4]" "pcb_word kill_sample 3 off_pid = 7"
  "proc_table kill_sample = (replicate 512 (sample_proc 0 PROC_STATE_UNUSED))[3 := sample_proc 20 PROC_STATE_RUNING]"
proof -
  let ?t = "(replicate 512 (sample_proc 0 PROC_STATE_UNUSED))[3 := sample_proc 20 PROC_STATE_RUNING]"
  let ?b = "syscall_init ((sample_kernel [] (Some 3) ?t)
     \<lparr>kernel_page_table := 20 # map of_nat [1..<16], user_context := [0x34, 0x12, 0x20, 0xFD, 7, 0, SYS_KILL, 4]\<rparr>)"
  have "kmap (sample_kernel [] (Some 3) ?t)"
    by (rule sample_kmap) (auto simp: sample_proc_def dest!: set_update_subset_insert [THEN subsetD])
  then have "kmap ?b" by (simp add: kmap_def syscall_init_def)
  then show "in_kernel kill_sample 3" by (simp add: in_kernel_def kill_sample_def) (simp add: pcb_ok_def syscall_init_def)
  show "life_raft kill_sample" "\<not> first_entry kill_sample" "syscalls_table kill_sample (user_context kill_sample ! 6) = Some SysKill"
    "user_context kill_sample = [0x34, 0x12, 0x20, 0xFD, 7, 0, SYS_KILL, 4]" "proc_table kill_sample = ?t"
    by (simp_all add: kill_sample_def life_raft_def) (simp_all add: syscall_init_def sample_kernel_def)
  show "init_process kill_sample = Some 0" by (simp add: kill_sample_def pcb_write_def syscall_init_def sample_kernel_def)
  have z: "pcb_byte ?b 3 off = 0" for off
    by (simp add: pcb_byte_def frame_byte_def syscall_init_def power_on_def RAM_create_def)
  then show "\<not> must_die kill_sample 3" "pcb_word kill_sample 3 off_pid = 7"
    by (simp_all add: kill_sample_def must_die_def pcb_word_def mk_word_def)
qed

theorem dead_processes_stay_dead_witness:
  "\<exists>ws1 k1. kernel_brk (replicate 39 uart_idle) kill_sample = Some (Inr (Exits, ws1, k1)) \<and>
     proc_state (proc_table k1 ! 3) = PROC_STATE_ZOMBIE \<and> \<not> runnable k1 3"
proof -
  note f = kill_sample_kernel
  let ?ws = "replicate 39 uart_idle"
  define k1 where "k1 = INTER_ON (save_trap_frame kill_sample)"
  note sv = saved_context [OF f(1,2)] and e = save_trap_frame_effect [OF f(1,2)]
  have k1: "in_kernel k1 3" "pcb_word k1 3 off_pid = 7" "init_process k1 = Some 0"
    using sv(4,6) f(6,8) by (simp_all add: k1_def) (simp add: INTER_ON_def e pcb_write_def)
  have t: "proc_table k1 = proc_table kill_sample" by (simp add: k1_def e INTER_ON_def)
  have live: "live k1 i \<longleftrightarrow> i = 3" if "i < 512" for i
    using that by (auto simp: live_def t f(9) nth_list_update)
  have ok: "\<forall>i < MAX_PROC_COUNT. live k1 i \<longrightarrow> pcb_ok k1 i" using live k1(1) by (simp add: in_kernel_def)
  have "pcb_bytes k1 3 off_ctx 8 = user_context kill_sample" using sv(2) by (simp add: k1_def)
  then have "pcb_byte k1 3 off_ctx_a = 7" "pcb_byte k1 3 (Suc off_ctx_a) = 0"
    using pcb_bytes_nth [of 4 8 k1 3 off_ctx] pcb_bytes_nth [of 5 8 k1 3 off_ctx] f(7) by simp_all
  then have a: "7 = pcb_word k1 3 off_ctx_a" by (simp add: pcb_word_def mk_word_def)
  have v: "victim k1 3 7 3" "\<not> victim k1 3 7 0" "\<not> victim k1 3 7 1" "\<not> victim k1 3 7 2"
    using live [of 0] live [of 1] live [of 2] live [of 3] k1(2) by (simp_all add: victim_def)
  have "[0..<512] = 0 # 1 # 2 # 3 # [4..<512]"
    using upt_conv_Cons [of 0 512] upt_conv_Cons [of 1 512] upt_conv_Cons [of 2 512] upt_conv_Cons [of 3 512]
    by (simp add: numeral_2_eq_2 [symmetric] del: upt_rec_numeral upt_conv_Cons_Cons)
  then have "find (victim k1 3 7) [0..<512] = Some 3" using v by (simp only: find.simps if_True if_False)
  moreover have "\<not> (7 :: uint16) \<le> 1" by (simp add: word_le_nat_alt)
  ultimately have kill: "sys_kill k1 = (0, INTER_ON (killed_by 3 3 k1))"
    using sys_kill_effect [OF k1(1) ok a] by (simp only: if_False option.case)
  define k2 where "k2 = INTER_ON (killed_by 3 3 k1)"
  have kb: "killed_by 3 3 k1 = pcb_write 3 off_killed [7, 0] k1"
    by (simp add: killed_by_def k1(2) t f(9) lo_byte_def hi_byte_def)
  have "call_syscall SysKill ?ws k1 = Some (Inr (Some 0, ?ws, k2))"
    by (simp add: call_syscall_def returning_def kill io_return_def k2_def)
  moreover have "in_kernel k2 3" "init_process k2 \<noteq> Some 3"
    using k1 by (simp_all add: k2_def kb) (simp add: INTER_ON_def pcb_write_def)
  moreover have "must_die k2 3" using k1(2) by (simp add: k2_def kb must_die_def pcb_word_def mk_word_def)
  moreover have "\<forall>w \<in> set ?ws. transmits 3 w" using uart_idle_transmits by simp
  moreover have "39 \<le> length ?ws" by simp
  ultimately show ?thesis
    using dead_processes_stay_dead [OF f(1,2,4,3), of ?ws] f(5) unfolding k1_def by blast
qed

section \<open>Time slices\<close>

lemma in_kernel_set_state: "in_kernel k p \<Longrightarrow> in_kernel (set_state q s k) p"
  using set_state_kmap [of k q s] by (auto simp: in_kernel_def pcb_ok_def kmap_def)

text \<open>
  C35: how long a process runs. A process that the scheduler has just given its quantum runs for ten timer interrupts
  before it yields. When it yields and is chosen again, the handler stores the exhausted count over the fresh
  quantum, so that its next slice takes 256 timer interrupts.
\<close>

theorem time_slices:
  assumes "in_kernel k p" and "pcb_byte k p off_ticks = QUANTUM"
    and "in_kernel k' p" and "pcb_byte k' p off_ticks = 1" and "in_kernel (yield w k') p"
  shows "(slices n [] k = None \<longleftrightarrow> 10 \<le> n) \<and>
    (\<exists>k1. timer_slice (w # ws) k' = Some (Inr ((), ws, k1)) \<and> (slices n [] k1 = None \<longleftrightarrow> 256 \<le> n))"
proof -
  let ?k1 = "pcb_write p off_ticks [0] (yield w k')"
  have "in_kernel ?k1 p" using assms(5) by simp
  moreover have "pcb_byte ?k1 p off_ticks = 0" by simp
  ultimately have "slices n [] ?k1 = None \<longleftrightarrow> 256 \<le> n" using slices_end [of ?k1 p n] by (simp add: slice_length_def)
  moreover have "slices n [] k = None \<longleftrightarrow> 10 \<le> n" using slices_end [OF assms(1)] assms(2) by (simp add: slice_length_def)
  ultimately show ?thesis using timer_slice_effect(3) [OF assms(3-5), of ws] by (intro conjI exI [of _ ?k1]) simp_all
qed

theorem time_slices_witness:
  "slices 10 [] (pcb_write 3 off_ticks [10] trap_sample) = None \<and>
   (\<exists>k1. timer_slice [id] trap_sample = Some (Inr ((), [], k1)) \<and> slices 255 [] k1 \<noteq> None)"
proof -
  have i: "in_kernel (pcb_write 3 off_ticks [10] trap_sample) 3" using trap_sample_kernel by simp
  have t: "pcb_byte (pcb_write 3 off_ticks [10] trap_sample) 3 off_ticks = QUANTUM" by simp
  have k: "current_process (INTER_OFF trap_sample) = Some 3" using trap_sample_kernel by (simp add: in_kernel_def INTER_OFF_def)
  have "in_kernel (INTER_OFF trap_sample) 3" using trap_sample_kernel by simp
  then have y: "in_kernel (yield id trap_sample) 3" by (simp add: yield_def Let_def k in_kernel_set_state)
  note s = time_slices [OF i t trap_sample_kernel trap_sample_fields(5) y]
  have "slices 10 [] (pcb_write 3 off_ticks [10] trap_sample) = None" using s [of 10 "[]"] by blast
  moreover have "\<not> 256 \<le> (255 :: nat)" by simp
  ultimately show ?thesis using s [of 255 "[]"] by blast
qed

section \<open>Text\<close>

text \<open>
  C37: numbers are printed and read back. For base 10 or 16 (signed only in base 10) \<^verbatim>\<open>print_int\<close> produces the digits of
  a number that fits 31 bits, most significant first, with a minus sign for a negative signed one; a value that is
  negative as a 32-bit number but printed unsigned, and the smallest signed number, make it read outside its digit
  table. \<^verbatim>\<open>atoi\<close> on the decimal digits of a number, followed by any other character, returns the number modulo 65536.
\<close>

theorem number_text:
  assumes "base \<in> {10, 16}" and "sign \<longrightarrow> base = 10"
    and "stored m s (radix 10 n)" and "\<not> is_digit (m (s + of_nat (length (radix 10 n))))"
  shows "int_chars number base sign =
      (if 0 \<le> sint number then Some (radix (nat base) (nat (sint number)))
       else if sign \<and> sint number \<noteq> - (2 ^ 31) then Some (0x2D # radix 10 (nat (- sint number))) else None) \<and>
    atoi s m = Some (of_nat n)"
proof -
  have "atoi s m = Some (of_nat n)"
    using atoi_loop_stored [OF assms(3) radix_digits assms(4), of 0] by (simp add: atoi_def radix_decimal_value)
  moreover have "int_chars number base sign =
      (if 0 \<le> sint number then Some (radix (nat base) (nat (sint number)))
       else if sign \<and> sint number \<noteq> - (2 ^ 31) then Some (0x2D # radix 10 (nat (- sint number))) else None)"
    using int_chars_nonnegative [OF _ assms(1)] int_chars_negative [of number] assms(1,2) by (cases sign) auto
  ultimately show ?thesis by blast
qed

theorem number_text_witness:
  "int_chars (- 12) 10 True = Some [0x2D, 0x31, 0x32] \<and> int_chars 0x80000000 16 False = None \<and>
   atoi 0x4000 ((\<lambda>_. 0)(0x4000 := 0x34, 0x4001 := 0x32)) = Some 42"
proof -
  have r: "radix 10 42 = [0x34, 0x32]" "radix 10 12 = [0x31, 0x32]"
    by (simp_all add: radix.simps digits_def chars_def)
  let ?m = "(\<lambda>_. 0)(0x4000 := 0x34, 0x4001 := 0x32) :: memory"
  have s: "stored ?m 0x4000 (radix 10 42)" "\<not> is_digit (?m (0x4000 + of_nat (length (radix 10 42))))"
    unfolding r by simp_all
  have i: "sint (- 12 :: uint32) = - 12" "sint (0x80000000 :: uint32) = - 0x80000000" by code_simp+
  note t = number_text [OF _ _ s]
  show ?thesis
    using t [of 10 True "- 12", unfolded i] t [of 16 False "0x80000000", unfolded i] r by (simp add: fun_upd_def)
qed

text \<open>
  C36: \<^verbatim>\<open>memmove\<close> and \<^verbatim>\<open>memcpy\<close> copy overlapping regions correctly: for fewer than 32768 bytes and regions inside the address
  space, the destination gets the bytes the source had before the call and the rest of memory keeps its own. From
  32768 bytes on the count is negative as an \<^verbatim>\<open>int\<close>, and nothing is copied.
\<close>

theorem memmove_overlapping:
  assumes "unat dst + unat n \<le> 65536" and "unat src + unat n \<le> 65536"
  shows "fst (memmove dst src n m) = dst \<and> memcpy dst src n m = memmove dst src n m \<and>
    (\<forall>i < 65536. snd (memmove dst src n m) (of_nat i) =
       (if n < 0x8000 \<and> unat dst \<le> i \<and> i < unat dst + unat n then m (src + (of_nat i - dst)) else m (of_nat i)))"
proof (cases "n < 0x8000")
  case True
  have "unat (of_nat i - dst) < unat n \<longleftrightarrow> unat dst \<le> i \<and> i < unat dst + unat n" if "i < 65536" for i
  proof -
    have i: "unat (of_nat i :: uint16) = i" using that by simp
    show ?thesis
    proof (cases "unat dst \<le> i")
      case True
      then have "unat (of_nat i - dst) = i - unat dst" using i by (simp add: unat_sub word_le_nat_alt)
      then show ?thesis using True by auto
    next
      case False
      have "unat (of_nat i - dst) = i + 65536 - unat dst"
        using False i unsigned_less [of dst, where ?'a = nat] by (simp add: unat_sub_if_size word_size word_le_nat_alt)
      then show ?thesis using False assms(1) by auto
    qed
  qed
  then show ?thesis using memmove_copies [OF True assms, of m] True by (simp add: memcpy_def copied_def)
next
  case False
  have "sint n < 0"
  proof (rule ccontr)
    assume "\<not> sint n < 0"
    then have "take_bit 16 (sint n) = sint n" using sint_less [of n] by (simp add: take_bit_int_eq_self_iff)
    then have "uint n = sint n" using uint_sint [of n] by simp
    then show False using False sint_less [of n] by (simp add: word_less_def)
  qed
  then show ?thesis using False by (simp add: memmove_def memcpy_def)
qed

lemma overlap_value:
  "(if (4 :: uint16) < 0x8000 \<and> 0x4001 \<le> (0x4003 :: nat) \<and> (0x4003 :: nat) < 0x4001 + 4
    then (ucast (0x4000 + (0x4003 - 0x4001 :: uint16)) :: uint8) else ucast (0x4003 :: uint16)) = 2"
  by simp

theorem memmove_overlapping_witness:
  "snd (memmove 0x4001 0x4000 4 (\<lambda>a. ucast a)) 0x4003 = 2"
proof -
  have u: "unat (0x4001 :: uint16) = 0x4001" "unat (4 :: uint16) = 4" "unat (0x4000 :: uint16) = 0x4000" by simp_all
  have b: "unat (0x4001 :: uint16) + unat (4 :: uint16) \<le> 65536" "unat (0x4000 :: uint16) + unat (4 :: uint16) \<le> 65536"
    unfolding u by simp_all
  have "(0x4003 :: nat) < 65536" by simp
  with memmove_overlapping [OF b, where m = "\<lambda>a. ucast a"] show ?thesis
    unfolding u by (metis (mono_tags, lifting) of_nat_numeral overlap_value)
qed

text \<open>
  \<^verbatim>\<open>strcmp\<close> decides equality and the lexicographic order of strings, and \<^verbatim>\<open>strlen\<close> measures a string; both return
  for every terminated string.
\<close>

theorem string_order:
  assumes "cstring m p s" and "cstring m q t" and "length s \<le> 65535"
  shows "\<exists>d. strcmp p q m = Some d \<and> (d = 0 \<longleftrightarrow> s = t) \<and> (d < 0 \<longleftrightarrow> (s, t) \<in> lexord {(c, d). c < d}) \<and>
    unat (strlen p m) = length s"
proof -
  have z: "0 \<notin> set s" "0 \<notin> set t" using assms(1,2) by (simp_all add: cstring_def)
  have "unat (strlen p m) = length s"
    using strlen_loop_stored [of m p 0 s] assms(1,3) by (simp add: strlen_def)
  then show ?thesis using strcmp_stored [OF assms(1,2)] string_difference_order [OF z] by blast
qed

theorem string_order_witness:
  "\<exists>d. strcmp 0x4000 0x5000 ((\<lambda>_. 0)(0x4000 := 0x61, 0x5000 := 0x61, 0x5001 := 0x62)) = Some d \<and> d < 0"
proof -
  let ?m = "(\<lambda>_. 0)(0x4000 := 0x61, 0x5000 := 0x61, 0x5001 := 0x62) :: memory"
  have "cstring ?m 0x4000 [0x61]" "cstring ?m 0x5000 [0x61, 0x62]" by simp_all
  from string_order [OF this] show ?thesis by auto
qed

end
