(* ===== verification/Kernel_Fork.thy ===== *)
theory Kernel_Fork
  imports Kernel_Sbrk
begin

text \<open>
  The laws of \<^verbatim>\<open>sys_fork\<close> (\<^verbatim>\<open>proc.c\<close>): copying a frame through both windows is a copy of its bytes, and the loop over the
  segments builds a child whose memory is a copy of its parent's, in frames of its own, whatever other processes do at the
  yields in between, as long as they leave the two processes alone.
\<close>

section \<open>Both windows at once\<close>

lemma install_windows_swap:
  assumes "kmap k"
  shows "install_window 2 b (install_window 1 a k) = install_window 1 a (install_window 2 b k)"
proof -
  have k: "kmap (install_window 1 a k)" "kmap (install_window 2 b k)" using assms by (simp_all add: install_window_kmap)
  have l: "xs[2 := y, Suc 0 := x] = xs[Suc 0 := x, 2 := y]" for xs :: "'b list" and x y by (rule list_update_swap) simp
  have w: "install_window 2 b (install_window 1 a k) = set_low_memory 2 b ((install_window 1 a k)\<lparr>
        machine := (machine (install_window 1 a k))\<lparr>mmu := (mmu (machine (install_window 1 a k)))
          \<lparr>page_table := (page_table (mmu (machine (install_window 1 a k))))[2 := b]\<rparr>\<rparr>,
        kernel_page_table := (kernel_page_table (install_window 1 a k))[2 := b]\<rparr>)"
    "install_window 1 a (install_window 2 b k) = set_low_memory 1 a ((install_window 2 b k)\<lparr>
        machine := (machine (install_window 2 b k))\<lparr>mmu := (mmu (machine (install_window 2 b k)))
          \<lparr>page_table := (page_table (mmu (machine (install_window 2 b k))))[1 := a]\<rparr>\<rparr>,
        kernel_page_table := (kernel_page_table (install_window 2 b k))[1 := a]\<rparr>)"
    using install_window_effect [OF k(1), of 2 b] install_window_effect [OF k(2), of 1 a] by simp_all
  have e: "install_window 1 a k = set_low_memory 1 a (k\<lparr>machine := (machine k)\<lparr>mmu := (mmu (machine k))
        \<lparr>page_table := (page_table (mmu (machine k)))[1 := a]\<rparr>\<rparr>, kernel_page_table := (kernel_page_table k)[1 := a]\<rparr>)"
    "install_window 2 b k = set_low_memory 2 b (k\<lparr>machine := (machine k)\<lparr>mmu := (mmu (machine k))
        \<lparr>page_table := (page_table (mmu (machine k)))[2 := b]\<rparr>\<rparr>, kernel_page_table := (kernel_page_table k)[2 := b]\<rparr>)"
    using install_window_effect [OF assms, of 1 a] install_window_effect [OF assms, of 2 b] by simp_all
  show ?thesis
  proof (cases "current_process k")
    case None
    then show ?thesis unfolding w unfolding e by (simp add: set_low_memory_def l)
  next
    case (Some p)
    then have "p < length (proc_table k)" using assms by (simp add: kmap_def)
    with Some show ?thesis unfolding w unfolding e by (simp add: set_low_memory_def l)
  qed
qed

lemma two_windows:
  assumes "kmap k" and "map_window 1 f k = (b1, o1, k1)" and "map_window 2 g k1 = (b2, o2, k2)" and "mmu m = mmu (machine k2)"
  shows "unmap_window 2 o2 (unmap_window 1 o1 (k2\<lparr>machine := m\<rparr>)) = k\<lparr>machine := m\<lparr>mmu := mmu (machine k)\<rparr>\<rparr>"
proof -
  have k1: "kmap k1" using install_window_kmap [OF assms(1), of 1 f] assms(2) by (simp add: map_window_def Let_def)
  have "kmap k2" using install_window_kmap [OF k1, of 2 g] assms(3) by (simp add: map_window_def Let_def)
  then have "kmap (k2\<lparr>machine := m\<rparr>)" using assms(4) by (simp add: kmap_def)
  from install_windows_swap [OF this]
  have "unmap_window 2 o2 (unmap_window 1 o1 (k2\<lparr>machine := m\<rparr>)) = unmap_window 1 o1 (unmap_window 2 o2 (k2\<lparr>machine := m\<rparr>))"
    by (simp add: unmap_window_def)
  also have "unmap_window 2 o2 (k2\<lparr>machine := m\<rparr>) = k1\<lparr>machine := m\<lparr>mmu := mmu (machine k1)\<rparr>\<rparr>"
    by (rule unmap_map_machine [OF k1 _ assms(3,4)]) simp
  also have "unmap_window 1 o1 \<dots> = k\<lparr>machine := m\<lparr>mmu := mmu (machine k)\<rparr>\<rparr>"
    using unmap_map_machine [OF assms(1) _ assms(2), of "m\<lparr>mmu := mmu (machine k1)\<rparr>"] by simp
  finally show ?thesis .
qed

text \<open>What is in window 2 after \<open>copy_frame\<close>, and that further writes there end up in the frame.\<close>

definition frame_bytes :: "kernel \<Rightarrow> frame_t \<Rightarrow> uint8 list" where
  "frame_bytes k f = map (frame_byte k f) [0..<BLOCK_SIZE]"

definition frame_copied :: "frame_t \<Rightarrow> frame_t \<Rightarrow> kernel \<Rightarrow> kernel" where
  "frame_copied f g k = k\<lparr>machine := (machine k)\<lparr>ram := ram_write g 0 (frame_bytes k f) (ram (machine k))\<rparr>\<rparr>"

lemma copy_frame_effect:
  assumes "kmap k" and "f \<notin> {MMU_FRAME_INVALID, MMU_LAST_FRAME}" and "g \<notin> {MMU_FRAME_INVALID, MMU_LAST_FRAME}"
    and "copy_frame f g k = (b, o1, o2, k3)"
  shows "b = WINDOW2" and "window 2 g (machine k3)" and "(machine k3)\<lparr>mmu := mmu (machine k)\<rparr> = machine (frame_copied f g k)"
    and "mmu m = mmu (machine k3) \<Longrightarrow>
      unmap_window 2 o2 (unmap_window 1 o1 (k3\<lparr>machine := m\<rparr>)) = k\<lparr>machine := m\<lparr>mmu := mmu (machine k)\<rparr>\<rparr>"
    and "sym k3 = sym k" and "current_process k3 = current_process k"
proof -
  obtain b1 o1' k1 where w1: "map_window 1 f k = (b1, o1', k1)" by (metis prod_cases3)
  obtain b2 o2' k2 where w2: "map_window 2 g k1 = (b2, o2', k2)" by (metis prod_cases3)
  note m1 = map_window_window [OF assms(1) _ assms(2) w1]
  have k1: "kmap k1" "window 1 f (machine k1)" "b1 = WINDOW1" "ram (machine k1) = ram (machine k)" using m1 by simp_all
  note m2 = map_window_window [OF k1(1) _ assms(3) w2]
  have k2: "window 2 g (machine k2)" "b2 = WINDOW2" "ram (machine k2) = ram (machine k)" using m2 k1(4) by simp_all
  have p: "page_table (mmu (machine k2)) = (page_table (mmu (machine k1)))[2 := g]" using map_window_machine [OF k1(1) _ w2] by simp
  have "window 1 f (machine k2)" using k1(2) by (simp add: window_def p)
  from window_read_bytes [OF _ _ this, of 0 4096]
  have "read_bytes WINDOW1 4096 k2 = (map (frame_byte k2 f) [0..<4096], k2)" by (simp del: upt_rec_numeral)
  moreover have "map (frame_byte k2 f) [0..<4096] = frame_bytes k f"
    unfolding frame_bytes_def by (rule map_cong) (simp_all add: frame_byte_def k2(3))
  moreover have "write_bytes WINDOW2 (frame_bytes k f) k2 =
      k2\<lparr>machine := (machine k2)\<lparr>ram := ram_write g 0 (frame_bytes k f) (ram (machine k2))\<rparr>\<rparr>"
    using window_write_bytes [OF _ _ k2(1), of 0 "frame_bytes k f"] by (simp add: frame_bytes_def del: upt_rec_numeral)
  ultimately have e: "b = WINDOW2" "o1 = o1'" "o2 = o2'"
    "k3 = k2\<lparr>machine := (machine k2)\<lparr>ram := ram_write g 0 (frame_bytes k f) (ram (machine k2))\<rparr>\<rparr>"
    using assms(4) by (simp_all add: copy_frame_def w1 [unfolded One_nat_def] w2 Let_def k1(3) k2(2))
  show "b = WINDOW2" "window 2 g (machine k3)" "(machine k3)\<lparr>mmu := mmu (machine k)\<rparr> = machine (frame_copied f g k)"
    using k2(1) map_window_machine [OF assms(1) _ w1] map_window_machine [OF k1(1) _ w2]
    by (simp_all add: e window_def frame_copied_def)
  show "mmu m = mmu (machine k3) \<Longrightarrow>
      unmap_window 2 o2 (unmap_window 1 o1 (k3\<lparr>machine := m\<rparr>)) = k\<lparr>machine := m\<lparr>mmu := mmu (machine k)\<rparr>\<rparr>"
    using two_windows [OF assms(1) w1 w2, of m] by (simp add: e)
  have s: "sym (install_window w x q) = sym q" "current_process (install_window w x q) = current_process q" for w x q
    by (simp_all add: install_window_def set_low_memory_def MMIO8_write_def Let_def split: option.split)
  show "sym k3 = sym k" "current_process k3 = current_process k" using w1 w2 s by (auto simp: e map_window_def Let_def)
qed

section \<open>The steps of fork\<close>

lemma fork_segment_effect:
  assumes "kmap k" and "pcb_ok k child" and "segment < 16"
    and "f \<notin> {MMU_FRAME_INVALID, MMU_LAST_FRAME}" and "g \<notin> {MMU_FRAME_INVALID, MMU_LAST_FRAME}"
  shows "fork_segment child segment f g k = frame_copied f g (pcb_write child segment [g] k)"
proof -
  define k4 where "k4 = pcb_write child segment [g] k"
  have "proc_set_8 child segment g k = k4" using pcb_access(2) [OF assms(1,2), of segment g] assms(3) by (simp add: k4_def)
  then have "fork_segment child segment f g k = (case copy_frame f g k4 of (_, o1, o2, k5) \<Rightarrow> unmap_window 2 o2 (unmap_window 1 o1 k5))"
    by (simp add: fork_segment_def proc_set_8_def UNMAP_PCB_def Let_def split_beta)
  moreover obtain b o1 o2 k5 where c: "copy_frame f g k4 = (b, o1, o2, k5)" by (metis prod_cases4)
  have "kmap k4" using assms(1) by (simp add: k4_def)
  from copy_frame_effect(3) [OF this assms(4,5) c] copy_frame_effect(4) [OF this assms(4,5) c, of "machine k5"]
  have "unmap_window 2 o2 (unmap_window 1 o1 k5) = k4\<lparr>machine := machine (frame_copied f g k4)\<rparr>" by simp
  ultimately show ?thesis unfolding k4_def [symmetric] by (simp add: c frame_copied_def)
qed

definition frame_write :: "frame_t \<Rightarrow> nat \<Rightarrow> uint8 list \<Rightarrow> kernel \<Rightarrow> kernel" where
  "frame_write f off bs k = k\<lparr>machine := (machine k)\<lparr>ram := ram_write f off bs (ram (machine k))\<rparr>\<rparr>"

lemma pcb_write_frame_write: "pcb_write p off bs k = frame_write (pcb_frame k p) (0x200 + off) bs k"
  by (simp add: pcb_write_def frame_write_def)

lemma window2_store:
  assumes "window 2 g (machine k)" and "off + length bs \<le> 3584"
  shows "write_bytes (WINDOW2 + PCB_OFFSET + of_nat off) bs k = frame_write g (0x200 + off) bs k"
    and "window 2 g (machine (frame_write g (0x200 + off) bs k))"
proof -
  have a: "WINDOW2 + PCB_OFFSET + of_nat off = (of_nat (4096 * 2 + (0x200 + off)) :: uint16)" by simp
  show "write_bytes (WINDOW2 + PCB_OFFSET + of_nat off) bs k = frame_write g (0x200 + off) bs k"
    unfolding a frame_write_def using assms(2) by (intro window_write_bytes [OF _ _ assms(1)]) simp_all
  show "window 2 g (machine (frame_write g (0x200 + off) bs k))" using assms(1) by (simp add: window_def frame_write_def)
qed

lemma stores_as_loops: "MMIO8_write a v k = write_bytes a [v] k" "MMIO16_write a w k = write_bytes a [lo_byte w, hi_byte w] k"
  by (simp_all add: MMIO16_write_def)

text \<open>What the stores of \<open>fork_pcb\<close> make of the copy of the parent's frame.\<close>

definition fork_stores :: "frame_t \<Rightarrow> uint16 \<Rightarrow> uint16 \<Rightarrow> kernel \<Rightarrow> kernel" where
  "fork_stores g pid parent k =
     frame_write g (0x200 + off_page_table) (replicate PAGE_TABLE_SIZE FRAME_UNUSED)
       (frame_write g (0x200 + off_ctx_x) [0] (frame_write g (0x200 + off_ctx_a) [0]
         (frame_write g (0x200 + off_parent) [lo_byte parent, hi_byte parent]
           (frame_write g (0x200 + off_pid) [lo_byte pid, hi_byte pid] k))))"

lemma fork_stores_machine:
  "fork_stores g pid parent k = k\<lparr>machine := machine (fork_stores g pid parent k)\<rparr>"
  "mmu (machine (fork_stores g pid parent k)) = mmu (machine k)"
  by (simp_all add: fork_stores_def frame_write_def)

lemma fork_stores_mmu:
  assumes "(machine k)\<lparr>mmu := u\<rparr> = machine k'"
  shows "(machine (fork_stores g pid parent k))\<lparr>mmu := u\<rparr> = machine (fork_stores g pid parent k')"
  by (simp add: fork_stores_def frame_write_def assms [symmetric])

lemma fork_stores_byte:
  assumes "i < 4096"
  shows "frame_byte (fork_stores g pid parent k) h i =
    (if h = g \<and> 0x200 \<le> i \<and> i < 0x210 then FRAME_UNUSED
     else if h = g \<and> i \<in> {0x200 + off_ctx_a, 0x200 + off_ctx_x} then 0
     else if h = g \<and> i = 0x200 + off_pid then lo_byte pid else if h = g \<and> i = Suc (0x200 + off_pid) then hi_byte pid
     else if h = g \<and> i = 0x200 + off_parent then lo_byte parent else if h = g \<and> i = Suc (0x200 + off_parent) then hi_byte parent
     else frame_byte k h i)"
  using assms by (auto simp: fork_stores_def frame_write_def frame_byte_def nth_Cons' less_Suc_eq)

text \<open>The page table of a process, and the frames a process owns: the one of its control block and those of its table.\<close>

definition page_table_of :: "kernel \<Rightarrow> nat \<Rightarrow> frame_t list" where
  "page_table_of k p = pcb_bytes k p off_page_table PAGE_TABLE_SIZE"

definition user_frames :: "kernel \<Rightarrow> nat \<Rightarrow> frame_t set" where
  "user_frames k p = set (page_table_of k p) - {FRAME_UNUSED}"

lemma page_table_of_length [simp]: "length (page_table_of k p) = 16"
  by (simp add: page_table_of_def pcb_bytes_def)

lemma page_table_of_nth: "i < 16 \<Longrightarrow> page_table_of k p ! i = frame_byte k (pcb_frame k p) (0x200 + i)"
  by (simp add: page_table_of_def pcb_bytes_def pcb_byte_def)

lemma page_table_of_eq:
  "(\<And>i. i < 16 \<Longrightarrow> frame_byte k (pcb_frame k p) (0x200 + i) = ts ! i) \<Longrightarrow> length ts = 16 \<Longrightarrow> page_table_of k p = ts"
  by (rule nth_equalityI) (simp_all add: page_table_of_nth)

lemma frame_bytes_nth [simp]: "i < 4096 \<Longrightarrow> frame_bytes k f ! i = frame_byte k f i"
  by (simp add: frame_bytes_def del: upt_rec_numeral)

lemma frame_copied_byte:
  "i < 4096 \<Longrightarrow> frame_byte (frame_copied f g k) h i = (if h = g then frame_byte k f i else frame_byte k h i)"
  by (simp add: frame_copied_def frame_byte_def) (simp add: frame_bytes_def frame_byte_def del: upt_rec_numeral)

lemma fork_pcb_effect:
  assumes "kmap k" and "current_process k = Some p" and "pcb_ok k p" and "pcb_ok k child"
  shows "fork_pcb child pid k = (page_table_of k p,
    fork_stores (pcb_frame k child) pid (proc_addr (sym k) p) (frame_copied (pcb_frame k p) (pcb_frame k child) k))"
proof -
  let ?f = "pcb_frame k p" and ?g = "pcb_frame k child" and ?a = "proc_addr (sym k) p"
  have d: "?f \<notin> {MMU_FRAME_INVALID, MMU_LAST_FRAME}" "?g \<notin> {MMU_FRAME_INVALID, MMU_LAST_FRAME}"
    using assms(3,4) by (simp_all add: pcb_ok_def)
  obtain b o1 o2 k3 where c: "copy_frame ?f ?g k = (b, o1, o2, k3)" by (metis prod_cases4)
  note e = copy_frame_effect [OF assms(1) d c]
  define k4 where "k4 = frame_write ?g (0x200 + off_pid) [lo_byte pid, hi_byte pid] k3"
  define k5 where "k5 = frame_write ?g (0x200 + off_parent) [lo_byte ?a, hi_byte ?a] k4"
  define k6 where "k6 = frame_write ?g (0x200 + off_ctx_a) [0] k5"
  define k7 where "k7 = frame_write ?g (0x200 + off_ctx_x) [0] k6"
  have w: "window 2 ?g (machine k4)" "window 2 ?g (machine k5)" "window 2 ?g (machine k6)" "window 2 ?g (machine k7)"
    using e(2) by (simp_all add: k4_def k5_def k6_def k7_def frame_write_def window_def)
  note s = window2_store(1) [OF e(2), of off_pid "[lo_byte pid, hi_byte pid]"]
    window2_store(1) [OF w(1), of off_parent "[lo_byte ?a, hi_byte ?a]"]
    window2_store(1) [OF w(2), of off_ctx_a "[0]"] window2_store(1) [OF w(3), of off_ctx_x "[0]"]
  have st: "MMIO16_write (WINDOW2 + PCB_OFFSET + of_nat off_pid) pid k3 = k4"
    "MMIO16_write (WINDOW2 + PCB_OFFSET + of_nat off_parent) ?a k4 = k5"
    "MMIO8_write (WINDOW2 + PCB_OFFSET + of_nat off_ctx_a) 0 k5 = k6"
    "MMIO8_write (WINDOW2 + PCB_OFFSET + of_nat off_ctx_x) 0 k6 = k7"
    using s by (simp_all only: stores_as_loops k4_def k5_def k6_def k7_def) simp_all
  have pt: "read_bytes (WINDOW2 + PCB_OFFSET) PAGE_TABLE_SIZE k7 = (page_table_of k p, k7)"
  proof -
    have "frame_byte k3 ?g i = frame_byte k ?f i" if "i < 4096" for i
      using arg_cong [OF e(3), of ram] frame_copied_byte [OF that, of ?f ?g k ?g] by (simp add: frame_byte_def)
    then have "map (frame_byte k7 ?g) [0x200..<0x200 + 16] = page_table_of k p"
      by (intro nth_equalityI)
        (simp_all add: page_table_of_nth k4_def k5_def k6_def k7_def frame_write_def frame_byte_def del: upt_rec_numeral)
    then show ?thesis using window_read_bytes [OF _ _ w(4), of "0x200" 16] by (simp del: upt_rec_numeral)
  qed
  have k9: "write_bytes (WINDOW2 + PCB_OFFSET) (replicate PAGE_TABLE_SIZE FRAME_UNUSED) k7 = fork_stores ?g pid ?a k3"
    using window2_store(1) [OF w(4), of 0 "replicate PAGE_TABLE_SIZE FRAME_UNUSED"]
    by (simp add: fork_stores_def k4_def k5_def k6_def k7_def)
  have "unmap_window 2 o2 (unmap_window 1 o1 (fork_stores ?g pid ?a k3)) =
      k\<lparr>machine := machine (fork_stores ?g pid ?a (frame_copied ?f ?g k))\<rparr>"
    using e(4) [OF fork_stores_machine(2), of ?g pid ?a] fork_stores_mmu [OF e(3)]
    by (simp only: fork_stores_machine(1) [symmetric])
  moreover have "\<dots> = fork_stores ?g pid ?a (frame_copied ?f ?g k)"
    by (subst (2) fork_stores_machine(1)) (simp add: frame_copied_def)
  moreover have "sym k4 = sym k" "cur k4 = p" "cur k = p"
    using e(5,6) assms(2) by (simp_all add: k4_def frame_write_def)
  ultimately show ?thesis
    unfolding fork_pcb_def by (simp only: c e(1) st pt k9 Let_def prod.case \<open>cur k = p\<close> \<open>cur k4 = p\<close> \<open>sym k4 = sym k\<close>)
qed

section \<open>The invariant of the loop\<close>

text \<open>
  Who owns what while \<open>p\<close> builds \<open>child\<close>: their frames are pairwise distinct, ordinary, and not in the pool; the
  child's are not the kernel's, which are those below 16. What the rest of the system must leave alone at a yield: the child's control
  block, both page tables, the bytes of the frames they name, and the number of allocations that \<open>p\<close> counts on.
\<close>

definition fork_memory :: "nat \<Rightarrow> nat \<Rightarrow> kernel \<Rightarrow> bool" where
  "fork_memory p child k \<longleftrightarrow> memory_inv k \<and> current_process k = Some p \<and> pcb_ok k p \<and> pcb_ok k child \<and>
     pcb_frame k p \<noteq> pcb_frame k child \<and> user_frames_distinct (page_table_of k child) \<and>
     user_frames k p \<inter> user_frames k child = {} \<and> MMU_LAST_FRAME \<notin> user_frames k p \<and>
     (\<forall>f \<in> insert (pcb_frame k child) (user_frames k child). 16 \<le> f) \<and>
     {pcb_frame k p, pcb_frame k child} \<inter> (user_frames k p \<union> user_frames k child) = {} \<and>
     ({pcb_frame k p, pcb_frame k child} \<union> user_frames k p \<union> user_frames k child) \<inter> set (free_list k) = {}"

definition left_alone :: "nat \<Rightarrow> nat \<Rightarrow> kernel \<Rightarrow> kernel \<Rightarrow> bool" where
  "left_alone p child k k' \<longleftrightarrow> pcb_frame k' child = pcb_frame k child \<and> page_table_of k' p = page_table_of k p \<and>
     (\<forall>f \<in> insert (pcb_frame k child) (user_frames k p \<union> user_frames k child). frame_bytes k' f = frame_bytes k f) \<and>
     frames_ready k \<le> frames_ready k'"

definition fork_rely :: "nat \<Rightarrow> nat \<Rightarrow> (kernel \<Rightarrow> kernel) \<Rightarrow> bool" where
  "fork_rely p child w \<longleftrightarrow>
     (\<forall>k. fork_memory p child k \<longrightarrow> fork_memory p child (yield w k) \<and> left_alone p child k (yield w k))"

text \<open>
  What a piece of the call leaves of the processes other than \<open>child\<close> and of the caches of blocks and inodes when it writes
  only the frames in \<open>F\<close>; the state of the caller changes at every yield.
\<close>

definition kept :: "nat \<Rightarrow> nat \<Rightarrow> frame_t set \<Rightarrow> kernel \<Rightarrow> kernel \<Rightarrow> bool" where
  "kept p child F k k' \<longleftrightarrow> buffer_cache k' = buffer_cache k \<and> inode_frame k' = inode_frame k \<and>
     (\<forall>q. q \<noteq> child \<longrightarrow> pcb_frame k' q = pcb_frame k q \<and>
        (q \<noteq> p \<longrightarrow> proc_state (proc_table k' ! q) = proc_state (proc_table k ! q)) \<and>
        (pcb_frame k q \<notin> F \<longrightarrow> page_table_of k' q = page_table_of k q))"

lemma kept_trans: "kept p child F k k1 \<Longrightarrow> kept p child G k1 k2 \<Longrightarrow> F \<subseteq> H \<Longrightarrow> G \<subseteq> H \<Longrightarrow> kept p child H k k2"
  unfolding kept_def by (metis subsetD)

lemma kept_written:
  assumes "buffer_cache k' = buffer_cache k \<and> inode_frame k' = inode_frame k" and "\<And>q. q \<noteq> child \<Longrightarrow> proc_table k' ! q = proc_table k ! q"
    and "\<And>h i. h \<notin> F \<Longrightarrow> i < 4096 \<Longrightarrow> frame_byte k' h i = frame_byte k h i"
  shows "kept p child F k k'"
proof -
  have "page_table_of k' q = page_table_of k q" if "q \<noteq> child" "pcb_frame k q \<notin> F" for q
    using assms(2) [OF that(1)] assms(3) [OF that(2)] by (intro nth_equalityI) (simp_all add: page_table_of_nth)
  then show ?thesis using assms(1,2) by (simp add: kept_def)
qed

text \<open>A yield at which the rest of the system neither allocates nor frees and leaves the processes alone.\<close>

definition calm :: "nat \<Rightarrow> nat \<Rightarrow> (kernel \<Rightarrow> kernel) \<Rightarrow> bool" where
  "calm p child w \<longleftrightarrow> fork_rely p child w \<and>
     (\<forall>k. fork_memory p child k \<longrightarrow> free_list (yield w k) = free_list k \<and> kept p child {} k (yield w k))"

text \<open>
  \<open>B\<close> gives the contents of the parent's frames when the call was made, \<open>C\<close> those of the child's control block and
  kernel stack outside the page table; the first \<open>s\<close> segments have been copied.
\<close>

definition cloning :: "nat \<Rightarrow> nat \<Rightarrow> frame_t list \<Rightarrow> (frame_t \<Rightarrow> uint8 list) \<Rightarrow> (nat \<Rightarrow> uint8) \<Rightarrow> nat \<Rightarrow> kernel \<Rightarrow> bool" where
  "cloning p child pt B C s k \<longleftrightarrow> fork_memory p child k \<and> page_table_of k p = pt \<and>
     (\<forall>f \<in> user_frames k p. frame_bytes k f = B f) \<and>
     (\<forall>i < 16. if i < s \<and> pt ! i \<noteq> FRAME_UNUSED
        then page_table_of k child ! i \<noteq> FRAME_UNUSED \<and> frame_bytes k (page_table_of k child ! i) = B (pt ! i)
        else page_table_of k child ! i = FRAME_UNUSED) \<and>
     (\<forall>i < 4096. i < 0x200 \<or> 0x210 \<le> i \<longrightarrow> frame_byte k (pcb_frame k child) i = C i)"

lemma frame_bytes_eqI: "(\<And>i. i < 4096 \<Longrightarrow> frame_byte k f i = frame_byte k' g i) \<Longrightarrow> frame_bytes k f = frame_bytes k' g"
  unfolding frame_bytes_def by (rule map_cong) simp_all

lemma frame_bytes_eqD: "frame_bytes k f = frame_bytes k' g \<Longrightarrow> i < 4096 \<Longrightarrow> frame_byte k f i = frame_byte k' g i"
  by (metis frame_bytes_nth)

lemma page_table_member: "i < 16 \<Longrightarrow> page_table_of k p ! i \<noteq> FRAME_UNUSED \<Longrightarrow> page_table_of k p ! i \<in> user_frames k p"
  unfolding user_frames_def using nth_mem [of i "page_table_of k p"] by (simp)

lemma cloning_yield:
  assumes "cloning p child pt B C s k" and "fork_memory p child k'" and "left_alone p child k k'"
  shows "cloning p child pt B C s k'"
proof -
  have u: "frame_bytes k' f = frame_bytes k f" if "f \<in> insert (pcb_frame k child) (user_frames k p \<union> user_frames k child)" for f
    using assms(3) that by (auto simp: left_alone_def)
  have c: "pcb_frame k' child = pcb_frame k child" "page_table_of k' p = page_table_of k p"
    using assms(3) by (simp_all add: left_alone_def)
  have b: "frame_byte k' (pcb_frame k child) i = frame_byte k (pcb_frame k child) i" if "i < 4096" for i
    by (rule frame_bytes_eqD [OF u that]) simp
  have t: "page_table_of k' child = page_table_of k child" by (rule nth_equalityI) (simp_all add: page_table_of_nth c(1) b)
  have m: "frame_bytes k' (page_table_of k child ! i) = frame_bytes k (page_table_of k child ! i)"
    if "i < 16" "page_table_of k child ! i \<noteq> FRAME_UNUSED" for i
    using u page_table_member [OF that] by simp
  have "\<forall>f \<in> user_frames k' p. frame_bytes k' f = B f"
    using assms(1) u unfolding cloning_def by (simp add: user_frames_def c(2))
  moreover have "\<forall>i < 4096. i < 0x200 \<or> 0x210 \<le> i \<longrightarrow> frame_byte k' (pcb_frame k' child) i = C i"
    using assms(1) b unfolding cloning_def by (simp add: c(1))
  moreover have "\<forall>i < 16. if i < s \<and> pt ! i \<noteq> FRAME_UNUSED
        then page_table_of k' child ! i \<noteq> FRAME_UNUSED \<and> frame_bytes k' (page_table_of k' child ! i) = B (pt ! i)
        else page_table_of k' child ! i = FRAME_UNUSED"
    using assms(1) m unfolding cloning_def t by (metis (no_types, lifting))
  ultimately show ?thesis using assms(1,2) c(2) unfolding cloning_def by simp
qed

lemma cloning_skip: "cloning p child pt B C s k \<Longrightarrow> pt ! s = FRAME_UNUSED \<Longrightarrow> cloning p child pt B C (Suc s) k"
  unfolding cloning_def by (metis (no_types, lifting) less_Suc_eq)

lemma frame_copied_frame [simp]:
  "proc_table (frame_copied f g k) = proc_table k" "current_process (frame_copied f g k) = current_process k"
  "free_list (frame_copied f g k) = free_list k" "memory_inv (frame_copied f g k) = memory_inv k"
  "kmap (frame_copied f g k) = kmap k"
  by (simp_all add: frame_copied_def free_list_def memory_inv_def kmap_def kalloc_inv_def)

text \<open>One round of the loop: the next frame of the pool becomes the child's copy of the segment.\<close>

lemma segment_cloned:
  assumes "fork_memory p child k" and "free_list k = f # fs" and "g \<in> user_frames k p" and "s < 16"
    and "page_table_of k child ! s = FRAME_UNUSED"
    and "k2 = frame_copied g f (pcb_write child s [f] (snd (kalloc k)))" and "f \<noteq> FRAME_UNUSED"
  shows "fork_memory p child k2" and "free_list k2 = fs" and "pcb_frame k2 child = pcb_frame k child"
    and "page_table_of k2 p = page_table_of k p" and "page_table_of k2 child = (page_table_of k child)[s := f]"
    and "i < 4096 \<Longrightarrow> frame_byte k2 h i = (if h = f then frame_byte k g i
      else if h = pcb_frame k child \<and> i = 0x200 + s then f else frame_byte k h i)"
proof -
  note m = assms(1) [unfolded fork_memory_def]
  have n: "f \<noteq> pcb_frame k p" "f \<noteq> pcb_frame k child" "g \<noteq> pcb_frame k child" "f \<noteq> FRAME_UNUSED" "16 \<le> f"
    using m assms(2,3,7) by (auto simp: memory_inv_def kalloc_inv_def)
  have k1: "free_list (snd (kalloc k)) = fs" "memory_inv (snd (kalloc k))"
    using m kernel_frames.alloc_pop [OF _ assms(2)] kernel_frames.alloc_inv by simp_all
  show fl: "free_list k2 = fs" by (simp add: assms(6) k1)
  show pf: "pcb_frame k2 child = pcb_frame k child" by (simp add: assms(6))
  have pp: "pcb_frame k2 p = pcb_frame k p" by (simp add: assms(6))
  show byte: "frame_byte k2 h i = (if h = f then frame_byte k g i
      else if h = pcb_frame k child \<and> i = 0x200 + s then f else frame_byte k h i)" if "i < 4096" for h i
    unfolding assms(6) frame_copied_byte [OF that] using that n(3) by (auto simp: frame_byte_def pcb_write_def)
  show tp: "page_table_of k2 p = page_table_of k p"
    using m n(1) by (intro page_table_of_eq) (simp_all add: page_table_of_nth pp byte)
  show tc: "page_table_of k2 child = (page_table_of k child)[s := f]"
    using m n(2) assms(4) by (intro page_table_of_eq) (simp_all add: page_table_of_nth pf byte nth_list_update)
  have up: "user_frames k2 p = user_frames k p" by (simp add: user_frames_def tp)
  have uc: "user_frames k2 child \<subseteq> insert f (user_frames k child)"
    using set_update_subset_insert [of "page_table_of k child" s f] by (auto simp: user_frames_def tc)
  have fd: "f \<notin> set fs" using kernel_frames.pool_distinct [of k] m assms(2) by simp
  have "owned_once (page_table_of k child) (f # fs)"
    using m assms(2) by (auto simp: owned_once_def user_frames_def)
  from owned_once_map [OF this fd page_table_of_length, of s]
  have "user_frames_distinct (page_table_of k2 child)" by (simp add: tc owned_once_def)
  moreover have "f \<notin> user_frames k p" using m assms(2) by auto
  moreover have "memory_inv k2" "current_process k2 = current_process k" "pcb_ok k2 p = pcb_ok k p" "pcb_ok k2 child = pcb_ok k child"
    using k1(2) by (simp_all add: assms(6) pcb_ok_def)
  ultimately show "fork_memory p child k2"
    using m n uc fd unfolding fork_memory_def fl pf pp up assms(2) by auto
qed

lemma cloning_segment:
  assumes "cloning p child pt B C s k" and "s < 16" and "pt ! s \<noteq> FRAME_UNUSED" and "free_list k = f # fs"
    and "k2 = fork_segment child s (pt ! s) f (snd (kalloc k))" and f: "f \<noteq> FRAME_UNUSED"
  shows "fst (kalloc k) = f" and "frames_ready k = Suc (frames_ready k2)" and "free_list k2 = fs" and "cloning p child pt B C (Suc s) k2"
    and "pcb_frame k2 child = pcb_frame k child" and "page_table_of k2 child = (page_table_of k child)[s := f]"
    and "kept p child {f, pcb_frame k child} k k2"
proof -
  have m: "fork_memory p child k" and t: "page_table_of k p = pt" using assms(1) by (simp_all add: cloning_def)
  note m' = m [unfolded fork_memory_def]
  have g: "pt ! s \<in> user_frames k p" using page_table_member [OF assms(2), of k p] assms(3) t by simp
  have unused: "page_table_of k child ! s = FRAME_UNUSED" using assms(1,2) by (simp add: cloning_def)
  have mi: "memory_inv k" using m' by simp
  show "fst (kalloc k) = f" using kernel_frames.alloc_pop [OF mi assms(4)] by simp
  have "16 \<le> f" using mi assms(4) by (simp add: memory_inv_def kalloc_inv_def)
  then have d: "f \<notin> {MMU_FRAME_INVALID, MMU_LAST_FRAME}" using f by auto
  have "MMU_LAST_FRAME \<notin> user_frames k p" using m' by simp
  then have d2: "pt ! s \<notin> {MMU_FRAME_INVALID, MMU_LAST_FRAME}" using g assms(3) by auto
  have "kmap (snd (kalloc k))" "pcb_ok (snd (kalloc k)) child"
    using kernel_frames.alloc_inv [OF mi] m' by (simp_all add: memory_inv_def pcb_ok_def)
  from fork_segment_effect [OF this assms(2) d2 d]
  have k2: "k2 = frame_copied (pt ! s) f (pcb_write child s [f] (snd (kalloc k)))" using assms(5) by simp
  note e = segment_cloned [OF m assms(4) g assms(2) unused k2 f]
  show "frames_ready k = Suc (frames_ready k2)" using frames_ready_Cons [OF assms(4) e(2)] f by simp
  have "buffer_cache k2 = buffer_cache k \<and> inode_frame k2 = inode_frame k" "proc_table k2 = proc_table k"
    by (simp_all add: k2 frame_copied_def pcb_write_def kalloc_def Let_def)
  then show "kept p child {f, pcb_frame k child} k k2" by (intro kept_written) (simp_all add: e(6))
  show "free_list k2 = fs" "pcb_frame k2 child = pcb_frame k child" "page_table_of k2 child = (page_table_of k child)[s := f]"
    by (rule e)+
  have fn: "f \<notin> insert (pcb_frame k child) (user_frames k p \<union> user_frames k child)" using m' assms(4) by auto
  have keep: "frame_bytes k2 h = frame_bytes k h" if "h \<in> user_frames k p \<union> user_frames k child" for h
    using that fn m' by (intro frame_bytes_eqI) (auto simp: e(6))
  have new: "frame_bytes k2 f = B (pt ! s)"
  proof -
    have "frame_bytes k2 f = frame_bytes k (pt ! s)" by (intro frame_bytes_eqI) (simp add: e(6))
    then show ?thesis using assms(1) g by (simp add: cloning_def)
  qed
  have "if i < Suc s \<and> pt ! i \<noteq> FRAME_UNUSED
      then page_table_of k2 child ! i \<noteq> FRAME_UNUSED \<and> frame_bytes k2 (page_table_of k2 child ! i) = B (pt ! i)
      else page_table_of k2 child ! i = FRAME_UNUSED" if i: "i < 16" for i
  proof (cases "i = s")
    case True
    then show ?thesis using f new assms(3) i by (simp add: e(5))
  next
    case False
    have "if i < s \<and> pt ! i \<noteq> FRAME_UNUSED
        then page_table_of k child ! i \<noteq> FRAME_UNUSED \<and> frame_bytes k (page_table_of k child ! i) = B (pt ! i)
        else page_table_of k child ! i = FRAME_UNUSED" using assms(1) i by (simp add: cloning_def)
    moreover have "page_table_of k2 child ! i = page_table_of k child ! i" using False by (simp add: e(5))
    ultimately show ?thesis using False keep page_table_member [OF i, of k child] by (auto simp: less_Suc_eq)
  qed
  moreover have "\<forall>h \<in> user_frames k2 p. frame_bytes k2 h = B h"
    using assms(1) keep by (simp add: cloning_def user_frames_def e(4))
  moreover have "frame_byte k2 (pcb_frame k2 child) i = C i" if "i < 4096" "i < 0x200 \<or> 0x210 \<le> i" for i
    using assms(1,2) fn that unfolding e(3) e(6) [OF that(1)] by (auto simp: cloning_def)
  ultimately show "cloning p child pt B C (Suc s) k2"
    using e(1,4) t unfolding cloning_def by blast
qed

section \<open>The loop and the call\<close>

definition to_copy :: "nat \<Rightarrow> frame_t list \<Rightarrow> nat" where
  "to_copy s pt = length (filter (\<lambda>i. pt ! i \<noteq> FRAME_UNUSED) [s..<16])"

lemma to_copy_step:
  "s < 16 \<Longrightarrow> to_copy s pt = (if pt ! s = FRAME_UNUSED then to_copy (Suc s) pt else Suc (to_copy (Suc s) pt))"
  by (simp add: to_copy_def upt_conv_Cons [of s] del: upt_rec_numeral)

lemma yield_step:
  assumes "fork_rely p child w" and "cloning p child pt B C s k"
  shows "cloning p child pt B C s (yield w k)" and "frames_ready k \<le> frames_ready (yield w k)"
proof -
  have "fork_memory p child k" using assms(2) by (simp add: cloning_def)
  then have y: "fork_memory p child (yield w k)" "left_alone p child k (yield w k)" using assms(1) by (simp_all add: fork_rely_def)
  show "cloning p child pt B C s (yield w k)" by (rule cloning_yield [OF assms(2) y])
  show "frames_ready k \<le> frames_ready (yield w k)" using y(2) by (simp add: left_alone_def)
qed

lemma fork_clone_effect:
  assumes "cloning p child pt B C s k" and "s + n = 16" and "\<forall>w \<in> set ws. fork_rely p child w"
    and "to_copy s pt \<le> length ws" and "to_copy s pt \<le> frames_ready k"
  shows "\<exists>k'. fork_clone child n s pt ws k = Some (Inr (True, drop (to_copy s pt) ws, k')) \<and> cloning p child pt B C 16 k'"
  using assms
proof (induction n arbitrary: s ws k)
  case 0
  then show ?case by (simp add: io_return_def to_copy_def)
next
  case (Suc n)
  have s: "s < 16" "Suc s + n = 16" using Suc.prems(2) by simp_all
  show ?case
  proof (cases "pt ! s = FRAME_UNUSED")
    case True
    have c: "to_copy s pt = to_copy (Suc s) pt" using to_copy_step [OF s(1), of pt] True by simp
    show ?thesis
      using Suc.IH [OF cloning_skip [OF Suc.prems(1) True] s(2) Suc.prems(3)] Suc.prems(4,5) True by (simp add: c)
  next
    case False
    have c: "to_copy s pt = Suc (to_copy (Suc s) pt)" using to_copy_step [OF s(1), of pt] False by simp
    obtain w ws1 where ws: "ws = w # ws1" using Suc.prems(4) c by (cases ws) auto
    have "0 < frames_ready k" using Suc.prems(5) c by simp
    then obtain f fs where pool: "free_list k = f # fs" "f \<noteq> FRAME_UNUSED" by (rule frames_readyE)
    define k2 where "k2 = fork_segment child s (pt ! s) f (snd (kalloc k))"
    note e = cloning_segment [OF Suc.prems(1) s(1) False pool(1) k2_def pool(2)]
    have "fork_rely p child w" using Suc.prems(3) ws by simp
    note y = yield_step [OF this e(4)]
    have "fork_clone child (Suc n) s pt ws k = fork_clone child n (Suc s) pt ws1 (yield w k2)"
      using False e(1) pool(2) by (simp add: ws k2_def)
    then show ?thesis
      using Suc.IH [OF y(1) s(2), of ws1] Suc.prems(3-5) y(2) e(2) by (simp add: c ws)
  qed
qed

text \<open>The child's control block and kernel stack: the parent's, but for the process number, the parent and the result.\<close>

definition child_byte :: "kernel \<Rightarrow> nat \<Rightarrow> uint16 \<Rightarrow> nat \<Rightarrow> uint8" where
  "child_byte k p pid i =
     (let parent = proc_addr (sym k) p
      in if i \<in> {0x200 + off_ctx_a, 0x200 + off_ctx_x} then 0
         else if i = 0x200 + off_pid then lo_byte pid else if i = Suc (0x200 + off_pid) then hi_byte pid
         else if i = 0x200 + off_parent then lo_byte parent else if i = Suc (0x200 + off_parent) then hi_byte parent
         else frame_byte k (pcb_frame k p) i)"

lemma fork_stores_frame [simp]:
  "proc_table (fork_stores g pid parent k) = proc_table k" "current_process (fork_stores g pid parent k) = current_process k"
  "free_list (fork_stores g pid parent k) = free_list k" "memory_inv (fork_stores g pid parent k) = memory_inv k"
  by (simp_all add: fork_stores_def frame_write_def free_list_def memory_inv_def kmap_def kalloc_inv_def)

lemma fork_started:
  assumes "fork_memory p child k"
  shows "fst (fork_pcb child pid k) = page_table_of k p" and "free_list (snd (fork_pcb child pid k)) = free_list k"
    and "cloning p child (page_table_of k p) (frame_bytes k) (child_byte k p pid) 0 (snd (fork_pcb child pid k))"
    and "kept p child {pcb_frame k child} k (snd (fork_pcb child pid k))"
proof -
  note m = assms [unfolded fork_memory_def]
  let ?f = "pcb_frame k p" and ?g = "pcb_frame k child"
  define k1 where "k1 = fork_stores ?g pid (proc_addr (sym k) p) (frame_copied ?f ?g k)"
  have "kmap k" "current_process k = Some p" "pcb_ok k p" "pcb_ok k child" using m by (simp_all add: memory_inv_def)
  from fork_pcb_effect [OF this] have e: "fork_pcb child pid k = (page_table_of k p, k1)" by (simp add: k1_def)
  then show "fst (fork_pcb child pid k) = page_table_of k p" by simp
  have fr: "proc_table k1 = proc_table k" "current_process k1 = Some p" "free_list k1 = free_list k" "memory_inv k1"
    "pcb_ok k1 q = pcb_ok k q" for q
    using m by (simp_all add: k1_def pcb_ok_def)
  then show "free_list (snd (fork_pcb child pid k)) = free_list k" by (simp add: e)
  have b: "frame_byte k1 h i = (if h \<noteq> ?g then frame_byte k h i else if 0x200 \<le> i \<and> i < 0x210 then FRAME_UNUSED else child_byte k p pid i)"
    if "i < 4096" for h i
    unfolding k1_def fork_stores_byte [OF that] frame_copied_byte [OF that] by (auto simp: child_byte_def Let_def)
  have "buffer_cache k1 = buffer_cache k \<and> inode_frame k1 = inode_frame k" by (simp add: k1_def fork_stores_def frame_copied_def frame_write_def)
  then show "kept p child {?g} k (snd (fork_pcb child pid k))" unfolding e snd_conv by (intro kept_written) (simp_all add: fr(1) b)
  have pt: "page_table_of k1 p = page_table_of k p"
    using m by (intro page_table_of_eq) (simp_all add: fr b page_table_of_nth)
  have ct: "page_table_of k1 child = replicate 16 FRAME_UNUSED"
    by (intro page_table_of_eq) (simp_all add: fr b)
  have u: "user_frames k1 p = user_frames k p" "user_frames k1 child = {}" by (simp_all add: user_frames_def pt ct)
  have "frame_bytes k1 f = frame_bytes k f" if "f \<in> user_frames k p" for f
    using m that by (intro frame_bytes_eqI) (auto simp: b)
  moreover have "fork_memory p child k1"
    using m fr(4) unfolding fork_memory_def fr(1-3,5) u by (auto simp: ct user_frames_distinct_def)
  ultimately have "cloning p child (page_table_of k p) (frame_bytes k) (child_byte k p pid) 0 k1"
    by (simp add: cloning_def pt ct u(1)) (simp add: fr(1) b)
  then show "cloning p child (page_table_of k p) (frame_bytes k) (child_byte k p pid) 0 (snd (fork_pcb child pid k))"
    by (simp add: e)
qed

lemma fork_child_result:
  assumes "fork_memory p child k" and "pid = pcb_word k child off_pid"
    and "fork_clone child 16 0 (page_table_of k p) ws (yield w (snd (fork_pcb child pid k))) = Some (Inr (ok, ws', k'))"
  shows "fork_child child (w # ws) k =
    Some (Inr (if ok then pid else 0xFFFF, ws', if ok then set_state child PROC_STATE_NEW k' else k'))"
proof -
  let ?last = "\<lambda>ok. if ok then io_then (io_do (set_state child PROC_STATE_NEW)) (io_return pid) else io_return 0xFFFF"
  have "proc_get_16 child off_pid k = (pid, k)"
    unfolding assms(2) using assms(1) by (intro pcb_access(3)) (simp_all add: fork_memory_def memory_inv_def)
  then have "fork_child child (w # ws) k =
      io_bind (fork_clone child 16 0 (page_table_of k p)) ?last ws (yield w (snd (fork_pcb child pid k)))"
    by (simp add: fork_child_def fork_started(1) [OF assms(1)] cong: if_cong)
  also have "\<dots> = ?last ok ws' k'"
    by (rule io_bind_result [where act = "fork_clone child 16 0 (page_table_of k p)" and
          k = "yield w (snd (fork_pcb child pid k))", OF assms(3)])
  finally show ?thesis by (simp add: io_return_def)
qed

lemma fork_child_effect:
  assumes "fork_memory p child k" and "\<forall>w \<in> set ws. fork_rely p child w"
    and "to_copy 0 (page_table_of k p) < length ws" and "to_copy 0 (page_table_of k p) \<le> frames_ready k"
  shows "\<exists>k'. fork_child child ws k = Some (Inr (pcb_word k child off_pid, drop (Suc (to_copy 0 (page_table_of k p))) ws,
      set_state child PROC_STATE_NEW k')) \<and>
    cloning p child (page_table_of k p) (frame_bytes k) (child_byte k p (pcb_word k child off_pid)) 16 k'"
proof -
  let ?pid = "pcb_word k child off_pid" and ?pt = "page_table_of k p"
  let ?cloning = "cloning p child ?pt (frame_bytes k) (child_byte k p ?pid)"
  obtain w ws1 where ws: "ws = w # ws1" using assms(3) by (cases ws) auto
  define k1 where "k1 = snd (fork_pcb child ?pid k)"
  note e = fork_started [OF assms(1), of ?pid, folded k1_def]
  have w: "fork_rely p child w" "\<forall>w \<in> set ws1. fork_rely p child w" using assms(2) ws by simp_all
  note y = yield_step [OF w(1) e(3)]
  have ready: "frames_ready k1 = frames_ready k" by (simp add: frames_ready_def e(2))
  obtain k' where c: "fork_clone child 16 0 ?pt ws1 (yield w k1) = Some (Inr (True, drop (to_copy 0 ?pt) ws1, k'))" "?cloning 16 k'"
    using fork_clone_effect [OF y(1) _ w(2), of 16] assms(3,4) ws y(2) ready by auto
  show ?thesis using fork_child_result [OF assms(1) refl c(1) [unfolded k1_def]] c(2) by (auto simp: ws)
qed

end
