(* ===== verification/Kernel_Create.thy ===== *)
theory Kernel_Create
  imports Kernel_Fork
begin

text \<open>
  The laws of \<^verbatim>\<open>proc_alloc\<close> (\<^verbatim>\<open>proc.c\<close>) and of the whole of \<^verbatim>\<open>sys_fork\<close>: a new process gets the next free frame for its
  kernel stack and control block, the next process number and an empty page table.
\<close>

section \<open>Preparing the kernel stack\<close>

text \<open>The assembly routine maps the frame in the hardware table alone and restores it; the address is one of the zero page.\<close>

lemma make_kernel_stack_effect:
  assumes "kmap k" and "f \<notin> {MMU_FRAME_INVALID, MMU_LAST_FRAME}" and "unat (zp_sp (sym k)) < 0xFF"
  shows "make_kernel_stack f k = frame_write f (unat (zp_sp (sym k))) [lo_byte STACK_START, hi_byte STACK_START] k"
proof -
  let ?pt = "page_table (mmu (machine k))" and ?z = "unat (zp_sp (sym k))"
  have pt: "?pt ! 15 = MMU_LAST_FRAME" "length ?pt = 16" using assms(1) by (simp_all add: kmap_def)
  define k2 where "k2 = k\<lparr>machine := (machine k)\<lparr>mmu := (mmu (machine k))\<lparr>page_table := ?pt[1 := f]\<rparr>\<rparr>\<rparr>"
  define k4 where "k4 = frame_write f ?z [lo_byte STACK_START, hi_byte STACK_START] k2"
  have r: "MMIO8_read (0xfe20 + of_nat 1) k = (?pt ! 1, k)"
    using page_table_access(1) [of "machine k" 1] pt by (simp add: MMIO8_read_def)
  have w2: "MMIO8_write (0xfe20 + of_nat 1) f k = k2"
    using page_table_access(2) [of "machine k" 1 f] pt by (simp add: MMIO8_write_def k2_def)
  have "window 1 f (machine k2)" using assms(2) pt by (simp add: window_def k2_def)
  from window_write_bytes [OF _ _ this, of ?z "[lo_byte STACK_START, hi_byte STACK_START]"]
  have "write_bytes (of_nat (4096 * 1 + ?z)) [lo_byte STACK_START, hi_byte STACK_START] k2 = k4"
    using assms(3) by (simp add: k4_def frame_write_def)
  then have "write_bytes (WINDOW1 + zp_sp (sym k)) [lo_byte STACK_START, hi_byte STACK_START] k2 = k4" by simp
  then have w4: "MMIO8_write (WINDOW1 + (zp_sp (sym k) + 1)) (hi_byte STACK_START)
      (MMIO8_write (WINDOW1 + zp_sp (sym k)) (lo_byte STACK_START) k2) = k4" by (simp add: add.assoc)
  have k4: "machine k4 = (machine k)\<lparr>mmu := (mmu (machine k))\<lparr>page_table := ?pt[1 := f]\<rparr>,
      ram := ram_write f ?z [lo_byte STACK_START, hi_byte STACK_START] (ram (machine k))\<rparr>"
    by (simp add: k4_def k2_def frame_write_def)
  have "MMIO8_write (0xfe20 + of_nat 1) (?pt ! 1) k4 = k4\<lparr>machine := (machine k4)\<lparr>mmu := mmu (machine k)\<rparr>\<rparr>"
    using page_table_access(2) [of "machine k4" 1 "?pt ! 1"] pt by (simp add: MMIO8_write_def k4)
  then show ?thesis
    unfolding make_kernel_stack_def Let_def r prod.case w2 w4 by (simp add: k4_def k2_def frame_write_def)
qed

section \<open>The new process\<close>

text \<open>The entry of the process table, and the stores of \<open>proc_alloc\<close> into the control block.\<close>

definition built :: "frame_t \<Rightarrow> Proc \<Rightarrow> Proc" where
  "built f q = q\<lparr>kernel_low_memory := (kernel_low_memory q)[0 := f, 1 := 1, 2 := 2],
     proc_state := PROC_STATE_BUILDING, proc_ksp := 0xff\<rparr>"

definition alloc_stores :: "frame_t \<Rightarrow> uint16 \<Rightarrow> kernel \<Rightarrow> kernel" where
  "alloc_stores f pid k =
     frame_write f (0x200 + off_page_table) (replicate PAGE_TABLE_SIZE FRAME_UNUSED)
       (frame_write f (0x200 + off_ctx_ksp) [0xff] (frame_write f (0x200 + off_ctx_sp) [0xff]
         (frame_write f (0x200 + off_pid) [lo_byte pid, hi_byte pid] k)))"

definition created :: "frame_t \<Rightarrow> nat \<Rightarrow> kernel \<Rightarrow> kernel" where
  "created f child k =
     (alloc_stores f (next_pid k) (frame_write f (unat (zp_sp (sym k))) [lo_byte STACK_START, hi_byte STACK_START]
       ((snd (kalloc k))\<lparr>proc_table := (proc_table k)[child := built f (proc_table k ! child)]\<rparr>)))\<lparr>next_pid := next_pid k + 1\<rparr>"

lemma unmap_window_next_pid: "unmap_window w f (k\<lparr>next_pid := n\<rparr>) = (unmap_window w f k)\<lparr>next_pid := n\<rparr>"
  by (simp add: unmap_window_def install_window_def set_low_memory_def MMIO8_write_def Let_def split: option.split)

lemma alloc_stores_machine:
  "alloc_stores f pid k = k\<lparr>machine := machine (alloc_stores f pid k)\<rparr>"
  "mmu (machine (alloc_stores f pid k)) = mmu (machine k)"
  "ram (machine k) = ram (machine k') \<Longrightarrow> ram (machine (alloc_stores f pid k)) = ram (machine (alloc_stores f pid k'))"
  by (simp_all add: alloc_stores_def frame_write_def)

lemma window2_alloc_stores:
  assumes "window 2 f (machine k)"
  shows "write_bytes (WINDOW2 + PCB_OFFSET + of_nat off_page_table) (replicate PAGE_TABLE_SIZE FRAME_UNUSED)
    (MMIO8_write (WINDOW2 + PCB_OFFSET + of_nat off_ctx_ksp) 0xff
      (MMIO8_write (WINDOW2 + PCB_OFFSET + of_nat off_ctx_sp) 0xff
        (MMIO16_write (WINDOW2 + PCB_OFFSET + of_nat off_pid) pid k))) = alloc_stores f pid k"
proof -
  define k7 where "k7 = frame_write f (0x200 + off_pid) [lo_byte pid, hi_byte pid] k"
  define k8 where "k8 = frame_write f (0x200 + off_ctx_sp) [0xff] k7"
  define k9 where "k9 = frame_write f (0x200 + off_ctx_ksp) [0xff] k8"
  have w: "window 2 f (machine k7)" "window 2 f (machine k8)" "window 2 f (machine k9)"
    using assms by (simp_all add: k7_def k8_def k9_def frame_write_def window_def)
  note s = window2_store(1) [OF assms, of off_pid "[lo_byte pid, hi_byte pid]"]
    window2_store(1) [OF w(1), of off_ctx_sp "[0xff]"] window2_store(1) [OF w(2), of off_ctx_ksp "[0xff]"]
    window2_store(1) [OF w(3), of off_page_table "replicate PAGE_TABLE_SIZE FRAME_UNUSED"]
  have "MMIO16_write (WINDOW2 + PCB_OFFSET + of_nat off_pid) pid k = k7"
    "MMIO8_write (WINDOW2 + PCB_OFFSET + of_nat off_ctx_sp) 0xff k7 = k8"
    "MMIO8_write (WINDOW2 + PCB_OFFSET + of_nat off_ctx_ksp) 0xff k8 = k9"
    using s(1-3) by (simp_all only: stores_as_loops k7_def k8_def k9_def) simp_all
  moreover have "write_bytes (WINDOW2 + PCB_OFFSET + of_nat off_page_table) (replicate PAGE_TABLE_SIZE FRAME_UNUSED) k9 =
      alloc_stores f pid k"
    using s(4) by (simp add: alloc_stores_def k7_def k8_def k9_def)
  ultimately show ?thesis by (simp only:)
qed

lemma find_unused_SomeD:
  assumes "find_unused k = Some child"
  shows "child < MAX_PROC_COUNT" and "proc_state (proc_table k ! child) = PROC_STATE_UNUSED"
proof -
  obtain i where "i < length [0..<MAX_PROC_COUNT]" "child = [0..<MAX_PROC_COUNT] ! i"
    "proc_state (proc_table k ! ([0..<MAX_PROC_COUNT] ! i)) = PROC_STATE_UNUSED"
    using assms unfolding find_unused_def find_Some_iff by blast
  then show "child < MAX_PROC_COUNT" "proc_state (proc_table k ! child) = PROC_STATE_UNUSED"
    by (simp_all del: upt_rec_numeral)
qed

lemma kmap_other_process:
  assumes "kmap k" and "current_process k \<noteq> Some q" and "length (kernel_low_memory x) = 3"
  shows "kmap (k\<lparr>proc_table := (proc_table k)[q := x]\<rparr>)"
  using assms by (auto simp: kmap_def nth_list_update dest!: set_update_subset_insert [THEN subsetD])

lemma new_pcb:
  assumes "kmap k" and "f \<notin> {MMU_FRAME_INVALID, MMU_LAST_FRAME}" and "next_pid k \<noteq> 0"
    and "map_window 2 f k = (b, old, k1)"
  shows "b = WINDOW2" and "pid_alloc k1 = Inr (next_pid k, k1\<lparr>next_pid := next_pid k + 1\<rparr>)"
    and "window 2 f (machine (k1\<lparr>next_pid := next_pid k + 1\<rparr>))"
    and "unmap_window 2 old (alloc_stores f (next_pid k) (k1\<lparr>next_pid := next_pid k + 1\<rparr>)) =
      (alloc_stores f (next_pid k) k)\<lparr>next_pid := next_pid k + 1\<rparr>"
proof -
  note w = map_window_window [OF assms(1) _ assms(2,4)]
  show "b = WINDOW2" "window 2 f (machine (k1\<lparr>next_pid := next_pid k + 1\<rparr>))" using w by simp_all
  have "next_pid k1 = next_pid k"
    using assms(4) by (auto simp: map_window_def install_window_def set_low_memory_def MMIO8_write_def Let_def split: option.split)
  then show "pid_alloc k1 = Inr (next_pid k, k1\<lparr>next_pid := next_pid k + 1\<rparr>)" using assms(3) by (simp add: pid_alloc_def Let_def)
  define k2 where "k2 = alloc_stores f (next_pid k) k1"
  have "k2 = k1\<lparr>machine := machine k2\<rparr>" unfolding k2_def by (rule alloc_stores_machine(1))
  moreover have "unmap_window 2 old (k1\<lparr>machine := machine k2\<rparr>) = k\<lparr>machine := (machine k2)\<lparr>mmu := mmu (machine k)\<rparr>\<rparr>"
    by (rule unmap_map_machine [OF assms(1) _ assms(4)]) (simp_all add: k2_def alloc_stores_machine(2))
  moreover have "(machine k2)\<lparr>mmu := mmu (machine k)\<rparr> = machine (alloc_stores f (next_pid k) k)"
    using map_window_machine [OF assms(1) _ assms(4)] by (simp add: k2_def alloc_stores_def frame_write_def)
  ultimately have "unmap_window 2 old k2 = alloc_stores f (next_pid k) k" using alloc_stores_machine(1) by metis
  moreover have "alloc_stores f (next_pid k) (k1\<lparr>next_pid := n\<rparr>) = k2\<lparr>next_pid := n\<rparr>" for n
    by (simp add: k2_def alloc_stores_def frame_write_def)
  ultimately show "unmap_window 2 old (alloc_stores f (next_pid k) (k1\<lparr>next_pid := next_pid k + 1\<rparr>)) =
      (alloc_stores f (next_pid k) k)\<lparr>next_pid := next_pid k + 1\<rparr>"
    by (simp add: unmap_window_next_pid)
qed

lemma proc_alloc_effect:
  assumes "memory_inv k" and "find_unused k = Some child" and "current_process k \<noteq> Some child"
    and "free_list k = f # fs" and "f \<noteq> FRAME_UNUSED" and "unat (zp_sp (sym k)) < 0xFF" and "next_pid k \<noteq> 0"
  shows "proc_alloc k = Inr (Some child, created f child k)"
proof -
  let ?q = "proc_table k ! child"
  define k1 where "k1 = snd (kalloc k)"
  define k2 where "k2 = k1\<lparr>proc_table := (proc_table k)[child := ?q\<lparr>kernel_low_memory := (kernel_low_memory ?q)[0 := f]\<rparr>]\<rparr>"
  define k3 where "k3 = frame_write f (unat (zp_sp (sym k))) [lo_byte STACK_START, hi_byte STACK_START] k2"
  define k4 where "k4 = k3\<lparr>proc_table := (proc_table k)[child := built f ?q]\<rparr>"
  have al: "kalloc k = (f, k1)" "kmap k1"
    using kernel_frames.alloc_pop [OF assms(1,4)] kernel_frames.alloc_inv [OF assms(1)]
    by (simp_all add: k1_def prod_eq_iff memory_inv_def)
  have k1: "proc_table k1 = proc_table k" "current_process k1 = current_process k" "sym k1 = sym k" "next_pid k1 = next_pid k"
    by (simp_all add: k1_def kalloc_def Let_def)
  have c: "child < length (proc_table k)" "length (kernel_low_memory ?q) = 3"
    using find_unused_SomeD(1) [OF assms(2)] assms(1) by (simp_all add: memory_inv_def kmap_def)
  have "16 \<le> f" using assms(1,4) by (simp add: memory_inv_def kalloc_inv_def)
  then have f: "f \<notin> {MMU_FRAME_INVALID, MMU_LAST_FRAME}" using assms(5) by auto
  have m2: "kmap k2" unfolding k2_def k1(1) [symmetric] using assms(3) k1 c by (intro kmap_other_process [OF al(2)]) simp_all
  have m3: "make_kernel_stack f k2 = k3"
    using make_kernel_stack_effect [OF m2 f] assms(6) by (simp add: k3_def) (simp add: k2_def k1)
  have t3: "k3\<lparr>proc_table := (proc_table k3)[child := (proc_table k3 ! child)
      \<lparr>kernel_low_memory := (kernel_low_memory (proc_table k3 ! child))[1 := 1, 2 := 2],
       proc_state := PROC_STATE_BUILDING, proc_ksp := 0xff\<rparr>]\<rparr> = k4"
    using c by (simp add: k4_def k3_def k2_def frame_write_def built_def)
  have "kmap k3" using m2 by (simp add: k3_def frame_write_def kmap_def)
  then have m4: "kmap k4"
    using kmap_other_process [of k3 child "built f ?q"] assms(3) k1(2) c
    by (simp add: k4_def) (simp add: k3_def k2_def frame_write_def built_def)
  have p4: "pcb_frame k4 child = f" "next_pid k4 = next_pid k" using c k1(4) by (simp_all add: k4_def k3_def k2_def frame_write_def built_def)
  obtain b old k5 where m: "map_window 2 f k4 = (b, old, k5)" by (metis prod_cases3)
  have pid: "next_pid k4 \<noteq> 0" using assms(7) p4(2) by simp
  note n = new_pcb [OF m4 f pid m]
  have e: "created f child k = (alloc_stores f (next_pid k4) k4)\<lparr>next_pid := next_pid k4 + 1\<rparr>"
    unfolding p4(2) by (simp add: created_def k4_def k3_def k2_def k1_def [symmetric] alloc_stores_def frame_write_def)
  have if2: "(if f = FRAME_UNUSED then x else y) = y" for x y :: "'x" using assms(5) by simp
  show ?thesis
    unfolding proc_alloc_def assms(2) option.case al(1) Let_def prod.case k1(1) k2_def [symmetric] if2 m3 t3
      MAP_PCB_def p4(1) m n(1,2) sum.case window2_alloc_stores [OF n(3)] UNMAP_PCB_def n(4) e ..
qed

text \<open>The memory of a process that makes a call: its frames are ordinary, distinct, and not in the pool.\<close>

definition caller_memory :: "nat \<Rightarrow> kernel \<Rightarrow> bool" where
  "caller_memory p k \<longleftrightarrow> memory_inv k \<and> current_process k = Some p \<and> pcb_ok k p \<and>
     proc_state (proc_table k ! p) \<noteq> PROC_STATE_UNUSED \<and>
     MMU_LAST_FRAME \<notin> user_frames k p \<and> pcb_frame k p \<notin> user_frames k p \<and>
     (insert (pcb_frame k p) (user_frames k p)) \<inter> set (free_list k) = {}"

lemma created_effect:
  assumes "memory_inv k" and "current_process k \<noteq> Some child" and "child < MAX_PROC_COUNT" and "free_list k = f # fs"
    and "k1 = created f child k"
  shows "memory_inv k1" and "current_process k1 = current_process k" and "free_list k1 = fs" and "sym k1 = sym k"
    and "proc_table k1 = (proc_table k)[child := built f (proc_table k ! child)]"
    and "h \<noteq> f \<Longrightarrow> i < 4096 \<Longrightarrow> frame_byte k1 h i = frame_byte k h i"
    and "pcb_frame k1 child = f" and "page_table_of k1 child = replicate 16 FRAME_UNUSED"
    and "pcb_word k1 child off_pid = next_pid k" and "kept p child {f} k k1"
proof -
  let ?x = "built f (proc_table k ! child)"
  define k0 where "k0 = (snd (kalloc k))\<lparr>proc_table := (proc_table k)[child := ?x]\<rparr>"
  have l: "child < length (proc_table k)" "length (kernel_low_memory (proc_table k ! child)) = 3"
    using assms(1,3) by (simp_all add: memory_inv_def kmap_def)
  have al: "free_list (snd (kalloc k)) = fs" "memory_inv (snd (kalloc k))"
    using kernel_frames.alloc_pop [OF assms(1,4)] kernel_frames.alloc_inv [OF assms(1)] by simp_all
  have "kmap ((snd (kalloc k))\<lparr>proc_table := (proc_table (snd (kalloc k)))[child := ?x]\<rparr>)"
    using al(2) assms(2) l(2) by (intro kmap_other_process) (simp_all add: memory_inv_def built_def)
  then have k0: "memory_inv k0" "free_list k0 = fs"
    using al by (simp_all add: k0_def memory_inv_def kalloc_inv_def free_list_def)
  have e: "k1 = (alloc_stores f (next_pid k) (frame_write f (unat (zp_sp (sym k))) [lo_byte STACK_START, hi_byte STACK_START] k0))
      \<lparr>next_pid := next_pid k + 1\<rparr>"
    by (simp add: assms(5) created_def k0_def)
  show "memory_inv k1"
    using k0(1) by (simp add: e alloc_stores_def frame_write_def memory_inv_def kmap_def kalloc_inv_def free_list_def)
  show "free_list k1 = fs" using k0(2) by (simp add: e alloc_stores_def frame_write_def free_list_def)
  show "current_process k1 = current_process k" "sym k1 = sym k" and t: "proc_table k1 = (proc_table k)[child := ?x]"
    by (simp_all add: e alloc_stores_def frame_write_def k0_def) (simp add: kalloc_def Let_def)
  show pf: "pcb_frame k1 child = f" using l by (simp add: t built_def)
  show b: "frame_byte k1 h i = frame_byte k h i" if "h \<noteq> f" "i < 4096" for h i
    using that by (simp add: e alloc_stores_def frame_write_def frame_byte_def k0_def)
  have "buffer_cache k1 = buffer_cache k \<and> inode_frame k1 = inode_frame k" by (simp add: e alloc_stores_def frame_write_def k0_def kalloc_def Let_def)
  then show "kept p child {f} k k1" by (intro kept_written) (simp_all add: t b)
  show "page_table_of k1 child = replicate 16 FRAME_UNUSED"
    by (intro page_table_of_eq) (simp_all add: pf, simp add: e alloc_stores_def frame_write_def frame_byte_def)
  show "pcb_word k1 child off_pid = next_pid k"
    by (simp add: pcb_word_def pcb_byte_def pf) (simp add: e alloc_stores_def frame_write_def frame_byte_def)
qed

lemma created_memory:
  assumes "caller_memory p k" and "find_unused k = Some child" and "free_list k = f # fs" and "k1 = created f child k"
    and "f \<noteq> FRAME_UNUSED"
  shows "fork_memory p child k1" and "page_table_of k1 p = page_table_of k p" and "pcb_frame k1 p = pcb_frame k p"
    and "g \<in> user_frames k p \<Longrightarrow> frame_bytes k1 g = frame_bytes k g"
proof -
  note m = assms(1) [unfolded caller_memory_def]
  have c: "child < MAX_PROC_COUNT" "child \<noteq> p" using find_unused_SomeD [OF assms(2)] m by auto
  have mi: "memory_inv k" "current_process k \<noteq> Some child" using m c by auto
  note e = created_effect [OF mi c(1) assms(3,4)]
  have l: "p < length (proc_table k)" using m by (auto simp: pcb_ok_def memory_inv_def kmap_def)
  have n: "f \<noteq> pcb_frame k p" "f \<notin> user_frames k p" "f \<noteq> FRAME_UNUSED" "f \<notin> set fs" "16 \<le> f"
    using m assms(3,5) kernel_frames.pool_distinct [OF mi(1)] mi(1) by (auto simp: memory_inv_def kalloc_inv_def)
  show pf: "pcb_frame k1 p = pcb_frame k p" using c(2) l by (simp add: e(5))
  show pt: "page_table_of k1 p = page_table_of k p" using n(1) by (intro page_table_of_eq) (simp_all add: pf e(6) page_table_of_nth)
  show "frame_bytes k1 g = frame_bytes k g" if "g \<in> user_frames k p" using that n(2) by (intro frame_bytes_eqI e(6)) auto
  have u: "user_frames k1 p = user_frames k p" "user_frames k1 child = {}" by (simp_all add: user_frames_def pt e(8))
  have "f \<notin> {MMU_FRAME_INVALID, MMU_LAST_FRAME}" using n(3,5) by auto
  then have ok: "pcb_ok k1 p" "pcb_ok k1 child" using m c(1) by (simp_all add: pcb_ok_def pf e(7))
  show "fork_memory p child k1"
    using m n(1,2,4,5) e(1,2) ok assms(3) unfolding fork_memory_def pf e(3,7,8) u by (auto simp: user_frames_distinct_def)
qed

section \<open>The whole call\<close>

lemma cloning_cong:
  assumes "cloning p child pt B C s k" and "\<And>f. f \<in> user_frames k p \<Longrightarrow> B f = B' f" and "\<And>i. i < 4096 \<Longrightarrow> C i = C' i"
  shows "cloning p child pt B' C' s k"
proof -
  have "pt ! i \<in> user_frames k p" if "i < 16" "pt ! i \<noteq> FRAME_UNUSED" for i
    using page_table_member [of i k p] assms(1) that by (simp add: cloning_def)
  then show ?thesis using assms unfolding cloning_def by (simp cong: if_cong)
qed

lemma sys_fork_created:
  assumes "caller_memory p k" and "find_unused k = Some child" and "next_pid k \<noteq> 0" and "unat (zp_sp (sym k)) < 0xFF"
    and "free_list k = f # fs" and "f \<noteq> FRAME_UNUSED"
  shows "sys_fork ws k = fork_child child ws (created f child k)" and "free_list (created f child k) = fs"
    and "pcb_word (created f child k) child off_pid = next_pid k" and "pcb_frame (created f child k) child = f"
    and "child_byte (created f child k) p pid i = child_byte k p pid i \<or> 4096 \<le> i"
proof -
  note m = assms(1) [unfolded caller_memory_def]
  have c: "child < MAX_PROC_COUNT" "child \<noteq> p" using find_unused_SomeD [OF assms(2)] m by auto
  have mi: "memory_inv k" "current_process k \<noteq> Some child" "f \<noteq> FRAME_UNUSED" "pcb_frame k p \<noteq> f" using m c assms(5,6) by auto
  note e = created_effect [OF mi(1,2) c(1) assms(5) refl]
  show "sys_fork ws k = fork_child child ws (created f child k)"
    using proc_alloc_effect [OF mi(1) assms(2) mi(2) assms(5) mi(3) assms(4,3)] by (simp add: sys_fork_def)
  show "free_list (created f child k) = fs" "pcb_word (created f child k) child off_pid = next_pid k" "pcb_frame (created f child k) child = f"
    by (rule e)+
  show "child_byte (created f child k) p pid i = child_byte k p pid i \<or> 4096 \<le> i"
    using created_memory(3) [OF assms(1,2,5) refl assms(6)] e(4,6) mi(4) by (auto simp: child_byte_def Let_def)
qed

lemma sys_fork_effect:
  assumes "caller_memory p k" and "find_unused k = Some child" and "next_pid k \<noteq> 0" and "unat (zp_sp (sym k)) < 0xFF"
    and "\<forall>w \<in> set ws. fork_rely p child w" and "to_copy 0 (page_table_of k p) < length ws"
    and "to_copy 0 (page_table_of k p) < frames_ready k"
  shows "\<exists>k'. sys_fork ws k = Some (Inr (next_pid k, drop (Suc (to_copy 0 (page_table_of k p))) ws,
      set_state child PROC_STATE_NEW k')) \<and>
    cloning p child (page_table_of k p) (frame_bytes k) (child_byte k p (next_pid k)) 16 k'"
proof -
  have "0 < frames_ready k" using assms(7) by simp
  then obtain f fs where pool: "free_list k = f # fs" "f \<noteq> FRAME_UNUSED" by (rule frames_readyE)
  define k1 where "k1 = created f child k"
  note s = sys_fork_created [OF assms(1-4) pool, folded k1_def] and cm = created_memory [OF assms(1,2) pool(1) k1_def pool(2)]
  have ready: "frames_ready k = Suc (frames_ready k1)" using frames_ready_Cons [OF pool(1) s(2)] pool(2) by simp
  obtain k' where r: "sys_fork ws k = Some (Inr (next_pid k, drop (Suc (to_copy 0 (page_table_of k p))) ws, set_state child PROC_STATE_NEW k'))"
    "cloning p child (page_table_of k p) (frame_bytes k1) (child_byte k1 p (next_pid k)) 16 k'"
    using fork_child_effect [OF cm(1) assms(5)] assms(6,7) ready unfolding s(1,3) cm(2) by auto
  have "user_frames k' p = user_frames k p" using r(2) by (simp add: cloning_def user_frames_def)
  then have "cloning p child (page_table_of k p) (frame_bytes k) (child_byte k p (next_pid k)) 16 k'"
    using cm(4) s(5) by (intro cloning_cong [OF r(2)]) (auto simp: not_le [symmetric])
  then show ?thesis using r(1) by blast
qed

text \<open>What the finished copy looks like once the child is marked as new.\<close>

lemma cloned:
  assumes "cloning p child pt B C 16 k" and "k' = set_state child PROC_STATE_NEW k"
  shows "proc_state (proc_table k' ! child) = PROC_STATE_NEW" and "page_table_of k' p = pt"
    and "16 \<le> i \<Longrightarrow> i < 3584 \<Longrightarrow> pcb_byte k' child i = C (0x200 + i)"
    and "f \<in> set pt - {FRAME_UNUSED} \<Longrightarrow> frame_bytes k' f = B f"
    and "i < 16 \<Longrightarrow> if pt ! i = FRAME_UNUSED then page_table_of k' child ! i = FRAME_UNUSED
       else page_table_of k' child ! i \<notin> {FRAME_UNUSED} \<union> user_frames k' p \<union> set (free_list k') \<and>
            frame_bytes k' (page_table_of k' child ! i) = B (pt ! i)"
    and "user_frames_distinct (page_table_of k' child)"
proof -
  note m = assms(1) [unfolded cloning_def fork_memory_def]
  have l: "child < length (proc_table k)" "p < length (proc_table k)" using m by (auto simp: memory_inv_def kmap_def pcb_ok_def)
  have b: "frame_byte k' = frame_byte k" "frame_bytes k' = frame_bytes k"
    by (auto simp: fun_eq_iff frame_byte_def frame_bytes_def assms(2))
  have pf: "pcb_frame k' child = pcb_frame k child" "pcb_frame k' p = pcb_frame k p" using l by (simp_all add: assms(2))
  have t: "page_table_of k' q = page_table_of k q" if "q \<in> {p, child}" for q
    using that pf by (intro nth_equalityI) (auto simp: page_table_of_nth b)
  have u: "user_frames k' p = set pt - {FRAME_UNUSED}" "user_frames k p = set pt - {FRAME_UNUSED}" "free_list k' = free_list k"
    using m by (simp_all add: user_frames_def t) (simp add: assms(2))
  show "proc_state (proc_table k' ! child) = PROC_STATE_NEW" using l by (simp add: assms(2) set_state_nth)
  show "page_table_of k' p = pt" "user_frames_distinct (page_table_of k' child)" using m by (simp_all add: t)
  show "16 \<le> i \<Longrightarrow> i < 3584 \<Longrightarrow> pcb_byte k' child i = C (0x200 + i)" using m by (simp add: pcb_byte_def pf b)
  show "f \<in> set pt - {FRAME_UNUSED} \<Longrightarrow> frame_bytes k' f = B f" using m u(2) by (simp add: b)
  have "page_table_of k child ! i \<notin> user_frames k p \<union> set (free_list k)"
    if "i < 16" "page_table_of k child ! i \<noteq> FRAME_UNUSED" for i
    using page_table_member [OF that] m by blast
  moreover have "i < 16 \<Longrightarrow> if pt ! i \<noteq> FRAME_UNUSED
      then page_table_of k child ! i \<noteq> FRAME_UNUSED \<and> frame_bytes k (page_table_of k child ! i) = B (pt ! i)
      else page_table_of k child ! i = FRAME_UNUSED" using m by simp
  ultimately show "i < 16 \<Longrightarrow> if pt ! i = FRAME_UNUSED then page_table_of k' child ! i = FRAME_UNUSED
       else page_table_of k' child ! i \<notin> {FRAME_UNUSED} \<union> user_frames k' p \<union> set (free_list k') \<and>
            frame_bytes k' (page_table_of k' child ! i) = B (pt ! i)"
    using u by (simp add: t b split: if_splits)
qed

end
