(* ===== verification/Kernel_Rollback.thy ===== *)
theory Kernel_Rollback
  imports Kernel_Create
begin

text \<open>
  The laws of the roll-back of \<^verbatim>\<open>sys_fork\<close> (\<^verbatim>\<open>proc.c\<close>), which runs when no frame can be allocated before all segments are copied:
  the pool is empty, or its next entry is the number \<open>FRAME_UNUSED\<close>, which the failing call takes out of it.
\<close>

section \<open>Freeing a frame while a control block is mapped\<close>

lemma unmap_window_pool:
  "unmap_window w f (k\<lparr>free_frames := x, free_top := y\<rparr>) = (unmap_window w f k)\<lparr>free_frames := x, free_top := y\<rparr>"
  by (simp add: unmap_window_def install_window_def set_low_memory_def MMIO8_write_def Let_def split: option.split)

lemma kfree_mapped:
  assumes "kmap k" and "map_window 2 g k = (b, old, k1)" and "usable_frame f"
  shows "unmap_window 2 old (kfree f k1) = kfree f k"
proof -
  have k1: "kmap k1" using install_window_kmap [OF assms(1), of 2 g] assms(2) by (simp add: map_window_def Let_def)
  have p: "free_frames k1 = free_frames k" "free_top k1 = free_top k"
    using assms(2) by (auto simp: map_window_def install_window_def MMIO8_write_def Let_def)
  note mm = map_window_machine [OF assms(1) _ assms(2)]
  let ?m = "(machine k1)\<lparr>ram := ram_write f 0 (replicate 4096 0x46) (ram (machine k))\<rparr>"
  have "kfree f k1 = (k1\<lparr>machine := ?m\<rparr>)\<lparr>free_frames := (free_frames k)[unat (free_top k) := f], free_top := free_top k + 1\<rparr>"
    using kfree_effect [OF k1 assms(3)] mm by (simp add: p)
  moreover have "unmap_window 2 old (k1\<lparr>machine := ?m\<rparr>) = k\<lparr>machine := ?m\<lparr>mmu := mmu (machine k)\<rparr>\<rparr>"
    by (rule unmap_map_machine [OF assms(1) _ assms(2)]) simp_all
  ultimately show ?thesis using kfree_effect [OF assms(1,3)] mm by (simp add: unmap_window_pool)
qed

section \<open>The loop\<close>

lemma rollback_step:
  assumes "kmap k" and "pcb_ok k child" and "0 < s" and "s < 16" and "e = page_table_of k child ! s"
    and "e \<noteq> FRAME_UNUSED \<Longrightarrow> 16 \<le> e" and "k4 = (if e = FRAME_UNUSED then k else kfree e k)"
  shows "fork_rollback child (of_nat s) k = (if s = 1 then k4 else fork_rollback child (of_nat (s - 1)) k4)"
proof -
  let ?g = "pcb_frame k child"
  obtain b old k1 where m: "map_window 2 ?g k = (b, old, k1)" by (metis prod_cases3)
  have g: "?g \<notin> {MMU_FRAME_INVALID, MMU_LAST_FRAME}" using assms(2) by (simp add: pcb_ok_def)
  note w = map_window_window [OF assms(1) _ g m]
  have u: "ucast (of_nat s :: uint8) = (of_nat s :: uint16)"
    using assms(4) by (simp add: word_unat_eq_iff unsigned_of_nat take_bit_nat_eq_self unsigned_ucast_eq)
  have a: "b + PCB_OFFSET + of_nat s = of_nat (4096 * 2 + (0x200 + s))" using w(2) by simp
  have r: "MMIO8_read (b + PCB_OFFSET + of_nat s) k1 = (e, k1)"
    unfolding a MMIO8_read_def using window_access(1) [OF _ _ w(1), of "0x200 + s"] assms(4,5) w(3)
    by (simp add: page_table_of_nth frame_byte_def)
  have "e \<noteq> FRAME_UNUSED \<Longrightarrow> usable_frame e" using assms(6) by (simp add: usable_frame_def)
  then have f: "unmap_window 2 old (if e \<noteq> FRAME_UNUSED then kfree e k1 else k1) = k4"
    using kfree_mapped [OF assms(1) m, of e] window_bytes_read(2) [OF assms(1) _ g m, of 0 0] by (simp add: assms(7))
  obtain t where t: "s = Suc t" using assms(3) by (cases s) auto
  have n: "(of_nat s :: uint8) - 1 = of_nat t" "(of_nat t :: uint8) \<noteq> 0 \<longleftrightarrow> t \<noteq> 0"
    using assms(4) by (simp_all add: t word_unat_eq_iff unsigned_of_nat take_bit_nat_eq_self)
  have "fork_rollback child (of_nat s) k = (if t \<noteq> 0 then fork_rollback child (of_nat t) k4 else k4)"
    by (subst fork_rollback.simps) (simp only: MAP_PCB_def m u r f n Let_def prod.case)
  then show ?thesis by (simp add: t)
qed

lemma rollback_frees:
  assumes "memory_inv k" and "pcb_ok k child" and "0 < s" and "s < 16" and "T = page_table_of k child"
    and "user_frames_distinct T" and "\<And>i. i < 16 \<Longrightarrow> T ! i \<noteq> FRAME_UNUSED \<Longrightarrow> 16 \<le> T ! i \<and> T ! i \<noteq> pcb_frame k child"
    and "\<And>i. 0 < i \<Longrightarrow> i \<le> s \<Longrightarrow> T ! i \<noteq> FRAME_UNUSED \<Longrightarrow> T ! i \<notin> set (free_list k)"
    and "k' = fork_rollback child (of_nat s) k"
  shows "memory_inv k' \<and> proc_table k' = proc_table k \<and> current_process k' = current_process k \<and>
    set (free_list k') = set (free_list k) \<union> (\<lambda>i. T ! i) ` {i. 0 < i \<and> i \<le> s \<and> T ! i \<noteq> FRAME_UNUSED} \<and>
    buffer_cache k' = buffer_cache k \<and> inode_frame k' = inode_frame k \<and>
    (\<forall>h i. h \<notin> set T - {FRAME_UNUSED} \<longrightarrow> i < 4096 \<longrightarrow> frame_byte k' h i = frame_byte k h i)"
  using assms
proof (induction s arbitrary: k k')
  case 0
  then show ?case by simp
next
  case (Suc s)
  let ?e = "T ! Suc s"
  define k4 where "k4 = (if ?e = FRAME_UNUSED then k else kfree ?e k)"
  have km: "kmap k" using Suc.prems(1) by (simp add: memory_inv_def)
  have e: "?e \<noteq> FRAME_UNUSED \<Longrightarrow> usable_frame ?e \<and> ?e \<notin> set (free_list k) \<and> ?e \<noteq> pcb_frame k child"
    using Suc.prems(4,7,8) by (simp add: usable_frame_def)
  have m4: "memory_inv k4" "set (free_list k4) = set (free_list k) \<union> (if ?e = FRAME_UNUSED then {} else {?e})"
    using kfree_inv [OF Suc.prems(1)] e Suc.prems(1) by (simp_all add: k4_def)
  have t4: "proc_table k4 = proc_table k" "current_process k4 = current_process k" "buffer_cache k4 = buffer_cache k" "inode_frame k4 = inode_frame k"
    using e kfree_effect [OF km] by (simp_all add: k4_def)
  have b4: "frame_byte k4 h i = frame_byte k h i" if "h \<noteq> ?e \<or> ?e = FRAME_UNUSED" "i < 4096" for h i
    using e kfree_effect [OF km] that by (auto simp: k4_def frame_byte_def)
  have ne: "pcb_frame k child \<noteq> ?e \<or> ?e = FRAME_UNUSED" using e by metis
  have T4: "T = page_table_of k4 child"
    using Suc.prems(5) b4 [OF ne] by (auto intro!: nth_equalityI simp: page_table_of_nth t4(1))
  have "?e \<in> set T" using Suc.prems(4,5) by simp
  then have b5: "frame_byte k4 h i = frame_byte k h i" if "h \<notin> set T - {FRAME_UNUSED}" "i < 4096" for h i
    using that by (intro b4) auto
  have step: "k' = (if Suc s = 1 then k4 else fork_rollback child (of_nat s) k4)"
    using rollback_step [OF km Suc.prems(2) _ Suc.prems(4), of ?e k4] Suc.prems(5,7,9) Suc.prems(4) by (simp add: k4_def)
  have img: "(\<lambda>i. T ! i) ` {i. 0 < i \<and> i \<le> Suc s \<and> T ! i \<noteq> FRAME_UNUSED} =
      (if ?e = FRAME_UNUSED then {} else {?e}) \<union> (\<lambda>i. T ! i) ` {i. 0 < i \<and> i \<le> s \<and> T ! i \<noteq> FRAME_UNUSED}"
    by (auto simp: le_Suc_eq)
  show ?case
  proof (cases "s = 0")
    case True
    then show ?thesis using step m4 t4 img b5 by auto
  next
    case False
    have "T ! i \<notin> set (free_list k4)" if "0 < i" "i \<le> s" "T ! i \<noteq> FRAME_UNUSED" for i
    proof -
      have "T ! i \<noteq> ?e"
        using Suc.prems(4) that Suc.prems(6) [unfolded user_frames_distinct_def, rule_format, of i "Suc s"] by auto
      then show ?thesis using m4(2) Suc.prems(8) [of i] that by auto
    qed
    moreover have "k' = fork_rollback child (of_nat s) k4" using step False by simp
    ultimately have "memory_inv k' \<and> proc_table k' = proc_table k4 \<and> current_process k' = current_process k4 \<and>
      set (free_list k') = set (free_list k4) \<union> (\<lambda>i. T ! i) ` {i. 0 < i \<and> i \<le> s \<and> T ! i \<noteq> FRAME_UNUSED} \<and>
      buffer_cache k' = buffer_cache k4 \<and> inode_frame k' = inode_frame k4 \<and>
      (\<forall>h i. h \<notin> set T - {FRAME_UNUSED} \<longrightarrow> i < 4096 \<longrightarrow> frame_byte k' h i = frame_byte k4 h i)"
      using Suc.prems(2,4,6,7) False m4(1) t4 T4 by (intro Suc.IH) (simp_all add: pcb_ok_def)
    then show ?thesis using m4(2) t4 img b5 by auto
  qed
qed

lemma user_frames_nth: "f \<in> user_frames k p \<longleftrightarrow> (\<exists>i < 16. f = page_table_of k p ! i \<and> f \<noteq> FRAME_UNUSED)"
  by (auto simp: user_frames_def in_set_conv_nth)

lemma all_but_first:
  assumes "user_frames_distinct (page_table_of k p)" and "\<And>i. i < 16 \<Longrightarrow> s \<le> i \<Longrightarrow> page_table_of k p ! i = FRAME_UNUSED" and "s < 16"
  shows "(\<lambda>i. page_table_of k p ! i) ` {i. 0 < i \<and> i \<le> s \<and> page_table_of k p ! i \<noteq> FRAME_UNUSED} =
    user_frames k p - {page_table_of k p ! 0}" (is "?L = ?R")
proof
  note d = assms(1) [unfolded user_frames_distinct_def, rule_format]
  show "?L \<subseteq> ?R"
  proof
    fix f
    assume "f \<in> ?L"
    then obtain i where i: "f = page_table_of k p ! i" "0 < i" "i \<le> s" "f \<noteq> FRAME_UNUSED" by auto
    then have "f \<noteq> page_table_of k p ! 0" using d [of i 0] assms(3) by auto
    then show "f \<in> ?R" using page_table_member [of i k p] i assms(3) by simp
  qed
  show "?R \<subseteq> ?L"
  proof
    fix f
    assume "f \<in> ?R"
    then obtain i where i: "i < 16" "f = page_table_of k p ! i" "f \<noteq> FRAME_UNUSED" "i \<noteq> 0"
      unfolding user_frames_nth by (metis DiffE singletonI user_frames_nth)
    then have "i \<le> s" using assms(2) by (metis nat_le_linear)
    then show "f \<in> ?L" using i by auto
  qed
qed

text \<open>The call that fails to allocate changes the pool at most by the number \<open>FRAME_UNUSED\<close>.\<close>

lemma failed_alloc:
  assumes "memory_inv k" and "frames_ready k = 0"
  shows "kalloc k = (FRAME_UNUSED, snd (kalloc k))" and "set (free_list (snd (kalloc k))) = set (free_list k) - {FRAME_UNUSED}"
proof -
  have "kalloc k = (FRAME_UNUSED, snd (kalloc k)) \<and> set (free_list (snd (kalloc k))) = set (free_list k) - {FRAME_UNUSED}"
  proof (cases "free_list k")
    case Nil
    then show ?thesis using kernel_frames.alloc_empty [OF assms(1) Nil] by simp
  next
    case (Cons f fs)
    have "f = FRAME_UNUSED" "f \<notin> set fs"
      using assms(2) kernel_frames.pool_distinct [OF assms(1)] by (simp_all add: frames_ready_none Cons)
    then show ?thesis using kernel_frames.alloc_pop [OF assms(1) Cons] Cons by (auto simp: prod_eq_iff)
  qed
  then show "kalloc k = (FRAME_UNUSED, snd (kalloc k))"
    "set (free_list (snd (kalloc k))) = set (free_list k) - {FRAME_UNUSED}" by simp_all
qed

text \<open>What a failed copy leaves: the slot is unused, the pool is \<open>P\<close>, and no other process or buffer has changed its frames.\<close>

definition rolled_back :: "nat \<Rightarrow> nat \<Rightarrow> frame_t set \<Rightarrow> frame_t set \<Rightarrow> kernel \<Rightarrow> kernel \<Rightarrow> bool" where
  "rolled_back p child F P k k' \<longleftrightarrow> memory_inv k' \<and> proc_state (proc_table k' ! child) = PROC_STATE_UNUSED \<and>
     set (free_list k') = P \<and> kept p child F k k'"

lemma rolled_back_from: "kept p child F k k1 \<Longrightarrow> rolled_back p child G P k1 k' \<Longrightarrow> F \<subseteq> G \<Longrightarrow> rolled_back p child G P k k'"
  unfolding rolled_back_def using kept_trans by blast

abbreviation child_reach :: "nat \<Rightarrow> kernel \<Rightarrow> frame_t set" where
  "child_reach child k \<equiv> insert (pcb_frame k child) (user_frames k child \<union> set (free_list k))"

abbreviation recovered :: "nat \<Rightarrow> kernel \<Rightarrow> frame_t set" where
  "recovered child k \<equiv>
     insert (pcb_frame k child) (set (free_list k) - {FRAME_UNUSED} \<union> (user_frames k child - {page_table_of k child ! 0}))"

lemma clone_rolled_back:
  assumes "cloning p child pt B C s k" and "0 < s" and "s < 16" and "pt ! s \<noteq> FRAME_UNUSED" and "frames_ready k = 0"
    and "k' = set_state child PROC_STATE_UNUSED (kfree (pcb_frame (fork_rollback child (of_nat s) (snd (kalloc k))) child)
      (fork_rollback child (of_nat s) (snd (kalloc k))))"
  shows "fork_clone child (Suc n) s pt ws k = Some (Inr (False, ws, k'))"
    and "rolled_back p child (child_reach child k) (recovered child k) k k'"
proof -
  note m = assms(1) [unfolded cloning_def fork_memory_def]
  let ?c = "pcb_frame k child" and ?T = "page_table_of k child"
  define k0 where "k0 = snd (kalloc k)"
  define k1 where "k1 = fork_rollback child (of_nat s) k0"
  have mk: "memory_inv k" using m by simp
  note al = failed_alloc [OF mk assms(5), folded k0_def]
  have k0: "proc_table k0 = proc_table k" "buffer_cache k0 = buffer_cache k \<and> inode_frame k0 = inode_frame k" "frame_byte k0 = frame_byte k"
    by (auto simp: k0_def kalloc_def Let_def frame_byte_def fun_eq_iff)
  have T: "page_table_of k0 child = ?T" by (rule nth_equalityI) (simp_all add: page_table_of_nth k0)
  have mi: "memory_inv k0" "pcb_ok k0 child" "user_frames_distinct ?T"
    using m kernel_frames.alloc_inv [OF mk] by (simp_all add: k0_def pcb_ok_def)
  have fr: "16 \<le> ?T ! i \<and> ?T ! i \<noteq> pcb_frame k0 child" if "i < 16" "?T ! i \<noteq> FRAME_UNUSED" for i
    using page_table_member [OF that] m unfolding k0(1) by auto
  have free: "?T ! i \<notin> set (free_list k0)" if "0 < i" "i \<le> s" "?T ! i \<noteq> FRAME_UNUSED" for i
    using page_table_member [OF _ that(3)] that(2) assms(3) m unfolding al(2) by auto
  note r = rollback_frees [OF mi(1,2) assms(2,3) T [symmetric] mi(3) fr free k1_def]
  have none: "?T ! i = FRAME_UNUSED" if "i < 16" "s \<le> i" for i using m that by (metis (no_types, lifting) not_less)
  note img = all_but_first [OF mi(3) none assms(3)]
  have pt1: "proc_table k1 = proc_table k" using r k0(1) by simp
  have pool1: "set (free_list k1) = set (free_list k) - {FRAME_UNUSED} \<union> (user_frames k child - {?T ! 0})"
  proof -
    have "set (free_list k1) = set (free_list k0) \<union> (\<lambda>i. ?T ! i) ` {i. 0 < i \<and> i \<le> s \<and> ?T ! i \<noteq> FRAME_UNUSED}"
      using r by blast
    then show ?thesis by (simp only: al(2) img)
  qed
  have c: "usable_frame ?c" "?c \<notin> set (free_list k1)" "pcb_frame k1 child = ?c" "child < length (proc_table k)"
    using m pt1 unfolding pool1 by (auto simp: usable_frame_def pcb_ok_def memory_inv_def kmap_def)
  have mk1: "memory_inv k1" "kmap k1" using r by (simp_all add: memory_inv_def)
  note kf = kfree_inv [OF mk1(1) c(1,2)]
  have k': "k' = set_state child PROC_STATE_UNUSED (kfree ?c k1)" using assms(6) c(3) by (simp add: k1_def k0_def)
  note ke = kfree_effect [OF mk1(2) c(1)]
  have st: "proc_state (proc_table k' ! child) = PROC_STATE_UNUSED" using c(4) pt1 ke by (simp add: k' set_state_nth)
  have mm: "memory_inv k'"
    using kf(2) set_state_kmap [of "kfree ?c k1" child PROC_STATE_UNUSED]
    by (simp add: k' memory_inv_def kalloc_inv_def) (simp add: set_state_def)
  have byte: "frame_byte k' h i = frame_byte k h i" if "h \<notin> child_reach child k" "i < 4096" for h i
  proof -
    have "h \<noteq> ?c" "h \<notin> set ?T - {FRAME_UNUSED}" using that(1) by (auto simp: user_frames_def)
    then have "frame_byte k' h i = frame_byte k1 h i" "frame_byte k1 h i = frame_byte k0 h i"
      using r that(2) by (simp_all add: k' ke frame_byte_def set_state_def)
    then show ?thesis by (simp add: k0(3))
  qed
  have "buffer_cache k' = buffer_cache k \<and> inode_frame k' = inode_frame k" using r by (simp add: k' ke set_state_def k0(2))
  moreover have "proc_table k' ! q = proc_table k ! q" if "q \<noteq> child" for q
    using that pt1 by (simp add: k' ke set_state_def)
  ultimately have "kept p child (child_reach child k) k k'" using byte by (intro kept_written) simp_all
  then show "rolled_back p child (child_reach child k) (recovered child k) k k'"
    using st mm kf(1) pool1 by (simp add: rolled_back_def k')
  show "fork_clone child (Suc n) s pt ws k = Some (Inr (False, ws, k'))"
    using assms(4) al(1) by (simp add: io_return_def assms(6) [folded k0_def])
qed

section \<open>Running out of frames\<close>

lemma calm_yield:
  assumes "calm p child w" and "cloning p child pt B C s k" and "k' = yield w k"
  shows "cloning p child pt B C s k'" and "free_list k' = free_list k" and "pcb_frame k' child = pcb_frame k child"
    and "page_table_of k' child = page_table_of k child" and "kept p child {} k k'" and "frames_ready k' = frames_ready k"
proof -
  have r: "fork_rely p child w" using assms(1) by (simp add: calm_def)
  have m: "fork_memory p child k" using assms(2) by (simp add: cloning_def)
  show "cloning p child pt B C s k'" unfolding assms(3) by (rule yield_step(1) [OF r assms(2)])
  show f: "free_list k' = free_list k" and "kept p child {} k k'" using assms(1,3) m by (simp_all add: calm_def)
  show "frames_ready k' = frames_ready k" by (simp add: frames_ready_def f)
  have l: "left_alone p child k k'" using r m assms(3) by (simp add: fork_rely_def)
  show pf: "pcb_frame k' child = pcb_frame k child" using l by (simp add: left_alone_def)
  have "frame_bytes k' (pcb_frame k child) = frame_bytes k (pcb_frame k child)" using l by (simp add: left_alone_def)
  then have "frame_byte k' (pcb_frame k child) i = frame_byte k (pcb_frame k child) i" if "i < 4096" for i
    by (rule frame_bytes_eqD [OF _ that])
  then show "page_table_of k' child = page_table_of k child"
    by (intro nth_equalityI) (simp_all add: page_table_of_nth pf)
qed

lemma child_frames:
  assumes "cloning p child pt B C s k" and "s < 16" and "free_list k = f # fs" and "f \<noteq> FRAME_UNUSED"
    and "page_table_of k2 child = (page_table_of k child)[s := f]"
  shows "user_frames k2 child = insert f (user_frames k child)" and "f \<noteq> page_table_of k child ! 0"
proof -
  note m = assms(1) [unfolded cloning_def fork_memory_def]
  have u: "page_table_of k child ! s = FRAME_UNUSED" using m assms(2) by (metis (no_types, lifting) less_irrefl)
  have "g \<in> user_frames k2 child \<longleftrightarrow> g \<in> insert f (user_frames k child)" for g
    unfolding insert_iff user_frames_nth assms(5) using u assms(2,4)
    by (metis (no_types, lifting) nth_list_update page_table_of_length)
  then show "user_frames k2 child = insert f (user_frames k child)" by blast
  have "f \<notin> user_frames k child" using m assms(3) by auto
  then show "f \<noteq> page_table_of k child ! 0" using assms(4) page_table_member [of 0 k child] by auto
qed

text \<open>One segment copied and the yield after it: the copy still to be made starts at the next segment.\<close>

lemma segment_then_yield:
  assumes "cloning p child pt B C s k" and "s < 16" and "pt ! s \<noteq> FRAME_UNUSED" and "free_list k = f # fs"
    and "f \<noteq> FRAME_UNUSED" and "calm p child w" and "k3 = yield w (fork_segment child s (pt ! s) f (snd (kalloc k)))"
  shows "fork_clone child (Suc n) s pt (w # ws) k = fork_clone child n (Suc s) pt ws k3"
    and "cloning p child pt B C (Suc s) k3" and "free_list k3 = fs" and "frames_ready k = Suc (frames_ready k3)"
    and "pcb_frame k3 child = pcb_frame k child" and "page_table_of k3 child = (page_table_of k child)[s := f]"
    and "user_frames k3 child = insert f (user_frames k child)" and "f \<noteq> page_table_of k child ! 0"
    and "kept p child (child_reach child k) k k3"
proof -
  define k2 where "k2 = fork_segment child s (pt ! s) f (snd (kalloc k))"
  note e = cloning_segment [OF assms(1-4) k2_def assms(5)]
  have k3: "k3 = yield w k2" by (simp add: assms(7) k2_def)
  note y = calm_yield [OF assms(6) e(4) k3]
  show "cloning p child pt B C (Suc s) k3" by (rule y)
  show "fork_clone child (Suc n) s pt (w # ws) k = fork_clone child n (Suc s) pt ws k3"
    using assms(3,5) e(1) by (simp add: k3 k2_def)
  show "free_list k3 = fs" "frames_ready k = Suc (frames_ready k3)" "pcb_frame k3 child = pcb_frame k child"
    and t: "page_table_of k3 child = (page_table_of k child)[s := f]"
    using y(2-4,6) e(2,3,5,6) by simp_all
  show "user_frames k3 child = insert f (user_frames k child)" "f \<noteq> page_table_of k child ! 0"
    by (rule child_frames [OF assms(1,2,4,5) t])+
  show "kept p child (child_reach child k) k k3"
    by (rule kept_trans [OF e(7) y(5)]) (simp_all add: assms(4))
qed

lemma clone_fails:
  assumes "cloning p child pt B C s k" and "0 < s" and "s + n = 16" and "\<forall>w \<in> set ws. calm p child w"
    and "frames_ready k < to_copy s pt" and "frames_ready k \<le> length ws"
  shows "\<exists>k'. fork_clone child n s pt ws k = Some (Inr (False, drop (frames_ready k) ws, k')) \<and>
    rolled_back p child (child_reach child k) (recovered child k) k k'"
  using assms
proof (induction n arbitrary: s ws k)
  case 0
  then show ?case by (simp add: to_copy_def)
next
  case (Suc n)
  have s: "s < 16" "Suc s + n = 16" using Suc.prems(3) by simp_all
  show ?case
  proof (cases "pt ! s = FRAME_UNUSED")
    case True
    have c: "to_copy s pt = to_copy (Suc s) pt" using to_copy_step [OF s(1), of pt] True by simp
    show ?thesis
      using Suc.IH [OF cloning_skip [OF Suc.prems(1) True] _ s(2) Suc.prems(4)] Suc.prems(5,6) True by (simp add: c)
  next
    case False
    show ?thesis
    proof (cases "frames_ready k = 0")
      case True
      note r = clone_rolled_back [OF Suc.prems(1,2) s(1) False True refl]
      show ?thesis using r(1) [of n ws] r(2) True by auto
    next
      case ready: False
      then have "0 < frames_ready k" by simp
      then obtain f fs where pool: "free_list k = f # fs" "f \<noteq> FRAME_UNUSED" by (rule frames_readyE)
      obtain w ws1 where ws: "ws = w # ws1" using Suc.prems(6) ready by (cases ws) auto
      have calm: "calm p child w" using Suc.prems(4) ws by simp
      define k3 where "k3 = yield w (fork_segment child s (pt ! s) f (snd (kalloc k)))"
      note e = segment_then_yield [OF Suc.prems(1) s(1) False pool calm k3_def]
      have c: "to_copy s pt = Suc (to_copy (Suc s) pt)" using to_copy_step [OF s(1), of pt] False by simp
      have w: "\<forall>w \<in> set ws1. calm p child w" "frames_ready k3 < to_copy (Suc s) pt" "frames_ready k3 \<le> length ws1"
        using Suc.prems(4-6) e(4) by (simp_all add: c ws)
      obtain k' where k': "fork_clone child n (Suc s) pt ws1 k3 = Some (Inr (False, drop (frames_ready k3) ws1, k'))"
        "rolled_back p child (child_reach child k3) (recovered child k3) k3 k'"
        using Suc.IH [OF e(2) zero_less_Suc s(2) w] by blast
      have T: "page_table_of k3 child ! 0 = page_table_of k child ! 0" using Suc.prems(2) by (simp add: e(6))
      have "child_reach child k3 = child_reach child k" "recovered child k3 = recovered child k"
        using pool e(8) unfolding T e(3,5,7) by auto
      then have "rolled_back p child (child_reach child k) (recovered child k) k3 k'" using k'(2) by (simp only:)
      then have "rolled_back p child (child_reach child k) (recovered child k) k k'"
        by (rule rolled_back_from [OF e(9) _ order_refl])
      then show ?thesis using k'(1) e(1) [of n ws1] e(4) ws by auto
    qed
  qed
qed

text \<open>The first segment, which the roll-back does not reach.\<close>

lemma first_clone_fails:
  assumes "cloning p child pt B C 0 k" and "pt ! 0 \<noteq> FRAME_UNUSED" and "free_list k = g # fs" and "g \<noteq> FRAME_UNUSED"
    and "\<forall>w \<in> set ws. calm p child w" and "frames_ready k < to_copy 0 pt" and "frames_ready k \<le> length ws"
  shows "\<exists>k'. fork_clone child 16 0 pt ws k = Some (Inr (False, drop (frames_ready k) ws, k')) \<and>
    rolled_back p child (child_reach child k) (insert (pcb_frame k child) (set fs - {FRAME_UNUSED})) k k'"
proof -
  have ready: "0 < frames_ready k" using assms(3,4) by (simp add: frames_ready_def)
  then obtain w ws1 where ws: "ws = w # ws1" using assms(7) by (cases ws) auto
  have calm: "calm p child w" using assms(5) ws by simp
  define k3 where "k3 = yield w (fork_segment child 0 (pt ! 0) g (snd (kalloc k)))"
  have z: "0 < (16 :: nat)" by simp
  note e = segment_then_yield [OF assms(1) z assms(2-4) calm k3_def]
  have "user_frames k child = {}" using assms(1) unfolding cloning_def by (auto simp: user_frames_nth)
  then have u: "user_frames k3 child = {g}" "user_frames k child = {}" using e(7) by simp_all
  have t: "page_table_of k3 child ! 0 = g" by (simp add: e(6))
  have c: "to_copy 0 pt = Suc (to_copy (Suc 0) pt)" using to_copy_step [OF z, of pt] assms(2) by simp
  have w: "\<forall>w \<in> set ws1. calm p child w" "frames_ready k3 < to_copy (Suc 0) pt" "frames_ready k3 \<le> length ws1"
    using assms(5-7) e(4) by (simp_all add: c ws)
  obtain k' where k': "fork_clone child 15 (Suc 0) pt ws1 k3 = Some (Inr (False, drop (frames_ready k3) ws1, k'))"
    "rolled_back p child (child_reach child k3) (recovered child k3) k3 k'"
    using clone_fails [OF e(2) zero_less_Suc _ w, of 15] by auto
  have "child_reach child k3 = child_reach child k" "recovered child k3 = insert (pcb_frame k child) (set fs - {FRAME_UNUSED})"
    using assms(3) unfolding t u e(3,5) by auto
  then have "rolled_back p child (child_reach child k) (insert (pcb_frame k child) (set fs - {FRAME_UNUSED})) k3 k'"
    using k'(2) by (simp only:)
  then have "rolled_back p child (child_reach child k) (insert (pcb_frame k child) (set fs - {FRAME_UNUSED})) k k'"
    by (rule rolled_back_from [OF e(9) _ order_refl])
  moreover have "fork_clone child 16 0 pt ws k = fork_clone child 15 (Suc 0) pt ws1 k3" using e(1) [of 15 ws1] ws by simp
  ultimately show ?thesis using k'(1) e(4) ws by auto
qed

lemma sys_fork_fails:
  assumes "caller_memory p k" and "find_unused k = Some child" and "next_pid k \<noteq> 0" and "unat (zp_sp (sym k)) < 0xFF"
    and "page_table_of k p ! 0 \<noteq> FRAME_UNUSED" and "free_list k = f # g # fs" and "f \<noteq> FRAME_UNUSED" and "g \<noteq> FRAME_UNUSED"
    and "\<forall>w \<in> set ws. calm p child w" and "frames_ready k \<le> to_copy 0 (page_table_of k p)" and "frames_ready k \<le> length ws"
  shows "\<exists>k'. sys_fork ws k = Some (Inr (0xFFFF, drop (frames_ready k) ws, k')) \<and>
    rolled_back p child (set (free_list k)) (insert f (set fs - {FRAME_UNUSED})) k k'"
proof -
  let ?pt = "page_table_of k p" and ?pid = "next_pid k"
  define k1 where "k1 = created f child k"
  note s = sys_fork_created [OF assms(1-4,6,7), folded k1_def] and cm = created_memory [OF assms(1,2,6) k1_def assms(7)]
  have rk: "frames_ready k = Suc (frames_ready k1)" using frames_ready_Cons [OF assms(6) s(2)] assms(7) by simp
  obtain w ws1 where ws: "ws = w # ws1" using assms(11) rk by (cases ws) auto
  have calm: "calm p child w" using assms(9) ws by simp
  define k2 where "k2 = snd (fork_pcb child ?pid k1)"
  define k3 where "k3 = yield w k2"
  note st = fork_started [OF cm(1), of ?pid, folded k2_def, unfolded cm(2) s(2,4)]
  note y = calm_yield [OF calm st(3) k3_def]
  have fl: "free_list k3 = g # fs" by (simp only: y(2) st(2))
  have km: "kmap k1" "current_process k1 = Some p" "pcb_ok k1 p" "pcb_ok k1 child" using cm(1) by (simp_all add: fork_memory_def memory_inv_def)
  have "pcb_frame k2 child = f" using fork_pcb_effect [OF km, of ?pid] s(4) by (simp add: k2_def)
  then have pf: "pcb_frame k3 child = f" using y(3) by simp
  have r3: "frames_ready k3 = frames_ready k1" by (simp add: frames_ready_def fl s(2))
  have w: "\<forall>w \<in> set ws1. calm p child w" "frames_ready k3 < to_copy 0 ?pt" "frames_ready k3 \<le> length ws1"
    using assms(9-11) rk r3 by (simp_all add: ws)
  obtain k' where k': "fork_clone child 16 0 ?pt ws1 k3 = Some (Inr (False, drop (frames_ready k3) ws1, k'))"
    "rolled_back p child (child_reach child k3) (insert f (set fs - {FRAME_UNUSED})) k3 k'"
    using first_clone_fails [OF y(1) assms(5) fl assms(8) w] unfolding pf by blast
  have m: "memory_inv k" "current_process k \<noteq> Some child" "child < MAX_PROC_COUNT"
    using assms(1) find_unused_SomeD [OF assms(2)] by (auto simp: caller_memory_def)
  have "user_frames k3 child = {}" using y(1) unfolding cloning_def by (auto simp: user_frames_nth)
  then have reach: "child_reach child k3 = set (free_list k)" by (simp add: pf fl assms(6))
  have "kept p child {f} k k1" by (rule created_effect(10) [OF m assms(6) k1_def])
  then have "kept p child {f} k k2" by (rule kept_trans [OF _ st(4)]) simp_all
  then have "kept p child {f} k k3" by (rule kept_trans [OF _ y(5)]) simp_all
  then have "rolled_back p child (set (free_list k)) (insert f (set fs - {FRAME_UNUSED})) k k'"
    using k'(2) unfolding reach by (rule rolled_back_from) (simp add: assms(6))
  moreover have "sys_fork ws k = Some (Inr (0xFFFF, drop (frames_ready k3) ws1, k'))"
    using fork_child_result [OF cm(1), of ?pid ws1 w False] k'(1) unfolding s(1,3) cm(2) ws k2_def k3_def by simp
  ultimately show ?thesis by (auto simp: ws rk r3)
qed

section \<open>A yield at which the caller is the next to run\<close>

lemma dispatched_again:
  assumes "fork_memory p child k" and "k' = yield (\<lambda>k. snd (scheduler_dispatch (Some p) p k)) k"
  shows "fork_memory p child k'" and "left_alone p child k k'" and "free_list k' = free_list k" and "kept p child {} k k'"
proof -
  note m = assms(1) [unfolded fork_memory_def]
  have l: "p < 512" "length (proc_table k) = 512" "child \<noteq> p" using m by (auto simp: memory_inv_def kmap_def pcb_ok_def)
  define k1 where "k1 = set_state p PROC_STATE_READY (INTER_OFF k)"
  have k1: "kmap k1" "pcb_ok k1 p" "windows_agree k1 p"
    using m l set_state_kmap [of "INTER_OFF k" p PROC_STATE_READY]
    by (simp_all add: k1_def memory_inv_def kmap_def pcb_ok_def windows_agree_def INTER_OFF_def)
  define k2 where "k2 = pcb_write p off_ticks [QUANTUM] ((set_state p PROC_STATE_RUNING k1)\<lparr>current_process := Some p\<rparr>)"
  have k': "k' = INTER_ON k2"
  proof -
    have "current_process (INTER_OFF k) = Some p" using m by (simp add: INTER_OFF_def)
    then show ?thesis
      unfolding assms(2) yield_def Let_def by (simp only: option.sel k1_def [symmetric] dispatch_effect [OF k1] k2_def)
  qed
  have f: "buffer_cache k' = buffer_cache k \<and> inode_frame k' = inode_frame k" "free_list k' = free_list k" "current_process k' = Some p"
    and t: "proc_table k' = (proc_table k)[p := (proc_table k ! p)\<lparr>proc_state := PROC_STATE_RUNING\<rparr>]"
    using l by (simp_all add: k' k2_def k1_def INTER_ON_def INTER_OFF_def set_state_def pcb_write_def free_list_def)
  have b: "frame_byte k' h i = (if h = pcb_frame k p \<and> i = 0x200 + off_ticks then QUANTUM else frame_byte k h i)"
    if "i < 4096" for h i
    using that l by (auto simp: k' k2_def k1_def INTER_ON_def INTER_OFF_def set_state_def pcb_write_def frame_byte_def)
  have pf: "pcb_frame k' q = pcb_frame k q" for q using l by (cases "q = p") (simp_all add: t)
  have pt: "page_table_of k' q = page_table_of k q" for q by (rule nth_equalityI) (simp_all add: page_table_of_nth pf b)
  have u: "user_frames k' q = user_frames k q" "pcb_ok k' q = pcb_ok k q" for q by (simp_all add: user_frames_def pcb_ok_def pt pf)
  have bytes: "frame_bytes k' h = frame_bytes k h" if "h \<noteq> pcb_frame k p" for h
    using that by (intro frame_bytes_eqI) (simp add: b)
  show "free_list k' = free_list k" by (rule f)
  show "kept p child {} k k'" using f(1) pf pt by (simp add: kept_def t)
  have "kmap k2" using dispatched(5) [OF k1, of "Some p"] by (simp only: dispatch_effect [OF k1] k2_def)
  moreover have "free_frames k' = free_frames k" "free_top k' = free_top k"
    by (simp_all add: k' k2_def k1_def INTER_ON_def INTER_OFF_def set_state_def pcb_write_def)
  ultimately have "memory_inv k'"
    using m f(2) by (simp add: memory_inv_def kalloc_inv_def) (simp add: k' INTER_ON_def kmap_def)
  then show "fork_memory p child k'"
    using m unfolding fork_memory_def f u pf pt by simp
  have "h \<noteq> pcb_frame k p" if "h \<in> insert (pcb_frame k child) (user_frames k p \<union> user_frames k child)" for h
    using that m by blast
  then have "\<forall>h \<in> insert (pcb_frame k child) (user_frames k p \<union> user_frames k child). frame_bytes k' h = frame_bytes k h"
    using bytes by blast
  then show "left_alone p child k k'" by (simp add: left_alone_def pf pt frames_ready_def f(2))
qed

lemma dispatch_calm: "calm p child (\<lambda>k. snd (scheduler_dispatch (Some p) p k))"
  unfolding calm_def fork_rely_def
  by (intro conjI allI impI) (simp_all only: dispatched_again [OF _ refl])

lemma dispatch_rely: "fork_rely p child (\<lambda>k. snd (scheduler_dispatch (Some p) p k))"
  using dispatch_calm by (simp only: calm_def)

end
