(* ===== verification/Kernel_Process_Properties.thy ===== *)
theory Kernel_Process_Properties
  imports Kernel_Rollback Kernel_Properties
begin

text \<open>
  The properties of \<^verbatim>\<open>sys_fork\<close>, across process creation, the frame allocator, the windows and the yields in the middle of the call.
\<close>

section \<open>Who owns the frames\<close>

text \<open>The frames in somebody's possession: those of the processes that are not unused, of the buffers and of the inode cache.\<close>

definition frames_in_use :: "kernel \<Rightarrow> frame_t set" where
  "frames_in_use k =
     (\<Union>q \<in> {q. q < MAX_PROC_COUNT \<and> proc_state (proc_table k ! q) \<noteq> PROC_STATE_UNUSED}. insert (pcb_frame k q) (user_frames k q)) \<union>
     insert (inode_frame k) ((\<lambda>b. buf_frame (buffer_cache k ! b)) ` {..<CACHE_SIZE})"

lemma rolled_back_frames:
  assumes "rolled_back p child (set (free_list k)) P k k'" and "frames_in_use k \<inter> set (free_list k) = {}"
    and "proc_state (proc_table k ! p) \<noteq> PROC_STATE_UNUSED"
  shows "frames_in_use k' \<inter> set (free_list k) = {}"
proof -
  have r: "kept p child (set (free_list k)) k k'" "proc_state (proc_table k' ! child) = PROC_STATE_UNUSED"
    using assms(1) by (simp_all add: rolled_back_def)
  have "insert (pcb_frame k' q) (user_frames k' q) \<inter> set (free_list k) = {}"
    if q: "q < MAX_PROC_COUNT" "proc_state (proc_table k' ! q) \<noteq> PROC_STATE_UNUSED" for q
  proof -
    have "q \<noteq> child" using q(2) r(2) by auto
    then have k: "pcb_frame k' q = pcb_frame k q" "proc_state (proc_table k ! q) \<noteq> PROC_STATE_UNUSED"
      "pcb_frame k q \<notin> set (free_list k) \<Longrightarrow> page_table_of k' q = page_table_of k q"
      using r(1) q(2) assms(3) unfolding kept_def by metis+
    have o: "insert (pcb_frame k q) (user_frames k q) \<inter> set (free_list k) = {}"
      using assms(2) q(1) k(2) unfolding frames_in_use_def by blast
    then have "user_frames k' q = user_frames k q" using k(3) by (simp add: user_frames_def)
    then show ?thesis using o k(1) by simp
  qed
  moreover have "buffer_cache k' = buffer_cache k" "inode_frame k' = inode_frame k" using r(1) by (simp_all add: kept_def)
  moreover have "insert (inode_frame k) ((\<lambda>b. buf_frame (buffer_cache k ! b)) ` {..<CACHE_SIZE}) \<inter> set (free_list k) = {}"
    using assms(2) unfolding frames_in_use_def by blast
  ultimately show ?thesis unfolding frames_in_use_def by (simp only: Int_Un_distrib2) blast
qed

section \<open>fork\<close>

text \<open>
  C7: \<^verbatim>\<open>sys_fork\<close> makes a copy of the calling process. When a slot of the process table is unused, process numbers are left, one
  allocation more succeeds than the caller has segments (the number 0xFF at the bottom of the pool does not count), and whatever runs at the yields of the call leaves the two processes
  alone, the call ends after one yield more than there are segments and returns the next process number. Then the child is new, has
  that number, the caller as its parent and 0 as the result of its own call; the rest of its control block is the caller's. Every
  segment the caller has mapped is mapped in the child, to a frame that is neither the caller's nor free nor used
  twice, with the bytes the caller's segment had when it made the call; the caller's memory is unchanged.
\<close>

theorem fork_copies:
  assumes "caller_memory p k" and "find_unused k = Some child" and "next_pid k \<noteq> 0" and "unat (zp_sp (sym k)) < 0xFF"
    and "\<forall>w \<in> set ws. fork_rely p child w" and "m = to_copy 0 (page_table_of k p)"
    and "m < length ws" and "m < frames_ready k"
  shows "\<exists>k'. sys_fork ws k = Some (Inr (next_pid k, drop (Suc m) ws, k')) \<and>
    proc_state (proc_table k' ! child) = PROC_STATE_NEW \<and> pcb_word k' child off_pid = next_pid k \<and>
    pcb_word k' child off_parent = proc_addr (sym k) p \<and> pcb_word k' child off_ctx_a = 0 \<and>
    (\<forall>i < 3584. 16 \<le> i \<and> i \<notin> {off_ctx_a, off_ctx_x, off_pid, Suc off_pid, off_parent, Suc off_parent} \<longrightarrow>
       pcb_byte k' child i = pcb_byte k p i) \<and>
    page_table_of k' p = page_table_of k p \<and> (\<forall>f \<in> user_frames k p. frame_bytes k' f = frame_bytes k f) \<and>
    (\<forall>i < 16. if page_table_of k p ! i = FRAME_UNUSED then page_table_of k' child ! i = FRAME_UNUSED
       else page_table_of k' child ! i \<notin> {FRAME_UNUSED} \<union> user_frames k' p \<union> set (free_list k') \<and>
            frame_bytes k' (page_table_of k' child ! i) = frame_bytes k (page_table_of k p ! i)) \<and>
    user_frames_distinct (page_table_of k' child)"
proof -
  obtain k2 where r: "sys_fork ws k = Some (Inr (next_pid k, drop (Suc m) ws, set_state child PROC_STATE_NEW k2))"
    "cloning p child (page_table_of k p) (frame_bytes k) (child_byte k p (next_pid k)) 16 k2"
    using sys_fork_effect [OF assms(1-5)] assms(6-8) by auto
  note c = cloned [OF r(2) refl]
  have "\<forall>i < 3584. 16 \<le> i \<and> i \<notin> {off_ctx_a, off_ctx_x, off_pid, Suc off_pid, off_parent, Suc off_parent} \<longrightarrow>
      pcb_byte (set_state child PROC_STATE_NEW k2) child i = pcb_byte k p i"
    by (simp add: c(3) child_byte_def Let_def) (simp add: pcb_byte_def)
  moreover have "pcb_word (set_state child PROC_STATE_NEW k2) child off_pid = next_pid k"
    "pcb_word (set_state child PROC_STATE_NEW k2) child off_parent = proc_addr (sym k) p"
    "pcb_word (set_state child PROC_STATE_NEW k2) child off_ctx_a = 0"
    by (simp_all add: pcb_word_def c(3) child_byte_def Let_def mk_word_bytes) (simp add: mk_word_def)
  ultimately show ?thesis using r(1) c(1,2,4-6) unfolding user_frames_def by blast
qed

definition fork_sample :: "frame_t list \<Rightarrow> kernel" where
  "fork_sample pt = pcb_write 5 off_page_table pt
     ((sample_kernel [30, 31, 32, 0xff] (Some 5) (sample_proc 0 PROC_STATE_UNUSED # replicate 511 (sample_proc 20 PROC_STATE_RUNING)))
       \<lparr>buffer_cache := replicate 17 \<lparr>buf_flags = 0, buf_drive = 0, buf_refcount = 0, buf_block_number = 0,
          buf_next = 0, buf_prev = 0, buf_queue = None, buf_frame = 60\<rparr>\<rparr>)"

lemma buffer_cache_memory: "memory_inv (k\<lparr>buffer_cache := c\<rparr>) = memory_inv k" "free_list (k\<lparr>buffer_cache := c\<rparr>) = free_list k"
  by (simp_all add: memory_inv_def kmap_def kalloc_inv_def free_list_def)

lemma fork_sample_facts:
  assumes "length pt = 16" and "set pt \<inter> {15, 20, 30, 31, 32} = {}"
  shows "caller_memory 5 (fork_sample pt)" and "find_unused (fork_sample pt) = Some 0" and "page_table_of (fork_sample pt) 5 = pt"
    and "next_pid (fork_sample pt) = 3" and "sym (fork_sample pt) = sample_symbols" and "free_list (fork_sample pt) = [30, 31, 32, 0xff]"
    and "frames_in_use (fork_sample pt) \<inter> set (free_list (fork_sample pt)) = {}"
proof -
  let ?procs = "sample_proc 0 PROC_STATE_UNUSED # replicate 511 (sample_proc 20 PROC_STATE_RUNING)"
  let ?k = "sample_kernel [30, 31, 32, 0xff] (Some 5) ?procs"
  have "kmap ?k" by (rule sample_kmap) (auto simp: sample_proc_def)
  moreover have l: "distinct [30, 31, 32, 0xff :: frame_t]" "\<forall>f \<in> set [30, 31, 32, 0xff :: frame_t]. 16 \<le> f"
    "length [30, 31, 32, 0xff :: frame_t] \<le> 240" by (simp_all add: word_le_nat_alt)
  note a = sample_kalloc_inv [OF l, of "Some 5" ?procs]
  ultimately have m: "memory_inv (fork_sample pt)"
    using a(1) by (simp add: fork_sample_def buffer_cache_memory memory_inv_def [of ?k])
  have p: "proc_table (fork_sample pt) = ?procs" "current_process (fork_sample pt) = Some 5" by (simp_all add: fork_sample_def)
  show "find_unused (fork_sample pt) = Some 0"
    by (simp add: find_unused_def p upt_conv_Cons [of 0] sample_proc_def del: upt_rec_numeral)
  show f: "free_list (fork_sample pt) = [30, 31, 32, 0xff]" using a(2) by (simp add: fork_sample_def buffer_cache_memory)
  show "next_pid (fork_sample pt) = 3" "sym (fork_sample pt) = sample_symbols"
    by (simp_all add: fork_sample_def pcb_write_def sample_kernel_def)
  have t: "page_table_of (fork_sample pt) q = pt" if "0 < q" "q < 512" for q
    using that assms(1) by (intro nth_equalityI) (auto simp: page_table_of_def pcb_bytes_def fork_sample_def nth_Cons' sample_proc_def)
  then show "page_table_of (fork_sample pt) 5 = pt" by simp
  show "caller_memory 5 (fork_sample pt)"
    using m assms(2) by (simp add: caller_memory_def p t f user_frames_def pcb_ok_def sample_proc_def)
  have "insert (pcb_frame (fork_sample pt) q) (user_frames (fork_sample pt) q) \<inter> {30, 31, 32, 0xff} = {}"
    if "q < 512" "proc_state (proc_table (fork_sample pt) ! q) \<noteq> PROC_STATE_UNUSED" for q
  proof -
    have "0 < q" using that(2) by (cases q) (simp_all add: p sample_proc_def)
    then have "pcb_frame (fork_sample pt) q = 20" using that(1) by (cases q) (simp_all add: p sample_proc_def)
    then show ?thesis using t [OF \<open>0 < q\<close> that(1)] assms(2) by (auto simp: user_frames_def)
  qed
  moreover have "insert (inode_frame (fork_sample pt)) ((\<lambda>b. buf_frame (buffer_cache (fork_sample pt) ! b)) ` {..<CACHE_SIZE}) \<inter> {30, 31, 32, 0xff} = {}"
    by (auto simp: fork_sample_def pcb_write_def sample_kernel_def)
  ultimately show "frames_in_use (fork_sample pt) \<inter> set (free_list (fork_sample pt)) = {}"
    unfolding frames_in_use_def f by (simp only: Int_Un_distrib2 list.set) blast
qed

theorem fork_copies_witness:
  "\<exists>k'. sys_fork (replicate 2 (\<lambda>k. snd (scheduler_dispatch (Some 5) 5 k))) (fork_sample (40 # replicate 15 0xff)) = Some (Inr (3, [], k')) \<and>
    frame_bytes k' (page_table_of k' 0 ! 0) = frame_bytes (fork_sample (40 # replicate 15 0xff)) 40"
proof -
  define k where "k = fork_sample (40 # replicate 15 0xff)"
  note f = fork_sample_facts [of "40 # replicate 15 0xff", folded k_def, simplified]
  let ?ws = "replicate 2 (\<lambda>k. snd (scheduler_dispatch (Some 5) 5 k)) :: waits" and ?pt = "page_table_of k 5"
  have m: "to_copy 0 ?pt = 1" by (simp add: f(3) to_copy_def upt_rec)
  have p: "next_pid k \<noteq> 0" "unat (zp_sp (sym k)) < 0xFF" "\<forall>w \<in> set ?ws. fork_rely 5 0 w"
    "to_copy 0 ?pt < length ?ws" "to_copy 0 ?pt < frames_ready k"
    unfolding m frames_ready_def f(4-6) sample_symbols_def using dispatch_rely [of 5 0] by simp_all
  obtain k' where k': "sys_fork ?ws k = Some (Inr (next_pid k, drop (Suc (to_copy 0 ?pt)) ?ws, k'))"
    "\<forall>i < 16. if ?pt ! i = FRAME_UNUSED then page_table_of k' 0 ! i = FRAME_UNUSED
       else page_table_of k' 0 ! i \<notin> {FRAME_UNUSED} \<union> user_frames k' 5 \<union> set (free_list k') \<and>
            frame_bytes k' (page_table_of k' 0 ! i) = frame_bytes k (?pt ! i)"
    using fork_copies [OF f(1,2) p(1-3) refl p(4,5)] by blast
  have "frame_bytes k' (page_table_of k' 0 ! 0) = frame_bytes k 40"
    using k'(2) [rule_format, of 0] by (simp add: f(3))
  then show ?thesis using k'(1) unfolding m f(4) k_def [symmetric] by auto
qed

text \<open>
  C23: when no frame can be allocated in the middle of \<^verbatim>\<open>sys_fork\<close>, the call returns -1 and the slot of the child is unused again, but a frame
  is lost: the roll-back ends before segment 0. The hypotheses: the caller has its first segment mapped, at least two allocations succeed (the
  control block of the child and the copy of segment 0, so that the failure comes after segment 0) but not one more than the caller has
  segments, and at each yield of the call the rest of the system neither allocates nor frees and leaves the processes and buffers alone. Then
  the pool afterwards is the pool before without its second frame, which held the copy of segment 0, and without the number 0xFF,
  if the failing allocation took it from the bottom of the pool. If no frame was both free and in use before, the lost frame is
  nobody's afterwards: it is in no control block or page table of a process, and in no buffer.
\<close>

theorem fork_failure_loses_frame:
  assumes "caller_memory p k" and "find_unused k = Some child" and "next_pid k \<noteq> 0" and "unat (zp_sp (sym k)) < 0xFF"
    and "page_table_of k p ! 0 \<noteq> FRAME_UNUSED" and "2 \<le> frames_ready k"
    and "frames_ready k \<le> to_copy 0 (page_table_of k p)" and "frames_ready k \<le> length ws"
    and "\<forall>w \<in> set ws. calm p child w" and "frames_in_use k \<inter> set (free_list k) = {}"
  shows "\<exists>k'. sys_fork ws k = Some (Inr (0xFFFF, drop (frames_ready k) ws, k')) \<and>
    proc_state (proc_table k' ! child) = PROC_STATE_UNUSED \<and> memory_inv k' \<and>
    set (free_list k') = set (free_list k) - {free_list k ! 1, FRAME_UNUSED} \<and>
    free_list k ! 1 \<in> set (free_list k) \<and> free_list k ! 1 \<notin> frames_in_use k' \<union> set (free_list k')"
proof -
  have "0 < frames_ready k" using assms(6) by simp
  then obtain f gs where f: "free_list k = f # gs" "f \<noteq> FRAME_UNUSED" by (rule frames_readyE)
  obtain g fs where g: "gs = g # fs" "g \<noteq> FRAME_UNUSED"
    using assms(6) f by (cases gs) (auto simp: frames_ready_def split: if_splits)
  have pool: "free_list k = f # g # fs" using f(1) g(1) by simp
  have c: "memory_inv k" "proc_state (proc_table k ! p) \<noteq> PROC_STATE_UNUSED" using assms(1) by (simp_all add: caller_memory_def)
  obtain k' where k': "sys_fork ws k = Some (Inr (0xFFFF, drop (frames_ready k) ws, k'))"
    "rolled_back p child (set (free_list k)) (insert f (set fs - {FRAME_UNUSED})) k k'"
    using sys_fork_fails [OF assms(1-5) pool f(2) g(2) assms(9,7,8)] by blast
  have r: "proc_state (proc_table k' ! child) = PROC_STATE_UNUSED" "memory_inv k'"
    "set (free_list k') = insert f (set fs - {FRAME_UNUSED})" using k'(2) by (simp_all add: rolled_back_def)
  have "distinct (f # g # fs)" using kernel_frames.pool_distinct [OF c(1)] by (simp only: pool)
  then have p: "insert f (set fs - {FRAME_UNUSED}) = set (free_list k) - {free_list k ! 1, FRAME_UNUSED}"
    using f(2) by (auto simp: pool)
  have l: "free_list k ! 1 \<in> set (free_list k)" by (simp add: pool)
  moreover have "free_list k ! 1 \<notin> frames_in_use k'" using rolled_back_frames [OF k'(2) assms(10) c(2)] l by blast
  moreover have "free_list k ! 1 \<notin> set (free_list k')" unfolding r(3) p by simp
  ultimately show ?thesis using k'(1) r(1,2) r(3) [unfolded p] by (intro exI [of _ k'] conjI) simp_all
qed

theorem fork_failure_loses_frame_witness:
  "\<exists>k'. sys_fork (replicate 3 (\<lambda>k. snd (scheduler_dispatch (Some 5) 5 k)))
       (fork_sample [40, 41, 42, 43, 0xff, 0xff, 0xff, 0xff, 0xff, 0xff, 0xff, 0xff, 0xff, 0xff, 0xff, 0xff]) =
      Some (Inr (0xFFFF, [], k')) \<and> set (free_list k') = {30, 32} \<and> 31 \<notin> frames_in_use k'"
proof -
  define k where "k = fork_sample [40, 41, 42, 43, 0xff, 0xff, 0xff, 0xff, 0xff, 0xff, 0xff, 0xff, 0xff, 0xff, 0xff, 0xff]"
  let ?ws = "replicate 3 (\<lambda>k. snd (scheduler_dispatch (Some 5) 5 k))"
  note f = fork_sample_facts [of "[40, 41, 42, 43, 0xff, 0xff, 0xff, 0xff, 0xff, 0xff, 0xff, 0xff, 0xff, 0xff, 0xff, 0xff]", folded k_def, simplified]
  have m: "to_copy 0 (page_table_of k 5) = 4" by (simp add: f(3) to_copy_def upt_rec)
  have u: "frames_in_use k \<inter> set (free_list k) = {}" unfolding k_def by (rule fork_sample_facts(7)) simp_all
  have r: "frames_ready k = 3" by (simp add: frames_ready_def f(6))
  have p: "next_pid k \<noteq> 0" "unat (zp_sp (sym k)) < 0xFF" "page_table_of k 5 ! 0 \<noteq> FRAME_UNUSED" "2 \<le> frames_ready k"
    "frames_ready k \<le> to_copy 0 (page_table_of k 5)" "frames_ready k \<le> length ?ws"
    unfolding m r f(4,5) sample_symbols_def by (simp_all add: f(3))
  have "\<forall>w \<in> set ?ws. calm 5 0 w" using dispatch_calm by simp
  then obtain k' where k': "sys_fork ?ws k = Some (Inr (0xFFFF, drop (frames_ready k) ?ws, k'))"
    "set (free_list k') = set (free_list k) - {free_list k ! 1, FRAME_UNUSED}" "free_list k ! 1 \<notin> frames_in_use k' \<union> set (free_list k')"
    using fork_failure_loses_frame [of 5 k 0 ?ws, OF f(1,2) p _ u] by blast
  have "set (free_list k') = {30, 32}" using k'(2) unfolding f(6) by (simp add: insert_Diff_if)
  then show ?thesis using k'(1,3) unfolding f(6) r k_def [symmetric] by auto
qed

end
