(* ===== verification/Kernel_Trampoline.thy ===== *)
theory Kernel_Trampoline
  imports Machine_Trap Kernel_Entry
begin

text \<open>
  The trampoline of \<^verbatim>\<open>src/kernel/trampoline.s\<close>: the code between the processor's vectors and the C handlers. On entry it
  saves the registers of the user in the life raft, switches to the kernel's stack and page table and installs the
  kernel's interrupt vector; \<^verbatim>\<open>return_from_trap\<close> undoes all of it and ends with the \<open>RTI\<close> that lets the MMU bring back the
  user's last segment. The laws follow a system call from the user's \<open>BRK\<close> to the instruction behind it.

  Between the two halves the machine is the one in the kernel's state; of the processor's registers only the stack
  pointer matters, which the C code leaves as it found it.
\<close>

section \<open>The routines\<close>

text \<open>The loop over the segments but the last, from segment \<open>x\<close> on.\<close>

fun mmu_loop :: "frame_t list \<Rightarrow> nat \<Rightarrow> nat \<Rightarrow> kernel \<Rightarrow> kernel" where
  "mmu_loop pt 0 x k = k"
| "mmu_loop pt (Suc n) x k = mmu_loop pt n (Suc x) (MMIO8_write (0xfe20 + of_nat x) (pt ! x) k)"

definition save_registers :: "system \<Rightarrow> kernel \<Rightarrow> system \<times> kernel" where
  "save_registers cpu k =
     (let cpu1 = ClearDecimal cpu;
          uc = (user_context k)[4 := reg_a cpu1, 6 := reg_y cpu1, 5 := reg_x cpu1];
          (p, cpu2) = PullByte cpu1;
          (pcl, cpu3) = PullByte cpu2;
          (pch, cpu4) = PullByte cpu3;
          uc1 = uc[1 := p, 2 := pcl, 3 := pch, 0 := reg_sp cpu4]
      in (cpu4\<lparr>reg_sp := uc1 ! 7\<rparr>, k\<lparr>machine := readWriteContext cpu4, user_context := uc1\<rparr>))"

definition install_vector :: "uint16 \<Rightarrow> kernel \<Rightarrow> kernel" where
  "install_vector v k = MMIO8_write 0xffff (hi_byte v) (MMIO8_write 0xfffe (lo_byte v) k)"

definition enter_kernel_space :: "kernel \<Rightarrow> kernel" where
  "enter_kernel_space k =
     (let k1 = mmu_loop (kernel_page_table k) 15 0 k;
          (prev, k2) = MMIO8_read 0xfe40 k1;
          k3 = k2\<lparr>user_page_table := (user_page_table k2)[15 := prev]\<rparr>;
          k4 = MMIO8_write 0xfe40 (kernel_page_table k3 ! 15) k3
      in install_vector (kernel_vector_addr (sym k4)) k4)"

definition trap_save :: "system \<Rightarrow> kernel \<Rightarrow> system \<times> kernel" where
  "trap_save cpu k =
     (let (cpu1, k1) = save_registers cpu k; k2 = enter_kernel_space k1
      in (cpu1\<lparr>readWriteContext := machine k2\<rparr>, k2))"

text \<open>
  \<open>RTI\<close> as the kernel executes it: the MMU has latched the opcode in kernel mode and brings back the last segment
  behind the instruction.
\<close>

definition kernel_RTI :: "system \<Rightarrow> system" where
  "kernel_RTI cpu =
     on_machine MMU_post_exec (exec_RTI (mk_instr 0x40 ''RTI'' AddressingImplied 6 False)
       (on_machine (\<lambda>m. m\<lparr>mmu := (mmu m)\<lparr>mmu_opcode := 0x40, in_user := False\<rparr>\<rparr>) cpu))"

definition leave_kernel_space :: "kernel \<Rightarrow> kernel" where
  "leave_kernel_space k =
     (let k1 = install_vector (irq_handler (sym k)) k;
          k2 = mmu_loop (user_page_table k1) 15 0 k1
      in MMIO8_write 0xfe40 (user_page_table k2 ! 15) k2)"

definition load_registers :: "system \<Rightarrow> kernel \<Rightarrow> system" where
  "load_registers cpu k =
     (let uc = user_context k;
          cpu1 = cpu\<lparr>reg_sp := uc ! 0\<rparr>;
          cpu2 = PushByte (uc ! 1) (PushByte (uc ! 2) (PushByte (uc ! 3) cpu1))
      in cpu2\<lparr>reg_x := uc ! 5, reg_y := uc ! 6, reg_a := uc ! 4\<rparr>)"

definition return_from_trap :: "system \<Rightarrow> kernel \<Rightarrow> system \<times> kernel" where
  "return_from_trap cpu k =
     (let k1 = leave_kernel_space k;
          k2 = k1\<lparr>user_context := (user_context k1)[7 := reg_sp cpu]\<rparr>;
          cpu1 = kernel_RTI (load_registers (cpu\<lparr>readWriteContext := machine k2\<rparr>) k2)
      in (cpu1, k2\<lparr>machine := readWriteContext cpu1\<rparr>))"

text \<open>
  The two entries. The result is the processor back in user mode, or \<open>None\<close> when the process has exited in the
  handler.
\<close>

definition back_to_user :: "system \<Rightarrow> outcome \<Rightarrow> system option io" where
  "back_to_user cpu oc =
     (if oc = Exits then io_return None
      else io_bind (io_run (return_from_trap cpu)) (\<lambda>cpu1. io_return (Some cpu1)))"

definition irq_handler_code :: "system \<Rightarrow> system option io" where
  "irq_handler_code cpu =
     io_bind (io_run (trap_save cpu)) (\<lambda>cpu1.
     io_bind (io_get (\<lambda>k. user_context k ! 1)) (\<lambda>p.
     io_bind (if p AND 0x10 = 0 then kernel_irq else kernel_brk) (back_to_user cpu1)))"

definition nmi_handler_code :: "system \<Rightarrow> system option io" where
  "nmi_handler_code cpu =
     io_bind (io_run (trap_save cpu)) (\<lambda>cpu1. io_bind kernel_nmi (back_to_user cpu1))"

section \<open>The life raft and the page tables\<close>

text \<open>The table \<open>t\<close> after the segments from \<open>x\<close> to \<open>x + n - 1\<close> were loaded from \<open>pt\<close>.\<close>

definition loaded :: "frame_t list \<Rightarrow> nat \<Rightarrow> nat \<Rightarrow> frame_t list \<Rightarrow> frame_t list" where
  "loaded pt x n t = map (\<lambda>i. if x \<le> i \<and> i < x + n then pt ! i else t ! i) [0..<length t]"

lemma loaded_simps:
  "loaded pt x 0 t = t"
  "x < length t \<Longrightarrow> loaded pt (Suc x) n (t[x := pt ! x]) = loaded pt x (Suc n) t"
  "length t = Suc n \<Longrightarrow> length pt = Suc n \<Longrightarrow> loaded pt 0 n t = pt[n := t ! n]"
  by (auto simp: loaded_def nth_list_update nth_append less_Suc_eq intro!: nth_equalityI)

lemma mmu_loop_effect:
  assumes "page_table (mmu (machine k)) ! 15 = 15" and "length (page_table (mmu (machine k))) = 16" and "x + n \<le> 15"
  shows "mmu_loop pt n x k =
    k\<lparr>machine := (machine k)\<lparr>mmu := (mmu (machine k))\<lparr>page_table := loaded pt x n (page_table (mmu (machine k)))\<rparr>\<rparr>\<rparr>"
  using assms
proof (induction n arbitrary: x k)
  case (Suc n)
  then show ?case
    using page_table_access(2) [of "machine k" x "pt ! x"] by (simp add: MMIO8_write_def loaded_simps)
qed (simp add: loaded_simps)

lemma load_segments:
  assumes "page_table (mmu (machine k)) ! 15 = 15" and "length (page_table (mmu (machine k))) = 16" and "length pt = 16"
  shows "mmu_loop pt 15 0 k = k\<lparr>machine := (machine k)\<lparr>mmu := (mmu (machine k))\<lparr>page_table := pt[15 := 15]\<rparr>\<rparr>\<rparr>"
  using mmu_loop_effect [OF assms(1,2), of 0 15 pt] loaded_simps(3) [of _ 15 pt] assms by simp

lemma trap_registers:
  assumes "page_table (mmu m) ! 15 = 15"
  shows "Machine_read 0xfe40 m = (mmu_prev (mmu m), m)"
    and "Machine_write 0xfe40 v m = m\<lparr>mmu := (mmu m)\<lparr>mmu_prev := v\<rparr>\<rparr>"
    and "Machine_write 0xfffe v m = m\<lparr>ram := (ram m)(0xfffe := v)\<rparr>"
    and "Machine_write 0xffff v m = m\<lparr>ram := (ram m)(0xffff := v)\<rparr>"
    and "Machine_read 0xfe60 m = (interrupts_lines (plic m), m)"
proof -
  have s: "segment_of 0xfe60 = 15" "phys 15 0xfe60 = 0xfe60" "segment_of 0xfe40 = 15" "segment_of 0xfffe = 15" "segment_of 0xffff = 15"
    "phys 15 0xfe40 = 0xfe40" "phys 15 0xfffe = 0xfffe" "phys 15 0xffff = 0xffff"
    by (simp_all add: segment_of_def phys_def)
  show "Machine_read 0xfe40 m = (mmu_prev (mmu m), m)"
    and "Machine_write 0xfe40 v m = m\<lparr>mmu := (mmu m)\<lparr>mmu_prev := v\<rparr>\<rparr>"
    and "Machine_write 0xfffe v m = m\<lparr>ram := (ram m)(0xfffe := v)\<rparr>"
    and "Machine_write 0xffff v m = m\<lparr>ram := (ram m)(0xffff := v)\<rparr>"
    and "Machine_read 0xfe60 m = (interrupts_lines (plic m), m)"
    using assms by (simp_all add: Machine_read_def Machine_write_def translate_cases s Let_def)
qed

lemma install_vector_effect:
  assumes "page_table (mmu (machine k)) ! 15 = 15"
  shows "install_vector v k =
    k\<lparr>machine := (machine k)\<lparr>ram := (ram (machine k))(0xfffe := lo_byte v, 0xffff := hi_byte v)\<rparr>\<rparr>"
  using assms by (simp add: install_vector_def MMIO8_write_def trap_registers)

lemma enter_kernel_space_effect:
  assumes "page_table (mmu (machine k)) ! 15 = 15" and "length (page_table (mmu (machine k))) = 16"
    and "length (kernel_page_table k) = 16" and "kernel_page_table k ! 15 = 15" and "v = kernel_vector_addr (sym k)"
  shows "enter_kernel_space k =
    k\<lparr>machine := (machine k)\<lparr>mmu := (mmu (machine k))\<lparr>page_table := kernel_page_table k, mmu_prev := 15\<rparr>,
        ram := (ram (machine k))(0xfffe := lo_byte v, 0xffff := hi_byte v)\<rparr>,
      user_page_table := (user_page_table k)[15 := mmu_prev (mmu (machine k))]\<rparr>"
proof -
  have "(kernel_page_table k)[15 := 15] = kernel_page_table k" using assms(4) by (metis list_update_id)
  then show ?thesis
    using assms by (simp add: enter_kernel_space_def load_segments install_vector_effect MMIO8_read_def MMIO8_write_def
        trap_registers Let_def)
qed

lemma leave_kernel_space_effect:
  assumes "page_table (mmu (machine k)) ! 15 = 15" and "length (page_table (mmu (machine k))) = 16"
    and "length (user_page_table k) = 16" and "v = irq_handler (sym k)"
  shows "leave_kernel_space k =
    k\<lparr>machine := (machine k)\<lparr>mmu := (mmu (machine k))\<lparr>page_table := (user_page_table k)[15 := 15],
          mmu_prev := user_page_table k ! 15\<rparr>,
        ram := (ram (machine k))(0xfffe := lo_byte v, 0xffff := hi_byte v)\<rparr>\<rparr>"
  using assms by (simp add: leave_kernel_space_def load_segments install_vector_effect MMIO8_write_def trap_registers Let_def)

section \<open>The registers\<close>

abbreviation on_stack :: "system \<Rightarrow> bool" where
  "on_stack \<equiv> on_bus Machine_read Machine_write stack_mapped"

definition stack_cell :: "Machine \<Rightarrow> uint8 \<Rightarrow> uint32" where
  "stack_cell m s = phys (page_table (mmu m) ! 0) (0x0100 + ucast s)"

lemma stack_cell_inject [simp]: "stack_cell m s = stack_cell m t \<longleftrightarrow> s = t"
  by (simp add: stack_cell_def)

lemma pushed:
  assumes "on_stack c" and "m = readWriteContext c"
  shows "PushByte v c = c\<lparr>reg_sp := reg_sp c - 1, readWriteContext := m\<lparr>ram := (ram m)(stack_cell m (reg_sp c) := v)\<rparr>\<rparr>"
    and "on_stack (PushByte v c)"
proof -
  have "stack_mapped m" "writeByte c = Machine_write" using assms by (simp_all add: on_bus_def)
  then show "PushByte v c = c\<lparr>reg_sp := reg_sp c - 1, readWriteContext := m\<lparr>ram := (ram m)(stack_cell m (reg_sp c) := v)\<rparr>\<rparr>"
    using assms(2) by (simp add: PushByte_def MCS6502WriteByte_def Let_def stack_access stack_cell_def)
  show "on_stack (PushByte v c)" using assms(1) by simp
qed

lemma pushed_three:
  assumes "on_stack c" and "m = readWriteContext c" and "d = PushByte v3 (PushByte v2 (PushByte v1 c))"
  shows "d = c\<lparr>reg_sp := reg_sp c - 3, readWriteContext := m\<lparr>ram := (ram m)
      (stack_cell m (reg_sp c) := v1, stack_cell m (reg_sp c - 1) := v2, stack_cell m (reg_sp c - 2) := v3)\<rparr>\<rparr>"
    and "on_stack d"
proof -
  have s: "stack_cell (x\<lparr>ram := r\<rparr>) = stack_cell x" for x r by (simp add: stack_cell_def fun_eq_iff)
  define c1 where "c1 = PushByte v1 c"
  define c2 where "c2 = PushByte v2 c1"
  note p1 = pushed [OF assms(1,2), of v1, folded c1_def]
  note p2 = pushed [OF p1(2) refl, of v2, folded c2_def]
  note p3 = pushed [OF p2(2) refl, of v3, unfolded c2_def c1_def, folded assms(3), folded c1_def, folded c2_def]
  show "d = c\<lparr>reg_sp := reg_sp c - 3, readWriteContext := m\<lparr>ram := (ram m)
      (stack_cell m (reg_sp c) := v1, stack_cell m (reg_sp c - 1) := v2, stack_cell m (reg_sp c - 2) := v3)\<rparr>\<rparr>"
    by (simp add: p3(1) p2(1) p1(1) s)
  show "on_stack d" by (rule p3(2))
qed

lemma save_registers_effect:
  assumes "on_stack cpu" and "length (user_context k) = 8" and "m = readWriteContext cpu"
    and "save_registers cpu k = (cpu1, k1)"
  shows "k1 = k\<lparr>machine := m, user_context := [reg_sp cpu + 3, stack_byte m (reg_sp cpu + 1), stack_byte m (reg_sp cpu + 2),
      stack_byte m (reg_sp cpu + 3), reg_a cpu, reg_x cpu, reg_y cpu, user_context k ! 7]\<rparr>"
    and "reg_sp cpu1 = user_context k ! 7" and "readByte cpu1 = Machine_read" and "writeByte cpu1 = Machine_write"
proof -
  have b: "on_stack (c\<lparr>reg_sp := s\<rparr>) = on_stack c" "on_stack (ClearDecimal cpu)" for c s
    using assms(1) by (simp_all add: on_bus_def ClearDecimal_def)
  have l: "user_context k = map (nth (user_context k)) [0, 1, 2, 3, 4, 5, 6, 7]"
    using assms(2) by (intro nth_equalityI) (auto simp: less_Suc_eq numeral_eq_Suc)
  have u: "(user_context k)[4 := a, 6 := y, 5 := x, 1 := p, 2 := q, 3 := r, 0 := s] = [s, p, q, r, a, x, y, user_context k ! 7]"
    for a y x p q r s
    by (subst l) simp
  note e = assms(4) [symmetric, unfolded save_registers_def Let_def machine_stack.pull_from_stack [OF b(2)]]
  show "k1 = k\<lparr>machine := m, user_context := [reg_sp cpu + 3, stack_byte m (reg_sp cpu + 1), stack_byte m (reg_sp cpu + 2),
      stack_byte m (reg_sp cpu + 3), reg_a cpu, reg_x cpu, reg_y cpu, user_context k ! 7]\<rparr>"
    and "reg_sp cpu1 = user_context k ! 7" and "readByte cpu1 = Machine_read" and "writeByte cpu1 = Machine_write"
    using e b assms(1,2,3) u by (simp_all add: machine_stack.pull_from_stack ClearDecimal_def on_bus_def add.assoc)
qed

lemma RTI_effect:
  fixes k :: kernel
  assumes "on_stack cpu" and "m = readWriteContext cpu" and "uc = user_context k" and "c = kernel_RTI (load_registers cpu k)"
  shows "reg_a c = uc ! 4" and "reg_x c = uc ! 5" and "reg_y c = uc ! 6" and "reg_sp c = uc ! 0"
    and "reg_p c = uc ! 1 AND NOT (0x20 OR MCS6502_STATUS_B)" and "reg_pc c = mk_word (uc ! 3) (uc ! 2)"
    and "readByte c = Machine_read" and "writeByte c = Machine_write"
    and "readWriteContext c = m\<lparr>mmu := (mmu m)\<lparr>page_table := (page_table (mmu m))[15 := mmu_prev (mmu m)],
        mmu_opcode := 0x40, in_user := False\<rparr>,
      ram := (ram m)(stack_cell m (uc ! 0) := uc ! 3, stack_cell m (uc ! 0 - 1) := uc ! 2, stack_cell m (uc ! 0 - 2) := uc ! 1)\<rparr>"
proof -
  define c0 where "c0 = load_registers cpu k"
  have c0: "on_stack c0" "reg_sp c0 = uc ! 0 - 3" "readWriteContext c0 = m\<lparr>ram := (ram m)
      (stack_cell m (uc ! 0) := uc ! 3, stack_cell m (uc ! 0 - 1) := uc ! 2, stack_cell m (uc ! 0 - 2) := uc ! 1)\<rparr>"
    "reg_a c0 = uc ! 4" "reg_x c0 = uc ! 5" "reg_y c0 = uc ! 6"
  proof -
    define c1 where "c1 = cpu\<lparr>reg_sp := uc ! 0\<rparr>"
    define c2 where "c2 = PushByte (uc ! 1) (PushByte (uc ! 2) (PushByte (uc ! 3) c1))"
    have "on_stack c1" "readWriteContext c1 = m" using assms(1,2) by (simp_all add: c1_def on_bus_def)
    note p = pushed_three [OF this(1) this(2) [symmetric] c2_def]
    have c0: "c0 = c2\<lparr>reg_x := uc ! 5, reg_y := uc ! 6, reg_a := uc ! 4\<rparr>"
      by (simp add: c0_def load_registers_def c2_def c1_def Let_def assms(3))
    then show "on_stack c0" "reg_a c0 = uc ! 4" "reg_x c0 = uc ! 5" "reg_y c0 = uc ! 6"
      using p(2) by (simp_all add: on_bus_def)
    show "reg_sp c0 = uc ! 0 - 3" "readWriteContext c0 = m\<lparr>ram := (ram m)
      (stack_cell m (uc ! 0) := uc ! 3, stack_cell m (uc ! 0 - 1) := uc ! 2, stack_cell m (uc ! 0 - 2) := uc ! 1)\<rparr>"
      by (simp_all add: c0 p(1)) (simp_all add: c1_def)
  qed
  define d where "d = on_machine (\<lambda>m. m\<lparr>mmu := (mmu m)\<lparr>mmu_opcode := 0x40, in_user := False\<rparr>\<rparr>) c0"
  have d: "on_stack d" "reg_sp d = uc ! 0 - 3" "stack_byte (readWriteContext d) (uc ! 0 - 2) = uc ! 1"
    "stack_byte (readWriteContext d) (uc ! 0 - 1) = uc ! 2" "stack_byte (readWriteContext d) (uc ! 0) = uc ! 3"
    using c0(1,2) by (simp_all add: d_def on_bus_def stack_mapped_def c0(3) stack_byte_def) (simp_all add: stack_cell_def)
  have on: "on_stack (x\<lparr>reg_sp := s\<rparr>) = on_stack x" "on_stack (x\<lparr>reg_p := s\<rparr>) = on_stack x" for x s
    by (simp_all add: on_bus_def)
  have c: "c = on_machine MMU_post_exec (d\<lparr>reg_sp := uc ! 0, reg_p := uc ! 1 AND NOT (0x20 OR MCS6502_STATUS_B),
      reg_pc := mk_word (uc ! 3) (uc ! 2)\<rparr>)"
    using d by (simp add: assms(4) kernel_RTI_def c0_def [symmetric] d_def [symmetric] exec_RTI_def
        machine_stack.pull_from_stack on Let_def)
  have "readByte d = Machine_read" "writeByte d = Machine_write" using d(1) by (simp_all add: on_bus_def)
  then show "reg_a c = uc ! 4" and "reg_x c = uc ! 5" and "reg_y c = uc ! 6" and "reg_sp c = uc ! 0"
    and "reg_p c = uc ! 1 AND NOT (0x20 OR MCS6502_STATUS_B)" and "reg_pc c = mk_word (uc ! 3) (uc ! 2)"
    and "readByte c = Machine_read" and "writeByte c = Machine_write"
    and "readWriteContext c = m\<lparr>mmu := (mmu m)\<lparr>page_table := (page_table (mmu m))[15 := mmu_prev (mmu m)],
        mmu_opcode := 0x40, in_user := False\<rparr>,
      ram := (ram m)(stack_cell m (uc ! 0) := uc ! 3, stack_cell m (uc ! 0 - 1) := uc ! 2, stack_cell m (uc ! 0 - 2) := uc ! 1)\<rparr>"
    using c0 by (simp_all add: c d_def MMU_post_exec_def)
qed

text \<open>
  \<open>kernel_RTI\<close> is the processor's cycle on the \<open>RTI\<close> in the kernel's last segment, but for the cycle counters.
\<close>

lemma RTI_cycle:
  assumes "readByte cpu = Machine_read" and "m = readWriteContext cpu" and "page_table (mmu m) ! MMU_LAST_SEGMENT = MMU_LAST_FRAME"
    and "m1 = m\<lparr>mmu := (mmu m)\<lparr>mmu_opcode := 0x40, in_user := False\<rparr>\<rparr>"
    and "Machine_read (reg_pc cpu) m = (0x40, m)" and "Machine_read (reg_pc cpu) m1 = (0x40, m1)"
    and "reg_p cpu AND MCS6502_STATUS_I \<noteq> 0" and "\<not> pending_nmi (mmu m)" and "\<not> nmiPending cpu" and "\<not> irqPending cpu"
  shows "snd (CPU_cycle cpu) = (kernel_RTI cpu)\<lparr>pendingTiming := 0, timingForLastOperation := 6\<rparr>"
proof -
  let ?c = "cpu\<lparr>readWriteContext := m1\<rparr>"
  have pre: "MMU_pre_exec cpu = ?c"
    using assms(3,5,7,8) by (simp add: MMU_pre_exec_def MMU_fetch_def assms(2) [symmetric] MMU_intercept_def
        MMU_privilege_watchdog_def MMU_violation_watchdog_def Let_def assms(4))
  have f: "MCS6502ReadByte (reg_pc ?c) (fetch_context ?c) = (0x40, fetch_context ?c)"
    using assms(1,6) by (simp add: MCS6502ReadByte_def fetch_context_def)
  obtain i where t: "MCS6502OpcodeTable 0x40 = Some i" "timing i = 6"
    using opcode_table_opcode [of "mk_instr 0x40 ''RTI'' AddressingImplied 6 False"] by (simp add: MCS6502Instructions_def mk_instr_def)
  have "exec_switch 0x40 i c = (True, exec_RTI i c)" for i and c :: system
    by (simp add: exec_switch_def switch_cases_def)
  then have "snd (MCS6502ExecNext ?c) = (exec_RTI i (fetch_context ?c))
      \<lparr>timingForLastOperation := timingForLastOperation (exec_RTI i (fetch_context ?c)) + 6\<rparr>"
    by (cases ?c rule: ExecNext_cases) (use assms(9,10) f t in simp_all)
  then show ?thesis
    by (simp add: CPU_cycle_def pre split_beta kernel_RTI_def assms(2,4) fetch_context_def exec_RTI_def PullByte_def
        MCS6502ReadByte_def Let_def)
qed

section \<open>The user's BRK\<close>

lemma fetched_frame:
  assumes "user_table m" and "fst (Machine_read a m) \<noteq> 0xFF"
  shows "page_table (mmu m) ! segment_of a \<notin> {MMU_FRAME_INVALID, MMU_LAST_FRAME}"
proof -
  have "page_table (mmu m) ! segment_of a \<in> set (page_table (mmu m))"
    using assms(1) by (intro nth_mem) (simp add: user_table_def)
  then have "page_table (mmu m) ! segment_of a \<noteq> 15" using assms(1) by (metis user_table_def)
  then show ?thesis using assms(2) by (auto simp: read_value_plain)
qed

lemma mapped_read:
  assumes "page_table (mmu m) ! segment_of a = f" and "f \<notin> {MMU_FRAME_INVALID, MMU_LAST_FRAME}"
  shows "Machine_read a m = (ram m (phys f a), m)"
proof -
  have t: "MMU_translate a (mmu m) = (phys f a, mmu m)" using assms by (simp add: translate_cases)
  show ?thesis using Machine_read_plain [OF t] assms(2) by (simp add: phys_below_RAM)
qed

text \<open>
  \<open>trapped cpu c pc p\<close>: in \<open>c\<close> the processor has left the user program of \<open>cpu\<close> for the kernel; \<open>pc\<close> and \<open>p\<close> are on the user's
  stack, the MMU shows the kernel's last segment and remembers the user's.
\<close>

definition trapped :: "system \<Rightarrow> system \<Rightarrow> uint16 \<Rightarrow> uint8 \<Rightarrow> bool" where
  "trapped cpu c pc p \<longleftrightarrow>
     (let m = readWriteContext cpu; m1 = readWriteContext c
      in reg_a c = reg_a cpu \<and> reg_x c = reg_x cpu \<and> reg_y c = reg_y cpu \<and> reg_sp c = reg_sp cpu - 3 \<and>
         reg_pc c = kernel_vector m MCS6502_IRQ_BRK_vector \<and> readByte c = Machine_read \<and> writeByte c = Machine_write \<and>
         page_table (mmu m1) = (page_table (mmu m))[15 := 15] \<and> mmu_prev (mmu m1) = page_table (mmu m) ! 15 \<and> rom m1 = rom m \<and>
         interrupts_lines (plic m1) = interrupts_lines (plic m) \<and>
         ram m1 = (ram m)(stack_cell m (reg_sp cpu) := hi_byte pc, stack_cell m (reg_sp cpu - 1) := lo_byte pc,
           stack_cell m (reg_sp cpu - 2) := p))"

text \<open>A user program about to execute \<open>BRK\<close>, with nothing else to be served first.\<close>

definition at_BRK :: "system \<Rightarrow> bool" where
  "at_BRK cpu \<longleftrightarrow> fst (Machine_read (reg_pc cpu) (readWriteContext cpu)) = 0 \<and> segment_of (reg_pc cpu) \<noteq> MMU_LAST_SEGMENT \<and>
     \<not> (pending_irq (plic (readWriteContext cpu)) \<and> reg_p cpu AND MCS6502_STATUS_I = 0) \<and>
     \<not> pending_nmi (mmu (readWriteContext cpu)) \<and> \<not> nmiPending cpu \<and> \<not> irqPending cpu"

lemma latched_fetch:
  assumes "user_mode cpu" and "m = readWriteContext cpu" and "fst (Machine_read (reg_pc cpu) m) = opc" and "opc \<noteq> 0xFF"
  shows "latched cpu = m\<lparr>mmu := (mmu m)\<lparr>mmu_opcode := opc, in_user := True\<rparr>\<rparr>"
    and "page_table (mmu m) ! segment_of (reg_pc cpu) \<notin> {MMU_FRAME_INVALID, MMU_LAST_FRAME}"
proof -
  have "user_table m" using assms(1,2) by (simp add: user_mode_def on_bus_def)
  from fetched_frame [OF this, of "reg_pc cpu"] assms(3,4)
  show f: "page_table (mmu m) ! segment_of (reg_pc cpu) \<notin> {MMU_FRAME_INVALID, MMU_LAST_FRAME}" by simp
  show "latched cpu = m\<lparr>mmu := (mmu m)\<lparr>mmu_opcode := opc, in_user := True\<rparr>\<rparr>"
    using mapped_read [OF refl f] assms(3) by (simp add: latched_def assms(2) [symmetric])
qed

text \<open>The two sequences that save program counter and status on the stack of segment 0 and take the vector.\<close>

definition stacked :: "uint16 \<Rightarrow> uint8 \<Rightarrow> uint8 \<Rightarrow> Machine \<Rightarrow> Machine" where
  "stacked pc p s m = m\<lparr>ram := (ram m)(stack_cell m s := hi_byte pc, stack_cell m (s - 1) := lo_byte pc, stack_cell m (s - 2) := p)\<rparr>"

lemma stacked_frame [simp]: "mmu (stacked pc p s m) = mmu m" "rom (stacked pc p s m) = rom m"
  by (simp_all add: stacked_def)

lemma interrupt_sequences:
  assumes "on_stack c" and "Machine_Trap.in_kernel m0 c" and "m = readWriteContext c"
    and "v = kernel_vector m0 MCS6502_IRQ_BRK_vector"
  shows "exec_BRK i c = (SetInterruptDisable c)\<lparr>reg_sp := reg_sp c - 3, reg_pc := v,
      readWriteContext := stacked (reg_pc c + 2) ((reg_p c OR 0x20) OR MCS6502_STATUS_B) (reg_sp c) m\<rparr>"
    and "HandleIRQ c = (SetInterruptDisable c)\<lparr>irqPending := False, reg_sp := reg_sp c - 3, reg_pc := v,
      timingForLastOperation := 7,
      readWriteContext := stacked (reg_pc c) ((reg_p c OR 0x20) AND NOT MCS6502_STATUS_B) (reg_sp c) m\<rparr>"
proof -
  let ?push = "\<lambda>c pc p. PushByte p (PushByte (lo_byte pc) (PushByte (hi_byte pc) c))"
  let ?c = "c\<lparr>irqPending := False\<rparr>"
  have o: "on_stack ?c" "Machine_Trap.in_kernel m0 ?c" using assms(1,2) by (simp_all add: on_bus_def)
  have k: "Machine_Trap.in_kernel m0 (SetInterruptDisable (?push c pc q))" "Machine_Trap.in_kernel m0 (SetInterruptDisable (?push ?c pc q))"
    for pc q using assms(2) o(2) by simp_all
  have f: "PushFlags True (PushByte y (PushByte x c)) = PushByte ((reg_p c OR 0x20) OR MCS6502_STATUS_B) (PushByte y (PushByte x c))"
    "PushFlags False (PushByte y (PushByte x ?c)) = PushByte ((reg_p c OR 0x20) AND NOT MCS6502_STATUS_B) (PushByte y (PushByte x ?c))"
    for x y by (simp_all add: PushFlags_def)
  have p: "?push c pc q = c\<lparr>reg_sp := reg_sp c - 3, readWriteContext := stacked pc q (reg_sp c) m\<rparr>"
    "?push ?c pc q = ?c\<lparr>reg_sp := reg_sp c - 3, readWriteContext := stacked pc q (reg_sp c) m\<rparr>" for pc q
    using pushed_three(1) [OF assms(1,3) refl] pushed_three(1) [OF o(1) refl refl] by (simp_all add: stacked_def assms(3))
  show "exec_BRK i c = (SetInterruptDisable c)\<lparr>reg_sp := reg_sp c - 3, reg_pc := v,
      readWriteContext := stacked (reg_pc c + 2) ((reg_p c OR 0x20) OR MCS6502_STATUS_B) (reg_sp c) m\<rparr>"
    using read_kernel_vector(2) [OF k(1)] by (simp add: exec_BRK_def Let_def f p SetInterruptDisable_def assms(4))
  show "HandleIRQ c = (SetInterruptDisable c)\<lparr>irqPending := False, reg_sp := reg_sp c - 3, reg_pc := v,
      timingForLastOperation := 7,
      readWriteContext := stacked (reg_pc c) ((reg_p c OR 0x20) AND NOT MCS6502_STATUS_B) (reg_sp c) m\<rparr>"
    using read_kernel_vector(2) [OF k(2)] by (simp add: HandleIRQ_def Let_def f p SetInterruptDisable_def assms(4))
qed

text \<open>The kernel's last segment switched in, with only the latches of the MMU changed besides.\<close>

lemma entered_segment:
  assumes "user_mode cpu" and "m = readWriteContext cpu" and "fst (Machine_read (reg_pc cpu) m) = opc" and "opc \<noteq> 0xFF"
    and "stack_mapped m" and "m1 = enter_kernel_segment (latched cpu)"
  shows "m1 = m\<lparr>mmu := (mmu m)\<lparr>page_table := (page_table (mmu m))[15 := 15],
      mmu_prev := page_table (mmu m) ! 15, mmu_opcode := opc, in_user := True\<rparr>\<rparr>"
    and "stack_mapped m1" and "stack_cell m1 = stack_cell m"
    and "kernel_vector (latched cpu) v = kernel_vector m v"
proof -
  note l = latched_fetch(1) [OF assms(1-4)]
  show e: "m1 = m\<lparr>mmu := (mmu m)\<lparr>page_table := (page_table (mmu m))[15 := 15],
      mmu_prev := page_table (mmu m) ! 15, mmu_opcode := opc, in_user := True\<rparr>\<rparr>"
    by (simp add: assms(6) enter_kernel_segment_def l)
  show "stack_mapped m1" "stack_cell m1 = stack_cell m" "kernel_vector (latched cpu) v = kernel_vector m v"
    using assms(5) by (simp_all add: e stack_mapped_def stack_cell_def fun_eq_iff l kernel_vector_def vector_byte_def)
qed

lemma brk_trapped:
  assumes "user_mode cpu" and "at_BRK cpu" and "stack_mapped (readWriteContext cpu)"
  shows "trapped cpu (snd (CPU_cycle cpu)) (reg_pc cpu + 2) ((reg_p cpu OR 0x20) OR MCS6502_STATUS_B)"
proof -
  define m where "m = readWriteContext cpu"
  have u: "length (page_table (mmu m)) = 16" "readByte cpu = Machine_read" "writeByte cpu = Machine_write"
    and a: "fst (Machine_read (reg_pc cpu) m) = 0" "(0 :: uint8) \<noteq> 0xFF" "stack_mapped m"
    using assms by (simp_all add: user_mode_def on_bus_def m_def at_BRK_def user_table_def)
  define m1 where "m1 = enter_kernel_segment (latched cpu)"
  note m1 = entered_segment [OF assms(1) m_def a m1_def]
  obtain i c1 t where e: "snd (CPU_cycle cpu) = (exec_BRK i c1)\<lparr>timingForLastOperation := t\<rparr>"
    and c1: "c1 = snd (MCS6502ReadByte (reg_pc cpu) (fetch_context (on_machine enter_kernel_segment (cpu\<lparr>readWriteContext := latched cpu\<rparr>))))"
    and k: "Machine_Trap.in_kernel (latched cpu) c1"
    by (rule brk_cycle [OF assms(1)]) (use assms(2) latched_fetch(1) [OF assms(1) m_def a(1,2)] in \<open>auto simp: at_BRK_def m_def\<close>)
  have "Machine_read (reg_pc cpu) m1 = (ram m1 (phys (page_table (mmu m) ! segment_of (reg_pc cpu)) (reg_pc cpu)), m1)"
    using latched_fetch(2) [OF assms(1) m_def a(1,2)] assms(2) u(1) by (intro mapped_read) (simp_all add: m1(1) at_BRK_def)
  then have c1: "c1 = (fetch_context cpu)\<lparr>readWriteContext := m1\<rparr>"
    using u by (simp add: c1 m1_def MCS6502ReadByte_def fetch_context_def)
  then have "on_stack c1" "readWriteContext c1 = m1" using u m1(2) by (simp_all add: on_bus_def)
  note b = interrupt_sequences(1) [OF this(1) k this(2) [symmetric] refl, of i]
  show ?thesis
    unfolding trapped_def Let_def m_def [symmetric] e b using u m1(3,4) by (simp add: c1 stacked_def) (simp add: m1(1))
qed

text \<open>A user program that is interrupted by a device.\<close>

definition at_IRQ :: "system \<Rightarrow> bool" where
  "at_IRQ cpu \<longleftrightarrow>
     (let m = readWriteContext cpu; opc = fst (Machine_read (reg_pc cpu) m)
      in pending_irq (plic m) \<and> reg_p cpu AND MCS6502_STATUS_I = 0 \<and> pendingTiming cpu = 0 \<and>
         valid_opcode_table ! unat opc \<and> opc \<notin> {0x78, 0x28, 0x40} \<and> \<not> pending_nmi (mmu m))"

lemma irq_trapped:
  assumes "user_mode cpu" and "at_IRQ cpu" and "stack_mapped (readWriteContext cpu)"
  shows "trapped cpu (MMU_pre_exec cpu) (reg_pc cpu) ((reg_p cpu OR 0x20) AND NOT MCS6502_STATUS_B)"
proof -
  define m where "m = readWriteContext cpu"
  define opc where "opc = fst (Machine_read (reg_pc cpu) m)"
  have a: "pending_irq (plic m)" "reg_p cpu AND MCS6502_STATUS_I = 0" "pendingTiming cpu = 0" "valid_opcode_table ! unat opc"
    "opc \<notin> {0x78, 0x28, 0x40}" "\<not> pending_nmi (mmu m)"
    using assms(2) unfolding at_IRQ_def Let_def m_def opc_def by blast+
  have u: "readByte cpu = Machine_read" "writeByte cpu = Machine_write" "stack_mapped m"
    using assms(1,3) by (simp_all add: user_mode_def on_bus_def m_def)
  have "\<not> valid_opcode_table ! unat (0xFF :: uint8)" by (simp add: valid_opcode_table_def)
  then have "opc \<noteq> 0xFF" using a(4) by metis
  note f = assms(1) m_def opc_def [symmetric] this
  note m1 = entered_segment [OF f u(3) refl]
  define m2 where "m2 = PLIC_lower (enter_kernel_segment (latched cpu))"
  define c1 where "c1 = cpu\<lparr>readWriteContext := m2\<rparr>"
  have m2: "mmu m2 = mmu (enter_kernel_segment (latched cpu))" "stack_mapped m2" "stack_cell m2 = stack_cell m"
    "rom m2 = rom m" "ram m2 = ram m" "interrupts_lines (plic m2) = interrupts_lines (plic m)"
    using m1 by (simp_all add: m2_def PLIC_lower_def stack_mapped_def stack_cell_def fun_eq_iff)
  have k: "Machine_Trap.in_kernel (latched cpu) c1"
    using u enter_kernel_view(1) [of "latched cpu"] latched_isolated(1) [OF assms(1)]
    by (simp add: c1_def on_bus_def m2_def kernel_view_def PLIC_lower_def)
  have o: "on_stack c1" "readWriteContext c1 = m2" using u m2(2) by (simp_all add: c1_def on_bus_def)
  note h = interrupt_sequences(2) [OF o(1) k o(2) [symmetric] refl]
  have "MMU_intercept (MMU_fetch cpu) = MCS6502IRQ c1"
    using a(1,2) latched_fetch(1) [OF f] by (simp add: user_fetch [OF assms(1)] MMU_intercept_def m2_def c1_def)
  moreover have "\<not> IsInterruptDisableSet c1" using a(2) by (simp add: IsInterruptDisableSet_def c1_def)
  ultimately have "MMU_pre_exec cpu = (HandleIRQ c1)\<lparr>pendingTiming := 7\<rparr>"
    using a(3-6) by (simp add: MMU_pre_exec_def MCS6502IRQ_def h c1_def [symmetric] MMU_privilege_watchdog_def
        MMU_violation_watchdog_def Let_def m2(1) m1(1)) (simp add: c1_def)
  then show ?thesis
    unfolding trapped_def Let_def m_def [symmetric] h using u m2 m1 by (simp add: c1_def stacked_def)
qed

section \<open>Processes in user mode\<close>

definition under_kernel_map :: "kernel \<Rightarrow> kernel" where
  "under_kernel_map k = k\<lparr>machine := (machine k)\<lparr>mmu := (mmu (machine k))\<lparr>page_table := kernel_page_table k\<rparr>\<rparr>\<rparr>"

text \<open>
  The kernel's own part of the state while it serves process \<open>p\<close>: besides \<open>in_kernel\<close>, the last entry of its page table
  is the device frame and the ROM is switched off.
\<close>

definition serving :: "kernel \<Rightarrow> nat \<Rightarrow> bool" where
  "serving k p \<longleftrightarrow> Kernel_Entry.in_kernel k p \<and> kernel_page_table k ! 15 = MMU_LAST_FRAME \<and> rom_enable (rom (machine k)) = 0 \<and>
     \<not> first_entry k"

text \<open>
  Process \<open>p\<close> runs in user mode: the processor is on a user page table, whose segments but the last are those of the
  life raft; the interrupt vector is the trampoline's; the frame with the control block is not among the user's
  frames; and with the kernel's page table in the MMU the kernel could serve \<open>p\<close>.
\<close>

definition user_running :: "system \<Rightarrow> kernel \<Rightarrow> nat \<Rightarrow> bool" where
  "user_running cpu k p \<longleftrightarrow> user_mode cpu \<and> status_ok cpu \<and> machine k = readWriteContext cpu \<and> stack_mapped (machine k) \<and>
     serving (under_kernel_map k) p \<and> life_raft k \<and> take 15 (user_page_table k) = take 15 (page_table (mmu (machine k))) \<and>
     kernel_vector (machine k) MCS6502_IRQ_BRK_vector = irq_handler (sym k) \<and>
     pcb_frame k p \<notin> set (page_table (mmu (machine k)))"

text \<open>Nothing in the control block's frame depends on the user's stack or the vectors.\<close>

lemma stack_cell_frame: "frame_of (stack_cell m s) = ucast (page_table (mmu m) ! 0)"
  by (simp add: stack_cell_def)

lemma ucast_frame [simp]: "(ucast (f :: uint8) :: uint32) = ucast g \<longleftrightarrow> f = g"
proof
  assume "(ucast f :: uint32) = ucast g"
  then have "(ucast (ucast f :: uint32) :: uint8) = ucast (ucast g :: uint32)" by simp
  moreover have "(ucast (ucast w :: uint32) :: uint8) = w" for w by (rule bit_word_eqI) (simp add: bit_simps)
  ultimately show "f = g" by simp
qed simp

lemma frame_addr_apart:
  assumes "i < 4096" and "f \<noteq> 15"
  shows "page_table (mmu m) ! 0 \<noteq> f \<Longrightarrow> frame_addr f i \<noteq> stack_cell m s" and "frame_addr f i \<noteq> 0xfffe" and "frame_addr f i \<noteq> 0xffff"
proof -
  have f: "frame_of (frame_addr f i) = ucast f" using assms(1) by simp
  show "page_table (mmu m) ! 0 \<noteq> f \<Longrightarrow> frame_addr f i \<noteq> stack_cell m s" using f stack_cell_frame [of m s] ucast_frame by metis
  show "frame_addr f i \<noteq> 0xfffe" "frame_addr f i \<noteq> 0xffff"
    using f assms(2) vector_translate(11,12) frame_15 by metis+
qed

lemma in_kernel_machine:
  assumes "Kernel_Entry.in_kernel k p" and "page_table (mmu m) = page_table (mmu (machine k))"
  shows "Kernel_Entry.in_kernel (k\<lparr>machine := m\<rparr>) p"
  using assms by (simp add: Kernel_Entry.in_kernel_def kmap_def pcb_ok_def)

section \<open>Into the kernel\<close>

lemma take_update_last:
  assumes "take n xs = take n ys" and "length xs = Suc n" and "length ys = Suc n"
  shows "xs[n := ys ! n] = ys"
proof (rule nth_equalityI)
  fix i assume "i < length (xs[n := ys ! n])"
  moreover have "i < n \<Longrightarrow> xs ! i = ys ! i" using assms(1) by (metis nth_take)
  ultimately show "xs[n := ys ! n] ! i = ys ! i" using assms(2) by (auto simp: nth_list_update less_Suc_eq)
qed (use assms in simp)

text \<open>The kernel's state behind the trampoline's entry: the life raft holds the user's registers and page table.\<close>

lemma trap_saved:
  assumes "user_running cpu k p" and "trapped cpu c pc st" and "trap_save c k = (c1, k1)" and "m = machine k"
  obtains m1 where "k1 = k\<lparr>machine := m1, user_context := [reg_sp cpu, st,
        lo_byte pc, hi_byte pc, reg_a cpu, reg_x cpu, reg_y cpu, user_context k ! 7],
      user_page_table := page_table (mmu m)\<rparr>"
    and "page_table (mmu m1) = kernel_page_table k" and "rom m1 = rom m" and "interrupts_lines (plic m1) = interrupts_lines (plic m)"
    and "\<And>f i. i < 4096 \<Longrightarrow> f \<noteq> 15 \<Longrightarrow> f \<notin> set (page_table (mmu m)) \<Longrightarrow> ram m1 (frame_addr f i) = ram m (frame_addr f i)"
    and "reg_sp c1 = user_context k ! 7" and "readByte c1 = Machine_read" and "writeByte c1 = Machine_write"
proof -
  have u: "user_mode cpu" "readWriteContext cpu = m" "stack_mapped m" "serving (under_kernel_map k) p" "life_raft k"
    "take 15 (user_page_table k) = take 15 (page_table (mmu m))"
    using assms(1,4) by (auto simp: user_running_def)
  have r: "length (user_context k) = 8" "length (kernel_page_table k) = 16" "kernel_page_table k ! 15 = 15"
    "length (page_table (mmu m)) = 16" "length (user_page_table k) = 16"
    using u by (simp_all add: serving_def life_raft_def under_kernel_map_def Kernel_Entry.in_kernel_def kmap_def
        user_mode_def on_bus_def user_table_def)
  note b = assms(2) [unfolded trapped_def Let_def u(2)]
  define mc where "mc = readWriteContext c"
  have mc: "page_table (mmu mc) = (page_table (mmu m))[15 := 15]" "mmu_prev (mmu mc) = page_table (mmu m) ! 15" "rom mc = rom m"
    "interrupts_lines (plic mc) = interrupts_lines (plic m)" "stack_byte mc (reg_sp cpu - 2) = st" "stack_byte mc (reg_sp cpu - 1) = lo_byte pc" "stack_byte mc (reg_sp cpu) = hi_byte pc"
    using b by (simp_all add: mc_def stack_byte_def) (simp_all add: stack_cell_def)
  have rg: "reg_a c = reg_a cpu" "reg_x c = reg_x cpu" "reg_y c = reg_y cpu" "reg_sp c = reg_sp cpu - 3"
    "readByte c = Machine_read" "writeByte c = Machine_write" using b by simp_all
  have o: "on_stack c"
    using u(3) rg(5,6) mc(1) by (simp add: on_bus_def stack_mapped_def mc_def)
  obtain c2 k2 where s: "save_registers c k = (c2, k2)" by fastforce
  note e = save_registers_effect [OF o r(1) mc_def s]
  have sp: "reg_sp c + 1 = reg_sp cpu - 2" "reg_sp c + 2 = reg_sp cpu - 1" "reg_sp c + 3 = reg_sp cpu" by (simp_all add: rg(4))
  have pt: "(user_page_table k)[15 := page_table (mmu m) ! 15] = page_table (mmu m)"
    using take_update_last [OF u(6)] r(4,5) by simp
  have k2: "page_table (mmu (machine k2)) ! 15 = 15" "length (page_table (mmu (machine k2))) = 16"
    "length (kernel_page_table k2) = 16" "kernel_page_table k2 ! 15 = 15"
    using r mc(1) by (simp_all add: e(1))
  have x: "c1 = c2\<lparr>readWriteContext := machine k1\<rparr>" "k1 = enter_kernel_space k2"
    using assms(3) by (auto simp: trap_save_def s Let_def)
  note k1 = enter_kernel_space_effect [OF k2 refl, folded x(2), unfolded e(1) sp mc(2,5-7) rg(1-3)]
  show thesis
  proof (rule that)
    show "reg_sp c1 = user_context k ! 7" "readByte c1 = Machine_read" "writeByte c1 = Machine_write"
      using e(2-4) by (simp_all add: x(1))
    show "k1 = k\<lparr>machine := machine k1, user_context := [reg_sp cpu, st,
        lo_byte pc, hi_byte pc, reg_a cpu, reg_x cpu, reg_y cpu, user_context k ! 7],
      user_page_table := page_table (mmu m)\<rparr>"
      using mc(2) pt by (simp add: k1)
    show "page_table (mmu (machine k1)) = kernel_page_table k" "rom (machine k1) = rom m"
      "interrupts_lines (plic (machine k1)) = interrupts_lines (plic m)" using mc(3,4) by (simp_all add: k1)
    fix f :: frame_t and i :: nat
    assume a: "i < 4096" "f \<noteq> 15" "f \<notin> set (page_table (mmu m))"
    have "page_table (mmu m) ! 0 \<noteq> f" using a(3) r(4) nth_mem [of 0 "page_table (mmu m)"] by auto
    then show "ram (machine k1) (frame_addr f i) = ram m (frame_addr f i)"
      using frame_addr_apart [OF a(1,2)] using b by (simp add: k1 mc_def)
  qed
qed

lemma trap_served:
  assumes "user_running cpu k p" and "trapped cpu c pc st" and "trap_save c k = (c1, k1)"
  shows "serving k1 p" and "life_raft k1" and "must_die k1 p = must_die k p"
proof -
  obtain m1 uc where k1: "k1 = k\<lparr>machine := m1, user_context := uc, user_page_table := page_table (mmu (machine k))\<rparr>" "length uc = 8"
    and m1: "page_table (mmu m1) = kernel_page_table k" "rom m1 = rom (machine k)"
      "\<And>f i. i < 4096 \<Longrightarrow> f \<noteq> 15 \<Longrightarrow> f \<notin> set (page_table (mmu (machine k))) \<Longrightarrow> ram m1 (frame_addr f i) = ram (machine k) (frame_addr f i)"
    by (rule trap_saved [OF assms refl]) auto
  have u: "serving (under_kernel_map k) p" "pcb_frame k p \<notin> set (page_table (mmu (machine k)))" "user_table (machine k)"
    using assms(1) by (auto simp: user_running_def user_mode_def on_bus_def)
  show "serving k1 p"
    using u(1) m1(1,2) by (simp add: serving_def under_kernel_map_def k1(1) Kernel_Entry.in_kernel_def kmap_def pcb_ok_def)
  show "life_raft k1" using u(3) k1(2) by (simp add: life_raft_def k1(1) user_table_def)
  have "pcb_frame k p \<noteq> 15" using u(1) by (simp add: serving_def under_kernel_map_def Kernel_Entry.in_kernel_def pcb_ok_def)
  then have "pcb_byte k1 p off = pcb_byte k p off" if "off < 3584" for off
    using m1(3) [of "0x200 + off" "pcb_frame k p"] u(2) that by (simp add: pcb_byte_def frame_byte_def k1(1))
  then show "must_die k1 p = must_die k p" by (simp add: must_die_def pcb_word_def)
qed

section \<open>Back to the user\<close>

lemma no_device_entry: "MMU_LAST_FRAME \<notin> set pt \<Longrightarrow> i < length pt \<Longrightarrow> pt ! i \<noteq> MMU_LAST_FRAME"
  by (metis nth_mem)

lemma vector_cells:
  assumes "page_table (mmu m) ! 0 \<noteq> 15"
  shows "stack_cell m s \<noteq> 0xfffe" and "stack_cell m s \<noteq> 0xffff"
  using stack_cell_frame [of m s] assms vector_translate(11,12) frame_15 by metis+

lemma returned:
  assumes "serving k p" and "life_raft k" and "readByte c1 = Machine_read" and "writeByte c1 = Machine_write"
    and "MMU_LAST_FRAME \<notin> set (user_page_table k)" and "user_page_table k ! 0 \<noteq> MMU_FRAME_INVALID"
    and "pcb_frame k p \<notin> set (user_page_table k)" and "return_from_trap c1 k = (c2, k2)" and "uc = user_context k"
  shows "user_running c2 k2 p" and "page_table (mmu (readWriteContext c2)) = user_page_table k"
    and "reg_a c2 = uc ! 4" and "reg_x c2 = uc ! 5" and "reg_y c2 = uc ! 6" and "reg_sp c2 = uc ! 0"
    and "reg_p c2 = uc ! 1 AND NOT (0x20 OR MCS6502_STATUS_B)" and "reg_pc c2 = mk_word (uc ! 3) (uc ! 2)"
proof -
  have l: "length (user_page_table k) = 16" "length (user_context k) = 8"
    "page_table (mmu (machine k)) ! 15 = 15" "length (page_table (mmu (machine k))) = 16" "kernel_page_table k ! 15 = 15"
    using assms(1,2) by (simp_all add: serving_def life_raft_def Kernel_Entry.in_kernel_def kmap_def)
  have p0: "user_page_table k ! 0 \<noteq> 15" "user_page_table k ! 15 \<noteq> 15"
    using no_device_entry [OF assms(5), of 0] no_device_entry [OF assms(5), of 15] l(1) by simp_all
  define k1 where "k1 = (leave_kernel_space k)\<lparr>user_context := uc[7 := reg_sp c1]\<rparr>"
  note e = leave_kernel_space_effect [OF l(3,4,1) refl]
  define c where "c = c1\<lparr>readWriteContext := machine k1\<rparr>"
  have x: "c2 = kernel_RTI (load_registers c k1)" "k2 = k1\<lparr>machine := readWriteContext c2\<rparr>"
    using assms(8) by (auto simp: return_from_trap_def Let_def k1_def c_def assms(9) e)
  have o: "on_stack c"
    using assms(3,4,6) p0(1) l(1) by (simp add: c_def k1_def e on_bus_def stack_mapped_def)
  have uc: "length uc = 8" "user_context k1 = uc[7 := reg_sp c1]" using l(2) by (simp_all add: assms(9) k1_def)
  note R = RTI_effect [OF o refl refl x(1), unfolded uc(2)]
  show "reg_a c2 = uc ! 4" "reg_x c2 = uc ! 5" "reg_y c2 = uc ! 6" "reg_sp c2 = uc ! 0"
    "reg_p c2 = uc ! 1 AND NOT (0x20 OR MCS6502_STATUS_B)" "reg_pc c2 = mk_word (uc ! 3) (uc ! 2)"
    using R(1-6) by simp_all
  show m: "page_table (mmu (readWriteContext c2)) = user_page_table k"
    by (simp add: R(9) c_def k1_def e)
  have "user_mode c2"
    using R(7,8) m l(1) assms(5) by (simp add: user_mode_def on_bus_def user_table_def)
  moreover have "status_ok c2" using R(5) by (simp add: status_ok_def bit_simps byte_bits)
  moreover have "machine k2 = readWriteContext c2" by (simp add: x(2))
  moreover have "stack_mapped (machine k2)" using assms(6) p0(1) by (simp add: x(2) stack_mapped_def m)
  moreover have "serving (under_kernel_map k2) p"
    using assms(1) by (simp add: serving_def under_kernel_map_def x(2) R(9) c_def k1_def e Kernel_Entry.in_kernel_def kmap_def pcb_ok_def)
  moreover have "life_raft k2" "take 15 (user_page_table k2) = take 15 (page_table (mmu (machine k2)))"
    "pcb_frame k2 p \<notin> set (page_table (mmu (machine k2)))"
    using l(1) uc(1) assms(7) m by (simp_all add: x(2) k1_def e life_raft_def)
  moreover have "kernel_vector (machine k2) MCS6502_IRQ_BRK_vector = irq_handler (sym k2)"
    using assms(1) vector_cells [of "machine k1"] p0(1) l(1)
    by (simp add: x(2) R(9) c_def kernel_vector_def vector_byte_def) (simp add: k1_def e serving_def)
  ultimately show "user_running c2 k2 p" unfolding user_running_def by blast
qed

section \<open>A system call from user mode to user mode\<close>

lemma serving_result:
  assumes "serving k p"
  shows "serving ((INTER_OFF (pcb_write p off bs k))\<lparr>user_context := uc, user_page_table := pt\<rparr>) p"
  using assms by (simp add: serving_def Kernel_Entry.in_kernel_def kmap_def pcb_ok_def pcb_write_def INTER_OFF_def)

lemma irq_handler_brk:
  assumes "user_running cpu k p" and "at_BRK cpu" and "\<not> must_die k p" and "syscalls_table k (reg_y cpu) = Some s"
    and "trap_save (snd (CPU_cycle cpu)) k = (c1, k1)"
    and "call_syscall s ws (INTER_ON (save_trap_frame k1)) = Some (Inr (Some r, ws1, k2))"
    and "serving k2 p" and "\<not> must_die k2 p" and "pcb_bytes k2 p off_ctx 8 = user_context k1"
    and "pt = pcb_bytes k2 p off_page_table PAGE_TABLE_SIZE" and "MMU_LAST_FRAME \<notin> set pt" and "pt ! 0 \<noteq> MMU_FRAME_INVALID"
    and "pcb_frame k2 p \<notin> set pt"
  obtains c2 k3 where "irq_handler_code (snd (CPU_cycle cpu)) ws k = Some (Inr (Some c2, ws1, k3))"
    and "user_running c2 k3 p" and "page_table (mmu (readWriteContext c2)) = pt"
    and "reg_a c2 = lo_byte r" and "reg_x c2 = hi_byte r" and "reg_y c2 = reg_y cpu" and "reg_sp c2 = reg_sp cpu"
    and "reg_p c2 = reg_p cpu" and "reg_pc c2 = reg_pc cpu + 2"
proof -
  let ?uc = "[reg_sp cpu, (reg_p cpu OR 0x20) OR MCS6502_STATUS_B, lo_byte (reg_pc cpu + 2), hi_byte (reg_pc cpu + 2),
    reg_a cpu, reg_x cpu, reg_y cpu, user_context k ! 7]"
  have tr: "trapped cpu (snd (CPU_cycle cpu)) (reg_pc cpu + 2) ((reg_p cpu OR 0x20) OR MCS6502_STATUS_B)"
    using assms(1,2) by (intro brk_trapped) (auto simp: user_running_def)
  obtain m1 where k1: "k1 = k\<lparr>machine := m1, user_context := ?uc, user_page_table := page_table (mmu (machine k))\<rparr>"
    and bus: "readByte c1 = Machine_read" "writeByte c1 = Machine_write"
    by (rule trap_saved [OF assms(1) tr assms(5) refl]) blast
  note sv = trap_served [OF assms(1) tr assms(5)]
  define k3 where "k3 = (INTER_OFF (pcb_write p off_ctx_a [lo_byte r, hi_byte r] k2))
    \<lparr>user_context := (user_context k1)[4 := lo_byte r, 5 := hi_byte r], user_page_table := pt\<rparr>"
  have brk: "kernel_brk ws k1 = Some (Inr (Returns, ws1, k3))"
    unfolding k3_def assms(10)
    by (rule kernel_brk_result [OF _ sv(2) _ _ _ assms(6) _ assms(8,9)])
       (use sv assms(3,4,7) in \<open>simp_all add: serving_def k1\<close>)
  obtain c2 k4 where ret: "return_from_trap c1 k3 = (c2, k4)" by fastforce
  have k3: "serving k3 p" "life_raft k3" "user_page_table k3 = pt" "user_context k3 = ?uc[4 := lo_byte r, 5 := hi_byte r]"
    "pcb_frame k3 p = pcb_frame k2 p"
    subgoal unfolding k3_def by (rule serving_result [OF assms(7)])
    by (simp_all add: k3_def k1 life_raft_def assms(10) pcb_bytes_def INTER_OFF_def pcb_write_def)
  note R = returned [OF k3(1,2) bus _ _ _ ret refl, unfolded k3(3,5), OF assms(11-13)]
  show thesis
  proof (rule that)
    have "user_context k1 ! 1 AND 0x10 \<noteq> 0" by (simp add: k1 and_flag_eq_0 bit_simps byte_bits)
    then show "irq_handler_code (snd (CPU_cycle cpu)) ws k = Some (Inr (Some c2, ws1, k4))"
      using ret by (simp add: irq_handler_code_def assms(5) io_bind_result [where act = kernel_brk and k = k1, OF brk]
          back_to_user_def io_return_def)
    have "status_ok cpu" using assms(1) by (simp add: user_running_def)
    then show "reg_p c2 = reg_p cpu"
      using R(7) by (simp add: k3(4) status_ok_def) (rule bit_word_eqI; simp add: bit_simps byte_bits; blast)
    show "user_running c2 k4 p" "page_table (mmu (readWriteContext c2)) = pt" using R(1,2) .
    show "reg_a c2 = lo_byte r" "reg_x c2 = hi_byte r" "reg_y c2 = reg_y cpu" "reg_sp c2 = reg_sp cpu"
      "reg_pc c2 = reg_pc cpu + 2"
      using R(3-6,8) by (simp_all add: k3(4))
  qed
qed

section \<open>An interrupt from user mode to user mode\<close>

lemma irq_handler_irq:
  assumes "user_running cpu k p" and "at_IRQ cpu" and "\<not> must_die k p"
    and "trap_save (MMU_pre_exec cpu) k = (c1, k1)"
    and "interrupt_service ws (save_trap_frame k1) = Some (Inr ((), ws1, k2))"
    and "serving k2 p" and "\<not> must_die k2 p" and "pcb_bytes k2 p off_ctx 8 = user_context k1"
    and "pt = pcb_bytes k2 p off_page_table PAGE_TABLE_SIZE" and "MMU_LAST_FRAME \<notin> set pt" and "pt ! 0 \<noteq> MMU_FRAME_INVALID"
    and "pcb_frame k2 p \<notin> set pt"
  obtains c2 k3 where "irq_handler_code (MMU_pre_exec cpu) ws k = Some (Inr (Some c2, ws1, k3))"
    and "user_running c2 k3 p" and "page_table (mmu (readWriteContext c2)) = pt"
    and "reg_a c2 = reg_a cpu" and "reg_x c2 = reg_x cpu" and "reg_y c2 = reg_y cpu" and "reg_sp c2 = reg_sp cpu"
    and "reg_p c2 = reg_p cpu" and "reg_pc c2 = reg_pc cpu"
proof -
  let ?st = "(reg_p cpu OR 0x20) AND NOT MCS6502_STATUS_B"
  let ?uc = "[reg_sp cpu, ?st, lo_byte (reg_pc cpu), hi_byte (reg_pc cpu), reg_a cpu, reg_x cpu, reg_y cpu, user_context k ! 7]"
  have tr: "trapped cpu (MMU_pre_exec cpu) (reg_pc cpu) ?st"
    using assms(1,2) by (intro irq_trapped) (auto simp: user_running_def)
  obtain m1 where k1: "k1 = k\<lparr>machine := m1, user_context := ?uc, user_page_table := page_table (mmu (machine k))\<rparr>"
    and bus: "readByte c1 = Machine_read" "writeByte c1 = Machine_write"
    by (rule trap_saved [OF assms(1) tr assms(4) refl]) blast
  note sv = trap_served [OF assms(1) tr assms(4)]
  define k3 where "k3 = (INTER_OFF k2)\<lparr>user_context := user_context k1, user_page_table := pt\<rparr>"
  have irq: "kernel_irq ws k1 = Some (Inr (Returns, ws1, k3))"
    unfolding k3_def assms(9) assms(8) [symmetric]
    by (rule kernel_irq_result [OF _ sv(2) _ _ assms(5) _ assms(7)]) (use sv assms(3,6) in \<open>simp_all add: serving_def\<close>)
  obtain c2 k4 where ret: "return_from_trap c1 k3 = (c2, k4)" by fastforce
  have k3: "serving k3 p" "life_raft k3" "user_page_table k3 = pt" "user_context k3 = ?uc" "pcb_frame k3 p = pcb_frame k2 p"
    using assms(6) by (simp_all add: k3_def k1 life_raft_def assms(9) pcb_bytes_def INTER_OFF_def serving_def
        Kernel_Entry.in_kernel_def kmap_def pcb_ok_def)
  note R = returned [OF k3(1,2) bus _ _ _ ret refl, unfolded k3(3,5), OF assms(10-12)]
  have st: "\<not> bit (reg_p cpu) 4" "\<not> bit (reg_p cpu) 5" using assms(1) by (auto simp: user_running_def status_ok_def)
  show thesis
  proof (rule that)
    have "user_context k1 ! 1 AND 0x10 = 0" by (simp add: k1 and_flag_eq_0 bit_simps byte_bits)
    then show "irq_handler_code (MMU_pre_exec cpu) ws k = Some (Inr (Some c2, ws1, k4))"
      using ret by (simp add: irq_handler_code_def assms(4) io_bind_result [where act = kernel_irq and k = k1, OF irq]
          back_to_user_def io_return_def)
    show "reg_p c2 = reg_p cpu"
      using R(7) st by (simp add: k3(4)) (rule bit_word_eqI; simp add: bit_simps byte_bits; blast)
    show "user_running c2 k4 p" "page_table (mmu (readWriteContext c2)) = pt" using R(1,2) .
    show "reg_a c2 = reg_a cpu" "reg_x c2 = reg_x cpu" "reg_y c2 = reg_y cpu" "reg_sp c2 = reg_sp cpu" "reg_pc c2 = reg_pc cpu"
      using R(3-6,8) by (simp_all add: k3(4))
  qed
qed

end
