(* ===== verification/System_Properties.thy ===== *)
theory System_Properties
  imports Kernel_Trampoline Kernel_Properties
begin

text \<open>
  Properties of machine, trampoline and kernel together: a trap taken by the machine in user mode, the trampoline's
  entry, the handler in C and the trampoline's return, back to the user program.
\<close>

section \<open>A machine in user mode\<close>

text \<open>
  Process 3 with the frames 16 to 31 mapped, its control block in frame 40, and the instruction \<open>op\<close> at the program
  counter; \<open>irq\<close> says whether the interrupt controller signals an interrupt.
\<close>

definition raft_machine :: "uint8 \<Rightarrow> bool \<Rightarrow> Machine" where
  "raft_machine op irq = (power_on [] [])\<lparr>
     ram := (\<lambda>a. if a = 0xFFFF then 0xF0 else if frame_of a = 17 then op else 0),
     rom := (ROM_create [])\<lparr>rom_enable := 0\<rparr>, mmu := MMU_create\<lparr>page_table := map of_nat [16..<32]\<rparr>,
     plic := \<lparr>interrupts_lines = 0, pending_irq = irq\<rparr>\<rparr>"

definition raft_cpu :: "uint8 \<Rightarrow> bool \<Rightarrow> system" where
  "raft_cpu op irq = (CPU_create (power_on [] []))\<lparr>readWriteContext := raft_machine op irq, reg_pc := 0x1000, reg_p := 0,
     reg_y := SYS_GETPID\<rparr>"

definition raft_kernel :: "uint8 \<Rightarrow> bool \<Rightarrow> kernel" where
  "raft_kernel op irq = (syscall_init (sample_kernel [] (Some 3) (replicate 512 (sample_proc 40 PROC_STATE_RUNING))))
     \<lparr>kernel_page_table := 40 # map of_nat [1..<16], user_page_table := map of_nat [16..<32], machine := raft_machine op irq\<rparr>"

lemma raft_machine_fields:
  "page_table (mmu (raft_machine op irq)) = map of_nat [16..<32]" "plic (raft_machine op irq) = \<lparr>interrupts_lines = 0, pending_irq = irq\<rparr>"
  "\<not> pending_nmi (mmu (raft_machine op irq))" "rom_enable (rom (raft_machine op irq)) = 0"
  by (simp_all add: raft_machine_def MMU_create_def)

lemma raft_cpu_fields:
  "readWriteContext (raft_cpu op irq) = raft_machine op irq" "reg_pc (raft_cpu op irq) = 0x1000" "reg_p (raft_cpu op irq) = 0"
  "reg_y (raft_cpu op irq) = SYS_GETPID" "readByte (raft_cpu op irq) = Machine_read" "writeByte (raft_cpu op irq) = Machine_write"
  "\<not> nmiPending (raft_cpu op irq)" "\<not> irqPending (raft_cpu op irq)" "pendingTiming (raft_cpu op irq) = 0"
  using create_wf [of "[]" "[]"]
  by (simp_all add: raft_cpu_def on_bus_def) (simp_all add: CPU_create_def MCS6502Reset_def MCS6502Init_def Let_def split_beta)

lemma raft_fetch: "fst (Machine_read 0x1000 (raft_machine op irq)) = op" "segment_of 0x1000 = 1"
proof -
  show s: "segment_of 0x1000 = 1" by (simp add: segment_of_def)
  have "page_table (mmu (raft_machine op irq)) ! segment_of 0x1000 = 17" by (simp add: raft_machine_fields s upt_rec)
  then have r: "fst (Machine_read 0x1000 (raft_machine op irq)) = ram (raft_machine op irq) (phys 17 0x1000)"
    by (simp add: read_value_plain)
  have "phys 17 0x1000 = 0x11000" by (simp add: phys_def)
  then show "fst (Machine_read 0x1000 (raft_machine op irq)) = op" unfolding r by (simp add: raft_machine_def frame_of_def)
qed

lemma raft_running: "user_running (raft_cpu op irq) (raft_kernel op irq) 3" "\<not> must_die (raft_kernel op irq) 3"
proof -
  have k: "kmap (sample_kernel [] (Some 3) (replicate 512 (sample_proc 40 PROC_STATE_RUNING)))" by (rule sample_kmap) auto
  have "user_mode (raft_cpu op irq)"
    by (simp add: user_mode_def on_bus_def raft_cpu_fields user_table_def raft_machine_fields upt_rec)
  moreover have "status_ok (raft_cpu op irq)" by (simp add: status_ok_def raft_cpu_fields)
  moreover have "machine (raft_kernel op irq) = readWriteContext (raft_cpu op irq)" by (simp add: raft_kernel_def raft_cpu_fields)
  moreover have "stack_mapped (machine (raft_kernel op irq))"
    by (simp add: raft_kernel_def stack_mapped_def raft_machine_fields upt_rec)
  moreover have "serving (under_kernel_map (raft_kernel op irq)) 3"
    using k by (simp add: serving_def under_kernel_map_def raft_kernel_def Kernel_Entry.in_kernel_def kmap_def pcb_ok_def syscall_init_def
        raft_machine_fields) (simp add: sample_kernel_def sample_proc_def)
  moreover have "life_raft (raft_kernel op irq)" by (simp add: life_raft_def raft_kernel_def syscall_init_def sample_kernel_def)
  moreover have "kernel_vector (machine (raft_kernel op irq)) MCS6502_IRQ_BRK_vector = irq_handler (sym (raft_kernel op irq))"
    by (simp add: raft_kernel_def kernel_vector_def vector_byte_def raft_machine_fields)
       (simp add: raft_machine_def syscall_init_def sample_kernel_def sample_symbols_def mk_word_def frame_of_def)
  moreover have "pcb_frame (raft_kernel op irq) 3 \<notin> set (page_table (mmu (machine (raft_kernel op irq))))"
    by (simp add: raft_kernel_def raft_machine_fields syscall_init_def sample_kernel_def sample_proc_def upt_rec)
  moreover have "take 15 (user_page_table (raft_kernel op irq)) = take 15 (page_table (mmu (machine (raft_kernel op irq))))"
    by (simp add: raft_kernel_def raft_machine_fields)
  ultimately show "user_running (raft_cpu op irq) (raft_kernel op irq) 3" unfolding user_running_def by blast
  have "pcb_byte (raft_kernel op irq) 3 off = 0" if "off < 3584" for off
  proof -
    have "ram (raft_machine op irq) (frame_addr 40 (0x200 + off)) = 0"
      using that frame_addr_apart(3) [of "0x200 + off" 40] by (simp add: raft_machine_def)
    then show ?thesis
      by (simp add: pcb_byte_def frame_byte_def raft_kernel_def syscall_init_def sample_kernel_def sample_proc_def)
  qed
  then show "\<not> must_die (raft_kernel op irq) 3" by (simp add: must_die_def pcb_word_def mk_word_def)
qed

section \<open>System calls\<close>

text \<open>
  C2: a system call, from the user's instruction to the instruction behind it. Process \<open>p\<close> runs in user mode and is about
  to execute \<open>BRK\<close>; its Y register selects the call, whose function returns \<open>r\<close> and leaves the saved registers alone. Then
  the machine enters the trampoline's handler, which comes back to user mode with A and X holding the low and the high
  byte of \<open>r\<close>, Y, stack pointer and status register as before, the program counter two bytes further (behind the
  \<open>BRK\<close> and its padding byte), and exactly the page table of the control block in the MMU; and everything is again as it was
  for the next trap (\<open>user_running\<close>).
\<close>

theorem system_call_round_trip:
  assumes "user_running cpu k p" and "at_BRK cpu" and "\<not> must_die k p" and "syscalls_table k (reg_y cpu) = Some s"
    and "trap_save (snd (CPU_cycle cpu)) k = (c1, k1)"
    and "call_syscall s ws (INTER_ON (save_trap_frame k1)) = Some (Inr (Some r, ws1, k2))"
    and "serving k2 p" and "\<not> must_die k2 p" and "pcb_bytes k2 p off_ctx 8 = user_context k1"
    and "MMU_LAST_FRAME \<notin> set (pcb_bytes k2 p off_page_table 16)" and "pcb_bytes k2 p off_page_table 16 ! 0 \<noteq> MMU_FRAME_INVALID"
    and "pcb_frame k2 p \<notin> set (pcb_bytes k2 p off_page_table 16)"
  shows "reg_pc (snd (CPU_cycle cpu)) = irq_handler (sym k) \<and>
    (\<exists>c2 k3. irq_handler_code (snd (CPU_cycle cpu)) ws k = Some (Inr (Some c2, ws1, k3)) \<and> user_running c2 k3 p \<and>
       reg_a c2 = lo_byte r \<and> reg_x c2 = hi_byte r \<and> reg_y c2 = reg_y cpu \<and> reg_sp c2 = reg_sp cpu \<and> reg_p c2 = reg_p cpu \<and>
       reg_pc c2 = reg_pc cpu + 2 \<and> page_table (mmu (readWriteContext c2)) = pcb_bytes k2 p off_page_table 16)"
proof -
  have "user_mode cpu" "stack_mapped (readWriteContext cpu)" "kernel_vector (readWriteContext cpu) MCS6502_IRQ_BRK_vector = irq_handler (sym k)"
    using assms(1) by (auto simp: user_running_def)
  with brk_trapped [OF this(1) assms(2) this(2)] have "reg_pc (snd (CPU_cycle cpu)) = irq_handler (sym k)"
    by (simp add: trapped_def Let_def)
  moreover obtain c2 k3 where "irq_handler_code (snd (CPU_cycle cpu)) ws k = Some (Inr (Some c2, ws1, k3))"
    "user_running c2 k3 p" "page_table (mmu (readWriteContext c2)) = pcb_bytes k2 p off_page_table 16"
    "reg_a c2 = lo_byte r" "reg_x c2 = hi_byte r" "reg_y c2 = reg_y cpu" "reg_sp c2 = reg_sp cpu" "reg_p c2 = reg_p cpu"
    "reg_pc c2 = reg_pc cpu + 2"
    by (rule irq_handler_brk [OF assms(1-9) refl assms(10-12)])
  ultimately show ?thesis by blast
qed

text \<open>What the trampoline hands to the handlers for the example machine.\<close>

lemma raft_saved:
  assumes "trapped (raft_cpu op irq) c pc st" and "trap_save c (raft_kernel op irq) = (c1, k1)" and "k2 = save_trap_frame k1"
  shows "serving k1 3" and "serving k2 3" and "\<not> must_die k2 3" and "pcb_bytes k2 3 off_ctx 8 = user_context k1"
    and "pcb_bytes k2 3 off_page_table 16 = map of_nat [16..<32]" and "pcb_frame k2 3 = 40"
    and "interrupts_lines (plic (machine k2)) = 0"
proof -
  note r = raft_running [of op irq]
  note t = trap_served [OF r(1) assms(1,2)]
  show "serving k1 3" by (rule t(1))
  then have i: "Kernel_Entry.in_kernel k1 3" by (simp add: serving_def)
  note sv = saved_context [OF i t(2), folded assms(3)] and e = save_trap_frame_effect [OF i t(2), folded assms(3)]
  show "serving k2 3" using sv(6) t(1) by (simp add: serving_def e) (simp add: pcb_write_def)
  show "\<not> must_die k2 3" using sv(4,5) t(3) r(2) by (simp add: must_die_def)
  show "pcb_bytes k2 3 off_ctx 8 = user_context k1" by (rule sv(2))
  obtain m1 uc where k1: "k1 = (raft_kernel op irq)\<lparr>machine := m1, user_context := uc, user_page_table := page_table (mmu (machine (raft_kernel op irq)))\<rparr>"
    and m1: "interrupts_lines (plic m1) = interrupts_lines (plic (machine (raft_kernel op irq)))"
    by (rule trap_saved [OF r(1) assms(1,2) refl]) blast
  show "interrupts_lines (plic (machine k2)) = 0"
    using m1 by (simp add: e pcb_write_def k1) (simp add: raft_kernel_def raft_machine_fields)
  from k1 have k1: "user_page_table k1 = map of_nat [16..<32]" "pcb_frame k1 3 = 40"
    by (simp_all add: raft_kernel_def raft_machine_fields) (simp add: syscall_init_def sample_kernel_def sample_proc_def)
  then show "pcb_bytes k2 3 off_page_table 16 = map of_nat [16..<32]" using sv(3) by simp
  show "pcb_frame k2 3 = 40" using k1(2) by (simp add: e pcb_write_def)
qed

lemma serving_on: "serving (INTER_ON k) p = serving k p"
  by (simp add: serving_def) (simp add: INTER_ON_def)

lemma raft_table: "MMU_LAST_FRAME \<notin> set (map of_nat [16..<32])" "map of_nat [16..<32] ! 0 \<noteq> MMU_FRAME_INVALID"
  "40 \<notin> set (map of_nat [16..<32] :: frame_t list)"
  by (simp_all add: upt_rec)

theorem system_call_round_trip_witness:
  "\<exists>c2 k3. irq_handler_code (snd (CPU_cycle (raft_cpu 0 False))) [] (raft_kernel 0 False) = Some (Inr (Some c2, [], k3)) \<and>
     user_running c2 k3 3 \<and> reg_pc c2 = 0x1002 \<and> page_table (mmu (readWriteContext c2)) = map of_nat [16..<32]"
proof -
  let ?cpu = "raft_cpu 0 False" and ?k = "raft_kernel 0 False"
  have b: "at_BRK ?cpu" by (simp add: at_BRK_def raft_cpu_fields raft_fetch raft_machine_fields)
  obtain c1 k1 where t: "trap_save (snd (CPU_cycle ?cpu)) ?k = (c1, k1)" by fastforce
  have u: "user_mode ?cpu" "stack_mapped (readWriteContext ?cpu)" using raft_running(1) [of 0 False] by (auto simp: user_running_def)
  note f = raft_saved [OF brk_trapped [OF u(1) b u(2)] t refl]
  let ?k2 = "INTER_ON (save_trap_frame k1)"
  have i: "serving ?k2 3" using f(2) by (simp add: serving_on)
  then have "kmap ?k2" "pcb_ok ?k2 3" "current_process ?k2 = Some 3" unfolding serving_def Kernel_Entry.in_kernel_def by blast+
  then have "sys_getpid ?k2 = (pcb_word ?k2 3 off_pid, ?k2)" using pcb_access(3) [of ?k2 3 off_pid] by (simp add: sys_getpid_def)
  then have c: "call_syscall SysGetpid [] ?k2 = Some (Inr (Some (pcb_word ?k2 3 off_pid), [], ?k2))"
    by (simp add: call_syscall_def returning_def io_return_def)
  have s: "syscalls_table ?k (reg_y ?cpu) = Some SysGetpid" by (simp add: raft_kernel_def raft_cpu_fields syscall_init_def)
  have x: "\<not> must_die ?k2 3" "pcb_bytes ?k2 3 off_ctx 8 = user_context k1" "pcb_bytes ?k2 3 off_page_table 16 = map of_nat [16..<32]"
    using f(3-5) by (simp_all only: pcb_flags not_False_eq_True)
  have y: "pcb_frame ?k2 3 = 40" using f(6) by (simp add: INTER_ON_def)
  from system_call_round_trip [OF raft_running(1) b raft_running(2) s t c i x(1,2)] show ?thesis
    unfolding x(3) y raft_cpu_fields using raft_table by auto
qed

section \<open>Interrupts\<close>

text \<open>
  C3: interrupts are invisible to user programs. Process \<open>p\<close> runs in user mode when a device interrupts it. The machine enters
  the trampoline's handler before the next instruction; when serving the interrupt (the drivers, a possible yield to other
  processes and back) leaves the saved registers alone, the handler comes back to user mode with every register, the status
  and the program counter as they were, the page table of the control block in the MMU, and ready for the next trap.
\<close>

theorem interrupt_round_trip:
  assumes "user_running cpu k p" and "at_IRQ cpu" and "\<not> must_die k p" and "trap_save (MMU_pre_exec cpu) k = (c1, k1)"
    and "interrupt_service ws (save_trap_frame k1) = Some (Inr ((), ws1, k2))"
    and "serving k2 p" and "\<not> must_die k2 p" and "pcb_bytes k2 p off_ctx 8 = user_context k1"
    and "MMU_LAST_FRAME \<notin> set (pcb_bytes k2 p off_page_table 16)" and "pcb_bytes k2 p off_page_table 16 ! 0 \<noteq> MMU_FRAME_INVALID"
    and "pcb_frame k2 p \<notin> set (pcb_bytes k2 p off_page_table 16)"
  shows "reg_pc (MMU_pre_exec cpu) = irq_handler (sym k) \<and>
    (\<exists>c2 k3. irq_handler_code (MMU_pre_exec cpu) ws k = Some (Inr (Some c2, ws1, k3)) \<and> user_running c2 k3 p \<and>
       reg_a c2 = reg_a cpu \<and> reg_x c2 = reg_x cpu \<and> reg_y c2 = reg_y cpu \<and> reg_sp c2 = reg_sp cpu \<and> reg_p c2 = reg_p cpu \<and>
       reg_pc c2 = reg_pc cpu \<and> page_table (mmu (readWriteContext c2)) = pcb_bytes k2 p off_page_table 16)"
proof -
  have "user_mode cpu" "stack_mapped (readWriteContext cpu)" "kernel_vector (readWriteContext cpu) MCS6502_IRQ_BRK_vector = irq_handler (sym k)"
    using assms(1) by (auto simp: user_running_def)
  with irq_trapped [OF this(1) assms(2) this(2)] have "reg_pc (MMU_pre_exec cpu) = irq_handler (sym k)"
    by (simp add: trapped_def Let_def)
  moreover obtain c2 k3 where "irq_handler_code (MMU_pre_exec cpu) ws k = Some (Inr (Some c2, ws1, k3))"
    "user_running c2 k3 p" "page_table (mmu (readWriteContext c2)) = pcb_bytes k2 p off_page_table 16"
    "reg_a c2 = reg_a cpu" "reg_x c2 = reg_x cpu" "reg_y c2 = reg_y cpu" "reg_sp c2 = reg_sp cpu" "reg_p c2 = reg_p cpu"
    "reg_pc c2 = reg_pc cpu"
    by (rule irq_handler_irq [OF assms(1-8) refl assms(9-11)])
  ultimately show ?thesis by blast
qed

theorem interrupt_round_trip_witness:
  "\<exists>c2 k3. irq_handler_code (MMU_pre_exec (raft_cpu 0xEA True)) [] (raft_kernel 0xEA True) = Some (Inr (Some c2, [], k3)) \<and>
     user_running c2 k3 3 \<and> reg_pc c2 = 0x1000 \<and> reg_y c2 = SYS_GETPID"
proof -
  let ?cpu = "raft_cpu 0xEA True" and ?k = "raft_kernel 0xEA True"
  have b: "at_IRQ ?cpu" by (simp add: at_IRQ_def raft_cpu_fields raft_fetch raft_machine_fields valid_opcode_table_def)
  obtain c1 k1 where t: "trap_save (MMU_pre_exec ?cpu) ?k = (c1, k1)" by fastforce
  have u: "user_mode ?cpu" "stack_mapped (readWriteContext ?cpu)" using raft_running(1) [of "0xEA" True] by (auto simp: user_running_def)
  note f = raft_saved [OF irq_trapped [OF u(1) b u(2)] t refl]
  let ?k2 = "INTER_ON (save_trap_frame k1)"
  have i: "serving ?k2 3" using f(2) by (simp add: serving_on)
  have "page_table (mmu (machine (save_trap_frame k1))) ! 15 = 15"
    using f(2) by (simp add: serving_def Kernel_Entry.in_kernel_def kmap_def)
  then have "MMIO8_read 0xfe60 (save_trap_frame k1) = (0, save_trap_frame k1)"
    using f(7) by (simp add: MMIO8_read_def trap_registers(5))
  then have c: "interrupt_service [] (save_trap_frame k1) = Some (Inr ((), [], ?k2))"
    by (simp add: interrupt_service_def device_interrupt_def io_bind_assoc io_then_def) (simp add: io_return_def)
  have x: "\<not> must_die ?k2 3" "pcb_bytes ?k2 3 off_ctx 8 = user_context k1" "pcb_bytes ?k2 3 off_page_table 16 = map of_nat [16..<32]"
    using f(3-5) by (simp_all only: pcb_flags not_False_eq_True)
  have y: "pcb_frame ?k2 3 = 40" using f(6) by (simp add: INTER_ON_def)
  from interrupt_round_trip [OF raft_running(1) b raft_running(2) t c i x(1,2)] show ?thesis
    unfolding x(3) y raft_cpu_fields using raft_table by auto
qed

end
