(* ===== verification/Spec2Isabelle.thy ===== *)
theory Spec2Isabelle
  imports CPU_Properties Machine_Properties Kernel_Storage_Properties Kernel_Trap_Properties
    Kernel_Process_Properties System_Properties
begin

text \<open>
  CPU6502: an emulator of a computer around the MCS6502 processor, the operating system kernel xv6502 that runs on
  it, and the program that builds the disk image the two share. This development models the C sources of all three
  and proves what makes them correct.

  \<^bold>\<open>Parts and how they interact.\<close> The processor (\<^verbatim>\<open>src/machine/MCS6502.c\<close>) fetches and executes instructions over a bus of two
  call-backs. The machine (\<^verbatim>\<open>machine.c\<close>) supplies the bus: an MMU maps sixteen segments of 4 KiB to frames, the last
  frame holds ROM and the registers of timer, serial port, disk controller, MMU and interrupt controller, and the MMU
  watches the instruction stream: in user mode an interrupt, a privileged or unknown opcode or an access to an unmapped
  segment brings back the kernel's last segment and interrupts the processor. The kernel (\<^verbatim>\<open>src/kernel\<close>) is C code for the
  compiler cc65; it reaches devices and frames only through that bus, frames through two windows of its address space.
  Traps enter through the trampoline into \<^verbatim>\<open>trap.c\<close>, which saves the user's registers and page table in the process
  control block, dispatches system calls and device interrupts, and returns. Drivers sleep and wake processes, the
  scheduler switches between them, the block cache sits on the disk driver, block allocation and mounting sit on the
  cache, and \<^verbatim>\<open>mkfs\<close> writes the image that is mounted.

  \<^bold>\<open>Theories and sources.\<close>
  \<^item> \<open>Prelude\<close>: fixed-width integers, bytes of words, flags, search and update of arrays, the fact collections.
  \<^item> \<open>MCS6502_Core\<close>, \<open>MCS6502_Exec\<close> (\<^verbatim>\<open>MCS6502.c\<close>, \<^verbatim>\<open>MCS6502.h\<close>): the execution context as a record, tables, stack, addressing
    modes, one definition per case of the \<^verbatim>\<open>switch\<close>, the public entry points. The memory behind the bus is a type
    parameter. \<open>MCS6502_Disasm\<close> has the disassembler. \<open>MCS6502_Laws\<close>, \<open>MCS6502_Dispatch\<close>, \<open>MCS6502_Step\<close>, \<open>MCS6502_Arith\<close> hold the laws, \<open>CPU_Properties\<close> the
    properties.
  \<^item> \<open>Machine_State\<close>, \<open>Machine_Step\<close> (\<^verbatim>\<open>machine.c\<close>, \<^verbatim>\<open>machine.h\<close>): the devices as records, \<^verbatim>\<open>Machine_read\<close> and \<^verbatim>\<open>Machine_write\<close>, the steps of
    MMU, disk, serial port, timer and processor. \<open>Machine_Devices\<close>: creation of the devices and power-on.
    \<open>Machine_Create\<close>: the host's terminal and files, the machine as pointers to parts that may be missing, the bus over them
    (the same as the machine's when none is missing), \<^verbatim>\<open>Machine_create\<close> with the reset of the processor on that bus, and
    \<^verbatim>\<open>Machine_destroy\<close>. \<open>Machine_Main\<close>: core dump, main loop and exit status. \<open>Machine_Laws\<close>, \<open>Machine_Trap\<close>
    hold the laws, \<open>Machine_Properties\<close> the properties.
  \<^item> \<open>Kernel_State\<close> (\<^verbatim>\<open>common.h\<close>): the kernel's global variables as one record on top of the machine, and the bus macros.
    \<open>Kernel_Memory\<close> (\<^verbatim>\<open>mmu.c\<close>, \<^verbatim>\<open>kalloc.c\<close>), \<open>Kernel_Proc\<close>, \<open>Kernel_Copy\<close>, \<open>Kernel_Syscalls\<close> (\<^verbatim>\<open>proc.c\<close>, with
    \<^verbatim>\<open>context_switch\<close> and \<^verbatim>\<open>make_kernel_stack\<close> of \<^verbatim>\<open>trampoline.s\<close>), \<open>Kernel_IO\<close> (code that waits), \<open>Kernel_Print\<close> (\<^verbatim>\<open>printk.c\<close>), \<open>Kernel_String\<close> (\<^verbatim>\<open>string.c\<close>), \<open>Kernel_Serial\<close>
    (\<^verbatim>\<open>timer.c\<close>, \<^verbatim>\<open>uart.c\<close>), \<open>Kernel_Disk\<close> (\<^verbatim>\<open>disk.c\<close>), \<open>Kernel_Buffer\<close> and \<open>Kernel_Bitmap\<close> (\<^verbatim>\<open>buffer.c\<close>), \<open>Kernel_Console\<close> (\<^verbatim>\<open>console.c\<close>,
    \<^verbatim>\<open>file.c\<close>, \<^verbatim>\<open>pipe.c\<close>, the operations of \<^verbatim>\<open>fs.c\<close>), \<open>Kernel_Trap\<close> (\<^verbatim>\<open>fs_init\<close>, \<^verbatim>\<open>syscall.c\<close>, \<^verbatim>\<open>trap.c\<close>, \<^verbatim>\<open>inode.c\<close>, \<^verbatim>\<open>debugger.c\<close>, \<^verbatim>\<open>main.c\<close>).
    Definitions have the names of the C functions; a loop is a definition named after its function. \<open>Kernel_Trampoline\<close> has the
    entry and the exit of the kernel (\<^verbatim>\<open>trampoline.s\<close>), which join the processor, the MMU and \<^verbatim>\<open>trap.c\<close>. \<open>Kernel_Sched\<close>,
    \<open>Kernel_Sbrk\<close>, \<open>Kernel_Fork\<close>, \<open>Kernel_Create\<close>, \<open>Kernel_Rollback\<close>, \<open>Kernel_Block\<close>, \<open>Kernel_Wait\<close> (a process that sleeps while
    the scheduler scans and the disk works), \<open>Kernel_Fetch\<close>, \<open>Kernel_Text\<close>, \<open>Kernel_Entry\<close>, \<open>Kernel_Exit\<close> (the end of a process in the
    handlers) hold laws that combine components, and \<open>Kernel_Properties\<close>, \<open>Kernel_Process_Properties\<close>, \<open>Kernel_Storage_Properties\<close>, \<open>Kernel_Trap_Properties\<close>
    the properties; those of \<open>System_Properties\<close> span the processor, the machine and the kernel.
  \<^item> \<open>Mkfs_Image\<close> (\<^verbatim>\<open>src/mkfs/mkfs.c\<close>): the image as a function of the kernel file.

  \<^bold>\<open>Interfaces.\<close> \<open>bus_invariant\<close> and \<open>stack_bus\<close> say what the processor needs of the memory behind its bus and are interpreted
  on the machine; \<open>countdown\<close> is shared by timer and disk controller; \<open>frame_pool\<close> is the contract of the frame allocator,
  \<open>bounded_fifo\<close> that of the receive buffer, \<open>block_cache\<close> that of the block cache. Each is interpreted on the
  definitions of the model where they are declared.

  \<^bold>\<open>What is shown.\<close>
  \<^item> Processor: the table and the \<^verbatim>\<open>switch\<close> agree on every opcode; binary and decimal arithmetic on numbers; program counter
    and cycle counts; interrupt and return; the text of the disassembler determines the instruction.
  \<^item> Machine: a user program changes nothing its page table does not map until it traps, and a trap enters the kernel at
    a vector; the arrays and the status register stay well formed from power-on through any run; devices keep their
    timing and contents; powering off restores the host's terminal and saves the image; without the ROM image the processor's reset crashes,
    without the disk image the clean-up does, before and after the terminal is restored.
  \<^item> Memory and processes: frames are handed out once and reused (\<open>frames_ready\<close> counts the allocations that succeed: the
    number 0xFF, which \<^verbatim>\<open>kalloc_init\<close> puts at the bottom of the pool, is taken for a failure by the callers); accessors of the control block act like record fields
    although they go through windows; copies to and from users are byte-wise copies through the page table; waking wakes
    exactly the sleepers; scheduling is round robin with bounded waiting; switching away and back restores a process;
    \<^verbatim>\<open>sbrk\<close>, \<^verbatim>\<open>kill\<close>; \<^verbatim>\<open>fork\<close> makes a copy of the caller in frames of its own, and what it leaves behind when memory runs out.
  \<^item> Storage: driver and controller move whole blocks; the cache keeps its invariant, replaces the least recently used
    buffer, finds released blocks again, and its searches end; a miss brings the block from the image through sleep,
    interrupts, wakeup and scheduler (\<open>scheduled\<close> is the scheduler with the disk as the only thing that happens, \<open>served\<close> the disk and a
    scheduler that takes the reader next, provided it is ready); allocation finds the first free block and is undone by freeing; an image of
    \<^verbatim>\<open>mkfs\<close> is mounted with the super block it was given, and its first allocation is the block behind the root directory.
  \<^item> Traps: from the \<^verbatim>\<open>BRK\<close> of a user program through the MMU, the trampoline, the C handler and the final \<^verbatim>\<open>RTI\<close>, a system call returns
    its result in A and X and restores everything else, and a device interrupt restores all; a process that faulted, or is
    found killed at the end of a handler, ends as a zombie instead of returning to user mode; how many timer interrupts a time slice takes.
  \<^item> Text: printing and reading numbers, overlapping copies, string comparison.

  \<^bold>\<open>State, errors, loops.\<close> Arrays are lists with their length in an invariant, pointers to elements of a global array are
  indices, pointers stored as bytes are addresses given by the link map (\<open>symbols\<close>). A panic, which never returns, and an
  access outside an array or through a bad pointer are the error values \<open>Panic\<close> and \<open>Undefined\<close>. Kernel code that sleeps,
  yields or polls takes the list of what the rest of the system does at each of its waits (\<open>waits\<close>); the result
  \<open>None\<close> means that it is still waiting when the list ends, or that a loop of the code does not end. So no fuel bounds a
  computation: a theorem that a function returns states the result \<open>Some\<close>. The list for the scheduler's idle loop and
  the host's inputs for \<^verbatim>\<open>Machine_run\<close> have the same role. Loops with a bound in the source are recursions over that bound
  or have a termination proof; loops that may run forever are \<open>partial_function (option)\<close>.

  \<^bold>\<open>Assumptions.\<close> The kernel's own code and global variables do not live in the frames that it maps through its windows:
  they are fields of the record and not bytes of the machine's memory. \<^verbatim>\<open>int\<close> has 16 bits, \<^verbatim>\<open>long\<close> 32, \<^verbatim>\<open>char\<close> is unsigned and
  structures have no padding, as with cc65; on the host the super block is padded to 16 bytes. The memory that \<^verbatim>\<open>malloc\<close>
  returns in \<^verbatim>\<open>mkfs\<close> is an argument.

  \<^bold>\<open>Not modelled.\<close> Assembly code outside the trampoline's traps and switches: \<^verbatim>\<open>kernel_vector\<close> and \<^verbatim>\<open>get_cpu_state\<close>, the boot ROM,
  the start-up code \<^verbatim>\<open>crt0.s\<close> and \<^verbatim>\<open>boot.s\<close>, and the first user program, none of which is C. Freeing of host memory and the text
  written to the host's error stream; what a panic prints before it halts. The inode functions that
  \<^verbatim>\<open>common.h\<close> declares and the body of the debugger, which is commented out, have no code to model.
\<close>

end
